(* ===== verification/Persist_Prelude.thy ===== *)
theory Persist_Prelude
  imports Main "HOL-Library.Word" "HOL-Library.AList"
begin

text \<open>
  What every component theory of the development shares.

  \<^item> Names for the machine integers of the Rust sources. A \<open>u8\<close>, \<open>u16\<close>, \<open>u32\<close> or \<open>u64\<close> is
    a word of that width; an \<open>i32\<close> is a 32-bit word whose value is read with \<open>sint\<close>; a
    \<open>usize\<close> that only counts bytes or elements is a \<open>nat\<close>, and the one place where the code
    guards its overflow (\<open>checked_add\<close>) is \<open>checked_add_usize\<close>, with the 64-bit bound
    written out.
  \<^item> Byte strings. A \<open>Vec<u8>\<close> is a list of bytes; a Rust \<open>String\<close> is the list of its UTF-8
    bytes, with the validity that \<open>std::str::from_utf8\<close> checks as \<open>utf8_valid\<close>.
  \<^item> Big-endian integers (\<open>to_be_bytes\<close>, \<open>from_be_bytes\<close>) and their round trip.
  \<^item> The \<open>Result\<close> type as a sum with the error on the left, and \<open>rbind\<close> for the \<open>?\<close>
    operator.
  \<^item> The two map types of the standard library: a \<open>HashMap\<close> as an association list, whose
    order stands for the unspecified iteration order, and a \<open>BTreeMap\<close> as an association
    list kept sorted by key.
\<close>

named_theorems wire_len "lengths of encoded fields"
named_theorems res_simps "equations that run the error monad"

section \<open>Machine integers and byte strings\<close>

type_synonym u8 = "8 word"
type_synonym u16 = "16 word"
type_synonym u32 = "32 word"
type_synonym u64 = "64 word"
type_synonym i32 = "32 word"
type_synonym bytes = "u8 list"
type_synonym rstring = "u8 list"

definition usize_max :: nat where
  "usize_max = 2 ^ 64 - 1"

definition checked_add_usize :: "nat \<Rightarrow> nat \<Rightarrow> nat option" where
  "checked_add_usize a b = (if a + b \<le> usize_max then Some (a + b) else None)"

definition saturating_add_u64 :: "u64 \<Rightarrow> u64 \<Rightarrow> u64" where
  "saturating_add_u64 a b = (if unat a + unat b < 2 ^ 64 then a + b else - 1)"

definition ascii :: "string \<Rightarrow> bytes" where
  "ascii s = map of_char s"

lemma length_ascii [simp]: "length (ascii s) = length s"
  by (simp add: ascii_def)

subsection \<open>UTF-8\<close>

text \<open>A continuation byte, and the well-formed sequences of the Unicode standard: no
  overlong forms, no surrogates, nothing above U+10FFFF.\<close>

definition utf8_cont :: "u8 \<Rightarrow> bool" where
  "utf8_cont b \<longleftrightarrow> 0x80 \<le> b \<and> b \<le> 0xBF"

fun utf8_valid :: "bytes \<Rightarrow> bool" where
  "utf8_valid [] = True"
| "utf8_valid (a # r) =
     (if a < 0x80 then utf8_valid r
      else if 0xC2 \<le> a \<and> a \<le> 0xDF then
        (case r of b # r' \<Rightarrow> utf8_cont b \<and> utf8_valid r' | [] \<Rightarrow> False)
      else if 0xE0 \<le> a \<and> a \<le> 0xEF then
        (case r of b # c # r' \<Rightarrow>
           utf8_cont b \<and> utf8_cont c \<and> (a = 0xE0 \<longrightarrow> 0xA0 \<le> b) \<and> (a = 0xED \<longrightarrow> b \<le> 0x9F)
           \<and> utf8_valid r'
         | _ \<Rightarrow> False)
      else if 0xF0 \<le> a \<and> a \<le> 0xF4 then
        (case r of b # c # d # r' \<Rightarrow>
           utf8_cont b \<and> utf8_cont c \<and> utf8_cont d \<and> (a = 0xF0 \<longrightarrow> 0x90 \<le> b)
           \<and> (a = 0xF4 \<longrightarrow> b \<le> 0x8F) \<and> utf8_valid r'
         | _ \<Rightarrow> False)
      else False)"

lemma utf8_valid_ascii: "list_all (\<lambda>b. b < 0x80) s \<Longrightarrow> utf8_valid s"
  by (induction s) auto

subsection \<open>Big-endian integers\<close>

fun be_nat :: "nat \<Rightarrow> nat \<Rightarrow> bytes" where
  "be_nat 0 k = []"
| "be_nat (Suc n) k = be_nat n (k div 256) @ [of_nat k]"

definition nat_be :: "bytes \<Rightarrow> nat" where
  "nat_be bs = foldl (\<lambda>a b. a * 256 + unat b) 0 bs"

definition to_be_bytes :: "'a::len word \<Rightarrow> bytes" where
  "to_be_bytes w = be_nat (LENGTH('a) div 8) (unat w)"

definition from_be_bytes :: "bytes \<Rightarrow> 'a::len word" where
  "from_be_bytes bs = of_nat (nat_be bs)"

lemma length_be_nat [simp]: "length (be_nat n k) = n"
  by (induction n arbitrary: k) auto

lemma nat_be_snoc: "nat_be (bs @ [b]) = nat_be bs * 256 + unat b"
  by (simp add: nat_be_def)

lemma nat_be_be_nat: "nat_be (be_nat n k) = k mod 256 ^ n"
proof (induction n arbitrary: k)
  case 0
  show ?case by (simp add: nat_be_def)
next
  case (Suc n)
  have "nat_be (be_nat (Suc n) k) = (k div 256 mod 256 ^ n) * 256 + k mod 256"
    using Suc.IH[of "k div 256"] by (simp add: nat_be_snoc unat_of_nat)
  also have "\<dots> = k mod (256 * 256 ^ n)"
    by (simp add: mod_mult2_eq)
  finally show ?case by simp
qed

lemma unat_byte [simp]: "unat (b :: u8) < 256"
  using unsigned_less[of b, where 'a = nat] by simp

lemma be_nat_nat_be: "be_nat (length bs) (nat_be bs) = bs"
proof (induction bs rule: rev_induct)
  case Nil
  show ?case by simp
next
  case (snoc b bs)
  have "(nat_be bs * 256 + unat b) div 256 = nat_be bs"
    using unat_byte[of b] by simp
  moreover have "of_nat (nat_be bs * 256 + unat b) = b"
    by (rule word_unat_eq_iff[THEN iffD2]) (simp add: unat_of_nat unat_word_ariths)
  ultimately show ?case
    using snoc.IH by (simp add: nat_be_snoc)
qed

lemma length_to_be_bytes [wire_len, simp]:
  "length (to_be_bytes (w :: 'a::len word)) = LENGTH('a) div 8"
  by (simp add: to_be_bytes_def)

lemma from_to_be_bytes:
  assumes "8 dvd LENGTH('a)"
  shows "from_be_bytes (to_be_bytes (w :: 'a::len word)) = w"
proof -
  obtain n where n: "LENGTH('a) = 8 * n"
    using assms by blast
  have "(256 :: nat) ^ n = 2 ^ LENGTH('a)"
    by (simp add: n power_mult)
  then have "unat w mod 256 ^ n = unat w"
    using unsigned_less[of w, where 'a = nat] by simp
  then show ?thesis
    by (simp add: to_be_bytes_def from_be_bytes_def nat_be_be_nat n)
qed

lemma to_from_be_bytes:
  assumes "length bs * 8 = LENGTH('a)"
  shows "to_be_bytes (from_be_bytes bs :: 'a::len word) = bs"
proof -
  have "(256 :: nat) ^ length bs = 2 ^ (8 * length bs)"
    by (simp add: power_mult)
  also have "\<dots> = 2 ^ LENGTH('a)"
    using assms by (simp add: mult.commute)
  finally have "(256 :: nat) ^ length bs = 2 ^ LENGTH('a)" .
  moreover have "nat_be bs < 256 ^ length bs"
    using nat_be_be_nat[of "length bs" "nat_be bs"] be_nat_nat_be[of bs]
    by (metis mod_less_divisor zero_less_numeral zero_less_power)
  ultimately have "unat (of_nat (nat_be bs) :: 'a word) = nat_be bs"
    by (simp add: unat_of_nat)
  moreover have "LENGTH('a) div 8 = length bs"
    using assms by simp
  ultimately show ?thesis
    by (simp add: to_be_bytes_def from_be_bytes_def be_nat_nat_be)
qed

lemma from_to_be_bytes_uint [simp]:
  "from_be_bytes (to_be_bytes (a :: u8)) = a"
  "from_be_bytes (to_be_bytes (b :: u16)) = b"
  "from_be_bytes (to_be_bytes (c :: u32)) = c"
  "from_be_bytes (to_be_bytes (d :: u64)) = d"
  by (simp_all add: from_to_be_bytes)

section \<open>The newest elements of a sequence\<close>

definition lastn :: "nat \<Rightarrow> 'a list \<Rightarrow> 'a list" where
  "lastn n xs = drop (length xs - n) xs"

lemma length_lastn [simp]: "length (lastn n xs) = min n (length xs)"
  by (simp add: lastn_def)

lemma lastn_all [simp]: "length xs \<le> n \<Longrightarrow> lastn n xs = xs"
  by (simp add: lastn_def)

lemma lastn_append_right: "n \<le> length ys \<Longrightarrow> lastn n (xs @ ys) = lastn n ys"
  by (simp add: lastn_def)

lemma lastn_lastn_append: "lastn n (lastn n xs @ ys) = lastn n (xs @ ys)"
  by (cases "n \<le> length xs") (simp_all add: lastn_def add.commute)

lemma lastn_lastn: "m \<le> n \<Longrightarrow> lastn m (lastn n xs) = lastn m xs"
  by (cases "n \<le> length xs") (simp_all add: lastn_def)

lemma lastn_lastn_min: "lastn m (lastn n xs) = lastn (min m n) xs"
proof (cases "m \<le> n")
  case True
  then show ?thesis by (simp add: lastn_lastn min_absorb1)
next
  case False
  then show ?thesis by (simp add: min_absorb2)
qed

section \<open>Results\<close>

definition rbind :: "'e + 'a \<Rightarrow> ('a \<Rightarrow> 'e + 'b) \<Rightarrow> 'e + 'b" where
  "rbind m f = (case m of Inl e \<Rightarrow> Inl e | Inr x \<Rightarrow> f x)"

text \<open>\<open>PersistError\<close>: the variants the modelled code raises, with their message or the
  name of the failed operation.\<close>

datatype persist_error =
    InvalidArgument string
  | IoError string
  | InternalError string
  | DaemonAlreadyRunning

definition ok_or :: "'e \<Rightarrow> 'a option \<Rightarrow> 'e + 'a" where
  "ok_or e x = (case x of None \<Rightarrow> Inl e | Some v \<Rightarrow> Inr v)"

definition map_err :: "('e \<Rightarrow> 'f) \<Rightarrow> 'e + 'a \<Rightarrow> 'f + 'a" where
  "map_err g m = (case m of Inl e \<Rightarrow> Inl (g e) | Inr x \<Rightarrow> Inr x)"

definition is_ok :: "'e + 'a \<Rightarrow> bool" where
  "is_ok m = (case m of Inl _ \<Rightarrow> False | Inr _ \<Rightarrow> True)"

lemma rbind_simps [simp, res_simps]:
  "rbind (Inl e) f = Inl e"
  "rbind (Inr x) f = f x"
  by (simp_all add: rbind_def)

lemma ok_or_simps [simp, res_simps]:
  "ok_or e None = Inl e"
  "ok_or e (Some v) = Inr v"
  by (simp_all add: ok_or_def)

lemma map_err_simps [simp, res_simps]:
  "map_err g (Inl e) = Inl (g e)"
  "map_err g (Inr x) = Inr x"
  by (simp_all add: map_err_def)

lemma is_ok_simps [simp, res_simps]:
  "\<not> is_ok (Inl e)" "is_ok (Inr x)"
  by (simp_all add: is_ok_def)

lemma rbind_eq_Inr: "rbind m f = Inr y \<longleftrightarrow> (\<exists>x. m = Inr x \<and> f x = Inr y)"
  by (cases m) auto

lemma rbind_Inr_elim:
  assumes "rbind m f = Inr y"
  obtains x where "m = Inr x" and "f x = Inr y"
  using assms by (auto simp: rbind_eq_Inr)

lemma is_ok_iff: "is_ok m \<longleftrightarrow> (\<exists>x. m = Inr x)"
  by (cases m) auto

lemma ok_or_eq_Inr: "ok_or e x = Inr v \<longleftrightarrow> x = Some v"
  by (cases x) auto

lemma map_err_eq_Inr: "map_err g m = Inr x \<longleftrightarrow> m = Inr x"
  by (cases m) auto

section \<open>Maps of the standard library\<close>

subsection \<open>HashMap\<close>

type_synonym ('k, 'v) hashmap = "('k \<times> 'v) list"

abbreviation hm_get :: "('k, 'v) hashmap \<Rightarrow> 'k \<Rightarrow> 'v option" where
  "hm_get m k \<equiv> map_of m k"

abbreviation hm_insert :: "'k \<Rightarrow> 'v \<Rightarrow> ('k, 'v) hashmap \<Rightarrow> ('k, 'v) hashmap" where
  "hm_insert k v m \<equiv> AList.update k v m"

abbreviation hm_remove :: "'k \<Rightarrow> ('k, 'v) hashmap \<Rightarrow> ('k, 'v) hashmap" where
  "hm_remove k m \<equiv> AList.delete k m"

abbreviation hm_keys :: "('k, 'v) hashmap \<Rightarrow> 'k list" where
  "hm_keys m \<equiv> map fst m"

abbreviation hm_wf :: "('k, 'v) hashmap \<Rightarrow> bool" where
  "hm_wf m \<equiv> distinct (map fst m)"

lemma hm_get_insert [simp]:
  "hm_get (hm_insert k v m) k' = (if k' = k then Some v else hm_get m k')"
  by (simp add: update_conv')

lemma hm_get_remove [simp]:
  "hm_get (hm_remove k m) k' = (if k' = k then None else hm_get m k')"
  by (simp add: delete_conv')

lemma fst_set_remove [simp]: "fst ` set (AList.delete k m) = fst ` set m - {k}"
  by (metis delete_keys set_map set_removeAll)

lemma hm_wf_insert [simp]: "hm_wf m \<Longrightarrow> hm_wf (hm_insert k v m)"
  by (rule distinct_update)

lemma hm_wf_remove [simp]: "hm_wf m \<Longrightarrow> hm_wf (hm_remove k m)"
  by (rule distinct_delete)

subsection \<open>BTreeMap\<close>

text \<open>A map iterated in ascending order of its keys.\<close>

type_synonym ('k, 'v) btreemap = "('k \<times> 'v) list"

fun bt_insert :: "'k::linorder \<Rightarrow> 'v \<Rightarrow> ('k, 'v) btreemap \<Rightarrow> ('k, 'v) btreemap" where
  "bt_insert k v [] = [(k, v)]"
| "bt_insert k v ((k', v') # m) =
     (if k < k' then (k, v) # (k', v') # m
      else if k = k' then (k, v) # m
      else (k', v') # bt_insert k v m)"

abbreviation bt_get :: "('k, 'v) btreemap \<Rightarrow> 'k \<Rightarrow> 'v option" where
  "bt_get m k \<equiv> map_of m k"

abbreviation bt_remove :: "'k \<Rightarrow> ('k, 'v) btreemap \<Rightarrow> ('k, 'v) btreemap" where
  "bt_remove k m \<equiv> AList.delete k m"

definition bt_wf :: "('k::linorder, 'v) btreemap \<Rightarrow> bool" where
  "bt_wf m \<longleftrightarrow> sorted_wrt (<) (map fst m)"

lemma bt_get_insert [simp]:
  "bt_wf m \<Longrightarrow> bt_get (bt_insert k v m) k' = (if k' = k then Some v else bt_get m k')"
  by (induction k v m rule: bt_insert.induct) (auto simp: bt_wf_def)

lemma fst_set_bt_insert [simp]: "fst ` set (bt_insert k v m) = insert k (fst ` set m)"
  by (induction k v m rule: bt_insert.induct) auto

lemma bt_wf_insert [simp]: "bt_wf m \<Longrightarrow> bt_wf (bt_insert k v m)"
proof (induction k v m rule: bt_insert.induct)
  case (2 k v k' v' m)
  have "sorted_wrt (<) (map fst (bt_insert k v m))" if "bt_wf m" "k' < k"
    using 2 that by (auto simp: bt_wf_def)
  then show ?case
    using 2 by (auto simp: bt_wf_def not_less_iff_gr_or_eq)
qed (simp add: bt_wf_def)

lemma bt_wf_remove [simp]: "bt_wf m \<Longrightarrow> bt_wf (bt_remove k m)"
  by (induction m) (auto simp: bt_wf_def AList.delete_eq)

lemma bt_wf_distinct: "bt_wf m \<Longrightarrow> distinct (map fst m)"
  by (auto simp: bt_wf_def strict_sorted_iff)

end
