(* ===== verification/Holder_Wire.thy ===== *)
theory Holder_Wire
  imports Persist_Prelude
begin

text \<open>
  The field codec of the holder protocol (\<open>crates/persist-ipc/src/holder/wire.rs\<close>): the
  cursor \<open>Reader\<close> over a received payload and the \<open>put_*\<close> functions that append one
  field to an output vector. A writer takes the output so far and returns it extended;
  a reader returns the value with the advanced cursor, or the protocol error.

  \<open>rd_at pre rest\<close> is a cursor that has consumed \<open>pre\<close> and still has \<open>rest\<close> before
  it: every codec proof is a rewriting along such cursors. A payload must fit the address
  space (\<open>fits\<close>) for the cursor arithmetic not to overflow. The locale \<open>wire_item\<close> is the
  contract of one repeatable field, from which the counted sequences of the protocol
  (arguments, environment entries, inventory entries) are shown to round-trip.
\<close>

section \<open>Errors\<close>

datatype holder_protocol_error =
    Truncated
  | Trailing
  | InvalidMagic
  | VersionMismatch
  | UnknownMessageType
  | PayloadTooLarge
  | InvalidField

section \<open>Reader\<close>

record reader =
  rd_bytes :: bytes
  rd_offset :: nat

type_synonym 'a parse = "holder_protocol_error + 'a \<times> reader"

definition reader_new :: "bytes \<Rightarrow> reader" where
  "reader_new bs = \<lparr>rd_bytes = bs, rd_offset = 0\<rparr>"

definition rd_take :: "nat \<Rightarrow> reader \<Rightarrow> bytes parse" where
  "rd_take len r =
     rbind (ok_or PayloadTooLarge (checked_add_usize (rd_offset r) len)) (\<lambda>stop.
       if length (rd_bytes r) < stop then Inl Truncated
       else Inr (take len (drop (rd_offset r) (rd_bytes r)), r\<lparr>rd_offset := stop\<rparr>))"

definition rd_u8 :: "reader \<Rightarrow> u8 parse" where
  "rd_u8 r = rbind (rd_take 1 r) (\<lambda>(bs, r). Inr (bs ! 0, r))"

definition rd_u16 :: "reader \<Rightarrow> u16 parse" where
  "rd_u16 r = rbind (rd_take 2 r) (\<lambda>(bs, r). Inr (from_be_bytes bs, r))"

definition rd_u32 :: "reader \<Rightarrow> u32 parse" where
  "rd_u32 r = rbind (rd_take 4 r) (\<lambda>(bs, r). Inr (from_be_bytes bs, r))"

definition rd_i32 :: "reader \<Rightarrow> i32 parse" where
  "rd_i32 r = rbind (rd_take 4 r) (\<lambda>(bs, r). Inr (from_be_bytes bs, r))"

definition rd_u64 :: "reader \<Rightarrow> u64 parse" where
  "rd_u64 r = rbind (rd_take 8 r) (\<lambda>(bs, r). Inr (from_be_bytes bs, r))"

definition rd_fixed :: "nat \<Rightarrow> reader \<Rightarrow> bytes parse" where
  "rd_fixed n r = rd_take n r"

definition rd_string :: "nat \<Rightarrow> reader \<Rightarrow> rstring parse" where
  "rd_string limit r =
     rbind (rd_u16 r) (\<lambda>(len, r).
       if limit < unat len then Inl PayloadTooLarge
       else rbind (rd_take (unat len) r) (\<lambda>(value, r).
         if \<not> utf8_valid value then Inl InvalidField
         else if 0 \<in> set value then Inl InvalidField
         else Inr (value, r)))"

definition rd_optional_string :: "nat \<Rightarrow> reader \<Rightarrow> rstring option parse" where
  "rd_optional_string limit r =
     rbind (rd_u8 r) (\<lambda>(tag, r).
       if tag = 0 then Inr (None, r)
       else if tag = 1 then rbind (rd_string limit r) (\<lambda>(s, r). Inr (Some s, r))
       else Inl InvalidField)"

definition rd_optional_bytes_u32 :: "nat \<Rightarrow> reader \<Rightarrow> bytes option parse" where
  "rd_optional_bytes_u32 limit r =
     rbind (rd_u8 r) (\<lambda>(tag, r).
       if tag = 0 then Inr (None, r)
       else if tag = 1 then
         rbind (rd_u32 r) (\<lambda>(len, r).
           if limit < unat len then Inl PayloadTooLarge
           else rbind (rd_take (unat len) r) (\<lambda>(bs, r). Inr (Some bs, r)))
       else Inl InvalidField)"

definition rd_finish :: "reader \<Rightarrow> holder_protocol_error + unit" where
  "rd_finish r = (if rd_offset r = length (rd_bytes r) then Inr () else Inl Trailing)"

section \<open>Writers\<close>

definition put_u8 :: "bytes \<Rightarrow> u8 \<Rightarrow> bytes" where
  "put_u8 output value = output @ [value]"

definition put_u16 :: "bytes \<Rightarrow> u16 \<Rightarrow> bytes" where
  "put_u16 output value = output @ to_be_bytes value"

definition put_u32 :: "bytes \<Rightarrow> u32 \<Rightarrow> bytes" where
  "put_u32 output value = output @ to_be_bytes value"

definition put_i32 :: "bytes \<Rightarrow> i32 \<Rightarrow> bytes" where
  "put_i32 output value = output @ to_be_bytes value"

definition put_u64 :: "bytes \<Rightarrow> u64 \<Rightarrow> bytes" where
  "put_u64 output value = output @ to_be_bytes value"

definition put_optional_bytes_u32 ::
    "bytes \<Rightarrow> bytes option \<Rightarrow> nat \<Rightarrow> holder_protocol_error + bytes" where
  "put_optional_bytes_u32 output value limit =
     (case value of
        Some bs \<Rightarrow>
          if length bs \<le> limit
          then Inr (put_u32 (put_u8 output 1) (of_nat (length bs)) @ bs)
          else Inl PayloadTooLarge
      | None \<Rightarrow> Inr (put_u8 output 0))"

definition put_string :: "bytes \<Rightarrow> rstring \<Rightarrow> nat \<Rightarrow> holder_protocol_error + bytes" where
  "put_string output value limit =
     (if value = [] \<or> limit < length value \<or> 65535 < length value
      then Inl (if limit < length value then PayloadTooLarge else InvalidField)
      else if 0 \<in> set value then Inl InvalidField
      else Inr (put_u16 output (of_nat (length value)) @ value))"

definition put_string_allow_empty ::
    "bytes \<Rightarrow> rstring \<Rightarrow> nat \<Rightarrow> holder_protocol_error + bytes" where
  "put_string_allow_empty output value limit =
     (if limit < length value \<or> 65535 < length value then Inl PayloadTooLarge
      else if 0 \<in> set value then Inl InvalidField
      else Inr (put_u16 output (of_nat (length value)) @ value))"

definition put_optional_string ::
    "bytes \<Rightarrow> rstring option \<Rightarrow> nat \<Rightarrow> holder_protocol_error + bytes" where
  "put_optional_string output value limit =
     (case value of
        None \<Rightarrow> Inr (put_u8 output 0)
      | Some s \<Rightarrow> put_string (put_u8 output 1) s limit)"

text \<open>A \<open>for\<close> loop that appends each element and stops at the first error, and the loop
  that reads a counted sequence.\<close>

primrec put_each ::
    "(bytes \<Rightarrow> 'a \<Rightarrow> 'e + bytes) \<Rightarrow> bytes \<Rightarrow> 'a list \<Rightarrow> 'e + bytes" where
  "put_each put output [] = Inr output"
| "put_each put output (x # xs) = rbind (put output x) (\<lambda>output. put_each put output xs)"

primrec read_n ::
    "(reader \<Rightarrow> 'e + 'a \<times> reader) \<Rightarrow> nat \<Rightarrow> reader \<Rightarrow> 'e + 'a list \<times> reader" where
  "read_n get 0 r = Inr ([], r)"
| "read_n get (Suc n) r =
     rbind (get r) (\<lambda>(x, r). rbind (read_n get n r) (\<lambda>(xs, r). Inr (x # xs, r)))"

section \<open>Cursors\<close>

definition rd_at :: "bytes \<Rightarrow> bytes \<Rightarrow> reader" where
  "rd_at pre rest = \<lparr>rd_bytes = pre @ rest, rd_offset = length pre\<rparr>"

definition fits :: "bytes \<Rightarrow> bool" where
  "fits bs \<longleftrightarrow> length bs \<le> usize_max"

lemma fits_small: "length bs \<le> 2 ^ 60 \<Longrightarrow> fits bs"
  by (simp add: fits_def usize_max_def)

lemma reader_new_at: "reader_new bs = rd_at [] bs"
  by (simp add: reader_new_def rd_at_def)

lemma rd_take_at:
  assumes "fits (pre @ x @ rest)" and "n = length x"
  shows "rd_take n (rd_at pre (x @ rest)) = Inr (x, rd_at (pre @ x) rest)"
  using assms by (simp add: rd_take_def rd_at_def fits_def checked_add_usize_def)

lemma rd_take_atD:
  assumes "rd_take n (rd_at pre bs) = Inr (x, r)"
  shows "\<exists>rest. bs = x @ rest \<and> length x = n \<and> r = rd_at (pre @ x) rest"
proof -
  from assms have n: "n \<le> length bs" and x: "x = take n bs"
    and r: "r = \<lparr>rd_bytes = pre @ bs, rd_offset = length pre + n\<rparr>"
    by (auto simp: rd_take_def rd_at_def checked_add_usize_def split: if_splits)
  then have "r = rd_at (pre @ x) (drop n bs)" "bs = x @ drop n bs" "length x = n"
    by (simp_all add: rd_at_def)
  then show ?thesis by blast
qed

lemma rd_finish_at: "rd_finish (rd_at pre rest) = (if rest = [] then Inr () else Inl Trailing)"
  by (simp add: rd_finish_def rd_at_def)

lemma rd_u8_at: "fits (pre @ v # rest) \<Longrightarrow> rd_u8 (rd_at pre (v # rest)) = Inr (v, rd_at (pre @ [v]) rest)"
  using rd_take_at[of pre "[v]" rest 1] by (simp add: rd_u8_def)

lemma rd_u16_at:
  "fits (pre @ to_be_bytes v @ rest) \<Longrightarrow>
   rd_u16 (rd_at pre (to_be_bytes v @ rest)) = Inr (v, rd_at (pre @ to_be_bytes v) rest)"
  by (simp add: rd_u16_def rd_take_at)

lemma rd_u32_at:
  "fits (pre @ to_be_bytes v @ rest) \<Longrightarrow>
   rd_u32 (rd_at pre (to_be_bytes v @ rest)) = Inr (v, rd_at (pre @ to_be_bytes v) rest)"
  by (simp add: rd_u32_def rd_take_at)

lemma rd_i32_at:
  "fits (pre @ to_be_bytes v @ rest) \<Longrightarrow>
   rd_i32 (rd_at pre (to_be_bytes v @ rest)) = Inr (v, rd_at (pre @ to_be_bytes v) rest)"
  by (simp add: rd_i32_def rd_take_at)

lemma rd_u64_at:
  "fits (pre @ to_be_bytes v @ rest) \<Longrightarrow>
   rd_u64 (rd_at pre (to_be_bytes v @ rest)) = Inr (v, rd_at (pre @ to_be_bytes v) rest)"
  by (simp add: rd_u64_def rd_take_at)

lemma rd_fixed_at:
  "fits (pre @ x @ rest) \<Longrightarrow> length x = n \<Longrightarrow>
   rd_fixed n (rd_at pre (x @ rest)) = Inr (x, rd_at (pre @ x) rest)"
  by (simp add: rd_fixed_def rd_take_at)

text \<open>The same reads at the end of the payload, where nothing follows.\<close>

lemmas rd_at_ends =
  rd_u8_at[where rest = "[]"]
  rd_u16_at[where rest = "[]", simplified append_Nil2]
  rd_u32_at[where rest = "[]", simplified append_Nil2]
  rd_i32_at[where rest = "[]", simplified append_Nil2]
  rd_u64_at[where rest = "[]", simplified append_Nil2]
  rd_fixed_at[where rest = "[]", simplified append_Nil2]

lemmas rd_at_simps =
  rd_u8_at rd_u16_at rd_u32_at rd_i32_at rd_u64_at rd_fixed_at rd_at_ends rd_finish_at

lemmas put_defs = put_u8_def put_u16_def put_u32_def put_i32_def put_u64_def

text \<open>What a successful read says about the bytes.\<close>

lemma rd_u8_atD:
  assumes "rd_u8 (rd_at pre bs) = Inr (v, r)"
  shows "\<exists>rest. bs = v # rest \<and> r = rd_at (pre @ [v]) rest"
proof -
  from assms obtain x where "rd_take 1 (rd_at pre bs) = Inr (x, r)" and v: "v = x ! 0"
    by (auto simp: rd_u8_def elim!: rbind_Inr_elim)
  from rd_take_atD[OF this(1)] v show ?thesis
    by (auto simp: length_Suc_conv)
qed

lemma rd_u16_atD:
  "rd_u16 (rd_at pre bs) = Inr (v, r) \<Longrightarrow>
   \<exists>rest. bs = to_be_bytes v @ rest \<and> r = rd_at (pre @ to_be_bytes v) rest"
  by (auto simp: rd_u16_def to_from_be_bytes elim!: rbind_Inr_elim dest!: rd_take_atD)

lemma rd_u32_atD:
  "rd_u32 (rd_at pre bs) = Inr (v, r) \<Longrightarrow>
   \<exists>rest. bs = to_be_bytes v @ rest \<and> r = rd_at (pre @ to_be_bytes v) rest"
  by (auto simp: rd_u32_def to_from_be_bytes elim!: rbind_Inr_elim dest!: rd_take_atD)

lemma rd_i32_atD:
  "rd_i32 (rd_at pre bs) = Inr (v, r) \<Longrightarrow>
   \<exists>rest. bs = to_be_bytes v @ rest \<and> r = rd_at (pre @ to_be_bytes v) rest"
  by (auto simp: rd_i32_def to_from_be_bytes elim!: rbind_Inr_elim dest!: rd_take_atD)

lemma rd_u64_atD:
  "rd_u64 (rd_at pre bs) = Inr (v, r) \<Longrightarrow>
   \<exists>rest. bs = to_be_bytes v @ rest \<and> r = rd_at (pre @ to_be_bytes v) rest"
  by (auto simp: rd_u64_def to_from_be_bytes elim!: rbind_Inr_elim dest!: rd_take_atD)

lemma rd_fixed_atD:
  "rd_fixed n (rd_at pre bs) = Inr (x, r) \<Longrightarrow>
   \<exists>rest. bs = x @ rest \<and> length x = n \<and> r = rd_at (pre @ x) rest"
  unfolding rd_fixed_def by (rule rd_take_atD)

lemma rd_finish_atD: "rd_finish (rd_at pre rest) = Inr u \<Longrightarrow> rest = []"
  by (simp add: rd_finish_at split: if_splits)

lemmas rd_atD = rd_u8_atD rd_u16_atD rd_u32_atD rd_i32_atD rd_u64_atD rd_fixed_atD rd_finish_atD

section \<open>Strings\<close>

definition str_ok :: "nat \<Rightarrow> rstring \<Rightarrow> bool" where
  "str_ok limit s \<longleftrightarrow> length s \<le> limit \<and> length s \<le> 65535 \<and> utf8_valid s \<and> 0 \<notin> set s"

definition wire_string :: "rstring \<Rightarrow> bytes" where
  "wire_string s = to_be_bytes (of_nat (length s) :: u16) @ s"

definition wire_opt_string :: "rstring option \<Rightarrow> bytes" where
  "wire_opt_string s = (case s of None \<Rightarrow> [0] | Some s \<Rightarrow> 1 # wire_string s)"

definition wire_opt_bytes :: "bytes option \<Rightarrow> bytes" where
  "wire_opt_bytes b =
     (case b of None \<Rightarrow> [0] | Some b \<Rightarrow> 1 # to_be_bytes (of_nat (length b) :: u32) @ b)"

definition opt_str_ok :: "nat \<Rightarrow> rstring option \<Rightarrow> bool" where
  "opt_str_ok limit s \<longleftrightarrow> (case s of None \<Rightarrow> True | Some s \<Rightarrow> s \<noteq> [] \<and> str_ok limit s)"

lemma length_wire_string [wire_len, simp]: "length (wire_string s) = 2 + length s"
  by (simp add: wire_string_def)

lemma length_wire_opt_string:
  "opt_str_ok limit s \<Longrightarrow> length (wire_opt_string s) \<le> 3 + limit"
  by (auto simp: opt_str_ok_def wire_opt_string_def str_ok_def split: option.splits)

lemma unat_of_nat_u16 [simp]: "n \<le> 65535 \<Longrightarrow> unat (of_nat n :: u16) = n"
  by (simp add: unat_of_nat)

lemma unat_of_nat_u32 [simp]: "n < 2 ^ 32 \<Longrightarrow> unat (of_nat n :: u32) = n"
  by (simp add: unat_of_nat)

lemma put_string_ok:
  "str_ok limit s \<Longrightarrow> s \<noteq> [] \<Longrightarrow> put_string output s limit = Inr (output @ wire_string s)"
  by (simp add: put_string_def str_ok_def wire_string_def put_u16_def)

lemma put_string_allow_empty_ok:
  "str_ok limit s \<Longrightarrow> put_string_allow_empty output s limit = Inr (output @ wire_string s)"
  by (simp add: put_string_allow_empty_def str_ok_def wire_string_def put_u16_def)

lemma put_optional_string_ok:
  "opt_str_ok limit s \<Longrightarrow> put_optional_string output s limit = Inr (output @ wire_opt_string s)"
  by (auto simp: put_optional_string_def opt_str_ok_def wire_opt_string_def put_string_ok
        put_u8_def split: option.splits)

lemma rd_string_at:
  assumes "str_ok limit s" and "fits (pre @ wire_string s @ rest)"
  shows "rd_string limit (rd_at pre (wire_string s @ rest)) = Inr (s, rd_at (pre @ wire_string s) rest)"
  using assms by (simp add: rd_string_def wire_string_def str_ok_def rd_at_simps rd_take_at)

lemma rd_optional_string_at:
  assumes "opt_str_ok limit s" and "fits (pre @ wire_opt_string s @ rest)"
  shows "rd_optional_string limit (rd_at pre (wire_opt_string s @ rest)) =
    Inr (s, rd_at (pre @ wire_opt_string s) rest)"
  using assms
  by (auto simp: rd_optional_string_def wire_opt_string_def opt_str_ok_def rd_at_simps
        rd_string_at split: option.splits)

lemma rd_optional_bytes_at:
  assumes "\<And>x. b = Some x \<Longrightarrow> length x \<le> limit" and "limit < 2 ^ 32"
    and "fits (pre @ wire_opt_bytes b @ rest)"
  shows "rd_optional_bytes_u32 limit (rd_at pre (wire_opt_bytes b @ rest)) =
    Inr (b, rd_at (pre @ wire_opt_bytes b) rest)"
proof (cases b)
  case None
  then show ?thesis
    using assms by (simp add: rd_optional_bytes_u32_def wire_opt_bytes_def rd_at_simps)
next
  case (Some x)
  then have "length x \<le> limit" "length x < 2 ^ 32"
    using assms by (simp, metis order.strict_trans1)
  then show ?thesis
    using assms(3) Some
    by (simp add: rd_optional_bytes_u32_def wire_opt_bytes_def rd_at_simps rd_take_at)
qed

lemma put_optional_bytes_ok:
  "(\<And>x. b = Some x \<Longrightarrow> length x \<le> limit) \<Longrightarrow>
   put_optional_bytes_u32 output b limit = Inr (output @ wire_opt_bytes b)"
  by (auto simp: put_optional_bytes_u32_def wire_opt_bytes_def put_defs split: option.splits)

text \<open>A string that a reader accepts satisfies the limits the reader was given.\<close>

lemma rd_string_atD:
  assumes "rd_string limit (rd_at pre bs) = Inr (s, r)"
  shows "\<exists>rest. bs = wire_string s @ rest \<and> str_ok limit s \<and> r = rd_at (pre @ wire_string s) rest"
proof -
  from assms obtain len r1 where "rd_u16 (rd_at pre bs) = Inr (len, r1)" and le: "unat len \<le> limit"
    and s: "rd_take (unat len) r1 = Inr (s, r)" and ok: "utf8_valid s" "0 \<notin> set s"
    by (auto simp: rd_string_def elim!: rbind_Inr_elim split: if_splits)
  from rd_u16_atD[OF this(1)] obtain rest1
    where bs: "bs = to_be_bytes len @ rest1" and r1: "r1 = rd_at (pre @ to_be_bytes len) rest1"
    by blast
  from rd_take_atD[OF s[unfolded r1]] obtain rest
    where rest1: "rest1 = s @ rest" and len: "length s = unat len"
      and r: "r = rd_at ((pre @ to_be_bytes len) @ s) rest"
    by blast
  have "of_nat (length s) = len"
    by (simp add: len)
  moreover have "unat len \<le> 65535"
    using unsigned_less[of len, where 'a = nat] by simp
  ultimately show ?thesis
    using bs rest1 r ok le len by (auto simp: wire_string_def str_ok_def)
qed

lemma rd_optional_string_atD:
  assumes "rd_optional_string limit (rd_at pre bs) = Inr (s, r)"
  shows "\<exists>rest. bs = wire_opt_string s @ rest \<and> (\<forall>x. s = Some x \<longrightarrow> str_ok limit x)
    \<and> r = rd_at (pre @ wire_opt_string s) rest"
proof -
  from assms obtain tag r1 where tag: "rd_u8 (rd_at pre bs) = Inr (tag, r1)"
    and s: "tag = 0 \<and> s = None \<and> r = r1
      \<or> tag = 1 \<and> (\<exists>x. s = Some x \<and> rd_string limit r1 = Inr (x, r))"
    by (auto simp: rd_optional_string_def elim!: rbind_Inr_elim split: if_splits)
  from rd_u8_atD[OF tag] obtain rest1 where bs: "bs = tag # rest1"
    and r1: "r1 = rd_at (pre @ [tag]) rest1"
    by blast
  show ?thesis
    using s by (auto simp: bs r1 wire_opt_string_def dest!: rd_string_atD)
qed

section \<open>Counted sequences\<close>

locale wire_item =
  fixes put :: "bytes \<Rightarrow> 'a \<Rightarrow> 'e + bytes"
    and get :: "reader \<Rightarrow> 'f + 'a \<times> reader"
    and enc :: "'a \<Rightarrow> bytes"
    and item_ok :: "'a \<Rightarrow> bool"
  assumes put_law: "item_ok x \<Longrightarrow> put output x = Inr (output @ enc x)"
    and get_law: "item_ok x \<Longrightarrow> fits (pre @ enc x @ rest) \<Longrightarrow>
      get (rd_at pre (enc x @ rest)) = Inr (x, rd_at (pre @ enc x) rest)"
begin

lemma put_each_all:
  "list_all item_ok xs \<Longrightarrow> put_each put out xs = Inr (out @ concat (map enc xs))"
  by (induction xs arbitrary: out) (auto simp: put_law)

lemma read_n_all:
  assumes "list_all item_ok xs" and "fits (pre @ concat (map enc xs) @ rest)"
  shows "read_n get (length xs) (rd_at pre (concat (map enc xs) @ rest)) =
    Inr (xs, rd_at (pre @ concat (map enc xs)) rest)"
  using assms
proof (induction xs arbitrary: pre)
  case Nil
  then show ?case by simp
next
  case (Cons x xs)
  from Cons.prems have "get (rd_at pre (enc x @ concat (map enc xs) @ rest)) =
      Inr (x, rd_at (pre @ enc x) (concat (map enc xs) @ rest))"
    by (intro get_law) auto
  with Cons.IH[of "pre @ enc x"] Cons.prems show ?case
    by simp
qed

end

text \<open>Strings that may be empty, with a limit: the arguments and values of a launch request.\<close>

interpretation ws: wire_item
  "\<lambda>output s. put_string_allow_empty output s limit" "rd_string limit" wire_string "str_ok limit"
  for limit
  by unfold_locales (simp_all add: put_string_allow_empty_ok rd_string_at)

text \<open>Names: strings that may not be empty.\<close>

interpretation wn: wire_item
  "\<lambda>output s. put_string output s limit" "rd_string limit" wire_string
  "\<lambda>s. s \<noteq> [] \<and> str_ok limit s"
  for limit
  by unfold_locales (simp_all add: put_string_ok rd_string_at)

end
