(* ===== verification/Holder_Frame.thy ===== *)
theory Holder_Frame
  imports Holder_Wire
begin

text \<open>
  The frames of the holder protocol: the limits and message types of
  \<open>crates/persist-ipc/src/holder/mod.rs\<close> and the framing of \<open>holder/frame.rs\<close>, that is the
  32-byte header, \<open>encode_frame_with_minor\<close>, \<open>decode_frame_with_minor\<close> and the stream
  reassembly of \<open>HolderFrameAccumulator\<close>. Shown here: encoding and decoding are inverse
  to each other in both directions, so the format is canonical, and the accumulator takes
  exactly one encoded frame off the front of its buffer.
\<close>

section \<open>Constants and message types\<close>

definition HOLDER_MAGIC :: bytes where
  "HOLDER_MAGIC = ascii ''PSHH''"

definition HOLDER_PROTOCOL_MAJOR :: u16 where
  "HOLDER_PROTOCOL_MAJOR = 1"

definition HOLDER_PROTOCOL_BASELINE_MINOR :: u16 where
  "HOLDER_PROTOCOL_BASELINE_MINOR = 1"

definition HOLDER_PROTOCOL_MINOR :: u16 where
  "HOLDER_PROTOCOL_MINOR = 2"

definition HOLDER_CAPABILITY_ENVIRONMENT_CONTEXT :: u64 where
  "HOLDER_CAPABILITY_ENVIRONMENT_CONTEXT = 1"

definition HOLDER_HEADER_SIZE :: nat where
  "HOLDER_HEADER_SIZE = 32"

definition MAX_HOLDER_CONTROL_FRAME :: nat where
  "MAX_HOLDER_CONTROL_FRAME = 1024 * 1024"

definition MAX_HOLDER_IO_FRAME :: nat where
  "MAX_HOLDER_IO_FRAME = 64 * 1024"

definition MAX_INVENTORY_ENTRIES :: u16 where
  "MAX_INVENTORY_ENTRIES = 256"

definition MAX_HOLDER_PATH :: nat where
  "MAX_HOLDER_PATH = 4096"

definition MAX_HOLDER_ENV_VARS :: nat where
  "MAX_HOLDER_ENV_VARS = 128"

definition MAX_HOLDER_ENV_NAME :: nat where
  "MAX_HOLDER_ENV_NAME = 128"

definition MAX_HOLDER_ENV_VALUE :: nat where
  "MAX_HOLDER_ENV_VALUE = 8192"

definition MAX_HOLDER_ARGUMENTS :: nat where
  "MAX_HOLDER_ARGUMENTS = 16"

definition MAX_HOLDER_ARGUMENT :: nat where
  "MAX_HOLDER_ARGUMENT = 4096"

definition MAX_HOLDER_RING_BUFFER :: u32 where
  "MAX_HOLDER_RING_BUFFER = 64 * 1024 * 1024"

definition MAX_HOLDER_ERROR_MESSAGE :: nat where
  "MAX_HOLDER_ERROR_MESSAGE = 1024"

definition MAX_HOLDER_ACCUMULATOR :: nat where
  "MAX_HOLDER_ACCUMULATOR = MAX_HOLDER_CONTROL_FRAME + HOLDER_HEADER_SIZE"

datatype holder_message_type =
    ControlHello | ControlHelloAck | Error | Capability | CapabilityResp
  | Inventory | InventoryResp | Create | CreateResp | Close | CloseResp | Kill | KillResp
  | ShutdownAll | ShutdownAllResp | GetExitContext | GetExitContextResp
  | RetireExited | RetireExitedResp
  | SessionStarted | SessionExited | WriterChanged | LogDegraded
  | DataHello | DataHelloAck
  | Attach | AttachResp | Detach | Input | Output | Resize | Signal
  | WriteGranted | WriteRevoked

definition message_types :: "(u16 \<times> holder_message_type) list" where
  "message_types =
    [(0x0001, ControlHello), (0x0002, ControlHelloAck), (0x0003, Error), (0x0004, Capability),
     (0x0005, CapabilityResp), (0x0010, Inventory), (0x0011, InventoryResp), (0x0012, Create),
     (0x0013, CreateResp), (0x0014, Close), (0x0015, CloseResp), (0x0016, Kill),
     (0x0017, KillResp), (0x0018, ShutdownAll), (0x0019, ShutdownAllResp),
     (0x001a, GetExitContext), (0x001b, GetExitContextResp), (0x001c, RetireExited),
     (0x001d, RetireExitedResp), (0x0020, SessionStarted), (0x0021, SessionExited),
     (0x0022, WriterChanged), (0x0023, LogDegraded), (0x0100, DataHello),
     (0x0101, DataHelloAck), (0x0110, Attach), (0x0111, AttachResp), (0x0112, Detach),
     (0x0120, Input), (0x0121, Output), (0x0122, Resize), (0x0123, Signal),
     (0x0124, WriteGranted), (0x0125, WriteRevoked)]"

definition message_type_from_u16 :: "u16 \<Rightarrow> holder_message_type option" where
  "message_type_from_u16 value = map_of message_types value"

fun message_type_as_u16 :: "holder_message_type \<Rightarrow> u16" where
  "message_type_as_u16 ControlHello = 0x0001"
| "message_type_as_u16 ControlHelloAck = 0x0002"
| "message_type_as_u16 Error = 0x0003"
| "message_type_as_u16 Capability = 0x0004"
| "message_type_as_u16 CapabilityResp = 0x0005"
| "message_type_as_u16 Inventory = 0x0010"
| "message_type_as_u16 InventoryResp = 0x0011"
| "message_type_as_u16 Create = 0x0012"
| "message_type_as_u16 CreateResp = 0x0013"
| "message_type_as_u16 Close = 0x0014"
| "message_type_as_u16 CloseResp = 0x0015"
| "message_type_as_u16 Kill = 0x0016"
| "message_type_as_u16 KillResp = 0x0017"
| "message_type_as_u16 ShutdownAll = 0x0018"
| "message_type_as_u16 ShutdownAllResp = 0x0019"
| "message_type_as_u16 GetExitContext = 0x001a"
| "message_type_as_u16 GetExitContextResp = 0x001b"
| "message_type_as_u16 RetireExited = 0x001c"
| "message_type_as_u16 RetireExitedResp = 0x001d"
| "message_type_as_u16 SessionStarted = 0x0020"
| "message_type_as_u16 SessionExited = 0x0021"
| "message_type_as_u16 WriterChanged = 0x0022"
| "message_type_as_u16 LogDegraded = 0x0023"
| "message_type_as_u16 DataHello = 0x0100"
| "message_type_as_u16 DataHelloAck = 0x0101"
| "message_type_as_u16 Attach = 0x0110"
| "message_type_as_u16 AttachResp = 0x0111"
| "message_type_as_u16 Detach = 0x0112"
| "message_type_as_u16 Input = 0x0120"
| "message_type_as_u16 Output = 0x0121"
| "message_type_as_u16 Resize = 0x0122"
| "message_type_as_u16 Signal = 0x0123"
| "message_type_as_u16 WriteGranted = 0x0124"
| "message_type_as_u16 WriteRevoked = 0x0125"

definition max_payload :: "holder_message_type \<Rightarrow> nat" where
  "max_payload t =
     (if t = Input \<or> t = Output then MAX_HOLDER_IO_FRAME else MAX_HOLDER_CONTROL_FRAME)"

record holder_frame =
  fr_message_type :: holder_message_type
  fr_flags :: u16
  fr_request_id :: u32
  fr_generation :: u64
  fr_payload :: bytes

section \<open>Encoding and decoding\<close>

definition validate_minor :: "u16 \<Rightarrow> holder_protocol_error + unit" where
  "validate_minor minor =
     (if HOLDER_PROTOCOL_BASELINE_MINOR \<le> minor \<and> minor \<le> HOLDER_PROTOCOL_MINOR
      then Inr () else Inl VersionMismatch)"

definition encode_frame_with_minor ::
    "holder_frame \<Rightarrow> u16 \<Rightarrow> holder_protocol_error + bytes" where
  "encode_frame_with_minor frame minor =
     rbind (validate_minor minor) (\<lambda>_.
       if fr_flags frame \<noteq> 0 then Inl InvalidField
       else if max_payload (fr_message_type frame) < length (fr_payload frame)
       then Inl PayloadTooLarge
       else if 2 ^ 32 \<le> length (fr_payload frame) then Inl PayloadTooLarge
       else
         let payload_len = of_nat (length (fr_payload frame));
             output = HOLDER_MAGIC;
             output = put_u16 output HOLDER_PROTOCOL_MAJOR;
             output = put_u16 output minor;
             output = put_u32 output payload_len;
             output = put_u16 output (message_type_as_u16 (fr_message_type frame));
             output = put_u16 output (fr_flags frame);
             output = put_u32 output (fr_request_id frame);
             output = put_u64 output (fr_generation frame);
             output = put_u32 output 0
         in Inr (output @ fr_payload frame))"

definition encode_frame :: "holder_frame \<Rightarrow> holder_protocol_error + bytes" where
  "encode_frame frame = encode_frame_with_minor frame HOLDER_PROTOCOL_BASELINE_MINOR"

definition decode_frame_with_minor ::
    "bytes \<Rightarrow> u16 \<Rightarrow> holder_protocol_error + holder_frame" where
  "decode_frame_with_minor bs expected_minor =
     rbind (validate_minor expected_minor) (\<lambda>_.
     if length bs < HOLDER_HEADER_SIZE then Inl Truncated else
     rbind (rd_fixed 4 (reader_new bs)) (\<lambda>(magic, r).
     if magic \<noteq> HOLDER_MAGIC then Inl InvalidMagic else
     rbind (rd_u16 r) (\<lambda>(major, r).
     if major \<noteq> HOLDER_PROTOCOL_MAJOR then Inl VersionMismatch else
     rbind (rd_u16 r) (\<lambda>(minor, r).
     if minor \<noteq> expected_minor then Inl VersionMismatch else
     rbind (rd_u32 r) (\<lambda>(payload_len, r).
     rbind (rd_u16 r) (\<lambda>(code, r).
     rbind (ok_or UnknownMessageType (message_type_from_u16 code)) (\<lambda>message_type.
     rbind (rd_u16 r) (\<lambda>(flags, r).
     rbind (rd_u32 r) (\<lambda>(request_id, r).
     rbind (rd_u64 r) (\<lambda>(generation, r).
     if flags \<noteq> 0 then Inl InvalidField else
     rbind (rd_u32 r) (\<lambda>(reserved, r).
     if reserved \<noteq> 0 then Inl InvalidField
     else if max_payload message_type < unat payload_len then Inl PayloadTooLarge else
     rbind (ok_or PayloadTooLarge (checked_add_usize HOLDER_HEADER_SIZE (unat payload_len)))
       (\<lambda>expected.
         if length bs < expected then Inl Truncated
         else if expected < length bs then Inl Trailing
         else Inr \<lparr>fr_message_type = message_type, fr_flags = flags,
                   fr_request_id = request_id, fr_generation = generation,
                   fr_payload = drop HOLDER_HEADER_SIZE bs\<rparr>))))))))))))"

definition decode_frame :: "bytes \<Rightarrow> holder_protocol_error + holder_frame" where
  "decode_frame bs = decode_frame_with_minor bs HOLDER_PROTOCOL_BASELINE_MINOR"

section \<open>Stream reassembly\<close>

text \<open>\<open>HolderFrameAccumulator\<close> has one field, its buffer.\<close>

type_synonym accumulator = bytes

definition acc_new :: accumulator where
  "acc_new = []"

definition acc_feed :: "accumulator \<Rightarrow> bytes \<Rightarrow> holder_protocol_error + accumulator" where
  "acc_feed buffer bs =
     rbind (ok_or PayloadTooLarge (checked_add_usize (length buffer) (length bs))) (\<lambda>new_len.
       if MAX_HOLDER_ACCUMULATOR < new_len then Inl PayloadTooLarge
       else Inr (buffer @ bs))"

definition acc_try_read_supported ::
    "accumulator \<Rightarrow> holder_protocol_error + (u16 \<times> holder_frame) option \<times> accumulator" where
  "acc_try_read_supported buffer =
     (if length buffer < HOLDER_HEADER_SIZE then Inr (None, buffer)
      else
        let payload_len = unat (from_be_bytes (take 4 (drop 8 buffer)) :: u32) in
        if MAX_HOLDER_CONTROL_FRAME < payload_len then Inl PayloadTooLarge
        else rbind (ok_or PayloadTooLarge (checked_add_usize HOLDER_HEADER_SIZE payload_len))
          (\<lambda>frame_len.
            if length buffer < frame_len then Inr (None, buffer)
            else
              let minor = from_be_bytes (take 2 (drop 6 buffer)) in
              rbind (decode_frame_with_minor (take frame_len buffer) minor) (\<lambda>frame.
                Inr (Some (minor, frame), drop frame_len buffer))))"

definition acc_try_read_with_minor ::
    "accumulator \<Rightarrow> u16 \<Rightarrow> holder_protocol_error + holder_frame option \<times> accumulator" where
  "acc_try_read_with_minor buffer minor =
     rbind (acc_try_read_supported buffer) (\<lambda>(value, buffer).
       case value of
         Some (actual, frame) \<Rightarrow>
           if actual = minor then Inr (Some frame, buffer) else Inl VersionMismatch
       | None \<Rightarrow> Inr (None, buffer))"

definition acc_try_read ::
    "accumulator \<Rightarrow> holder_protocol_error + holder_frame option \<times> accumulator" where
  "acc_try_read buffer = acc_try_read_with_minor buffer HOLDER_PROTOCOL_BASELINE_MINOR"

section \<open>Message types\<close>

lemma message_type_from_as [simp]: "message_type_from_u16 (message_type_as_u16 t) = Some t"
  by (cases t) (simp_all add: message_type_from_u16_def message_types_def)

lemma message_type_as_from: "message_type_from_u16 v = Some t \<Longrightarrow> message_type_as_u16 t = v"
  by (auto simp: message_type_from_u16_def message_types_def split: if_splits)

lemma max_payload_le: "max_payload t \<le> MAX_HOLDER_CONTROL_FRAME"
  by (simp add: max_payload_def MAX_HOLDER_IO_FRAME_def MAX_HOLDER_CONTROL_FRAME_def)

lemma max_payload_lt_u32: "n \<le> max_payload t \<Longrightarrow> n < 2 ^ 32"
  using max_payload_le[of t] by (simp add: MAX_HOLDER_CONTROL_FRAME_def)

section \<open>The frame format is canonical\<close>

definition wire_frame :: "u16 \<Rightarrow> holder_frame \<Rightarrow> bytes" where
  "wire_frame minor f =
     HOLDER_MAGIC @ to_be_bytes HOLDER_PROTOCOL_MAJOR @ to_be_bytes minor
     @ to_be_bytes (of_nat (length (fr_payload f)) :: u32)
     @ to_be_bytes (message_type_as_u16 (fr_message_type f)) @ to_be_bytes (fr_flags f)
     @ to_be_bytes (fr_request_id f) @ to_be_bytes (fr_generation f)
     @ to_be_bytes (0 :: u32) @ fr_payload f"

definition frame_ok :: "u16 \<Rightarrow> holder_frame \<Rightarrow> bool" where
  "frame_ok minor f \<longleftrightarrow> is_ok (validate_minor minor) \<and> fr_flags f = 0
     \<and> length (fr_payload f) \<le> max_payload (fr_message_type f)"

lemma length_magic [simp]: "length HOLDER_MAGIC = 4"
  by (simp add: HOLDER_MAGIC_def)

lemma length_wire_frame [wire_len, simp]:
  "length (wire_frame minor f) = HOLDER_HEADER_SIZE + length (fr_payload f)"
  by (simp add: wire_frame_def HOLDER_HEADER_SIZE_def)

lemma validate_minor_ok: "is_ok (validate_minor m) \<longleftrightarrow> validate_minor m = Inr ()"
  by (simp add: validate_minor_def)

lemma encode_frame_eq:
  "encode_frame_with_minor f minor = Inr bs \<longleftrightarrow> frame_ok minor f \<and> bs = wire_frame minor f"
  using max_payload_lt_u32[of "length (fr_payload f)" "fr_message_type f"]
  by (auto simp: encode_frame_with_minor_def frame_ok_def wire_frame_def validate_minor_def
        put_defs Let_def)

lemma frame_ok_length: "frame_ok minor f \<Longrightarrow> length (fr_payload f) \<le> MAX_HOLDER_CONTROL_FRAME"
  using max_payload_le[of "fr_message_type f"] by (simp add: frame_ok_def)

lemma frame_ok_fits: "frame_ok minor f \<Longrightarrow> fits (wire_frame minor f)"
  using frame_ok_length[of minor f]
  by (intro fits_small) (simp add: HOLDER_HEADER_SIZE_def MAX_HOLDER_CONTROL_FRAME_def)

lemma wire_frame_payload: "drop HOLDER_HEADER_SIZE (wire_frame minor f) = fr_payload f"
  by (simp add: wire_frame_def HOLDER_HEADER_SIZE_def)

lemma decode_wire_frame:
  assumes "frame_ok minor f"
  shows "decode_frame_with_minor (wire_frame minor f) minor = Inr f"
proof -
  have fits: "fits (wire_frame minor f)" and len: "length (fr_payload f) < 2 ^ 32"
    using assms frame_ok_fits max_payload_lt_u32 by (auto simp: frame_ok_def)
  have "drop 32 (wire_frame minor f) = fr_payload f"
    using wire_frame_payload by (simp add: HOLDER_HEADER_SIZE_def)
  then show ?thesis
    using assms len fits[unfolded wire_frame_def]
    by (simp add: decode_frame_with_minor_def reader_new_at wire_frame_def[THEN arg_cong[where f = "rd_at []"]]
        rd_at_simps frame_ok_def validate_minor_ok checked_add_usize_def HOLDER_HEADER_SIZE_def
        usize_max_def)
qed

text \<open>Conversely, whatever is accepted is the encoding of the frame it is decoded to.\<close>

lemma decode_frame_ok:
  assumes "decode_frame_with_minor bs minor = Inr f"
  shows "frame_ok minor f \<and> bs = wire_frame minor f"
proof -
  from assms obtain t plen code rid gen rest where
    minor: "validate_minor minor = Inr ()" and code: "message_type_from_u16 code = Some t"
    and bs: "bs = HOLDER_MAGIC @ to_be_bytes HOLDER_PROTOCOL_MAJOR @ to_be_bytes minor
      @ to_be_bytes (plen :: u32) @ to_be_bytes code @ to_be_bytes (0 :: u16)
      @ to_be_bytes (rid :: u32) @ to_be_bytes (gen :: u64) @ to_be_bytes (0 :: u32) @ rest"
    and plen: "unat plen \<le> max_payload t" "length bs = 32 + unat plen"
    and f: "f = \<lparr>fr_message_type = t, fr_flags = 0, fr_request_id = rid, fr_generation = gen,
      fr_payload = drop 32 bs\<rparr>"
    unfolding decode_frame_with_minor_def reader_new_at
    by (elim rbind_Inr_elim)
       (auto simp: ok_or_eq_Inr checked_add_usize_def HOLDER_HEADER_SIZE_def
          split: if_splits elim!: rbind_Inr_elim dest!: rd_atD)
  have rest: "drop 32 bs = rest"
    by (simp add: bs)
  have "length rest = unat plen"
    using plen(2) by (simp add: bs)
  moreover from this have "of_nat (length rest) = plen"
    by simp
  ultimately show ?thesis
    using plen(1) minor message_type_as_from[OF code]
    by (simp add: f rest frame_ok_def wire_frame_def bs)
qed

lemma frame_codec_iff:
  "decode_frame_with_minor bs minor = Inr f \<longleftrightarrow> encode_frame_with_minor f minor = Inr bs"
  using decode_frame_ok decode_wire_frame by (auto simp: encode_frame_eq)

section \<open>The accumulator takes one frame at a time\<close>

lemma wire_frame_fields:
  "take 4 (drop 8 (wire_frame minor f)) = to_be_bytes (of_nat (length (fr_payload f)) :: u32)"
  "take 2 (drop 6 (wire_frame minor f)) = to_be_bytes minor"
  by (simp_all add: wire_frame_def)

lemma acc_try_read_frame:
  assumes "frame_ok minor f"
  shows "acc_try_read_supported (wire_frame minor f @ rest) = Inr (Some (minor, f), rest)"
proof -
  have "length (fr_payload f) \<le> MAX_HOLDER_CONTROL_FRAME"
    using assms by (rule frame_ok_length)
  moreover from this have "length (fr_payload f) < 2 ^ 32"
    by (simp add: MAX_HOLDER_CONTROL_FRAME_def)
  ultimately show ?thesis
    using decode_wire_frame[OF assms] length_wire_frame[of minor f]
    by (simp add: acc_try_read_supported_def Let_def wire_frame_fields checked_add_usize_def
        usize_max_def HOLDER_HEADER_SIZE_def)
qed

lemma acc_try_read_partial:
  assumes "frame_ok minor f" and "wire_frame minor f = part @ missing" and "missing \<noteq> []"
  shows "acc_try_read_supported part = Inr (None, part)"
proof (cases "length part < HOLDER_HEADER_SIZE")
  case True
  then show ?thesis by (simp add: acc_try_read_supported_def)
next
  case False
  have n: "length (fr_payload f) \<le> MAX_HOLDER_CONTROL_FRAME"
    using assms(1) by (rule frame_ok_length)
  then have u: "length (fr_payload f) < 2 ^ 32"
    by (simp add: MAX_HOLDER_CONTROL_FRAME_def)
  have "take 4 (drop 8 part) = take 4 (drop 8 (wire_frame minor f))"
    using False by (simp add: assms(2) HOLDER_HEADER_SIZE_def)
  then have "take 4 (drop 8 part) = to_be_bytes (of_nat (length (fr_payload f)) :: u32)"
    by (simp add: wire_frame_fields)
  moreover have "length part < HOLDER_HEADER_SIZE + length (fr_payload f)"
    using arg_cong[OF assms(2), of length] assms(3) by (simp add: Suc_le_eq)
  ultimately show ?thesis
    using False n u
    by (simp add: acc_try_read_supported_def Let_def checked_add_usize_def usize_max_def
        HOLDER_HEADER_SIZE_def MAX_HOLDER_CONTROL_FRAME_def)
qed

lemma acc_try_read_shrinks:
  assumes "acc_try_read_supported buffer = Inr (Some (minor, f), rest)"
  shows "length rest < length buffer"
  using assms
  by (auto simp: acc_try_read_supported_def Let_def checked_add_usize_def HOLDER_HEADER_SIZE_def
      split: if_splits elim!: rbind_Inr_elim)

end
