(* ===== verification/Holder_Handshake.thy ===== *)
theory Holder_Handshake
  imports Holder_Frame
begin

unbundle bit_operations_syntax

text \<open>
  The messages that open a connection to the holder: the control and data handshakes
  (\<open>crates/persist-ipc/src/holder/handshake.rs\<close>) and the capability negotiation
  (\<open>holder/capability.rs\<close>). A fixed array \<open>[u8; 16]\<close> is a byte list, and each message has a
  predicate \<open>*_ok\<close> that says its arrays have their length and its fields are ones the
  decoder accepts. For every message the decoder accepts exactly the encodings of such
  values, so no two payloads decode to the same message.
\<close>

section \<open>Model\<close>

datatype hello_status = Accepted | HelloVersionMismatch | PermissionDenied | Busy

record control_hello =
  ch_uid :: u32
  ch_daemon_pid :: u32
  ch_nonce :: bytes

record control_hello_ack =
  cha_holder_pid :: u32
  cha_instance_id :: bytes
  cha_nonce :: bytes
  cha_status :: hello_status

record capability_request =
  cq_instance_id :: bytes
  cq_nonce :: bytes
  cq_max_minor :: u16

record capability_response =
  cr_instance_id :: bytes
  cr_nonce :: bytes
  cr_selected_minor :: u16
  cr_capabilities :: u64

record data_hello =
  dh_daemon_pid :: u32
  dh_instance_id :: bytes
  dh_nonce :: bytes

record data_hello_ack =
  dha_instance_id :: bytes
  dha_nonce :: bytes
  dha_status :: hello_status

definition zero16 :: bytes where
  "zero16 = replicate 16 0"

fun encode_hello_status :: "hello_status \<Rightarrow> u8" where
  "encode_hello_status Accepted = 0"
| "encode_hello_status HelloVersionMismatch = 1"
| "encode_hello_status PermissionDenied = 2"
| "encode_hello_status Busy = 3"

definition decode_hello_status :: "u8 \<Rightarrow> holder_protocol_error + hello_status" where
  "decode_hello_status value =
     (if value = 0 then Inr Accepted
      else if value = 1 then Inr HelloVersionMismatch
      else if value = 2 then Inr PermissionDenied
      else if value = 3 then Inr Busy
      else Inl InvalidField)"

definition length_error :: "nat \<Rightarrow> nat \<Rightarrow> holder_protocol_error" where
  "length_error actual expected = (if actual < expected then Truncated else Trailing)"

definition encode_control_hello :: "control_hello \<Rightarrow> bytes" where
  "encode_control_hello hello =
     put_u32 (put_u32 [] (ch_uid hello)) (ch_daemon_pid hello) @ ch_nonce hello"

definition decode_control_hello :: "bytes \<Rightarrow> holder_protocol_error + control_hello" where
  "decode_control_hello payload =
     (if length payload \<noteq> 24 then Inl (length_error (length payload) 24) else
      rbind (rd_u32 (reader_new payload)) (\<lambda>(uid, r).
      rbind (rd_u32 r) (\<lambda>(daemon_pid, r).
      rbind (rd_fixed 16 r) (\<lambda>(nonce, r).
      rbind (rd_finish r) (\<lambda>_.
      if daemon_pid = 0 \<or> nonce = zero16 then Inl InvalidField
      else Inr \<lparr>ch_uid = uid, ch_daemon_pid = daemon_pid, ch_nonce = nonce\<rparr>)))))"

definition encode_control_hello_ack :: "control_hello_ack \<Rightarrow> bytes" where
  "encode_control_hello_ack ack =
     put_u8 (put_u32 [] (cha_holder_pid ack) @ cha_instance_id ack @ cha_nonce ack)
       (encode_hello_status (cha_status ack))"

definition decode_control_hello_ack ::
    "bytes \<Rightarrow> holder_protocol_error + control_hello_ack" where
  "decode_control_hello_ack payload =
     (if length payload \<noteq> 37 then Inl (length_error (length payload) 37) else
      rbind (rd_u32 (reader_new payload)) (\<lambda>(holder_pid, r).
      rbind (rd_fixed 16 r) (\<lambda>(instance_id, r).
      rbind (rd_fixed 16 r) (\<lambda>(nonce, r).
      rbind (rd_u8 r) (\<lambda>(code, r).
      rbind (decode_hello_status code) (\<lambda>status.
      rbind (rd_finish r) (\<lambda>_.
      if holder_pid = 0 \<or> instance_id = zero16 \<or> nonce = zero16 then Inl InvalidField
      else Inr \<lparr>cha_holder_pid = holder_pid, cha_instance_id = instance_id,
                cha_nonce = nonce, cha_status = status\<rparr>)))))))"

definition encode_data_hello :: "data_hello \<Rightarrow> bytes" where
  "encode_data_hello hello =
     put_u32 [] (dh_daemon_pid hello) @ dh_instance_id hello @ dh_nonce hello"

definition decode_data_hello :: "bytes \<Rightarrow> holder_protocol_error + data_hello" where
  "decode_data_hello payload =
     (if length payload \<noteq> 36 then Inl (length_error (length payload) 36) else
      rbind (rd_u32 (reader_new payload)) (\<lambda>(daemon_pid, r).
      rbind (rd_fixed 16 r) (\<lambda>(instance_id, r).
      rbind (rd_fixed 16 r) (\<lambda>(nonce, r).
      rbind (rd_finish r) (\<lambda>_.
      if daemon_pid = 0 \<or> instance_id = zero16 \<or> nonce = zero16 then Inl InvalidField
      else Inr \<lparr>dh_daemon_pid = daemon_pid, dh_instance_id = instance_id,
                dh_nonce = nonce\<rparr>)))))"

definition encode_data_hello_ack :: "data_hello_ack \<Rightarrow> bytes" where
  "encode_data_hello_ack ack =
     put_u8 (dha_instance_id ack @ dha_nonce ack) (encode_hello_status (dha_status ack))"

definition decode_data_hello_ack :: "bytes \<Rightarrow> holder_protocol_error + data_hello_ack" where
  "decode_data_hello_ack payload =
     (if length payload \<noteq> 33 then Inl (length_error (length payload) 33) else
      rbind (rd_fixed 16 (reader_new payload)) (\<lambda>(instance_id, r).
      rbind (rd_fixed 16 r) (\<lambda>(nonce, r).
      rbind (rd_u8 r) (\<lambda>(code, r).
      rbind (decode_hello_status code) (\<lambda>status.
      rbind (rd_finish r) (\<lambda>_.
      if instance_id = zero16 \<or> nonce = zero16 then Inl InvalidField
      else Inr \<lparr>dha_instance_id = instance_id, dha_nonce = nonce, dha_status = status\<rparr>))))))"

definition valid_minor :: "u16 \<Rightarrow> bool" where
  "valid_minor minor \<longleftrightarrow>
     HOLDER_PROTOCOL_BASELINE_MINOR \<le> minor \<and> minor \<le> HOLDER_PROTOCOL_MINOR"

definition encode_capability_request :: "capability_request \<Rightarrow> bytes" where
  "encode_capability_request request =
     put_u16 (cq_instance_id request @ cq_nonce request) (cq_max_minor request)"

definition decode_capability_request ::
    "bytes \<Rightarrow> holder_protocol_error + capability_request" where
  "decode_capability_request payload =
      rbind (rd_fixed 16 (reader_new payload)) (\<lambda>(instance_id, r).
      rbind (rd_fixed 16 r) (\<lambda>(nonce, r).
      rbind (rd_u16 r) (\<lambda>(max_minor, r).
      rbind (rd_finish r) (\<lambda>_.
      if instance_id = zero16 \<or> nonce = zero16 \<or> \<not> valid_minor max_minor then Inl InvalidField
      else Inr \<lparr>cq_instance_id = instance_id, cq_nonce = nonce, cq_max_minor = max_minor\<rparr>))))"

definition encode_capability_response :: "capability_response \<Rightarrow> bytes" where
  "encode_capability_response response =
     put_u64 (put_u16 (cr_instance_id response @ cr_nonce response) (cr_selected_minor response))
       (cr_capabilities response)"

definition capabilities_ok :: "u16 \<Rightarrow> u64 \<Rightarrow> bool" where
  "capabilities_ok selected_minor capabilities \<longleftrightarrow>
     valid_minor selected_minor
     \<and> capabilities AND NOT HOLDER_CAPABILITY_ENVIRONMENT_CONTEXT = 0
     \<and> \<not> (selected_minor = HOLDER_PROTOCOL_BASELINE_MINOR \<and> capabilities \<noteq> 0)"

definition decode_capability_response ::
    "bytes \<Rightarrow> holder_protocol_error + capability_response" where
  "decode_capability_response payload =
      rbind (rd_fixed 16 (reader_new payload)) (\<lambda>(instance_id, r).
      rbind (rd_fixed 16 r) (\<lambda>(nonce, r).
      rbind (rd_u16 r) (\<lambda>(selected_minor, r).
      rbind (rd_u64 r) (\<lambda>(capabilities, r).
      rbind (rd_finish r) (\<lambda>_.
      if instance_id = zero16 \<or> nonce = zero16
         \<or> \<not> capabilities_ok selected_minor capabilities then Inl InvalidField
      else Inr \<lparr>cr_instance_id = instance_id, cr_nonce = nonce,
                cr_selected_minor = selected_minor, cr_capabilities = capabilities\<rparr>)))))"

section \<open>Every decoder accepts exactly the encodings of valid messages\<close>

definition id16 :: "bytes \<Rightarrow> bool" where
  "id16 b \<longleftrightarrow> length b = 16 \<and> b \<noteq> zero16"

definition control_hello_ok :: "control_hello \<Rightarrow> bool" where
  "control_hello_ok h \<longleftrightarrow> ch_daemon_pid h \<noteq> 0 \<and> id16 (ch_nonce h)"

definition control_hello_ack_ok :: "control_hello_ack \<Rightarrow> bool" where
  "control_hello_ack_ok a \<longleftrightarrow>
     cha_holder_pid a \<noteq> 0 \<and> id16 (cha_instance_id a) \<and> id16 (cha_nonce a)"

definition data_hello_ok :: "data_hello \<Rightarrow> bool" where
  "data_hello_ok h \<longleftrightarrow> dh_daemon_pid h \<noteq> 0 \<and> id16 (dh_instance_id h) \<and> id16 (dh_nonce h)"

definition data_hello_ack_ok :: "data_hello_ack \<Rightarrow> bool" where
  "data_hello_ack_ok a \<longleftrightarrow> id16 (dha_instance_id a) \<and> id16 (dha_nonce a)"

definition capability_request_ok :: "capability_request \<Rightarrow> bool" where
  "capability_request_ok c \<longleftrightarrow>
     id16 (cq_instance_id c) \<and> id16 (cq_nonce c) \<and> valid_minor (cq_max_minor c)"

definition capability_response_ok :: "capability_response \<Rightarrow> bool" where
  "capability_response_ok c \<longleftrightarrow> id16 (cr_instance_id c) \<and> id16 (cr_nonce c)
     \<and> capabilities_ok (cr_selected_minor c) (cr_capabilities c)"

lemma hello_status_codec:
  "decode_hello_status v = Inr s \<longleftrightarrow> v = encode_hello_status s"
  by (cases s) (auto simp: decode_hello_status_def)

lemma fits_short [simp]: "length bs \<le> 64 \<Longrightarrow> fits bs"
  by (rule fits_small) simp

lemmas handshake_run = reader_new_at put_defs rd_at_simps hello_status_codec

lemma control_hello_codec:
  "decode_control_hello p = Inr h \<longleftrightarrow> control_hello_ok h \<and> p = encode_control_hello h"
proof
  assume "decode_control_hello p = Inr h"
  then show "control_hello_ok h \<and> p = encode_control_hello h"
    by (auto simp: decode_control_hello_def encode_control_hello_def control_hello_ok_def id16_def
        reader_new_at put_defs split: if_splits elim!: rbind_Inr_elim dest!: rd_atD)
next
  assume "control_hello_ok h \<and> p = encode_control_hello h"
  then show "decode_control_hello p = Inr h"
    by (simp add: decode_control_hello_def encode_control_hello_def control_hello_ok_def id16_def
        handshake_run)
qed

lemma control_hello_ack_codec:
  "decode_control_hello_ack p = Inr a \<longleftrightarrow>
   control_hello_ack_ok a \<and> p = encode_control_hello_ack a"
proof
  assume "decode_control_hello_ack p = Inr a"
  then show "control_hello_ack_ok a \<and> p = encode_control_hello_ack a"
    by (auto simp: decode_control_hello_ack_def encode_control_hello_ack_def
        control_hello_ack_ok_def id16_def reader_new_at put_defs hello_status_codec
        split: if_splits elim!: rbind_Inr_elim dest!: rd_atD)
next
  assume "control_hello_ack_ok a \<and> p = encode_control_hello_ack a"
  moreover have "decode_hello_status (encode_hello_status (cha_status a)) = Inr (cha_status a)"
    by (simp add: hello_status_codec)
  ultimately show "decode_control_hello_ack p = Inr a"
    by (simp add: decode_control_hello_ack_def encode_control_hello_ack_def
        control_hello_ack_ok_def id16_def reader_new_at put_defs rd_at_simps)
qed

lemma data_hello_codec:
  "decode_data_hello p = Inr h \<longleftrightarrow> data_hello_ok h \<and> p = encode_data_hello h"
proof
  assume "decode_data_hello p = Inr h"
  then show "data_hello_ok h \<and> p = encode_data_hello h"
    by (auto simp: decode_data_hello_def encode_data_hello_def data_hello_ok_def id16_def
        reader_new_at put_defs split: if_splits elim!: rbind_Inr_elim dest!: rd_atD)
next
  assume "data_hello_ok h \<and> p = encode_data_hello h"
  then show "decode_data_hello p = Inr h"
    by (simp add: decode_data_hello_def encode_data_hello_def data_hello_ok_def id16_def
        handshake_run)
qed

lemma data_hello_ack_codec:
  "decode_data_hello_ack p = Inr a \<longleftrightarrow> data_hello_ack_ok a \<and> p = encode_data_hello_ack a"
proof
  assume "decode_data_hello_ack p = Inr a"
  then show "data_hello_ack_ok a \<and> p = encode_data_hello_ack a"
    by (auto simp: decode_data_hello_ack_def encode_data_hello_ack_def data_hello_ack_ok_def
        id16_def reader_new_at put_defs hello_status_codec
        split: if_splits elim!: rbind_Inr_elim dest!: rd_atD)
next
  assume "data_hello_ack_ok a \<and> p = encode_data_hello_ack a"
  moreover have "decode_hello_status (encode_hello_status (dha_status a)) = Inr (dha_status a)"
    by (simp add: hello_status_codec)
  ultimately show "decode_data_hello_ack p = Inr a"
    by (simp add: decode_data_hello_ack_def encode_data_hello_ack_def data_hello_ack_ok_def
        id16_def reader_new_at put_defs rd_at_simps)
qed

lemma capability_request_codec:
  "decode_capability_request p = Inr c \<longleftrightarrow>
   capability_request_ok c \<and> p = encode_capability_request c"
proof
  assume "decode_capability_request p = Inr c"
  then show "capability_request_ok c \<and> p = encode_capability_request c"
    by (auto simp: decode_capability_request_def encode_capability_request_def
        capability_request_ok_def id16_def reader_new_at put_defs
        split: if_splits elim!: rbind_Inr_elim dest!: rd_atD)
next
  assume "capability_request_ok c \<and> p = encode_capability_request c"
  then show "decode_capability_request p = Inr c"
    by (simp add: decode_capability_request_def encode_capability_request_def
        capability_request_ok_def id16_def handshake_run)
qed

lemma capability_response_codec:
  "decode_capability_response p = Inr c \<longleftrightarrow>
   capability_response_ok c \<and> p = encode_capability_response c"
proof
  assume "decode_capability_response p = Inr c"
  then show "capability_response_ok c \<and> p = encode_capability_response c"
    by (auto simp: decode_capability_response_def encode_capability_response_def
        capability_response_ok_def id16_def reader_new_at put_defs
        split: if_splits elim!: rbind_Inr_elim dest!: rd_atD)
next
  assume "capability_response_ok c \<and> p = encode_capability_response c"
  then show "decode_capability_response p = Inr c"
    by (simp add: decode_capability_response_def encode_capability_response_def
        capability_response_ok_def id16_def handshake_run)
qed

end
