(* ===== verification/Shell_Environment.thy ===== *)
theory Shell_Environment
  imports Persist_Prelude "HOL-Library.Sublist" "HOL-Library.List_Lexorder"
begin

unbundle bit_operations_syntax

text \<open>
  The environment a session saves and is launched with:
  \<open>crates/persist-core/src/shell_state/environment.rs\<close> (the policy that decides which
  variables may be captured, the captured snapshot and its limits) and
  \<open>environment/launch.rs\<close> (the four layers of a launch environment). A \<open>BTreeMap<String,
  String>\<close> is an association list sorted by name and a \<open>BTreeSet<String>\<close> a sorted list,
  both in the byte order of Rust strings.

  The JSON form of a snapshot is produced by the crate \<open>serde_json\<close>: it is the parameter
  \<open>to_vec\<close> (and \<open>from_slice\<close>) of the definitions that use it, with \<open>Inl\<close> for the text of
  a serialisation error.
\<close>

section \<open>Names\<close>

definition MAX_SHELL_ENVIRONMENT_VARIABLES :: nat where
  "MAX_SHELL_ENVIRONMENT_VARIABLES = 128"

definition MAX_SHELL_ENVIRONMENT_NAME_BYTES :: nat where
  "MAX_SHELL_ENVIRONMENT_NAME_BYTES = 128"

definition MAX_SHELL_ENVIRONMENT_VALUE_BYTES :: nat where
  "MAX_SHELL_ENVIRONMENT_VALUE_BYTES = 8 * 1024"

definition MAX_SHELL_ENVIRONMENT_BYTES :: nat where
  "MAX_SHELL_ENVIRONMENT_BYTES = 64 * 1024"

definition SHELL_ENVIRONMENT_FORMAT_VERSION :: u32 where
  "SHELL_ENVIRONMENT_FORMAT_VERSION = 1"

definition SHELL_ENVIRONMENT_POLICY_VERSION :: u32 where
  "SHELL_ENVIRONMENT_POLICY_VERSION = 1"

definition CONNECTION_NAMES :: "rstring list" where
  "CONNECTION_NAMES = map ascii
     [''COLORTERM'', ''DISPLAY'', ''SSH_AUTH_SOCK'', ''SSH_CLIENT'', ''SSH_CONNECTION'',
      ''SSH_TTY'', ''TERM'', ''WAYLAND_DISPLAY'']"

definition BASE_NAMES :: "rstring list" where
  "BASE_NAMES = map ascii
     [''HOME'', ''LOGNAME'', ''OLDPWD'', ''PATH'', ''PWD'', ''SHELL'', ''SHLVL'', ''USER'', ''_'']"

definition SENSITIVE_MARKERS :: "rstring list" where
  "SENSITIVE_MARKERS = map ascii
     [''ACCESS_KEY'', ''API_KEY'', ''COOKIE'', ''CREDENTIAL'', ''PASSWORD'', ''PASSWD'',
      ''PRIVATE_KEY'', ''SECRET'', ''TOKEN'']"

definition is_ascii_alphabetic :: "u8 \<Rightarrow> bool" where
  "is_ascii_alphabetic b \<longleftrightarrow> 65 \<le> b \<and> b \<le> 90 \<or> 97 \<le> b \<and> b \<le> 122"

definition is_ascii_digit :: "u8 \<Rightarrow> bool" where
  "is_ascii_digit b \<longleftrightarrow> 48 \<le> b \<and> b \<le> 57"

definition is_ascii_alphanumeric :: "u8 \<Rightarrow> bool" where
  "is_ascii_alphanumeric b \<longleftrightarrow> is_ascii_alphabetic b \<or> is_ascii_digit b"

definition to_ascii_uppercase :: "rstring \<Rightarrow> rstring" where
  "to_ascii_uppercase s = map (\<lambda>b. if 97 \<le> b \<and> b \<le> 122 then b - 32 else b) s"

definition valid_name :: "rstring \<Rightarrow> bool" where
  "valid_name name \<longleftrightarrow>
     length name \<le> MAX_SHELL_ENVIRONMENT_NAME_BYTES
     \<and> (case name of [] \<Rightarrow> False | b # _ \<Rightarrow> b = 95 \<or> is_ascii_alphabetic b)
     \<and> list_all (\<lambda>b. b = 95 \<or> is_ascii_alphanumeric b) name"

definition hard_denied :: "rstring \<Rightarrow> bool" where
  "hard_denied name \<longleftrightarrow>
     (let upper = to_ascii_uppercase name in
      upper \<in> set CONNECTION_NAMES
      \<or> upper \<in> set BASE_NAMES
      \<or> prefix (ascii ''XDG_'') upper
      \<or> prefix (ascii ''PERSIST_'') upper
      \<or> list_ex (\<lambda>marker. sublist marker upper) SENSITIVE_MARKERS)"

definition valid_fingerprint :: "rstring \<Rightarrow> bool" where
  "valid_fingerprint value \<longleftrightarrow>
     length value = 16 \<and> list_all (\<lambda>b. is_ascii_digit b \<or> 97 \<le> b \<and> b \<le> 102) value"

section \<open>Rules and policy\<close>

text \<open>A trailing asterisk (byte 42) makes a rule a prefix rule.\<close>

definition strip_star :: "rstring \<Rightarrow> rstring option" where
  "strip_star rule = (if rule \<noteq> [] \<and> last rule = 42 then Some (butlast rule) else None)"

definition rule_matches :: "rstring \<Rightarrow> rstring \<Rightarrow> bool" where
  "rule_matches rule name =
     (case strip_star rule of None \<Rightarrow> rule = name | Some pre \<Rightarrow> prefix pre name)"

definition validate_rule :: "rstring \<Rightarrow> persist_error + unit" where
  "validate_rule rule =
     (let name = (case strip_star rule of None \<Rightarrow> rule | Some pre \<Rightarrow> pre) in
      if name = []
         \<or> (if strip_star rule \<noteq> None then 1 else 0) < count_list rule 42
         \<or> \<not> valid_name name \<or> hard_denied name
      then Inl (InvalidArgument ''environment include rule is invalid or forbidden'')
      else Inr ())"

text \<open>The FNV-1a hash of the policy, printed as 16 hexadecimal digits.\<close>

definition hex_digits :: bytes where
  "hex_digits = ascii ''0123456789abcdef''"

definition hex_u64 :: "u64 \<Rightarrow> rstring" where
  "hex_u64 h = map (\<lambda>i. hex_digits ! unat (drop_bit (4 * i) h AND 15)) (rev [0..<16])"

definition fnv_step :: "u8 \<Rightarrow> u64 \<Rightarrow> u64" where
  "fnv_step b h = (h XOR ucast b) * 0x100000001b3"

definition fingerprint :: "rstring list \<Rightarrow> nat \<Rightarrow> nat \<Rightarrow> rstring" where
  "fingerprint incl max_variables max_bytes =
     hex_u64 (fold fnv_step
       (to_be_bytes SHELL_ENVIRONMENT_POLICY_VERSION
        @ to_be_bytes (of_nat max_variables :: u64) @ to_be_bytes (of_nat max_bytes :: u64)
        @ concat (map (\<lambda>rule. rule @ [0]) incl))
       0xcbf29ce484222325)"

record environment_policy =
  ep_include :: "rstring list"
  ep_max_variables :: nat
  ep_max_bytes :: nat
  ep_fingerprint :: rstring

definition exact_names_of :: "rstring list \<Rightarrow> rstring list" where
  "exact_names_of incl = ascii ''LANG'' # filter (\<lambda>rule. strip_star rule = None) incl"

text \<open>The check of every rule in turn.\<close>

primrec validate_rules :: "rstring list \<Rightarrow> persist_error + unit" where
  "validate_rules [] = Inr ()"
| "validate_rules (r # rs) = rbind (validate_rule r) (\<lambda>_. validate_rules rs)"

definition environment_policy_new ::
    "rstring list \<Rightarrow> nat \<Rightarrow> nat \<Rightarrow> persist_error + environment_policy" where
  "environment_policy_new incl max_variables max_bytes =
     (if max_variables = 0 \<or> MAX_SHELL_ENVIRONMENT_VARIABLES < max_variables
      then Inl (InvalidArgument ''environment variable limit is invalid'')
      else if max_bytes = 0 \<or> MAX_SHELL_ENVIRONMENT_BYTES < max_bytes
      then Inl (InvalidArgument ''environment byte limit is invalid'')
      else
        let normalized = sort incl in
        if \<not> distinct_adj normalized
        then Inl (InvalidArgument ''environment include rules contain duplicates'')
        else rbind (validate_rules normalized) (\<lambda>_.
          if max_variables < length (remdups (exact_names_of normalized))
          then Inl (InvalidArgument ''environment variable limit is below exact include count'')
          else Inr \<lparr>ep_include = normalized, ep_max_variables = max_variables,
                    ep_max_bytes = max_bytes,
                    ep_fingerprint = fingerprint normalized max_variables max_bytes\<rparr>))"

definition policy_allows :: "environment_policy \<Rightarrow> rstring \<Rightarrow> bool" where
  "policy_allows p name =
     (if \<not> valid_name name \<or> hard_denied name then False
      else name = ascii ''LANG'' \<or> prefix (ascii ''LC_'') name
           \<or> list_ex (\<lambda>rule. rule_matches rule name) (ep_include p))"

section \<open>Snapshots\<close>

datatype capture_status = Complete | Preserved | Unavailable

record environment_snapshot =
  es_format_version :: u32
  es_policy_version :: u32
  es_policy_fingerprint :: rstring
  es_env_set :: "(rstring, rstring) btreemap"
  es_env_unset :: "rstring list"
  es_capture_status :: capture_status

type_synonym to_vec = "environment_snapshot \<Rightarrow> string + bytes"
type_synonym from_slice = "bytes \<Rightarrow> string + environment_snapshot"

definition snapshot_entry_ok :: "rstring \<Rightarrow> rstring \<Rightarrow> bool" where
  "snapshot_entry_ok name v \<longleftrightarrow>
     valid_name name \<and> length v \<le> MAX_SHELL_ENVIRONMENT_VALUE_BYTES \<and> 0 \<notin> set v"

definition snapshot_validate ::
    "to_vec \<Rightarrow> environment_snapshot \<Rightarrow> nat \<Rightarrow> nat \<Rightarrow> persist_error + unit" where
  "snapshot_validate to_vec s max_variables max_bytes =
     (if es_format_version s \<noteq> SHELL_ENVIRONMENT_FORMAT_VERSION
         \<or> es_policy_version s \<noteq> SHELL_ENVIRONMENT_POLICY_VERSION
         \<or> \<not> valid_fingerprint (es_policy_fingerprint s)
      then Inl (InvalidArgument ''environment snapshot version or fingerprint is invalid'')
      else if max_variables < length (es_env_set s) + length (es_env_unset s)
      then Inl (InvalidArgument ''environment snapshot has too many variables'')
      else if list_ex (\<lambda>(name, _). name \<in> set (es_env_unset s)) (es_env_set s)
      then Inl (InvalidArgument ''environment snapshot set and unset overlap'')
      else if \<not> list_all (\<lambda>(name, v). snapshot_entry_ok name v) (es_env_set s)
      then Inl (InvalidArgument ''environment snapshot entry is invalid'')
      else if \<not> list_all (\<lambda>name. snapshot_entry_ok name []) (es_env_unset s)
      then Inl (InvalidArgument ''environment snapshot entry is invalid'')
      else if es_capture_status s = Unavailable \<and> (es_env_set s \<noteq> [] \<or> es_env_unset s \<noteq> [])
      then Inl (InvalidArgument ''unavailable environment snapshot contains values'')
      else rbind (map_err (\<lambda>e. InvalidArgument (''encode environment snapshot: '' @ e)) (to_vec s))
        (\<lambda>encoded.
          if max_bytes < length encoded
          then Inl (InvalidArgument ''environment snapshot exceeds size limit'')
          else Inr ()))"

definition snapshot_validate_hard_limits ::
    "to_vec \<Rightarrow> environment_snapshot \<Rightarrow> persist_error + unit" where
  "snapshot_validate_hard_limits to_vec s =
     snapshot_validate to_vec s MAX_SHELL_ENVIRONMENT_VARIABLES MAX_SHELL_ENVIRONMENT_BYTES"

definition policy_filter_snapshot ::
    "to_vec \<Rightarrow> environment_policy \<Rightarrow> environment_snapshot \<Rightarrow> persist_error + environment_snapshot"
    where
  "policy_filter_snapshot to_vec p s =
     rbind (snapshot_validate_hard_limits to_vec s) (\<lambda>_.
       let env_set = filter (\<lambda>(name, _). policy_allows p name) (es_env_set s);
           env_unset = filter (policy_allows p) (es_env_unset s);
           changed = es_policy_fingerprint s \<noteq> ep_fingerprint p
             \<or> env_set \<noteq> es_env_set s \<or> env_unset \<noteq> es_env_unset s;
           filtered = \<lparr>es_format_version = SHELL_ENVIRONMENT_FORMAT_VERSION,
             es_policy_version = SHELL_ENVIRONMENT_POLICY_VERSION,
             es_policy_fingerprint = ep_fingerprint p,
             es_env_set = env_set, es_env_unset = env_unset,
             es_capture_status = (if changed then Preserved else es_capture_status s)\<rparr>
       in rbind (snapshot_validate to_vec filtered (ep_max_variables p) (ep_max_bytes p)) (\<lambda>_.
            Inr filtered))"

definition snapshot_capture ::
    "to_vec \<Rightarrow> environment_policy \<Rightarrow> environment_snapshot option \<Rightarrow> (rstring, rstring) btreemap
     \<Rightarrow> persist_error + environment_snapshot" where
  "snapshot_capture to_vec p previous current =
     (let env_set = filter (\<lambda>(name, _). policy_allows p name) current;
          tracked = sort (remdups (exact_names_of (ep_include p)
            @ (case previous of None \<Rightarrow> []
               | Some s \<Rightarrow> map fst (es_env_set s) @ es_env_unset s)));
          env_unset = filter (\<lambda>name. policy_allows p name \<and> bt_get env_set name = None) tracked;
          snapshot = \<lparr>es_format_version = SHELL_ENVIRONMENT_FORMAT_VERSION,
            es_policy_version = SHELL_ENVIRONMENT_POLICY_VERSION,
            es_policy_fingerprint = ep_fingerprint p,
            es_env_set = env_set, es_env_unset = env_unset, es_capture_status = Complete\<rparr>
      in rbind (snapshot_validate to_vec snapshot (ep_max_variables p) (ep_max_bytes p)) (\<lambda>_.
           Inr snapshot))"

definition snapshot_fallback ::
    "to_vec \<Rightarrow> environment_policy \<Rightarrow> environment_snapshot option
     \<Rightarrow> persist_error + environment_snapshot" where
  "snapshot_fallback to_vec p previous =
     (let unavailable = \<lparr>es_format_version = SHELL_ENVIRONMENT_FORMAT_VERSION,
            es_policy_version = SHELL_ENVIRONMENT_POLICY_VERSION,
            es_policy_fingerprint = ep_fingerprint p,
            es_env_set = [], es_env_unset = [], es_capture_status = Unavailable\<rparr>;
          fresh = rbind (snapshot_validate to_vec unavailable (ep_max_variables p) (ep_max_bytes p))
            (\<lambda>_. Inr unavailable)
      in case previous of
           None \<Rightarrow> fresh
         | Some s \<Rightarrow>
             if es_policy_fingerprint s = ep_fingerprint p
                \<and> (es_env_set s \<noteq> [] \<or> es_env_unset s \<noteq> [])
             then let preserved = s\<lparr>es_capture_status := Preserved\<rparr> in
               if is_ok (snapshot_validate to_vec preserved (ep_max_variables p) (ep_max_bytes p))
               then Inr preserved else fresh
             else fresh)"

definition snapshot_preserved ::
    "to_vec \<Rightarrow> environment_snapshot \<Rightarrow> persist_error + environment_snapshot" where
  "snapshot_preserved to_vec s =
     (if es_env_set s = [] \<and> es_env_unset s = []
      then Inl (InvalidArgument ''empty environment snapshot cannot be preserved'')
      else let preserved = s\<lparr>es_capture_status := Preserved\<rparr> in
        rbind (snapshot_validate_hard_limits to_vec preserved) (\<lambda>_. Inr preserved))"

definition encode_environment_snapshot ::
    "to_vec \<Rightarrow> environment_snapshot \<Rightarrow> persist_error + bytes" where
  "encode_environment_snapshot to_vec s =
     rbind (snapshot_validate_hard_limits to_vec s) (\<lambda>_.
     rbind (map_err (\<lambda>e. InvalidArgument (''encode environment snapshot: '' @ e)) (to_vec s))
       (\<lambda>encoded.
         if MAX_SHELL_ENVIRONMENT_BYTES < length encoded
         then Inl (InvalidArgument ''environment snapshot exceeds size limit'')
         else Inr encoded))"

definition decode_environment_snapshot ::
    "to_vec \<Rightarrow> from_slice \<Rightarrow> bytes \<Rightarrow> persist_error + environment_snapshot" where
  "decode_environment_snapshot to_vec from_slice encoded =
     (if MAX_SHELL_ENVIRONMENT_BYTES < length encoded
      then Inl (InvalidArgument ''environment snapshot exceeds size limit'')
      else rbind (map_err (\<lambda>e. InvalidArgument (''decode environment snapshot: '' @ e))
                    (from_slice encoded))
        (\<lambda>s. rbind (snapshot_validate_hard_limits to_vec s) (\<lambda>_. Inr s)))"

section \<open>Launch environment\<close>

record shell_launch_environment =
  le_saved_set :: "(rstring \<times> rstring) list"
  le_saved_unset :: "rstring list"
  le_connection :: "(rstring \<times> rstring) list"
  le_private :: "(rstring \<times> rstring) list"

definition le_entry_count :: "shell_launch_environment \<Rightarrow> nat" where
  "le_entry_count e = length (le_saved_set e) + length (le_saved_unset e)
     + length (le_connection e) + length (le_private e)"

definition le_legacy_set_environment :: "shell_launch_environment \<Rightarrow> (rstring \<times> rstring) list" where
  "le_legacy_set_environment e = le_saved_set e @ le_connection e @ le_private e"

definition validate_pair :: "rstring \<Rightarrow> rstring \<Rightarrow> persist_error + unit" where
  "validate_pair name v =
     (if \<not> valid_name name \<or> MAX_SHELL_ENVIRONMENT_VALUE_BYTES < length v \<or> 0 \<in> set v
      then Inl (InvalidArgument ''launch environment entry is invalid'') else Inr ())"

definition insert_name :: "rstring set \<Rightarrow> rstring \<Rightarrow> persist_error + rstring set" where
  "insert_name names name =
     (if name \<in> names
      then Inl (InvalidArgument ''launch environment contains duplicate names'')
      else Inr (insert name names))"

definition add_bytes :: "nat \<Rightarrow> nat \<Rightarrow> persist_error + nat" where
  "add_bytes current added =
     rbind (ok_or (InvalidArgument ''launch environment size overflow'')
              (checked_add_usize current added)) (\<lambda>total.
       if MAX_SHELL_ENVIRONMENT_BYTES < total
       then Inl (InvalidArgument ''launch environment exceeds byte limit'') else Inr total)"

text \<open>The four loops of \<open>validate\<close> thread the names seen and the bytes counted; each checks
  its entry, records the name and counts the bytes, in this order.\<close>

primrec validate_layer ::
    "('x \<Rightarrow> persist_error + unit) \<Rightarrow> ('x \<Rightarrow> rstring) \<Rightarrow> ('x \<Rightarrow> nat) \<Rightarrow> 'x list
     \<Rightarrow> rstring set \<times> nat \<Rightarrow> persist_error + rstring set \<times> nat" where
  "validate_layer check name_of cost [] st = Inr st"
| "validate_layer check name_of cost (x # xs) st =
     rbind (check x) (\<lambda>_.
     rbind (insert_name (fst st) (name_of x)) (\<lambda>names.
     rbind (add_bytes (snd st) (cost x)) (\<lambda>bytes.
     validate_layer check name_of cost xs (names, bytes))))"

definition check_saved_set :: "rstring \<times> rstring \<Rightarrow> persist_error + unit" where
  "check_saved_set x =
     rbind (validate_pair (fst x) (snd x)) (\<lambda>_.
       if hard_denied (fst x)
       then Inl (InvalidArgument ''saved environment contains a forbidden name'') else Inr ())"

definition check_saved_unset :: "rstring \<Rightarrow> persist_error + unit" where
  "check_saved_unset name =
     (if \<not> valid_name name \<or> hard_denied name
      then Inl (InvalidArgument ''saved unset contains an invalid or forbidden name'') else Inr ())"

definition check_connection :: "rstring \<times> rstring \<Rightarrow> persist_error + unit" where
  "check_connection x =
     rbind (validate_pair (fst x) (snd x)) (\<lambda>_.
       if fst x \<notin> set CONNECTION_NAMES
       then Inl (InvalidArgument ''connection environment name is not allowed'') else Inr ())"

definition pair_size :: "rstring \<times> rstring \<Rightarrow> nat" where
  "pair_size x = length (fst x) + length (snd x)"

definition le_validate :: "shell_launch_environment \<Rightarrow> persist_error + unit" where
  "le_validate e =
     (if MAX_SHELL_ENVIRONMENT_VARIABLES < le_entry_count e
      then Inl (InvalidArgument ''launch environment has too many entries'')
      else
        rbind (validate_layer check_saved_set fst pair_size (le_saved_set e) ({}, 0)) (\<lambda>st.
        rbind (validate_layer check_saved_unset id length (le_saved_unset e) st) (\<lambda>st.
        rbind (validate_layer check_connection fst pair_size (le_connection e) st) (\<lambda>st.
        rbind (validate_layer (\<lambda>x. validate_pair (fst x) (snd x)) fst pair_size (le_private e) st)
          (\<lambda>st. Inr ())))))"

definition launch_environment_new ::
    "(rstring \<times> rstring) list \<Rightarrow> rstring list \<Rightarrow> (rstring \<times> rstring) list
     \<Rightarrow> (rstring \<times> rstring) list \<Rightarrow> persist_error + shell_launch_environment" where
  "launch_environment_new saved_set saved_unset connection private =
     (let e = \<lparr>le_saved_set = saved_set, le_saved_unset = saved_unset,
               le_connection = connection, le_private = private\<rparr>
      in rbind (le_validate e) (\<lambda>_. Inr e))"

definition launch_environment_legacy ::
    "(rstring \<times> rstring) list \<Rightarrow> persist_error + shell_launch_environment" where
  "launch_environment_legacy environment = launch_environment_new [] [] [] environment"

section \<open>Names and policies\<close>

lemma valid_name_nonempty: "valid_name n \<Longrightarrow> n \<noteq> []"
  by (auto simp: valid_name_def)

lemma valid_name_byte: "valid_name n \<Longrightarrow> b \<in> set n \<Longrightarrow> b \<noteq> 0 \<and> b < 0x80"
proof -
  assume "valid_name n" "b \<in> set n"
  then have "b = 95 \<or> is_ascii_alphanumeric b"
    by (auto simp: valid_name_def list_all_iff)
  moreover have "b < 0x80" if "b \<le> (c :: u8)" "c < 0x80" for c
    using that by (rule le_less_trans)
  ultimately show ?thesis
    by (auto simp: is_ascii_alphanumeric_def is_ascii_alphabetic_def is_ascii_digit_def)
qed

lemma valid_name_utf8: "valid_name n \<Longrightarrow> utf8_valid n \<and> 0 \<notin> set n"
  using valid_name_byte by (auto intro!: utf8_valid_ascii simp: list_all_iff)

lemma length_hex_u64 [simp]: "length (hex_u64 h) = 16"
  by (simp add: hex_u64_def)

lemma nibble_lt: "unat (w AND 15 :: u64) < 16"
proof -
  have "w AND 15 \<le> 15"
    by (rule word_and_le1)
  then have "unat (w AND 15) \<le> unat (15 :: u64)"
    by (simp only: word_le_nat_alt)
  then show ?thesis by simp
qed

lemma hex_digits_ok: "i < 16 \<Longrightarrow> is_ascii_digit (hex_digits ! i) \<or> 97 \<le> hex_digits ! i \<and> hex_digits ! i \<le> 102"
proof -
  have "list_all (\<lambda>b. is_ascii_digit b \<or> 97 \<le> b \<and> b \<le> 102) hex_digits"
    by (simp add: hex_digits_def ascii_def is_ascii_digit_def)
  then show "i < 16 \<Longrightarrow> ?thesis"
    by (simp add: list_all_length hex_digits_def)
qed

lemma fingerprint_valid: "valid_fingerprint (fingerprint incl mv mb)"
  using nibble_lt hex_digits_ok
  by (simp add: valid_fingerprint_def fingerprint_def list_all_iff hex_u64_def)

lemma validate_rules_all:
  "validate_rules rs = Inr () \<longleftrightarrow> list_all (\<lambda>r. validate_rule r = Inr ()) rs"
proof (induction rs)
  case (Cons r rs)
  then show ?case
    by (cases "validate_rule r") auto
qed simp

lemma policy_new_fields:
  assumes "environment_policy_new incl mv mb = Inr p"
  shows "ep_fingerprint p = fingerprint (sort incl) mv mb" "ep_max_variables p = mv"
    "ep_max_bytes p = mb" "ep_include p = sort incl"
    "list_all (\<lambda>r. validate_rule r = Inr ()) (sort incl)"
    "length (remdups (exact_names_of (sort incl))) \<le> mv" "mv \<le> MAX_SHELL_ENVIRONMENT_VARIABLES"
  using assms
  by (auto simp: environment_policy_new_def Let_def validate_rules_all rbind_eq_Inr
      split: if_splits)

text \<open>Each exact rule of a constructed policy names a variable the policy allows.\<close>

lemma exact_names_allowed:
  assumes "environment_policy_new incl mv mb = Inr p"
    and "n \<in> set (exact_names_of (ep_include p))"
  shows "policy_allows p n"
proof (cases "n = ascii ''LANG''")
  case True
  then show ?thesis
    by (auto simp: policy_allows_def valid_name_def hard_denied_def ascii_def Let_def
        is_ascii_alphabetic_def is_ascii_alphanumeric_def to_ascii_uppercase_def
        MAX_SHELL_ENVIRONMENT_NAME_BYTES_def CONNECTION_NAMES_def BASE_NAMES_def
        SENSITIVE_MARKERS_def dest!: sublist_length_le)
next
  case False
  then have n: "n \<in> set (ep_include p)" "strip_star n = None"
    using assms(2) by (auto simp: exact_names_of_def)
  then have "validate_rule n = Inr ()"
    using policy_new_fields[OF assms(1)] by (simp add: list_all_iff)
  then have "valid_name n" "\<not> hard_denied n"
    by (auto simp: validate_rule_def Let_def n split: if_splits)
  moreover have "rule_matches n n"
    by (simp add: rule_matches_def n)
  ultimately show ?thesis
    using n(1) by (auto simp: policy_allows_def list_ex_iff)
qed

section \<open>Snapshots keep to the policy\<close>

definition snapshot_names :: "environment_snapshot \<Rightarrow> rstring set" where
  "snapshot_names s = fst ` set (es_env_set s) \<union> set (es_env_unset s)"

lemma snapshot_validateD:
  assumes "snapshot_validate to_vec s mv mb = Inr u"
  shows "length (es_env_set s) + length (es_env_unset s) \<le> mv"
    "fst ` set (es_env_set s) \<inter> set (es_env_unset s) = {}"
    "\<exists>x. to_vec s = Inr x \<and> length x \<le> mb"
    "valid_fingerprint (es_policy_fingerprint s)"
  using assms
  by (auto simp: snapshot_validate_def list_ex_iff rbind_eq_Inr map_err_eq_Inr split: if_splits)

lemma capture_fields:
  assumes "snapshot_capture to_vec p previous current = Inr s"
  shows "es_env_set s = filter (\<lambda>(n, _). policy_allows p n) current"
    and "es_env_unset s = filter (\<lambda>n. policy_allows p n \<and> bt_get (es_env_set s) n = None)
      (sort (remdups (exact_names_of (ep_include p)
        @ (case previous of None \<Rightarrow> [] | Some q \<Rightarrow> map fst (es_env_set q) @ es_env_unset q))))"
    and "snapshot_validate to_vec s (ep_max_variables p) (ep_max_bytes p) = Inr ()"
    and "es_policy_fingerprint s = ep_fingerprint p"
  using assms by (auto simp: snapshot_capture_def Let_def rbind_eq_Inr)

lemma capture_unset:
  assumes "snapshot_capture to_vec p previous current = Inr s"
  shows "set (es_env_unset s) = {n \<in> set (exact_names_of (ep_include p))
           \<union> (case previous of None \<Rightarrow> {} | Some q \<Rightarrow> snapshot_names q).
         policy_allows p n \<and> n \<notin> fst ` set (es_env_set s)}"
  unfolding capture_fields(2)[OF assms]
  by (auto simp: snapshot_names_def map_of_eq_None_iff split: option.splits)

lemma capture_names:
  assumes "snapshot_capture to_vec p previous current = Inr s" and "n \<in> snapshot_names s"
  shows "policy_allows p n"
  using assms(2) capture_unset[OF assms(1)] capture_fields(1)[OF assms(1)]
  by (auto simp: snapshot_names_def)

lemma filter_fields:
  assumes "policy_filter_snapshot to_vec p s = Inr s'"
  shows "es_env_set s' = filter (\<lambda>(n, _). policy_allows p n) (es_env_set s)"
    and "es_env_unset s' = filter (policy_allows p) (es_env_unset s)"
    and "es_policy_fingerprint s' = ep_fingerprint p"
    and "snapshot_validate to_vec s' (ep_max_variables p) (ep_max_bytes p) = Inr ()"
  using assms by (auto simp: policy_filter_snapshot_def Let_def rbind_eq_Inr)

lemma filter_names:
  assumes "policy_filter_snapshot to_vec p s = Inr s'"
  shows "snapshot_names s' = {n \<in> snapshot_names s. policy_allows p n}"
  using filter_fields(1,2)[OF assms] by (force simp: snapshot_names_def)

lemma snapshot_validate_mono:
  assumes "snapshot_validate to_vec s mv mb = Inr u" and "mv \<le> mv'" and "mb \<le> mb'"
  shows "snapshot_validate to_vec s mv' mb' = Inr ()"
proof -
  obtain x where "to_vec s = Inr x" "length x \<le> mb"
    using snapshot_validateD(3)[OF assms(1)] by blast
  then show ?thesis
    using assms by (auto simp: snapshot_validate_def split: if_splits)
qed

text \<open>Filtering twice by the same policy changes nothing the second time.\<close>

lemma filter_snapshot_idem:
  assumes "policy_filter_snapshot to_vec p s = Inr s'"
    and "ep_max_variables p \<le> MAX_SHELL_ENVIRONMENT_VARIABLES"
    and "ep_max_bytes p \<le> MAX_SHELL_ENVIRONMENT_BYTES"
  shows "policy_filter_snapshot to_vec p s' = Inr s'"
proof -
  have "snapshot_validate_hard_limits to_vec s' = Inr ()"
    unfolding snapshot_validate_hard_limits_def
    using snapshot_validate_mono[OF filter_fields(4)[OF assms(1)] assms(2,3)] .
  moreover have "es_format_version s' = SHELL_ENVIRONMENT_FORMAT_VERSION"
    "es_policy_version s' = SHELL_ENVIRONMENT_POLICY_VERSION"
    using filter_fields(4)[OF assms(1)] by (auto simp: snapshot_validate_def split: if_splits)
  moreover have "filter (\<lambda>(n, _). policy_allows p n) (es_env_set s') = es_env_set s'"
    "filter (policy_allows p) (es_env_unset s') = es_env_unset s'"
    by (simp_all add: filter_fields(1,2)[OF assms(1)])
  ultimately show ?thesis
    using filter_fields(3,4)[OF assms(1)]
    by (cases s') (simp add: policy_filter_snapshot_def Let_def rbind_eq_Inr)
qed

lemma fallback_fields:
  assumes "snapshot_fallback to_vec p previous = Inr s"
  shows "es_policy_fingerprint s = ep_fingerprint p"
    and "snapshot_validate to_vec s (ep_max_variables p) (ep_max_bytes p) = Inr ()"
    and "es_capture_status s \<noteq> Complete"
  using assms
  by (auto simp: snapshot_fallback_def Let_def rbind_eq_Inr is_ok_iff split: option.splits if_splits)

section \<open>Encoded snapshots\<close>

lemma encode_snapshot_iff:
  "encode_environment_snapshot to_vec s = Inr x \<longleftrightarrow>
   snapshot_validate_hard_limits to_vec s = Inr () \<and> to_vec s = Inr x"
proof
  assume "snapshot_validate_hard_limits to_vec s = Inr () \<and> to_vec s = Inr x"
  moreover from this have "length x \<le> MAX_SHELL_ENVIRONMENT_BYTES"
    using snapshot_validateD(3) by (fastforce simp: snapshot_validate_hard_limits_def)
  ultimately show "encode_environment_snapshot to_vec s = Inr x"
    by (simp add: encode_environment_snapshot_def)
qed (auto simp: encode_environment_snapshot_def rbind_eq_Inr map_err_eq_Inr split: if_splits)

lemma encode_snapshot_length:
  "encode_environment_snapshot to_vec s = Inr x \<Longrightarrow> length x \<le> MAX_SHELL_ENVIRONMENT_BYTES"
  by (auto simp: encode_environment_snapshot_def rbind_eq_Inr split: if_splits)

lemma decode_encoded_snapshot:
  assumes "encode_environment_snapshot to_vec s = Inr x" and "from_slice x = Inr s"
  shows "decode_environment_snapshot to_vec from_slice x = Inr s"
  using assms encode_snapshot_length[OF assms(1)]
  by (simp add: decode_environment_snapshot_def encode_snapshot_iff)

section \<open>Launch environments\<close>

lemma validate_layer_ok:
  assumes "validate_layer check name_of cost xs (names, b) = Inr (names', b')"
  shows "(\<forall>x \<in> set xs. check x = Inr ()) \<and> distinct (map name_of xs)
    \<and> set (map name_of xs) \<inter> names = {} \<and> names' = names \<union> set (map name_of xs)
    \<and> b' = b + sum_list (map cost xs)
    \<and> (b \<le> MAX_SHELL_ENVIRONMENT_BYTES \<longrightarrow> b' \<le> MAX_SHELL_ENVIRONMENT_BYTES)"
  using assms
proof (induction xs arbitrary: names b)
  case (Cons x xs)
  then obtain n1 b1 where x: "check x = Inr ()" "name_of x \<notin> names" "n1 = insert (name_of x) names"
    "b1 = b + cost x" "b1 \<le> MAX_SHELL_ENVIRONMENT_BYTES"
    and rest: "validate_layer check name_of cost xs (n1, b1) = Inr (names', b')"
    by (auto simp: rbind_eq_Inr insert_name_def add_bytes_def checked_add_usize_def
        split: if_splits)
  show ?case
    using Cons.IH[OF rest] x by auto
qed simp

lemma validate_layer_complete:
  assumes "\<forall>x \<in> set xs. check x = Inr ()" and "distinct (map name_of xs)"
    and "set (map name_of xs) \<inter> names = {}"
    and "b + sum_list (map cost xs) \<le> MAX_SHELL_ENVIRONMENT_BYTES"
  shows "validate_layer check name_of cost xs (names, b) =
    Inr (names \<union> set (map name_of xs), b + sum_list (map cost xs))"
  using assms
proof (induction xs arbitrary: names b)
  case (Cons x xs)
  have "validate_layer check name_of cost xs (insert (name_of x) names, b + cost x) =
      Inr (insert (name_of x) names \<union> set (map name_of xs), b + cost x + sum_list (map cost xs))"
    using Cons.prems by (intro Cons.IH) auto
  with Cons.prems show ?case
    by (simp add: insert_name_def add_bytes_def checked_add_usize_def usize_max_def
        MAX_SHELL_ENVIRONMENT_BYTES_def add.assoc)
qed simp

text \<open>What a launch environment that passed \<open>validate\<close> satisfies, as one predicate.\<close>

definition le_names :: "shell_launch_environment \<Rightarrow> rstring list" where
  "le_names e = map fst (le_saved_set e) @ le_saved_unset e @ map fst (le_connection e)
     @ map fst (le_private e)"

definition le_bytes :: "shell_launch_environment \<Rightarrow> nat" where
  "le_bytes e = sum_list (map pair_size (le_saved_set e)) + sum_list (map length (le_saved_unset e))
     + sum_list (map pair_size (le_connection e)) + sum_list (map pair_size (le_private e))"

definition le_ok :: "shell_launch_environment \<Rightarrow> bool" where
  "le_ok e \<longleftrightarrow> le_entry_count e \<le> MAX_SHELL_ENVIRONMENT_VARIABLES
     \<and> list_all (\<lambda>x. check_saved_set x = Inr ()) (le_saved_set e)
     \<and> list_all (\<lambda>x. check_saved_unset x = Inr ()) (le_saved_unset e)
     \<and> list_all (\<lambda>x. check_connection x = Inr ()) (le_connection e)
     \<and> list_all (\<lambda>x. validate_pair (fst x) (snd x) = Inr ()) (le_private e)
     \<and> distinct (le_names e) \<and> le_bytes e \<le> MAX_SHELL_ENVIRONMENT_BYTES"

lemma le_validate_iff: "le_validate e = Inr () \<longleftrightarrow> le_ok e"
proof
  assume "le_validate e = Inr ()"
  then obtain n1 b1 n2 b2 n3 b3 n4 b4 where
    count: "le_entry_count e \<le> MAX_SHELL_ENVIRONMENT_VARIABLES"
    and l1: "validate_layer check_saved_set fst pair_size (le_saved_set e) ({}, 0) = Inr (n1, b1)"
    and l2: "validate_layer check_saved_unset id length (le_saved_unset e) (n1, b1) = Inr (n2, b2)"
    and l3: "validate_layer check_connection fst pair_size (le_connection e) (n2, b2) = Inr (n3, b3)"
    and l4: "validate_layer (\<lambda>x. validate_pair (fst x) (snd x)) fst pair_size (le_private e) (n3, b3)
      = Inr (n4, b4)"
    by (auto simp: le_validate_def rbind_eq_Inr split: if_splits)
  note ok = validate_layer_ok[OF l1] validate_layer_ok[OF l2] validate_layer_ok[OF l3]
    validate_layer_ok[OF l4]
  have names: "n1 = fst ` set (le_saved_set e)" "n2 = n1 \<union> set (le_saved_unset e)"
    "n3 = n2 \<union> fst ` set (le_connection e)"
    using ok by simp_all
  have "b4 = le_bytes e"
    using ok by (simp add: le_bytes_def)
  then have "le_bytes e \<le> MAX_SHELL_ENVIRONMENT_BYTES"
    using ok by simp
  moreover have "distinct (le_names e)"
    using ok by (simp add: le_names_def names Int_Un_distrib Int_commute)
  ultimately show "le_ok e"
    using ok count by (simp add: le_ok_def list_all_iff)
next
  assume ok: "le_ok e"
  let ?n1 = "fst ` set (le_saved_set e)"
  let ?b1 = "sum_list (map pair_size (le_saved_set e))"
  let ?n2 = "?n1 \<union> set (le_saved_unset e)"
  let ?b2 = "?b1 + sum_list (map length (le_saved_unset e))"
  let ?n3 = "?n2 \<union> fst ` set (le_connection e)"
  let ?b3 = "?b2 + sum_list (map pair_size (le_connection e))"
  have "validate_layer check_saved_set fst pair_size (le_saved_set e) ({}, 0) = Inr (?n1, ?b1)"
    using ok by (subst validate_layer_complete) (auto simp: le_ok_def le_names_def le_bytes_def list_all_iff)
  moreover have "validate_layer check_saved_unset id length (le_saved_unset e) (?n1, ?b1) = Inr (?n2, ?b2)"
    using ok by (subst validate_layer_complete) (auto simp: le_ok_def le_names_def le_bytes_def list_all_iff)
  moreover have "validate_layer check_connection fst pair_size (le_connection e) (?n2, ?b2) = Inr (?n3, ?b3)"
    using ok by (subst validate_layer_complete) (auto simp: le_ok_def le_names_def le_bytes_def list_all_iff)
  moreover have "\<exists>st. validate_layer (\<lambda>x. validate_pair (fst x) (snd x)) fst pair_size (le_private e)
      (?n3, ?b3) = Inr st"
    using ok by (subst validate_layer_complete) (auto simp: le_ok_def le_names_def le_bytes_def list_all_iff)
  ultimately show "le_validate e = Inr ()"
    using ok by (auto simp: le_validate_def le_ok_def)
qed

lemma launch_environment_new_iff:
  "launch_environment_new a b c d = Inr e \<longleftrightarrow>
   e = \<lparr>le_saved_set = a, le_saved_unset = b, le_connection = c, le_private = d\<rparr> \<and> le_ok e"
  by (auto simp: launch_environment_new_def Let_def rbind_eq_Inr le_validate_iff)

section \<open>Capture and restore\<close>

text \<open>What a shell gets that starts from \<open>base\<close> with a saved snapshot.\<close>

definition restored :: "environment_snapshot \<Rightarrow> (rstring \<Rightarrow> rstring option) \<Rightarrow> rstring \<Rightarrow> rstring option" where
  "restored s base n =
     (if n \<in> set (es_env_unset s) then None
      else case bt_get (es_env_set s) n of None \<Rightarrow> base n | Some v \<Rightarrow> Some v)"

lemma bt_get_filter: "bt_get (filter (\<lambda>(n, _). P n) m) n = (if P n then bt_get m n else None)"
  by (induction m) auto

lemma capture_restores:
  assumes "snapshot_capture to_vec p previous current = Inr s" and "policy_allows p n"
    and "n \<in> set (exact_names_of (ep_include p)) \<or> bt_get current n \<noteq> None
      \<or> (\<exists>q. previous = Some q \<and> n \<in> snapshot_names q)"
  shows "restored s base n = bt_get current n"
proof -
  have "bt_get (es_env_set s) n = bt_get current n"
    using assms(2) by (simp add: capture_fields(1)[OF assms(1)] bt_get_filter)
  then have "n \<in> set (es_env_unset s) \<longleftrightarrow> bt_get current n = None"
    using assms(2,3) map_of_eq_None_iff[of "es_env_set s" n]
    by (auto simp: capture_unset[OF assms(1)] split: option.splits)
  then show ?thesis
    using \<open>bt_get (es_env_set s) n = bt_get current n\<close> by (auto simp: restored_def split: option.splits)
qed

lemma capture_untouched:
  assumes "snapshot_capture to_vec p previous current = Inr s" and "\<not> policy_allows p n"
  shows "restored s base n = base n"
  using assms(2) capture_names[OF assms(1), of n]
  by (auto simp: restored_def snapshot_names_def split: option.splits) (metis map_of_eq_None_iff option.distinct(1))

lemma capture_filtered:
  assumes "snapshot_capture to_vec p previous current = Inr s"
    and "ep_max_variables p \<le> MAX_SHELL_ENVIRONMENT_VARIABLES" and "ep_max_bytes p \<le> MAX_SHELL_ENVIRONMENT_BYTES"
  shows "policy_filter_snapshot to_vec p s = Inr s"
proof -
  have valid: "snapshot_validate to_vec s (ep_max_variables p) (ep_max_bytes p) = Inr ()"
    by (rule capture_fields(3)[OF assms(1)])
  moreover have "snapshot_validate_hard_limits to_vec s = Inr ()"
    unfolding snapshot_validate_hard_limits_def by (rule snapshot_validate_mono[OF valid assms(2,3)])
  moreover have "filter (\<lambda>(n, _). policy_allows p n) (es_env_set s) = es_env_set s"
    "filter (policy_allows p) (es_env_unset s) = es_env_unset s"
    using capture_names[OF assms(1)] by (auto simp: filter_id_conv snapshot_names_def) force
  moreover have "es_format_version s = SHELL_ENVIRONMENT_FORMAT_VERSION"
    "es_policy_version s = SHELL_ENVIRONMENT_POLICY_VERSION" "es_capture_status s = Complete"
    using assms(1) by (auto simp: snapshot_capture_def Let_def rbind_eq_Inr)
  ultimately show ?thesis
    using capture_fields(4)[OF assms(1)] by (cases s) (simp add: policy_filter_snapshot_def Let_def)
qed

lemma capture_again:
  assumes "snapshot_capture to_vec p previous current = Inr s"
  shows "snapshot_capture to_vec p (Some s) current = Inr s"
proof -
  let ?exact = "exact_names_of (ep_include p)"
  let ?P = "\<lambda>n. policy_allows p n \<and> bt_get (es_env_set s) n = None"
  let ?again = "filter ?P (sort (remdups (?exact @ map fst (es_env_set s) @ es_env_unset s)))"
  have "set ?again = set (es_env_unset s)"
    using map_of_eq_None_iff[of "es_env_set s"]
    by (auto simp: capture_unset[OF assms] split: option.splits)
  moreover have "sorted ?again" "distinct ?again" "sorted (es_env_unset s)" "distinct (es_env_unset s)"
    unfolding capture_fields(2)[OF assms] by (simp_all add: sorted_filter[where f = id, simplified])
  ultimately have unset: "?again = es_env_unset s"
    by (rule sorted_distinct_set_unique[rotated 4, OF _ ]) 
  have "s = \<lparr>es_format_version = SHELL_ENVIRONMENT_FORMAT_VERSION,
            es_policy_version = SHELL_ENVIRONMENT_POLICY_VERSION,
            es_policy_fingerprint = ep_fingerprint p,
            es_env_set = filter (\<lambda>(n, _). policy_allows p n) current, es_env_unset = es_env_unset s,
            es_capture_status = Complete\<rparr>"
    using assms by (auto simp: snapshot_capture_def Let_def rbind_eq_Inr)
  with unset capture_fields(1,3)[OF assms] show ?thesis
    by (simp add: snapshot_capture_def Let_def)
qed

lemma policy_limits:
  "environment_policy_new incl mv mb = Inr p \<Longrightarrow>
   ep_max_variables p \<le> MAX_SHELL_ENVIRONMENT_VARIABLES \<and> ep_max_bytes p \<le> MAX_SHELL_ENVIRONMENT_BYTES"
  by (auto simp: environment_policy_new_def Let_def rbind_eq_Inr split: if_splits)

lemma policy_exact_names:
  assumes "environment_policy_new incl mv mb = Inr p" and "n \<in> set incl" and "strip_star n = None"
  shows "policy_allows p n \<and> n \<in> set (exact_names_of (ep_include p))"
proof -
  have "ep_include p = sort incl" "validate_rules (sort incl) = Inr ()"
    using assms(1) by (auto simp: environment_policy_new_def Let_def rbind_eq_Inr split: if_splits)
  moreover have "validate_rules rs = Inr () \<Longrightarrow> n \<in> set rs \<Longrightarrow> validate_rule n = Inr ()" for rs
    by (induction rs) (auto simp: rbind_eq_Inr)
  ultimately have "validate_rule n = Inr ()" using assms(2) by auto
  then have "valid_name n" "\<not> hard_denied n"
    using assms(3) by (auto simp: validate_rule_def Let_def split: if_splits)
  moreover have "\<exists>rule \<in> set incl. rule_matches rule n"
    using assms(2,3) by (intro bexI[of _ n]) (simp add: rule_matches_def)
  ultimately show ?thesis
    using assms(2,3) \<open>ep_include p = sort incl\<close> by (simp add: policy_allows_def exact_names_of_def list_ex_iff)
qed

lemma protected_names:
  "n \<in> set (CONNECTION_NAMES @ BASE_NAMES) \<Longrightarrow> \<not> policy_allows p n"
  by (auto simp: policy_allows_def hard_denied_def CONNECTION_NAMES_def BASE_NAMES_def to_ascii_uppercase_def ascii_def)

text \<open>Which names a policy allows, in terms of the rules it was made of.\<close>

definition ruled :: "rstring list \<Rightarrow> rstring \<Rightarrow> bool" where
  "ruled incl n \<longleftrightarrow> n = ascii ''LANG'' \<or> prefix (ascii ''LC_'') n \<or> n \<in> set incl
     \<or> (\<exists>pre. pre @ [42] \<in> set incl \<and> prefix pre n)"

lemma valid_name_no_star: "valid_name n \<Longrightarrow> strip_star n = None"
  by (cases n rule: rev_cases) (auto simp: valid_name_def strip_star_def is_ascii_alphanumeric_def is_ascii_alphabetic_def is_ascii_digit_def)

lemma strip_star_Some: "strip_star rule = Some pre \<longleftrightarrow> rule = pre @ [42]"
  by (cases rule rule: rev_cases) (auto simp: strip_star_def)

lemma policy_allows_ruled:
  assumes "environment_policy_new incl mv mb = Inr p"
  shows "policy_allows p n \<longleftrightarrow> valid_name n \<and> \<not> hard_denied n \<and> ruled incl n"
proof (cases "valid_name n \<and> \<not> hard_denied n")
  case True
  have "ep_include p = sort incl"
    using assms by (auto simp: environment_policy_new_def Let_def rbind_eq_Inr split: if_splits)
  then have allows: "policy_allows p n \<longleftrightarrow> n = ascii ''LANG'' \<or> prefix (ascii ''LC_'') n \<or> (\<exists>rule \<in> set incl. rule_matches rule n)"
    using True by (simp add: policy_allows_def list_ex_iff)
  have match: "rule_matches rule n \<longleftrightarrow> rule = n \<or> (\<exists>pre. rule = pre @ [42] \<and> prefix pre n)" for rule
  proof (cases "strip_star rule")
    case None
    then show ?thesis
      using strip_star_Some[of rule] by (auto simp: rule_matches_def)
  next
    case (Some pre)
    then have "rule = pre @ [42]" "rule \<noteq> n"
      using strip_star_Some[of rule pre] valid_name_no_star[of n] True by auto
    with Some show ?thesis
      by (simp add: rule_matches_def)
  qed
  have "(\<exists>rule \<in> set incl. rule_matches rule n) \<longleftrightarrow> n \<in> set incl \<or> (\<exists>pre. pre @ [42] \<in> set incl \<and> prefix pre n)"
    unfolding match by blast
  then show ?thesis
    using True allows by (simp only: ruled_def) simp
qed (auto simp: policy_allows_def)

end
