(* ===== verification/Holder_Operation.thy ===== *)
theory Holder_Operation
  imports Holder_Handshake Shell_Environment
begin

text \<open>
  The operation messages of the holder protocol
  (\<open>crates/persist-ipc/src/holder/operation.rs\<close>): requests that name a session, the
  status responses, exit events and exit contexts with the final working directory and, in
  minor 2, the saved environment, and the small data-channel requests. The version-2 messages
  carry the JSON form of an \<open>environment_snapshot\<close>, whose codec is a parameter as in
  \<open>Shell_Environment\<close>.
\<close>

section \<open>Model\<close>

record operation_request =
  oq_session_id :: u32

datatype operation_status = Ok | NotFound | Conflict | Rejected | Internal

record operation_response =
  or_session_id :: u32
  or_status :: operation_status
  or_message :: rstring

record session_exited_event =
  se_session_id :: u32
  se_exit_code :: i32
  se_cwd :: "rstring option"

record session_exited_event_v2 =
  se2_session_id :: u32
  se2_exit_code :: i32
  se2_cwd :: "rstring option"
  se2_environment :: "environment_snapshot option"

record exit_context_response =
  ec_session_id :: u32
  ec_status :: operation_status
  ec_exit_code :: "i32 option"
  ec_cwd :: "rstring option"

record exit_context_response_v2 =
  ec2_session_id :: u32
  ec2_status :: operation_status
  ec2_exit_code :: "i32 option"
  ec2_cwd :: "rstring option"
  ec2_environment :: "environment_snapshot option"

record resize_request =
  rz_rows :: u16
  rz_cols :: u16

record signal_request =
  sg_signal :: u32

record log_degraded_event =
  ld_session_id :: u32
  ld_dropped_bytes :: u64

fun encode_operation_status :: "operation_status \<Rightarrow> u8" where
  "encode_operation_status Ok = 0"
| "encode_operation_status NotFound = 1"
| "encode_operation_status Conflict = 2"
| "encode_operation_status Rejected = 3"
| "encode_operation_status Internal = 4"

definition decode_operation_status :: "u8 \<Rightarrow> holder_protocol_error + operation_status" where
  "decode_operation_status value =
     (if value = 0 then Inr Ok
      else if value = 1 then Inr NotFound
      else if value = 2 then Inr Conflict
      else if value = 3 then Inr Rejected
      else if value = 4 then Inr Internal
      else Inl InvalidField)"

text \<open>\<open>Path::new(s).is_absolute()\<close> on Unix: the first byte is a slash.\<close>

definition path_is_absolute :: "rstring \<Rightarrow> bool" where
  "path_is_absolute s \<longleftrightarrow> (case s of [] \<Rightarrow> False | b # _ \<Rightarrow> b = 47)"

definition validate_cwd :: "rstring option \<Rightarrow> holder_protocol_error + unit" where
  "validate_cwd cwd =
     (case cwd of
        None \<Rightarrow> Inr ()
      | Some cwd \<Rightarrow>
          if MAX_HOLDER_PATH < length cwd then Inl PayloadTooLarge
          else if cwd = [] \<or> 0 \<in> set cwd \<or> \<not> path_is_absolute cwd then Inl InvalidField
          else Inr ())"

definition encode_operation_request :: "operation_request \<Rightarrow> bytes" where
  "encode_operation_request request =
     (if oq_session_id request = 0 then [] else to_be_bytes (oq_session_id request))"

definition decode_operation_request ::
    "bytes \<Rightarrow> holder_protocol_error + operation_request" where
  "decode_operation_request payload =
     rbind (rd_u32 (reader_new payload)) (\<lambda>(session_id, r).
     rbind (rd_finish r) (\<lambda>_.
     if session_id = 0 then Inl InvalidField else Inr \<lparr>oq_session_id = session_id\<rparr>))"

definition encode_operation_response ::
    "operation_response \<Rightarrow> holder_protocol_error + bytes" where
  "encode_operation_response response =
     (if or_session_id response = 0 \<or> MAX_HOLDER_ERROR_MESSAGE < length (or_message response)
      then Inl (if MAX_HOLDER_ERROR_MESSAGE < length (or_message response)
                then PayloadTooLarge else InvalidField)
      else
        let output = put_u32 [] (or_session_id response);
            output = put_u8 output (encode_operation_status (or_status response))
        in put_string_allow_empty output (or_message response) MAX_HOLDER_ERROR_MESSAGE)"

definition decode_operation_response ::
    "bytes \<Rightarrow> holder_protocol_error + operation_response" where
  "decode_operation_response payload =
     rbind (rd_u32 (reader_new payload)) (\<lambda>(session_id, r).
     rbind (rd_u8 r) (\<lambda>(code, r).
     rbind (decode_operation_status code) (\<lambda>status.
     rbind (rd_string MAX_HOLDER_ERROR_MESSAGE r) (\<lambda>(message, r).
     rbind (rd_finish r) (\<lambda>_.
     if session_id = 0 then Inl InvalidField
     else Inr \<lparr>or_session_id = session_id, or_status = status, or_message = message\<rparr>)))))"

definition encode_session_exited_event ::
    "session_exited_event \<Rightarrow> holder_protocol_error + bytes" where
  "encode_session_exited_event event =
     (if se_session_id event = 0 then Inl InvalidField
      else rbind (validate_cwd (se_cwd event)) (\<lambda>_.
        let output = put_u32 [] (se_session_id event);
            output = put_i32 output (se_exit_code event)
        in put_optional_string output (se_cwd event) MAX_HOLDER_PATH))"

definition decode_session_exited_event ::
    "bytes \<Rightarrow> holder_protocol_error + session_exited_event" where
  "decode_session_exited_event payload =
     rbind (rd_u32 (reader_new payload)) (\<lambda>(session_id, r).
     rbind (rd_i32 r) (\<lambda>(exit_code, r).
     rbind (rd_optional_string MAX_HOLDER_PATH r) (\<lambda>(cwd, r).
     rbind (rd_finish r) (\<lambda>_.
     if session_id = 0 then Inl InvalidField
     else rbind (validate_cwd cwd) (\<lambda>_.
       Inr \<lparr>se_session_id = session_id, se_exit_code = exit_code, se_cwd = cwd\<rparr>)))))"

text \<open>\<open>Option::map(f).transpose()\<close> of a fallible \<open>f\<close>, with every error mapped to
  \<open>InvalidField\<close>.\<close>

definition transpose_invalid ::
    "('a \<Rightarrow> persist_error + 'b) \<Rightarrow> 'a option \<Rightarrow> holder_protocol_error + 'b option" where
  "transpose_invalid f x =
     (case x of
        None \<Rightarrow> Inr None
      | Some v \<Rightarrow> rbind (map_err (\<lambda>_. InvalidField) (f v)) (\<lambda>y. Inr (Some y)))"

definition encode_session_exited_event_v2 ::
    "to_vec \<Rightarrow> session_exited_event_v2 \<Rightarrow> holder_protocol_error + bytes" where
  "encode_session_exited_event_v2 to_vec event =
     rbind (encode_session_exited_event
       \<lparr>se_session_id = se2_session_id event, se_exit_code = se2_exit_code event,
        se_cwd = se2_cwd event\<rparr>) (\<lambda>output.
     rbind (transpose_invalid (encode_environment_snapshot to_vec) (se2_environment event))
       (\<lambda>environment.
         put_optional_bytes_u32 output environment MAX_SHELL_ENVIRONMENT_BYTES))"

definition decode_session_exited_event_v2 ::
    "to_vec \<Rightarrow> from_slice \<Rightarrow> bytes \<Rightarrow> holder_protocol_error + session_exited_event_v2" where
  "decode_session_exited_event_v2 to_vec from_slice payload =
     rbind (rd_u32 (reader_new payload)) (\<lambda>(session_id, r).
     rbind (rd_i32 r) (\<lambda>(exit_code, r).
     rbind (rd_optional_string MAX_HOLDER_PATH r) (\<lambda>(cwd, r).
     rbind (rd_optional_bytes_u32 MAX_SHELL_ENVIRONMENT_BYTES r) (\<lambda>(encoded, r).
     rbind (transpose_invalid (decode_environment_snapshot to_vec from_slice) encoded)
       (\<lambda>environment.
     rbind (rd_finish r) (\<lambda>_.
     if session_id = 0 then Inl InvalidField
     else rbind (validate_cwd cwd) (\<lambda>_.
       Inr \<lparr>se2_session_id = session_id, se2_exit_code = exit_code, se2_cwd = cwd,
            se2_environment = environment\<rparr>)))))))"

definition validate_exit_context_response ::
    "exit_context_response \<Rightarrow> holder_protocol_error + unit" where
  "validate_exit_context_response response =
     (if ec_session_id response = 0 then Inl InvalidField
      else
        let valid_combination =
              (case ec_status response of
                 Ok \<Rightarrow> ec_exit_code response \<noteq> None
               | _ \<Rightarrow> ec_exit_code response = None \<and> ec_cwd response = None)
        in if \<not> valid_combination then Inl InvalidField
           else validate_cwd (ec_cwd response))"

definition ec_legacy :: "exit_context_response_v2 \<Rightarrow> exit_context_response" where
  "ec_legacy response =
     \<lparr>ec_session_id = ec2_session_id response, ec_status = ec2_status response,
      ec_exit_code = ec2_exit_code response, ec_cwd = ec2_cwd response\<rparr>"

definition validate_exit_context_response_v2 ::
    "exit_context_response_v2 \<Rightarrow> holder_protocol_error + unit" where
  "validate_exit_context_response_v2 response =
     rbind (validate_exit_context_response (ec_legacy response)) (\<lambda>_.
       if ec2_status response \<noteq> Ok \<and> ec2_environment response \<noteq> None
       then Inl InvalidField else Inr ())"

definition encode_exit_context_response ::
    "exit_context_response \<Rightarrow> holder_protocol_error + bytes" where
  "encode_exit_context_response response =
     rbind (validate_exit_context_response response) (\<lambda>_.
       let output = put_u32 [] (ec_session_id response);
           output = put_u8 output (encode_operation_status (ec_status response));
           output = put_u8 output (if ec_exit_code response \<noteq> None then 1 else 0);
           output = put_i32 output (case ec_exit_code response of Some c \<Rightarrow> c | None \<Rightarrow> 0)
       in put_optional_string output (ec_cwd response) MAX_HOLDER_PATH)"

text \<open>A tag byte that must be 0 or 1.\<close>

definition decode_flag :: "u8 \<Rightarrow> holder_protocol_error + bool" where
  "decode_flag value =
     (if value = 0 then Inr False else if value = 1 then Inr True else Inl InvalidField)"

definition decode_exit_context_response ::
    "bytes \<Rightarrow> holder_protocol_error + exit_context_response" where
  "decode_exit_context_response payload =
     rbind (rd_u32 (reader_new payload)) (\<lambda>(session_id, r).
     rbind (rd_u8 r) (\<lambda>(code, r).
     rbind (decode_operation_status code) (\<lambda>status.
     rbind (rd_u8 r) (\<lambda>(tag, r).
     rbind (decode_flag tag) (\<lambda>has_exit_code.
     rbind (rd_i32 r) (\<lambda>(raw_exit_code, r).
     rbind (rd_optional_string MAX_HOLDER_PATH r) (\<lambda>(cwd, r).
     rbind (rd_finish r) (\<lambda>_.
     let response = \<lparr>ec_session_id = session_id, ec_status = status,
           ec_exit_code = (if has_exit_code then Some raw_exit_code else None), ec_cwd = cwd\<rparr>
     in rbind (validate_exit_context_response response) (\<lambda>_. Inr response)))))))))"

definition encode_exit_context_response_v2 ::
    "to_vec \<Rightarrow> exit_context_response_v2 \<Rightarrow> holder_protocol_error + bytes" where
  "encode_exit_context_response_v2 to_vec response =
     rbind (validate_exit_context_response_v2 response) (\<lambda>_.
     rbind (encode_exit_context_response (ec_legacy response)) (\<lambda>output.
     rbind (transpose_invalid (encode_environment_snapshot to_vec) (ec2_environment response))
       (\<lambda>environment.
         put_optional_bytes_u32 output environment MAX_SHELL_ENVIRONMENT_BYTES)))"

definition decode_exit_context_response_v2 ::
    "to_vec \<Rightarrow> from_slice \<Rightarrow> bytes \<Rightarrow> holder_protocol_error + exit_context_response_v2" where
  "decode_exit_context_response_v2 to_vec from_slice payload =
     rbind (rd_u32 (reader_new payload)) (\<lambda>(session_id, r).
     rbind (rd_u8 r) (\<lambda>(code, r).
     rbind (decode_operation_status code) (\<lambda>status.
     rbind (rd_u8 r) (\<lambda>(tag, r).
     rbind (decode_flag tag) (\<lambda>has_exit_code.
     rbind (rd_i32 r) (\<lambda>(raw_exit_code, r).
     rbind (rd_optional_string MAX_HOLDER_PATH r) (\<lambda>(cwd, r).
     rbind (rd_optional_bytes_u32 MAX_SHELL_ENVIRONMENT_BYTES r) (\<lambda>(encoded, r).
     rbind (transpose_invalid (decode_environment_snapshot to_vec from_slice) encoded)
       (\<lambda>environment.
     rbind (rd_finish r) (\<lambda>_.
     let response = \<lparr>ec2_session_id = session_id, ec2_status = status,
           ec2_exit_code = (if has_exit_code then Some raw_exit_code else None), ec2_cwd = cwd,
           ec2_environment = environment\<rparr>
     in rbind (validate_exit_context_response_v2 response) (\<lambda>_. Inr response)))))))))))"

definition encode_resize_request :: "resize_request \<Rightarrow> bytes" where
  "encode_resize_request request =
     (if rz_rows request = 0 \<or> rz_cols request = 0 then []
      else put_u16 (put_u16 [] (rz_rows request)) (rz_cols request))"

definition decode_resize_request :: "bytes \<Rightarrow> holder_protocol_error + resize_request" where
  "decode_resize_request payload =
     rbind (rd_u16 (reader_new payload)) (\<lambda>(rows, r).
     rbind (rd_u16 r) (\<lambda>(cols, r).
     rbind (rd_finish r) (\<lambda>_.
     if rows = 0 \<or> cols = 0 then Inl InvalidField
     else Inr \<lparr>rz_rows = rows, rz_cols = cols\<rparr>)))"

definition encode_signal_request :: "signal_request \<Rightarrow> bytes" where
  "encode_signal_request request =
     (if sg_signal request = 0 \<or> 64 < sg_signal request then []
      else to_be_bytes (sg_signal request))"

definition decode_signal_request :: "bytes \<Rightarrow> holder_protocol_error + signal_request" where
  "decode_signal_request payload =
     rbind (rd_u32 (reader_new payload)) (\<lambda>(signal, r).
     rbind (rd_finish r) (\<lambda>_.
     if signal = 0 \<or> 64 < signal then Inl InvalidField else Inr \<lparr>sg_signal = signal\<rparr>))"

definition encode_log_degraded :: "log_degraded_event \<Rightarrow> bytes" where
  "encode_log_degraded event =
     (if ld_session_id event = 0 \<or> ld_dropped_bytes event = 0 then []
      else put_u64 (put_u32 [] (ld_session_id event)) (ld_dropped_bytes event))"

definition decode_log_degraded :: "bytes \<Rightarrow> holder_protocol_error + log_degraded_event" where
  "decode_log_degraded payload =
     rbind (rd_u32 (reader_new payload)) (\<lambda>(session_id, r).
     rbind (rd_u64 r) (\<lambda>(dropped_bytes, r).
     rbind (rd_finish r) (\<lambda>_.
     if session_id = 0 \<or> dropped_bytes = 0 then Inl InvalidField
     else Inr \<lparr>ld_session_id = session_id, ld_dropped_bytes = dropped_bytes\<rparr>)))"

section \<open>Canonical codecs\<close>

text \<open>As for the handshake: a decoder accepts exactly the encodings of valid messages.\<close>

lemma operation_status_codec:
  "decode_operation_status v = Inr s \<longleftrightarrow> v = encode_operation_status s"
  by (cases s) (auto simp: decode_operation_status_def)

lemma decode_encoded_status [simp]:
  "decode_operation_status (encode_operation_status s) = Inr s"
  by (simp add: operation_status_codec)

definition cwd_ok :: "rstring option \<Rightarrow> bool" where
  "cwd_ok cwd \<longleftrightarrow> opt_str_ok MAX_HOLDER_PATH cwd
     \<and> (case cwd of None \<Rightarrow> True | Some cwd \<Rightarrow> path_is_absolute cwd)"

lemma cwd_ok_validate: "cwd_ok cwd \<Longrightarrow> validate_cwd cwd = Inr ()"
  by (auto simp: cwd_ok_def validate_cwd_def opt_str_ok_def str_ok_def split: option.splits)

lemma cwd_ok_opt_str: "cwd_ok cwd \<Longrightarrow> opt_str_ok MAX_HOLDER_PATH cwd"
  by (simp add: cwd_ok_def)

lemma validate_cwd_ok:
  "validate_cwd cwd = Inr () \<Longrightarrow> \<forall>x. cwd = Some x \<longrightarrow> str_ok MAX_HOLDER_PATH x \<Longrightarrow> cwd_ok cwd"
  by (auto simp: cwd_ok_def validate_cwd_def opt_str_ok_def split: option.splits if_splits)

lemma length_wire_cwd: "cwd_ok cwd \<Longrightarrow> length (wire_opt_string cwd) \<le> 4099"
  using length_wire_opt_string[of MAX_HOLDER_PATH cwd]
  by (simp add: cwd_ok_def MAX_HOLDER_PATH_def)

lemma operation_request_codec:
  "decode_operation_request p = Inr q \<longleftrightarrow>
   oq_session_id q \<noteq> 0 \<and> p = encode_operation_request q"
proof
  assume "decode_operation_request p = Inr q"
  then show "oq_session_id q \<noteq> 0 \<and> p = encode_operation_request q"
    by (auto simp: decode_operation_request_def encode_operation_request_def reader_new_at
        split: if_splits elim!: rbind_Inr_elim dest!: rd_atD)
next
  assume "oq_session_id q \<noteq> 0 \<and> p = encode_operation_request q"
  then show "decode_operation_request p = Inr q"
    by (simp add: decode_operation_request_def encode_operation_request_def reader_new_at
        rd_at_simps)
qed

definition operation_response_ok :: "operation_response \<Rightarrow> bool" where
  "operation_response_ok r \<longleftrightarrow>
     or_session_id r \<noteq> 0 \<and> str_ok MAX_HOLDER_ERROR_MESSAGE (or_message r)"

definition wire_operation_response :: "operation_response \<Rightarrow> bytes" where
  "wire_operation_response r = to_be_bytes (or_session_id r)
     @ encode_operation_status (or_status r) # wire_string (or_message r)"

lemma encode_operation_response_ok:
  "operation_response_ok r \<Longrightarrow> encode_operation_response r = Inr (wire_operation_response r)"
  by (auto simp: operation_response_ok_def encode_operation_response_def str_ok_def
      put_string_allow_empty_def wire_operation_response_def put_defs wire_string_def)

lemma operation_response_codec:
  "decode_operation_response p = Inr r \<longleftrightarrow>
   operation_response_ok r \<and> encode_operation_response r = Inr p"
proof
  assume "decode_operation_response p = Inr r"
  then have "operation_response_ok r \<and> p = wire_operation_response r"
    by (auto simp: decode_operation_response_def operation_response_ok_def
        wire_operation_response_def reader_new_at operation_status_codec
        split: if_splits elim!: rbind_Inr_elim dest!: rd_atD rd_string_atD)
  then show "operation_response_ok r \<and> encode_operation_response r = Inr p"
    by (simp add: encode_operation_response_ok)
next
  assume "operation_response_ok r \<and> encode_operation_response r = Inr p"
  then have ok: "operation_response_ok r" and p: "p = wire_operation_response r"
    by (auto simp: encode_operation_response_ok)
  then have "fits p"
    by (intro fits_small) (auto simp: wire_operation_response_def operation_response_ok_def str_ok_def)
  with ok show "decode_operation_response p = Inr r"
    using rd_string_at[where rest = "[]"]
    by (simp add: p decode_operation_response_def operation_response_ok_def
        wire_operation_response_def reader_new_at rd_at_simps)
qed

definition session_exited_event_ok :: "session_exited_event \<Rightarrow> bool" where
  "session_exited_event_ok e \<longleftrightarrow> se_session_id e \<noteq> 0 \<and> cwd_ok (se_cwd e)"

definition wire_session_exited :: "session_exited_event \<Rightarrow> bytes" where
  "wire_session_exited e =
     to_be_bytes (se_session_id e) @ to_be_bytes (se_exit_code e) @ wire_opt_string (se_cwd e)"

lemma encode_session_exited_ok:
  "session_exited_event_ok e \<Longrightarrow> encode_session_exited_event e = Inr (wire_session_exited e)"
  by (simp add: session_exited_event_ok_def encode_session_exited_event_def cwd_ok_validate
      cwd_ok_opt_str put_optional_string_ok put_defs wire_session_exited_def)

lemma session_exited_event_codec:
  "decode_session_exited_event p = Inr e \<longleftrightarrow>
   session_exited_event_ok e \<and> encode_session_exited_event e = Inr p"
proof
  assume "decode_session_exited_event p = Inr e"
  then have "session_exited_event_ok e \<and> p = wire_session_exited e"
    by (auto simp: decode_session_exited_event_def session_exited_event_ok_def
        wire_session_exited_def reader_new_at
        split: if_splits elim!: rbind_Inr_elim dest!: rd_atD rd_optional_string_atD
        intro!: validate_cwd_ok)
  then show "session_exited_event_ok e \<and> encode_session_exited_event e = Inr p"
    by (simp add: encode_session_exited_ok)
next
  assume "session_exited_event_ok e \<and> encode_session_exited_event e = Inr p"
  then have ok: "session_exited_event_ok e" and p: "p = wire_session_exited e"
    by (auto simp: encode_session_exited_ok)
  then have "fits p"
    using length_wire_cwd[of "se_cwd e"]
    by (intro fits_small) (simp add: wire_session_exited_def session_exited_event_ok_def)
  with ok show "decode_session_exited_event p = Inr e"
    using rd_optional_string_at[where rest = "[]", OF cwd_ok_opt_str]
    by (simp add: p decode_session_exited_event_def session_exited_event_ok_def
        wire_session_exited_def reader_new_at rd_at_simps cwd_ok_validate)
qed

lemma resize_request_codec:
  "decode_resize_request p = Inr q \<longleftrightarrow>
   rz_rows q \<noteq> 0 \<and> rz_cols q \<noteq> 0 \<and> p = encode_resize_request q"
proof
  assume "decode_resize_request p = Inr q"
  then show "rz_rows q \<noteq> 0 \<and> rz_cols q \<noteq> 0 \<and> p = encode_resize_request q"
    by (auto simp: decode_resize_request_def encode_resize_request_def reader_new_at put_defs
        split: if_splits elim!: rbind_Inr_elim dest!: rd_atD)
next
  assume "rz_rows q \<noteq> 0 \<and> rz_cols q \<noteq> 0 \<and> p = encode_resize_request q"
  then show "decode_resize_request p = Inr q"
    by (simp add: decode_resize_request_def encode_resize_request_def reader_new_at put_defs
        rd_at_simps)
qed

lemma signal_request_codec:
  "decode_signal_request p = Inr q \<longleftrightarrow>
   sg_signal q \<noteq> 0 \<and> sg_signal q \<le> 64 \<and> p = encode_signal_request q"
proof
  assume "decode_signal_request p = Inr q"
  then show "sg_signal q \<noteq> 0 \<and> sg_signal q \<le> 64 \<and> p = encode_signal_request q"
    by (auto simp: decode_signal_request_def encode_signal_request_def reader_new_at not_less
        split: if_splits elim!: rbind_Inr_elim dest!: rd_atD)
next
  assume "sg_signal q \<noteq> 0 \<and> sg_signal q \<le> 64 \<and> p = encode_signal_request q"
  then show "decode_signal_request p = Inr q"
    by (simp add: decode_signal_request_def encode_signal_request_def reader_new_at
        rd_at_simps leD)
qed

lemma log_degraded_codec:
  "decode_log_degraded p = Inr e \<longleftrightarrow>
   ld_session_id e \<noteq> 0 \<and> ld_dropped_bytes e \<noteq> 0 \<and> p = encode_log_degraded e"
proof
  assume "decode_log_degraded p = Inr e"
  then show "ld_session_id e \<noteq> 0 \<and> ld_dropped_bytes e \<noteq> 0 \<and> p = encode_log_degraded e"
    by (auto simp: decode_log_degraded_def encode_log_degraded_def reader_new_at put_defs
        split: if_splits elim!: rbind_Inr_elim dest!: rd_atD)
next
  assume "ld_session_id e \<noteq> 0 \<and> ld_dropped_bytes e \<noteq> 0 \<and> p = encode_log_degraded e"
  then show "decode_log_degraded p = Inr e"
    by (simp add: decode_log_degraded_def encode_log_degraded_def reader_new_at put_defs
        rd_at_simps)
qed

subsection \<open>Exit contexts\<close>

text \<open>The exit code of a failed lookup is written as 0 and ignored when read, so these
  messages are not canonical; what is encoded decodes to itself. In version 2 the saved
  environment passes through the JSON codec, which must invert itself on that snapshot.\<close>

definition wire_exit_context :: "exit_context_response \<Rightarrow> bytes" where
  "wire_exit_context r = to_be_bytes (ec_session_id r) @ encode_operation_status (ec_status r)
     # (if ec_exit_code r \<noteq> None then 1 else 0)
     # to_be_bytes (case ec_exit_code r of Some c \<Rightarrow> c | None \<Rightarrow> 0) @ wire_opt_string (ec_cwd r)"

definition exit_context_ok :: "exit_context_response \<Rightarrow> bool" where
  "exit_context_ok r \<longleftrightarrow> ec_session_id r \<noteq> 0 \<and> cwd_ok (ec_cwd r)
     \<and> (if ec_status r = Ok then ec_exit_code r \<noteq> None
        else ec_exit_code r = None \<and> ec_cwd r = None)"

definition exit_context_v2_ok :: "exit_context_response_v2 \<Rightarrow> bool" where
  "exit_context_v2_ok r \<longleftrightarrow>
     exit_context_ok (ec_legacy r) \<and> (ec2_status r \<noteq> Ok \<longrightarrow> ec2_environment r = None)"

lemma exit_context_ok_validate:
  "exit_context_ok r \<Longrightarrow> validate_exit_context_response r = Inr ()"
  by (auto simp: exit_context_ok_def validate_exit_context_response_def cwd_ok_validate
      split: operation_status.splits if_splits)

lemma exit_context_v2_ok_validate:
  "exit_context_v2_ok r \<Longrightarrow> validate_exit_context_response_v2 r = Inr ()"
  by (auto simp: exit_context_v2_ok_def validate_exit_context_response_v2_def
      exit_context_ok_validate)

lemma encode_exit_context_ok:
  "exit_context_ok r \<Longrightarrow> encode_exit_context_response r = Inr (wire_exit_context r)"
  by (simp add: encode_exit_context_response_def exit_context_ok_validate Let_def put_defs
      put_optional_string_ok cwd_ok_opt_str wire_exit_context_def exit_context_ok_def)

lemma wire_exit_context_fits:
  "exit_context_ok r \<Longrightarrow> length x \<le> 2 ^ 20 + 8 \<Longrightarrow> fits (wire_exit_context r @ x)"
  using length_wire_cwd[of "ec_cwd r"]
  by (intro fits_small) (simp add: wire_exit_context_def exit_context_ok_def)

lemma exit_context_roundtrip:
  assumes "exit_context_ok r"
  shows "\<exists>p. encode_exit_context_response r = Inr p \<and> decode_exit_context_response p = Inr r"
proof -
  have "decode_exit_context_response (wire_exit_context r) = Inr r"
    using assms wire_exit_context_fits[OF assms, of "[]"] exit_context_ok_validate[OF assms]
      rd_optional_string_at[where rest = "[]", OF cwd_ok_opt_str]
    by (cases r)
       (auto simp: decode_exit_context_response_def wire_exit_context_def exit_context_ok_def
         reader_new_at rd_at_simps decode_flag_def Let_def split: option.splits)
  then show ?thesis
    using encode_exit_context_ok[OF assms] by blast
qed

lemma transpose_snapshot:
  assumes "\<And>s. env = Some s \<Longrightarrow> \<exists>x. to_vec s = Inr x \<and> from_slice x = Inr s
      \<and> snapshot_validate_hard_limits to_vec s = Inr ()"
  shows "\<exists>x. transpose_invalid (encode_environment_snapshot to_vec) env = Inr x
    \<and> transpose_invalid (decode_environment_snapshot to_vec from_slice) x = Inr env
    \<and> (\<forall>y. x = Some y \<longrightarrow> length y \<le> MAX_SHELL_ENVIRONMENT_BYTES)"
proof (cases env)
  case None
  then show ?thesis by (simp add: transpose_invalid_def)
next
  case (Some s)
  then obtain x where "encode_environment_snapshot to_vec s = Inr x" "from_slice x = Inr s"
    using assms by (auto simp: encode_snapshot_iff)
  then show ?thesis
    using Some decode_encoded_snapshot encode_snapshot_length
    by (fastforce simp: transpose_invalid_def)
qed

lemma exit_context_v2_roundtrip:
  assumes ok: "exit_context_v2_ok r"
    and env: "\<And>s. ec2_environment r = Some s \<Longrightarrow> \<exists>x. to_vec s = Inr x \<and> from_slice x = Inr s
      \<and> snapshot_validate_hard_limits to_vec s = Inr ()"
  shows "\<exists>p. encode_exit_context_response_v2 to_vec r = Inr p
    \<and> decode_exit_context_response_v2 to_vec from_slice p = Inr r"
proof -
  obtain x where x: "transpose_invalid (encode_environment_snapshot to_vec) (ec2_environment r) = Inr x"
    "transpose_invalid (decode_environment_snapshot to_vec from_slice) x = Inr (ec2_environment r)"
    "\<And>y. x = Some y \<Longrightarrow> length y \<le> MAX_SHELL_ENVIRONMENT_BYTES"
    using transpose_snapshot[OF env] by blast
  have legacy: "exit_context_ok (ec_legacy r)"
    using ok by (simp add: exit_context_v2_ok_def)
  let ?p = "wire_exit_context (ec_legacy r) @ wire_opt_bytes x"
  have "encode_exit_context_response_v2 to_vec r = Inr ?p"
    using x by (simp add: encode_exit_context_response_v2_def exit_context_v2_ok_validate[OF ok]
        encode_exit_context_ok[OF legacy] put_optional_bytes_ok)
  moreover have "length (wire_opt_bytes x) \<le> 2 ^ 20 + 8"
    using x(3) by (auto simp: wire_opt_bytes_def MAX_SHELL_ENVIRONMENT_BYTES_def split: option.splits)
  from wire_exit_context_fits[OF legacy this]
  have "decode_exit_context_response_v2 to_vec from_slice ?p = Inr r"
    using legacy x exit_context_v2_ok_validate[OF ok] rd_optional_string_at[OF cwd_ok_opt_str]
      rd_optional_bytes_at[where rest = "[]", OF x(3)]
    by (cases r)
       (auto simp: decode_exit_context_response_v2_def wire_exit_context_def exit_context_ok_def
         ec_legacy_def reader_new_at rd_at_simps decode_flag_def Let_def
         MAX_SHELL_ENVIRONMENT_BYTES_def split: option.splits)
  ultimately show ?thesis by blast
qed

end
