(* ===== verification/Holder_Session_Codec.thy ===== *)
theory Holder_Session_Codec
  imports Holder_Operation
begin

text \<open>
  The requests that create a session and attach to it
  (\<open>crates/persist-ipc/src/holder/session.rs\<close>, with the records of \<open>holder/mod.rs\<close>). A create
  request has two forms: minor 1 sends the launch environment flattened to its set
  variables, minor 2 sends its four layers. Shown: a valid request in the layered form is
  read back unchanged, and in the flat form is read back with the environment that
  \<open>ShellLaunchEnvironment::legacy\<close> builds from its set variables. The environment entries
  are instances of the locale \<open>wire_item\<close>.
\<close>

section \<open>Model\<close>

record create_session_request =
  cs_session_id :: u32
  cs_shell :: rstring
  cs_arguments :: "rstring list"
  cs_cwd :: "rstring option"
  cs_launch_environment :: shell_launch_environment
  cs_history_file :: "rstring option"
  cs_ring_buffer_size :: u32
  cs_log_path :: "rstring option"
  cs_state_file :: rstring
  cs_state_incarnation :: bytes

datatype holder_attach_mode = ReadWrite | ReadOnly

record attach_request =
  ar_session_id :: u32
  ar_mode :: holder_attach_mode
  ar_replay_bytes :: u32

definition is_absolute :: "rstring \<Rightarrow> bool" where
  "is_absolute v \<longleftrightarrow> v \<noteq> [] \<and> 0 \<notin> set v \<and> path_is_absolute v"

definition optional_absolute :: "rstring option \<Rightarrow> bool" where
  "optional_absolute v \<longleftrightarrow> (case v of None \<Rightarrow> True | Some v \<Rightarrow> is_absolute v)"

text \<open>\<open>is_some_and(|value| value.len() > limit)\<close>.\<close>

definition longer_than :: "nat \<Rightarrow> rstring option \<Rightarrow> bool" where
  "longer_than limit v \<longleftrightarrow> (case v of None \<Rightarrow> False | Some v \<Rightarrow> limit < length v)"

definition validate_create :: "create_session_request \<Rightarrow> holder_protocol_error + unit" where
  "validate_create request =
     (if MAX_HOLDER_PATH < length (cs_shell request)
         \<or> MAX_HOLDER_ARGUMENTS < length (cs_arguments request)
         \<or> list_ex (\<lambda>a. MAX_HOLDER_ARGUMENT < length a) (cs_arguments request)
         \<or> MAX_HOLDER_ENV_VARS < le_entry_count (cs_launch_environment request)
         \<or> longer_than MAX_HOLDER_PATH (cs_cwd request)
         \<or> longer_than MAX_HOLDER_PATH (cs_history_file request)
         \<or> longer_than MAX_HOLDER_PATH (cs_log_path request)
         \<or> MAX_HOLDER_PATH < length (cs_state_file request)
      then Inl PayloadTooLarge
      else if cs_session_id request = 0
         \<or> cs_ring_buffer_size request = 0
         \<or> MAX_HOLDER_RING_BUFFER < cs_ring_buffer_size request
         \<or> \<not> is_absolute (cs_shell request)
         \<or> \<not> optional_absolute (cs_cwd request)
         \<or> \<not> optional_absolute (cs_history_file request)
         \<or> \<not> optional_absolute (cs_log_path request)
         \<or> \<not> is_absolute (cs_state_file request)
         \<or> cs_state_incarnation request = zero16
      then Inl InvalidField
      else if list_ex (\<lambda>a. 0 \<in> set a) (cs_arguments request) then Inl InvalidField
      else Inr ())"

definition put_environment_pair ::
    "bytes \<Rightarrow> rstring \<times> rstring \<Rightarrow> holder_protocol_error + bytes" where
  "put_environment_pair output x =
     rbind (put_string output (fst x) MAX_HOLDER_ENV_NAME) (\<lambda>output.
       put_string_allow_empty output (snd x) MAX_HOLDER_ENV_VALUE)"

definition put_environment_pairs ::
    "bytes \<Rightarrow> (rstring \<times> rstring) list \<Rightarrow> holder_protocol_error + bytes" where
  "put_environment_pairs output environment =
     put_each put_environment_pair (put_u16 output (of_nat (length environment))) environment"

definition put_environment_names ::
    "bytes \<Rightarrow> rstring list \<Rightarrow> holder_protocol_error + bytes" where
  "put_environment_names output names =
     put_each (\<lambda>output n. put_string output n MAX_HOLDER_ENV_NAME)
       (put_u16 output (of_nat (length names))) names"

definition encode_create ::
    "create_session_request \<Rightarrow> bool \<Rightarrow> holder_protocol_error + bytes" where
  "encode_create request structured_environment =
     rbind (validate_create request) (\<lambda>_.
     let output = put_u32 (put_u32 [] (cs_session_id request)) (cs_ring_buffer_size request);
         env = cs_launch_environment request in
     rbind (put_string output (cs_shell request) MAX_HOLDER_PATH) (\<lambda>output.
     rbind (put_each (\<lambda>output a. put_string_allow_empty output a MAX_HOLDER_ARGUMENT)
              (put_u16 output (of_nat (length (cs_arguments request)))) (cs_arguments request))
       (\<lambda>output.
     rbind (put_optional_string output (cs_cwd request) MAX_HOLDER_PATH) (\<lambda>output.
     rbind (if structured_environment then
              rbind (put_environment_pairs output (le_saved_set env)) (\<lambda>output.
              rbind (put_environment_names output (le_saved_unset env)) (\<lambda>output.
              rbind (put_environment_pairs output (le_connection env)) (\<lambda>output.
              put_environment_pairs output (le_private env))))
            else put_environment_pairs output (le_legacy_set_environment env)) (\<lambda>output.
     rbind (put_optional_string output (cs_history_file request) MAX_HOLDER_PATH) (\<lambda>output.
     rbind (put_optional_string output (cs_log_path request) MAX_HOLDER_PATH) (\<lambda>output.
     rbind (put_string output (cs_state_file request) MAX_HOLDER_PATH) (\<lambda>output.
     Inr (output @ cs_state_incarnation request)))))))))"

definition encode_create_request :: "create_session_request \<Rightarrow> holder_protocol_error + bytes" where
  "encode_create_request request = encode_create request False"

definition encode_create_request_v2 ::
    "create_session_request \<Rightarrow> holder_protocol_error + bytes" where
  "encode_create_request_v2 request = encode_create request True"

definition read_environment_pair :: "reader \<Rightarrow> (rstring \<times> rstring) parse" where
  "read_environment_pair r =
     rbind (rd_string MAX_HOLDER_ENV_NAME r) (\<lambda>(name, r).
     rbind (rd_string MAX_HOLDER_ENV_VALUE r) (\<lambda>(v, r). Inr ((name, v), r)))"

definition read_environment_pairs :: "reader \<Rightarrow> (rstring \<times> rstring) list parse" where
  "read_environment_pairs r =
     rbind (rd_u16 r) (\<lambda>(count, r).
       if MAX_HOLDER_ENV_VARS < unat count then Inl PayloadTooLarge
       else read_n read_environment_pair (unat count) r)"

definition read_environment_names :: "reader \<Rightarrow> rstring list parse" where
  "read_environment_names r =
     rbind (rd_u16 r) (\<lambda>(count, r).
       if MAX_HOLDER_ENV_VARS < unat count then Inl PayloadTooLarge
       else read_n (rd_string MAX_HOLDER_ENV_NAME) (unat count) r)"

text \<open>The branch of \<open>decode_create\<close> that reads the launch environment.\<close>

definition read_launch_environment :: "bool \<Rightarrow> reader \<Rightarrow> shell_launch_environment parse" where
  "read_launch_environment structured_environment r =
     (if structured_environment then
        rbind (read_environment_pairs r) (\<lambda>(saved_set, r).
        rbind (read_environment_names r) (\<lambda>(saved_unset, r).
        rbind (read_environment_pairs r) (\<lambda>(connection, r).
        rbind (read_environment_pairs r) (\<lambda>(private, r).
        if MAX_HOLDER_ENV_VARS
             < length saved_set + length saved_unset + length connection + length private
        then Inl PayloadTooLarge
        else rbind (map_err (\<lambda>_. InvalidField)
               (launch_environment_new saved_set saved_unset connection private))
               (\<lambda>env. Inr (env, r))))))
      else
        rbind (read_environment_pairs r) (\<lambda>(environment, r).
        rbind (map_err (\<lambda>_. InvalidField) (launch_environment_legacy environment))
          (\<lambda>env. Inr (env, r))))"

definition decode_create :: "bytes \<Rightarrow> bool \<Rightarrow> holder_protocol_error + create_session_request" where
  "decode_create payload structured_environment =
     rbind (rd_u32 (reader_new payload)) (\<lambda>(session_id, r).
     rbind (rd_u32 r) (\<lambda>(ring_buffer_size, r).
     rbind (rd_string MAX_HOLDER_PATH r) (\<lambda>(shell, r).
     rbind (rd_u16 r) (\<lambda>(argument_count, r).
     if MAX_HOLDER_ARGUMENTS < unat argument_count then Inl PayloadTooLarge else
     rbind (read_n (rd_string MAX_HOLDER_ARGUMENT) (unat argument_count) r) (\<lambda>(arguments, r).
     rbind (rd_optional_string MAX_HOLDER_PATH r) (\<lambda>(cwd, r).
     rbind (read_launch_environment structured_environment r) (\<lambda>(launch_environment, r).
     rbind (rd_optional_string MAX_HOLDER_PATH r) (\<lambda>(history_file, r).
     rbind (rd_optional_string MAX_HOLDER_PATH r) (\<lambda>(log_path, r).
     rbind (rd_string MAX_HOLDER_PATH r) (\<lambda>(state_file, r).
     rbind (rd_fixed 16 r) (\<lambda>(state_incarnation, r).
     let request = \<lparr>cs_session_id = session_id, cs_shell = shell, cs_arguments = arguments,
           cs_cwd = cwd, cs_launch_environment = launch_environment,
           cs_history_file = history_file, cs_ring_buffer_size = ring_buffer_size,
           cs_log_path = log_path, cs_state_file = state_file,
           cs_state_incarnation = state_incarnation\<rparr>
     in rbind (rd_finish r) (\<lambda>_.
        rbind (validate_create request) (\<lambda>_. Inr request)))))))))))))"

definition decode_create_request :: "bytes \<Rightarrow> holder_protocol_error + create_session_request" where
  "decode_create_request payload = decode_create payload False"

definition decode_create_request_v2 ::
    "bytes \<Rightarrow> holder_protocol_error + create_session_request" where
  "decode_create_request_v2 payload = decode_create payload True"

fun encode_attach_mode :: "holder_attach_mode \<Rightarrow> u8" where
  "encode_attach_mode ReadWrite = 0"
| "encode_attach_mode ReadOnly = 1"

definition encode_attach_request :: "attach_request \<Rightarrow> bytes" where
  "encode_attach_request request =
     (if ar_session_id request = 0 \<or> MAX_HOLDER_RING_BUFFER < ar_replay_bytes request then []
      else put_u32 (put_u8 (put_u32 [] (ar_session_id request))
             (encode_attach_mode (ar_mode request))) (ar_replay_bytes request))"

definition decode_attach_request :: "bytes \<Rightarrow> holder_protocol_error + attach_request" where
  "decode_attach_request payload =
     rbind (rd_u32 (reader_new payload)) (\<lambda>(session_id, r).
     rbind (rd_u8 r) (\<lambda>(code, r).
     rbind (if code = 0 then Inr ReadWrite else if code = 1 then Inr ReadOnly
            else Inl InvalidField) (\<lambda>mode.
     rbind (rd_u32 r) (\<lambda>(replay_bytes, r).
     rbind (rd_finish r) (\<lambda>_.
     if session_id = 0 \<or> MAX_HOLDER_RING_BUFFER < replay_bytes then Inl InvalidField
     else Inr \<lparr>ar_session_id = session_id, ar_mode = mode, ar_replay_bytes = replay_bytes\<rparr>)))))"

section \<open>Attach requests\<close>

definition attach_request_ok :: "attach_request \<Rightarrow> bool" where
  "attach_request_ok q \<longleftrightarrow> ar_session_id q \<noteq> 0 \<and> ar_replay_bytes q \<le> MAX_HOLDER_RING_BUFFER"

lemma attach_request_codec:
  "decode_attach_request p = Inr q \<longleftrightarrow> attach_request_ok q \<and> p = encode_attach_request q"
proof
  assume "decode_attach_request p = Inr q"
  then show "attach_request_ok q \<and> p = encode_attach_request q"
    by (auto simp: decode_attach_request_def encode_attach_request_def attach_request_ok_def
        reader_new_at put_defs not_less split: if_splits elim!: rbind_Inr_elim dest!: rd_atD)
next
  assume "attach_request_ok q \<and> p = encode_attach_request q"
  then show "decode_attach_request p = Inr q"
    by (cases "ar_mode q")
       (simp_all add: decode_attach_request_def encode_attach_request_def attach_request_ok_def
        reader_new_at put_defs rd_at_simps leD)
qed

section \<open>Create requests\<close>

subsection \<open>Environment entries\<close>

definition env_pair_ok :: "rstring \<times> rstring \<Rightarrow> bool" where
  "env_pair_ok x \<longleftrightarrow> fst x \<noteq> [] \<and> str_ok MAX_HOLDER_ENV_NAME (fst x)
     \<and> str_ok MAX_HOLDER_ENV_VALUE (snd x)"

definition wire_pair :: "rstring \<times> rstring \<Rightarrow> bytes" where
  "wire_pair x = wire_string (fst x) @ wire_string (snd x)"

interpretation wp: wire_item put_environment_pair read_environment_pair wire_pair env_pair_ok
proof unfold_locales
  show "put_environment_pair out x = Inr (out @ wire_pair x)" if "env_pair_ok x" for x out
    using that by (simp add: env_pair_ok_def put_environment_pair_def put_string_ok
        put_string_allow_empty_ok wire_pair_def)
  show "read_environment_pair (rd_at pre (wire_pair x @ rest)) = Inr (x, rd_at (pre @ wire_pair x) rest)"
    if "env_pair_ok x" "fits (pre @ wire_pair x @ rest)" for x pre rest
    using that by (simp add: env_pair_ok_def read_environment_pair_def wire_pair_def rd_string_at)
qed

definition wire_seq :: "('a \<Rightarrow> bytes) \<Rightarrow> 'a list \<Rightarrow> bytes" where
  "wire_seq enc xs = to_be_bytes (of_nat (length xs) :: u16) @ concat (map enc xs)"

lemma put_environment_pairs_ok:
  "list_all env_pair_ok xs \<Longrightarrow> put_environment_pairs out xs = Inr (out @ wire_seq wire_pair xs)"
  by (simp add: put_environment_pairs_def wp.put_each_all wire_seq_def put_defs)

lemma put_environment_names_ok:
  "list_all (\<lambda>s. s \<noteq> [] \<and> str_ok MAX_HOLDER_ENV_NAME s) xs \<Longrightarrow>
   put_environment_names out xs = Inr (out @ wire_seq wire_string xs)"
  by (simp add: put_environment_names_def wn.put_each_all wire_seq_def put_defs)

lemma read_environment_pairs_at:
  "list_all env_pair_ok xs \<Longrightarrow> length xs \<le> MAX_HOLDER_ENV_VARS \<Longrightarrow>
   fits (pre @ wire_seq wire_pair xs @ rest) \<Longrightarrow>
   read_environment_pairs (rd_at pre (wire_seq wire_pair xs @ rest)) =
     Inr (xs, rd_at (pre @ wire_seq wire_pair xs) rest)"
  by (simp add: read_environment_pairs_def wire_seq_def rd_at_simps wp.read_n_all
      MAX_HOLDER_ENV_VARS_def)

lemma read_environment_names_at:
  "list_all (\<lambda>s. s \<noteq> [] \<and> str_ok MAX_HOLDER_ENV_NAME s) xs \<Longrightarrow>
   length xs \<le> MAX_HOLDER_ENV_VARS \<Longrightarrow> fits (pre @ wire_seq wire_string xs @ rest) \<Longrightarrow>
   read_environment_names (rd_at pre (wire_seq wire_string xs @ rest)) =
     Inr (xs, rd_at (pre @ wire_seq wire_string xs) rest)"
  by (simp add: read_environment_names_def wire_seq_def rd_at_simps wn.read_n_all
      MAX_HOLDER_ENV_VARS_def)

lemma length_wire_seq:
  "(\<And>x. x \<in> set xs \<Longrightarrow> length (enc x) \<le> n) \<Longrightarrow> length (wire_seq enc xs) \<le> 2 + length xs * n"
  using sum_list_mono[of xs "\<lambda>x. length (enc x)" "\<lambda>_. n"]
  by (simp add: wire_seq_def length_concat comp_def sum_list_triv)

subsection \<open>Launch environments\<close>

text \<open>Every value of the environment is a Rust string, that is, valid UTF-8.\<close>

definition env_utf8 :: "shell_launch_environment \<Rightarrow> bool" where
  "env_utf8 e \<longleftrightarrow> list_all (\<lambda>x. utf8_valid (snd x)) (le_saved_set e @ le_connection e @ le_private e)"

text \<open>The environment that a reader of the flat form gets.\<close>

definition flat_environment :: "shell_launch_environment \<Rightarrow> shell_launch_environment" where
  "flat_environment e = \<lparr>le_saved_set = [], le_saved_unset = [], le_connection = [],
     le_private = le_legacy_set_environment e\<rparr>"

definition wire_environment :: "bool \<Rightarrow> shell_launch_environment \<Rightarrow> bytes" where
  "wire_environment structured e =
     (if structured then wire_seq wire_pair (le_saved_set e) @ wire_seq wire_string (le_saved_unset e)
        @ wire_seq wire_pair (le_connection e) @ wire_seq wire_pair (le_private e)
      else wire_seq wire_pair (le_legacy_set_environment e))"

definition received_environment :: "bool \<Rightarrow> shell_launch_environment \<Rightarrow> shell_launch_environment" where
  "received_environment structured e = (if structured then e else flat_environment e)"

lemmas env_limits = MAX_HOLDER_ENV_NAME_def MAX_HOLDER_ENV_VALUE_def MAX_HOLDER_ENV_VARS_def
  MAX_SHELL_ENVIRONMENT_NAME_BYTES_def MAX_SHELL_ENVIRONMENT_VALUE_BYTES_def
  MAX_SHELL_ENVIRONMENT_VARIABLES_def

lemma validate_pair_wire:
  "validate_pair (fst x) (snd x) = Inr () \<Longrightarrow> utf8_valid (snd x) \<Longrightarrow> env_pair_ok x"
  using valid_name_utf8[of "fst x"] valid_name_nonempty[of "fst x"]
  by (auto simp: validate_pair_def env_pair_ok_def str_ok_def env_limits valid_name_def
      split: if_splits)

lemma le_ok_pairs:
  assumes "le_ok e" and "x \<in> set (le_saved_set e @ le_connection e @ le_private e)"
  shows "validate_pair (fst x) (snd x) = Inr ()"
  using assms
  by (auto simp: le_ok_def list_all_iff check_saved_set_def check_connection_def rbind_eq_Inr)

lemma le_ok_wire_pairs:
  assumes "le_ok e" and "env_utf8 e"
  shows "list_all env_pair_ok (le_saved_set e)" "list_all env_pair_ok (le_connection e)"
    "list_all env_pair_ok (le_private e)" "list_all env_pair_ok (le_legacy_set_environment e)"
  using assms le_ok_pairs[OF assms(1)]
  by (auto simp: env_utf8_def list_all_iff le_legacy_set_environment_def intro!: validate_pair_wire)

lemma le_ok_wire_names:
  assumes "le_ok e"
  shows "list_all (\<lambda>s. s \<noteq> [] \<and> str_ok MAX_HOLDER_ENV_NAME s) (le_saved_unset e)"
proof -
  have "list_all valid_name (le_saved_unset e)"
    using assms by (auto simp: le_ok_def list_all_iff check_saved_unset_def split: if_splits)
  then show ?thesis
    using valid_name_utf8 valid_name_nonempty
    by (auto simp: list_all_iff str_ok_def env_limits valid_name_def)
qed

lemma le_ok_counts:
  assumes "le_ok e"
  shows "length (le_saved_set e) \<le> 128" "length (le_saved_unset e) \<le> 128"
    "length (le_connection e) \<le> 128" "length (le_private e) \<le> 128"
    "length (le_legacy_set_environment e) \<le> 128"
    "length (le_saved_set e) + length (le_saved_unset e) + length (le_connection e)
      + length (le_private e) \<le> 128"
  using assms by (auto simp: le_ok_def le_entry_count_def env_limits le_legacy_set_environment_def)

lemma le_ok_received:
  assumes "le_ok e"
  shows "le_ok (received_environment structured e)"
proof (cases structured)
  case True
  then show ?thesis
    using assms by (simp add: received_environment_def)
next
  case False
  have "list_all (\<lambda>x. validate_pair (fst x) (snd x) = Inr ()) (le_legacy_set_environment e)"
    using le_ok_pairs[OF assms] by (simp add: list_all_iff le_legacy_set_environment_def)
  moreover have "distinct (map fst (le_legacy_set_environment e))"
    using assms by (auto simp: le_ok_def le_names_def le_legacy_set_environment_def)
  moreover have "length (le_legacy_set_environment e) \<le> MAX_SHELL_ENVIRONMENT_VARIABLES"
    using le_ok_counts(5)[OF assms] by (simp add: env_limits)
  moreover have "sum_list (map pair_size (le_legacy_set_environment e)) \<le> MAX_SHELL_ENVIRONMENT_BYTES"
    using assms by (simp add: le_ok_def le_bytes_def le_legacy_set_environment_def)
  ultimately show ?thesis
    using False by (simp add: received_environment_def flat_environment_def le_ok_def
        le_entry_count_def le_names_def le_bytes_def)
qed

lemma length_wire_pairs:
  "list_all env_pair_ok xs \<Longrightarrow> length xs \<le> 128 \<Longrightarrow> length (wire_seq wire_pair xs) \<le> 2 + 128 * 8324"
proof -
  assume "list_all env_pair_ok xs" "length xs \<le> 128"
  then have "length (wire_seq wire_pair xs) \<le> 2 + length xs * 8324"
    by (intro length_wire_seq)
       (auto simp: list_all_iff env_pair_ok_def wire_pair_def str_ok_def env_limits)
  with \<open>length xs \<le> 128\<close> show ?thesis by simp
qed

lemma length_wire_names:
  "list_all (\<lambda>s. s \<noteq> [] \<and> str_ok n s) xs \<Longrightarrow> length (wire_seq wire_string xs) \<le> 2 + length xs * (2 + n)"
  by (intro length_wire_seq) (auto simp: list_all_iff str_ok_def)

lemma length_wire_environment:
  assumes "le_ok e" and "env_utf8 e"
  shows "length (wire_environment structured e) \<le> 2 ^ 22"
  using le_ok_wire_pairs[OF assms] le_ok_counts[OF assms(1)]
    length_wire_pairs[of "le_saved_set e"] length_wire_pairs[of "le_connection e"]
    length_wire_pairs[of "le_private e"] length_wire_pairs[of "le_legacy_set_environment e"]
    length_wire_names[OF le_ok_wire_names[OF assms(1)]]
  by (auto simp: wire_environment_def env_limits)

lemma read_launch_environment_at:
  assumes "le_ok e" and "env_utf8 e" and "fits (pre @ wire_environment structured e @ rest)"
  shows "read_launch_environment structured (rd_at pre (wire_environment structured e @ rest)) =
    Inr (received_environment structured e, rd_at (pre @ wire_environment structured e) rest)"
proof (cases structured)
  case True
  have new: "launch_environment_new (le_saved_set e) (le_saved_unset e) (le_connection e)
      (le_private e) = Inr e"
    using assms(1) by (simp add: launch_environment_new_iff)
  show ?thesis
    using True assms le_ok_wire_pairs[OF assms(1,2)] le_ok_wire_names[OF assms(1)]
      le_ok_counts[OF assms(1)]
    by (simp add: read_launch_environment_def wire_environment_def read_environment_pairs_at
        read_environment_names_at new received_environment_def MAX_HOLDER_ENV_VARS_def)
next
  case False
  have new: "launch_environment_new [] [] [] (le_legacy_set_environment e) = Inr (flat_environment e)"
    using le_ok_received[OF assms(1), of False]
    by (simp add: launch_environment_new_iff flat_environment_def received_environment_def)
  show ?thesis
    using False assms le_ok_wire_pairs[OF assms(1,2)] le_ok_counts[OF assms(1)]
    by (simp add: read_launch_environment_def wire_environment_def read_environment_pairs_at
        launch_environment_legacy_def new received_environment_def MAX_HOLDER_ENV_VARS_def)
qed

subsection \<open>The whole request\<close>

definition create_request_ok :: "create_session_request \<Rightarrow> bool" where
  "create_request_ok q \<longleftrightarrow> validate_create q = Inr ()
     \<and> le_ok (cs_launch_environment q) \<and> env_utf8 (cs_launch_environment q)
     \<and> list_all utf8_valid (cs_shell q # cs_state_file q # cs_arguments q)
     \<and> list_all (\<lambda>v. case v of None \<Rightarrow> True | Some s \<Rightarrow> utf8_valid s)
         [cs_cwd q, cs_history_file q, cs_log_path q]
     \<and> length (cs_state_incarnation q) = 16"

definition wire_create :: "bool \<Rightarrow> create_session_request \<Rightarrow> bytes" where
  "wire_create structured q =
     to_be_bytes (cs_session_id q) @ to_be_bytes (cs_ring_buffer_size q)
     @ wire_string (cs_shell q) @ to_be_bytes (of_nat (length (cs_arguments q)) :: u16)
     @ concat (map wire_string (cs_arguments q)) @ wire_opt_string (cs_cwd q)
     @ wire_environment structured (cs_launch_environment q)
     @ wire_opt_string (cs_history_file q) @ wire_opt_string (cs_log_path q)
     @ wire_string (cs_state_file q) @ cs_state_incarnation q"

lemma absolute_path_ok:
  "is_absolute s \<Longrightarrow> length s \<le> MAX_HOLDER_PATH \<Longrightarrow> utf8_valid s \<Longrightarrow> s \<noteq> [] \<and> str_ok MAX_HOLDER_PATH s"
  by (simp add: is_absolute_def str_ok_def MAX_HOLDER_PATH_def)

lemma optional_path_ok:
  "optional_absolute v \<Longrightarrow> \<not> longer_than MAX_HOLDER_PATH v \<Longrightarrow>
   (case v of None \<Rightarrow> True | Some s \<Rightarrow> utf8_valid s) \<Longrightarrow> opt_str_ok MAX_HOLDER_PATH v"
  by (auto simp: optional_absolute_def longer_than_def opt_str_ok_def absolute_path_ok
      split: option.splits)

lemma create_request_okD:
  assumes "create_request_ok q"
  shows "cs_shell q \<noteq> []" "str_ok MAX_HOLDER_PATH (cs_shell q)"
    "cs_state_file q \<noteq> []" "str_ok MAX_HOLDER_PATH (cs_state_file q)"
    "opt_str_ok MAX_HOLDER_PATH (cs_cwd q)" "opt_str_ok MAX_HOLDER_PATH (cs_history_file q)"
    "opt_str_ok MAX_HOLDER_PATH (cs_log_path q)"
    "list_all (str_ok MAX_HOLDER_ARGUMENT) (cs_arguments q)"
    "length (cs_arguments q) \<le> 16" "length (cs_state_incarnation q) = 16"
    "le_ok (cs_launch_environment q)" "env_utf8 (cs_launch_environment q)"
    "validate_create q = Inr ()"
  using assms absolute_path_ok optional_path_ok
  by (auto simp: create_request_ok_def validate_create_def list_ex_iff list_all_iff str_ok_def
      MAX_HOLDER_ARGUMENT_def MAX_HOLDER_ARGUMENTS_def not_less split: if_splits)

lemma validate_create_received:
  assumes "create_request_ok q"
  shows "validate_create (q\<lparr>cs_launch_environment :=
    received_environment structured (cs_launch_environment q)\<rparr>) = Inr ()"
  using create_request_okD(13)[OF assms]
    le_ok_received[OF create_request_okD(11)[OF assms], of structured]
  by (auto simp: validate_create_def le_ok_def env_limits split: if_splits)

lemma encode_create_ok:
  assumes "create_request_ok q"
  shows "encode_create q structured = Inr (wire_create structured q)"
  using create_request_okD[OF assms] le_ok_wire_names[of "cs_launch_environment q"]
    le_ok_wire_pairs[of "cs_launch_environment q"]
  by (simp add: encode_create_def Let_def put_string_ok ws.put_each_all put_optional_string_ok
      put_environment_pairs_ok put_environment_names_ok wire_environment_def wire_create_def
      put_defs)

lemma wire_create_fits:
  assumes "create_request_ok q"
  shows "fits (wire_create structured q)"
proof (rule fits_small)
  note ok = create_request_okD[OF assms]
  have "length (wire_seq wire_string (cs_arguments q)) \<le> 2 + length (cs_arguments q) * 4098"
    using ok(8) by (intro length_wire_seq) (auto simp: list_all_iff str_ok_def MAX_HOLDER_ARGUMENT_def)
  then have "length (concat (map wire_string (cs_arguments q))) \<le> 16 * 4098"
    using ok(9) by (simp add: wire_seq_def)
  then show "length (wire_create structured q) \<le> 2 ^ 60"
    using ok(2,4,10) length_wire_opt_string[OF ok(5)] length_wire_opt_string[OF ok(6)]
      length_wire_opt_string[OF ok(7)] length_wire_environment[OF ok(11,12), of structured]
    by (simp add: wire_create_def str_ok_def MAX_HOLDER_PATH_def)
qed

lemma decode_create_ok:
  assumes "create_request_ok q"
  shows "decode_create (wire_create structured q) structured =
    Inr (q\<lparr>cs_launch_environment := received_environment structured (cs_launch_environment q)\<rparr>)"
  using create_request_okD[OF assms] wire_create_fits[OF assms, of structured]
    validate_create_received[OF assms, of structured]
  by (cases q)
     (simp add: decode_create_def wire_create_def reader_new_at rd_at_simps rd_string_at
       ws.read_n_all rd_optional_string_at read_launch_environment_at MAX_HOLDER_ARGUMENTS_def
       Let_def)

end
