(* ===== verification/Holder_Inventory.thy ===== *)
theory Holder_Inventory
  imports Holder_Session_Codec
begin

text \<open>
  The paged session inventory of the holder protocol
  (\<open>crates/persist-ipc/src/holder/inventory.rs\<close>, with the records of \<open>holder/mod.rs\<close>). An
  entry must be consistent (\<open>validate_entry\<close>) both to be encoded and to be decoded; the
  entries of a page are an instance of \<open>wire_item\<close>. Shown: encoding succeeds exactly on
  pages of at most 256 consistent entries with a proper cursor, and such a page is read
  back unchanged.
\<close>

section \<open>Model\<close>

record inventory_request =
  iq_cursor :: u32
  iq_limit :: u16

datatype holder_session_state = Running | Exited

datatype holder_log_state = Healthy | Degraded | Disabled

record holder_session_entry =
  he_session_id :: u32
  he_shell_pid :: u32
  he_state :: holder_session_state
  he_exit_code :: "i32 option"
  he_created_at_ms :: u64
  he_last_active_at_ms :: u64
  he_ring_bytes :: u32
  he_writer_active :: bool
  he_log_state :: holder_log_state
  he_exit_context_available :: bool

record inventory_response =
  ir_entries :: "holder_session_entry list"
  ir_next_cursor :: "u32 option"

definition NO_CURSOR :: u32 where
  "NO_CURSOR = - 1"

definition ENTRY_SIZE :: nat where
  "ENTRY_SIZE = 37"

definition encode_inventory_request :: "inventory_request \<Rightarrow> bytes" where
  "encode_inventory_request request =
     (if iq_cursor request = NO_CURSOR \<or> iq_limit request = 0
         \<or> MAX_INVENTORY_ENTRIES < iq_limit request then []
      else put_u16 (put_u32 [] (iq_cursor request)) (iq_limit request))"

definition decode_inventory_request ::
    "bytes \<Rightarrow> holder_protocol_error + inventory_request" where
  "decode_inventory_request payload =
     rbind (rd_u32 (reader_new payload)) (\<lambda>(cursor, r).
     rbind (rd_u16 r) (\<lambda>(limit, r).
     rbind (rd_finish r) (\<lambda>_.
     if cursor = NO_CURSOR \<or> limit = 0 \<or> MAX_INVENTORY_ENTRIES < limit then Inl InvalidField
     else Inr \<lparr>iq_cursor = cursor, iq_limit = limit\<rparr>)))"

definition validate_entry :: "holder_session_entry \<Rightarrow> holder_protocol_error + unit" where
  "validate_entry entry =
     (let exit_matches_state =
            (case (he_state entry, he_exit_code entry) of
               (Running, None) \<Rightarrow> True
             | (Exited, Some _) \<Rightarrow> True
             | _ \<Rightarrow> False)
      in if he_session_id entry = 0
            \<or> he_shell_pid entry = 0
            \<or> \<not> exit_matches_state
            \<or> he_state entry = Running \<and> he_exit_context_available entry
            \<or> he_last_active_at_ms entry < he_created_at_ms entry
         then Inl InvalidField else Inr ())"

fun encode_state :: "holder_session_state \<Rightarrow> u8" where
  "encode_state Running = 0"
| "encode_state Exited = 1"

definition decode_state :: "u8 \<Rightarrow> holder_protocol_error + holder_session_state" where
  "decode_state v = (if v = 0 then Inr Running else if v = 1 then Inr Exited else Inl InvalidField)"

fun encode_log_state :: "holder_log_state \<Rightarrow> u8" where
  "encode_log_state Healthy = 0"
| "encode_log_state Degraded = 1"
| "encode_log_state Disabled = 2"

definition decode_log_state :: "u8 \<Rightarrow> holder_protocol_error + holder_log_state" where
  "decode_log_state v =
     (if v = 0 then Inr Healthy else if v = 1 then Inr Degraded
      else if v = 2 then Inr Disabled else Inl InvalidField)"

definition flag_byte :: "bool \<Rightarrow> u8" where
  "flag_byte b = (if b then 1 else 0)"

definition encode_entry :: "bytes \<Rightarrow> holder_session_entry \<Rightarrow> holder_protocol_error + bytes" where
  "encode_entry output entry =
     rbind (validate_entry entry) (\<lambda>_.
       let output = put_u32 output (he_session_id entry);
           output = put_u32 output (he_shell_pid entry);
           output = put_u8 output (encode_state (he_state entry));
           output = put_u8 output (flag_byte (he_exit_code entry \<noteq> None));
           output = put_i32 output (case he_exit_code entry of Some c \<Rightarrow> c | None \<Rightarrow> 0);
           output = put_u64 output (he_created_at_ms entry);
           output = put_u64 output (he_last_active_at_ms entry);
           output = put_u32 output (he_ring_bytes entry);
           output = put_u8 output (flag_byte (he_writer_active entry));
           output = put_u8 output (encode_log_state (he_log_state entry));
           output = put_u8 output (flag_byte (he_exit_context_available entry))
       in Inr output)"

definition encode_inventory_response ::
    "inventory_response \<Rightarrow> holder_protocol_error + bytes" where
  "encode_inventory_response response =
     (if unat MAX_INVENTORY_ENTRIES < length (ir_entries response) then Inl PayloadTooLarge
      else if ir_next_cursor response = Some 0 \<or> ir_next_cursor response = Some NO_CURSOR
      then Inl InvalidField
      else rbind (ok_or PayloadTooLarge
             (checked_add_usize 6 (min usize_max (length (ir_entries response) * ENTRY_SIZE))))
             (\<lambda>_.
        let output = put_u32 []
              (case ir_next_cursor response of Some c \<Rightarrow> c | None \<Rightarrow> NO_CURSOR);
            output = put_u16 output (of_nat (length (ir_entries response)))
        in put_each encode_entry output (ir_entries response)))"

definition decode_entry :: "reader \<Rightarrow> holder_session_entry parse" where
  "decode_entry r =
     rbind (rd_u32 r) (\<lambda>(session_id, r).
     rbind (rd_u32 r) (\<lambda>(shell_pid, r).
     rbind (rd_u8 r) (\<lambda>(state_code, r).
     rbind (decode_state state_code) (\<lambda>state.
     rbind (rd_u8 r) (\<lambda>(exit_tag, r).
     rbind (decode_flag exit_tag) (\<lambda>has_exit.
     rbind (rd_i32 r) (\<lambda>(raw_exit, r).
     rbind (rd_u64 r) (\<lambda>(created_at_ms, r).
     rbind (rd_u64 r) (\<lambda>(last_active_at_ms, r).
     rbind (rd_u32 r) (\<lambda>(ring_bytes, r).
     rbind (rd_u8 r) (\<lambda>(writer_tag, r).
     rbind (decode_flag writer_tag) (\<lambda>writer_active.
     rbind (rd_u8 r) (\<lambda>(log_code, r).
     rbind (decode_log_state log_code) (\<lambda>log_state.
     rbind (rd_u8 r) (\<lambda>(context_tag, r).
     rbind (decode_flag context_tag) (\<lambda>exit_context_available.
     let entry = \<lparr>he_session_id = session_id, he_shell_pid = shell_pid, he_state = state,
           he_exit_code = (if has_exit then Some raw_exit else None),
           he_created_at_ms = created_at_ms, he_last_active_at_ms = last_active_at_ms,
           he_ring_bytes = ring_bytes, he_writer_active = writer_active,
           he_log_state = log_state, he_exit_context_available = exit_context_available\<rparr>
     in rbind (validate_entry entry) (\<lambda>_. Inr (entry, r))))))))))))))))))"

definition decode_inventory_response ::
    "bytes \<Rightarrow> holder_protocol_error + inventory_response" where
  "decode_inventory_response payload =
     rbind (rd_u32 (reader_new payload)) (\<lambda>(cursor, r).
     rbind (if cursor = NO_CURSOR then Inr None
            else if cursor = 0 then Inl InvalidField else Inr (Some cursor)) (\<lambda>next_cursor.
     rbind (rd_u16 r) (\<lambda>(count, r).
     if MAX_INVENTORY_ENTRIES < count then Inl PayloadTooLarge else
     rbind (read_n decode_entry (unat count) r) (\<lambda>(entries, r).
     rbind (rd_finish r) (\<lambda>_.
     Inr \<lparr>ir_entries = entries, ir_next_cursor = next_cursor\<rparr>)))))"

section \<open>Requests\<close>

lemma inventory_request_codec:
  "decode_inventory_request p = Inr q \<longleftrightarrow>
   iq_cursor q \<noteq> NO_CURSOR \<and> iq_limit q \<noteq> 0 \<and> iq_limit q \<le> MAX_INVENTORY_ENTRIES
   \<and> p = encode_inventory_request q"
proof
  assume "decode_inventory_request p = Inr q"
  then show "iq_cursor q \<noteq> NO_CURSOR \<and> iq_limit q \<noteq> 0 \<and> iq_limit q \<le> MAX_INVENTORY_ENTRIES
      \<and> p = encode_inventory_request q"
    by (auto simp: decode_inventory_request_def encode_inventory_request_def reader_new_at
        put_defs not_less split: if_splits elim!: rbind_Inr_elim dest!: rd_atD)
next
  assume "iq_cursor q \<noteq> NO_CURSOR \<and> iq_limit q \<noteq> 0 \<and> iq_limit q \<le> MAX_INVENTORY_ENTRIES
      \<and> p = encode_inventory_request q"
  then show "decode_inventory_request p = Inr q"
    by (simp add: decode_inventory_request_def encode_inventory_request_def reader_new_at
        put_defs rd_at_simps leD)
qed

section \<open>Entries and pages\<close>

definition wire_entry :: "holder_session_entry \<Rightarrow> bytes" where
  "wire_entry e = to_be_bytes (he_session_id e) @ to_be_bytes (he_shell_pid e)
     @ encode_state (he_state e) # flag_byte (he_exit_code e \<noteq> None)
     # to_be_bytes (case he_exit_code e of Some c \<Rightarrow> c | None \<Rightarrow> 0)
     @ to_be_bytes (he_created_at_ms e) @ to_be_bytes (he_last_active_at_ms e)
     @ to_be_bytes (he_ring_bytes e)
     @ [flag_byte (he_writer_active e), encode_log_state (he_log_state e),
        flag_byte (he_exit_context_available e)]"

lemma length_wire_entry [simp]: "length (wire_entry e) = ENTRY_SIZE"
  by (simp add: wire_entry_def ENTRY_SIZE_def)

lemma decode_codes [simp]:
  "decode_state (encode_state s) = Inr s"
  "decode_log_state (encode_log_state l) = Inr l"
  "decode_flag (flag_byte b) = Inr b"
  by (cases s, simp_all add: decode_state_def)
     (cases l, simp_all add: decode_log_state_def decode_flag_def flag_byte_def)

lemma encode_entry_iff:
  "encode_entry out e = Inr out' \<longleftrightarrow> validate_entry e = Inr () \<and> out' = out @ wire_entry e"
  by (auto simp: encode_entry_def rbind_eq_Inr Let_def put_defs wire_entry_def)

interpretation we: wire_item encode_entry decode_entry wire_entry "\<lambda>e. validate_entry e = Inr ()"
proof unfold_locales
  show "encode_entry out e = Inr (out @ wire_entry e)" if "validate_entry e = Inr ()" for e out
    using that by (simp add: encode_entry_iff)
  show "decode_entry (rd_at pre (wire_entry e @ rest)) = Inr (e, rd_at (pre @ wire_entry e) rest)"
    if "validate_entry e = Inr ()" "fits (pre @ wire_entry e @ rest)" for e pre rest
    using that
    by (cases e)
       (auto simp: decode_entry_def wire_entry_def rd_at_simps Let_def split: option.splits)
qed

lemma put_each_entries:
  assumes "put_each encode_entry out es = Inr p"
  shows "list_all (\<lambda>e. validate_entry e = Inr ()) es"
  using assms by (induction es arbitrary: out) (auto simp: rbind_eq_Inr encode_entry_iff)

definition inventory_response_ok :: "inventory_response \<Rightarrow> bool" where
  "inventory_response_ok r \<longleftrightarrow> length (ir_entries r) \<le> 256
     \<and> ir_next_cursor r \<noteq> Some 0 \<and> ir_next_cursor r \<noteq> Some NO_CURSOR
     \<and> list_all (\<lambda>e. validate_entry e = Inr ()) (ir_entries r)"

definition wire_inventory :: "inventory_response \<Rightarrow> bytes" where
  "wire_inventory r =
     to_be_bytes (case ir_next_cursor r of Some c \<Rightarrow> c | None \<Rightarrow> NO_CURSOR)
     @ wire_seq wire_entry (ir_entries r)"

lemma encode_inventory_iff:
  "encode_inventory_response r = Inr p \<longleftrightarrow> inventory_response_ok r \<and> p = wire_inventory r"
proof
  assume enc: "encode_inventory_response r = Inr p"
  then have ok: "inventory_response_ok r"
    by (auto simp: encode_inventory_response_def inventory_response_ok_def rbind_eq_Inr Let_def
        MAX_INVENTORY_ENTRIES_def split: if_splits dest!: put_each_entries)
  then show "inventory_response_ok r \<and> p = wire_inventory r"
    using enc we.put_each_all[of "ir_entries r"]
    by (auto simp: encode_inventory_response_def inventory_response_ok_def rbind_eq_Inr
        put_defs wire_inventory_def wire_seq_def split: if_splits)
next
  assume "inventory_response_ok r \<and> p = wire_inventory r"
  then show "encode_inventory_response r = Inr p"
    using we.put_each_all[of "ir_entries r"]
    by (simp add: encode_inventory_response_def inventory_response_ok_def MAX_INVENTORY_ENTRIES_def
        checked_add_usize_def usize_max_def ENTRY_SIZE_def put_defs wire_inventory_def wire_seq_def)
qed

lemma length_wire_inventory:
  "length (wire_inventory r) = 6 + length (ir_entries r) * ENTRY_SIZE"
  by (simp add: wire_inventory_def wire_seq_def length_concat comp_def sum_list_triv)

lemma decode_inventory_ok:
  assumes "inventory_response_ok r"
  shows "decode_inventory_response (wire_inventory r) = Inr r"
proof -
  have "fits (wire_inventory r)"
    using assms by (intro fits_small) (simp add: length_wire_inventory inventory_response_ok_def ENTRY_SIZE_def)
  moreover have "\<not> MAX_INVENTORY_ENTRIES < (of_nat (length (ir_entries r)) :: u16)"
    using assms by (simp add: inventory_response_ok_def MAX_INVENTORY_ENTRIES_def word_less_nat_alt)
  ultimately show ?thesis
    using assms we.read_n_all[of "ir_entries r" _ "[]"]
    by (cases "ir_next_cursor r")
       (auto simp: decode_inventory_response_def wire_inventory_def wire_seq_def reader_new_at
         rd_at_simps inventory_response_ok_def)
qed

section \<open>Admissible pages\<close>

text \<open>What the protocol demands of a page, stated field by field and not through the checks of the
  encoder: identifiers that are not zero, an exit code exactly for an exited session, an exit
  context only for an exited session, activity not before creation, at most 256 entries, and a
  cursor that is neither zero nor the value reserved for no cursor.\<close>

definition entry_admissible :: "holder_session_entry \<Rightarrow> bool" where
  "entry_admissible e \<longleftrightarrow> he_session_id e \<noteq> 0 \<and> he_shell_pid e \<noteq> 0
     \<and> (he_state e = Exited \<longleftrightarrow> he_exit_code e \<noteq> None)
     \<and> (he_exit_context_available e \<longrightarrow> he_state e = Exited)
     \<and> he_created_at_ms e \<le> he_last_active_at_ms e"

lemma validate_entry_iff: "validate_entry e = Inr u \<longleftrightarrow> entry_admissible e"
  by (cases "he_state e"; cases "he_exit_code e")
    (auto simp: validate_entry_def entry_admissible_def Let_def not_less)

definition page_admissible :: "inventory_response \<Rightarrow> bool" where
  "page_admissible r \<longleftrightarrow> length (ir_entries r) \<le> 256
     \<and> ir_next_cursor r \<notin> {Some 0, Some (- 1)} \<and> (\<forall>e \<in> set (ir_entries r). entry_admissible e)"

lemma inventory_response_ok_iff: "inventory_response_ok r \<longleftrightarrow> page_admissible r"
  by (auto simp: inventory_response_ok_def page_admissible_def validate_entry_iff list_all_iff NO_CURSOR_def)

lemma read_n_sound:
  assumes "\<And>r x r'. get r = Inr (x, r') \<Longrightarrow> P x"
  shows "read_n get n r = Inr (xs, r') \<Longrightarrow> length xs = n \<and> list_all P xs"
  by (induction n arbitrary: r xs) (auto elim!: rbind_Inr_elim dest: assms)

lemma decode_entry_valid: "decode_entry r = Inr (e, r') \<Longrightarrow> validate_entry e = Inr ()"
  by (auto simp: decode_entry_def Let_def elim!: rbind_Inr_elim)

lemma decode_inventory_valid:
  assumes "decode_inventory_response p = Inr r"
  shows "inventory_response_ok r"
  using assms read_n_sound[of decode_entry "\<lambda>e. validate_entry e = Inr ()", OF decode_entry_valid]
  by (fastforce simp: decode_inventory_response_def inventory_response_ok_def MAX_INVENTORY_ENTRIES_def
      word_le_nat_alt not_less split: if_splits elim!: rbind_Inr_elim)

end
