(* ===== verification/Ring_Buffer.thy ===== *)
theory Ring_Buffer
  imports Persist_Prelude
begin

text \<open>
  The byte ring buffer that keeps the newest output of a session for replay
  (\<open>crates/persist-core/src/ringbuf.rs\<close>). The record has the fields of \<open>RingBuffer\<close>; the
  writing loop is a \<open>partial_function\<close> whose result \<open>None\<close> stands for a panic (a slice out
  of range, an underflowing subtraction) or for a loop that never ends. The invariant
  \<open>rb_inv\<close> rules both out, and the contents refine the abstract log "the newest
  \<open>capacity\<close> bytes of everything written", which is the contract of the locale
  \<open>bounded_log\<close> that the clients of the buffer use.
\<close>

section \<open>Model\<close>

record ring_buffer =
  rb_buffer :: bytes
  rb_capacity :: nat
  rb_write_pos :: nat
  rb_filled :: bool

text \<open>\<open>RingBuffer::new\<close>: the assertion fails for an empty capacity.\<close>

definition rb_new :: "nat \<Rightarrow> ring_buffer option" where
  "rb_new capacity =
     (if capacity = 0 then None
      else Some \<lparr>rb_buffer = replicate capacity 0, rb_capacity = capacity,
                 rb_write_pos = 0, rb_filled = False\<rparr>)"

text \<open>One round of the loop of \<open>write\<close>: copy what fits before the end of the buffer.\<close>

definition rb_write_chunk :: "ring_buffer \<Rightarrow> bytes \<Rightarrow> ring_buffer" where
  "rb_write_chunk rb chunk =
     (let pos = rb_write_pos rb + length chunk;
          buffer = take (rb_write_pos rb) (rb_buffer rb) @ chunk @ drop pos (rb_buffer rb)
      in if rb_capacity rb \<le> pos
         then rb\<lparr>rb_buffer := buffer, rb_write_pos := 0, rb_filled := True\<rparr>
         else rb\<lparr>rb_buffer := buffer, rb_write_pos := pos\<rparr>)"

partial_function (option) rb_write_loop :: "ring_buffer \<Rightarrow> bytes \<Rightarrow> ring_buffer option" where
  "rb_write_loop rb remaining =
     (if remaining = [] then Some rb
      else if rb_capacity rb < rb_write_pos rb then None
      else
        let space = rb_capacity rb - rb_write_pos rb;
            to_write = min (length remaining) space
        in if length (rb_buffer rb) < rb_write_pos rb + to_write then None
           else rb_write_loop (rb_write_chunk rb (take to_write remaining))
                  (drop to_write remaining))"

definition rb_write :: "ring_buffer \<Rightarrow> bytes \<Rightarrow> ring_buffer option" where
  "rb_write rb data = (if data = [] then Some rb else rb_write_loop rb data)"

definition rb_len :: "ring_buffer \<Rightarrow> nat" where
  "rb_len rb = (if rb_filled rb then rb_capacity rb else rb_write_pos rb)"

definition rb_is_empty :: "ring_buffer \<Rightarrow> bool" where
  "rb_is_empty rb \<longleftrightarrow> rb_len rb = 0"

definition rb_read_all :: "ring_buffer \<Rightarrow> bytes" where
  "rb_read_all rb =
     (if rb_filled rb then drop (rb_write_pos rb) (rb_buffer rb) else [])
     @ take (rb_write_pos rb) (rb_buffer rb)"

definition rb_read_replay :: "ring_buffer \<Rightarrow> nat \<Rightarrow> bytes" where
  "rb_read_replay rb max_bytes =
     (let total = rb_len rb in
      if total = 0 then [] else drop (total - max_bytes) (rb_read_all rb))"

section \<open>Invariant and abstraction\<close>

definition rb_inv :: "ring_buffer \<Rightarrow> bool" where
  "rb_inv rb \<longleftrightarrow> length (rb_buffer rb) = rb_capacity rb \<and> rb_write_pos rb < rb_capacity rb"

lemma rb_inv_new: "rb_new n = Some rb \<Longrightarrow> rb_inv rb \<and> rb_capacity rb = n \<and> rb_read_all rb = []"
  by (auto simp: rb_new_def rb_inv_def rb_read_all_def split: if_splits)

lemma rb_len_read_all: "rb_inv rb \<Longrightarrow> rb_len rb = length (rb_read_all rb)"
  by (simp add: rb_inv_def rb_len_def rb_read_all_def)

lemma rb_len_le_capacity: "rb_inv rb \<Longrightarrow> rb_len rb \<le> rb_capacity rb"
  by (simp add: rb_inv_def rb_len_def)

lemma rb_write_chunk_capacity [simp]: "rb_capacity (rb_write_chunk rb c) = rb_capacity rb"
  by (simp add: rb_write_chunk_def Let_def)

lemma rb_write_chunk_inv:
  assumes "rb_inv rb" and "rb_write_pos rb + length c \<le> rb_capacity rb"
  shows "rb_inv (rb_write_chunk rb c)"
  using assms by (auto simp: rb_inv_def rb_write_chunk_def Let_def)

lemma rb_write_chunk_contents:
  assumes "rb_inv rb" and "rb_write_pos rb + length c \<le> rb_capacity rb"
  shows "rb_read_all (rb_write_chunk rb c) = lastn (rb_capacity rb) (rb_read_all rb @ c)"
proof (cases "rb_write_pos rb + length c = rb_capacity rb")
  case True
  then show ?thesis
    using assms
    by (cases "rb_filled rb")
       (simp_all add: rb_inv_def rb_write_chunk_def Let_def rb_read_all_def lastn_def)
next
  case False
  then show ?thesis
    using assms
    by (cases "rb_filled rb")
       (simp_all add: rb_inv_def rb_write_chunk_def Let_def rb_read_all_def lastn_def
          add.commute)
qed

lemma rb_write_loop_correct:
  assumes "rb_inv rb"
  shows "\<exists>rb'. rb_write_loop rb data = Some rb' \<and> rb_inv rb' \<and> rb_capacity rb' = rb_capacity rb
    \<and> rb_read_all rb' = lastn (rb_capacity rb) (rb_read_all rb @ data)"
  using assms
proof (induction "length data" arbitrary: rb data rule: less_induct)
  case less
  show ?case
  proof (cases "data = []")
    case True
    then show ?thesis
      using less.prems rb_len_le_capacity[OF less.prems]
      by (simp add: rb_write_loop.simps rb_len_read_all)
  next
    case False
    let ?n = "min (length data) (rb_capacity rb - rb_write_pos rb)"
    let ?rb = "rb_write_chunk rb (take ?n data)"
    have pos: "rb_write_pos rb < rb_capacity rb" "length (rb_buffer rb) = rb_capacity rb"
      using less.prems by (simp_all add: rb_inv_def)
    have fits: "rb_write_pos rb + length (take ?n data) \<le> rb_capacity rb"
      using pos by simp
    have "length (drop ?n data) < length data"
      using False pos by simp
    from less.hyps[OF this rb_write_chunk_inv[OF less.prems fits]]
    obtain rb' where rb': "rb_write_loop ?rb (drop ?n data) = Some rb'" "rb_inv rb'"
      "rb_capacity rb' = rb_capacity rb"
      "rb_read_all rb' = lastn (rb_capacity rb) (rb_read_all ?rb @ drop ?n data)"
      by auto
    have "rb_write_loop rb data = Some rb'"
      using False pos rb'(1) by (subst rb_write_loop.simps) (simp add: Let_def)
    moreover have "rb_read_all rb' = lastn (rb_capacity rb) (rb_read_all rb @ data)"
      using rb'(4) rb_write_chunk_contents[OF less.prems fits]
      by (simp add: lastn_lastn_append)
    ultimately show ?thesis
      using rb'(2,3) by blast
  qed
qed

lemma rb_write_correct:
  assumes "rb_inv rb"
  shows "\<exists>rb'. rb_write rb data = Some rb' \<and> rb_inv rb' \<and> rb_capacity rb' = rb_capacity rb
    \<and> rb_read_all rb' = lastn (rb_capacity rb) (rb_read_all rb @ data)"
proof (cases "data = []")
  case True
  then show ?thesis
    using assms rb_len_le_capacity[OF assms] by (simp add: rb_write_def rb_len_read_all)
next
  case False
  then show ?thesis
    using rb_write_loop_correct[OF assms] by (simp add: rb_write_def)
qed

lemma rb_read_replay_lastn: "rb_inv rb \<Longrightarrow> rb_read_replay rb n = lastn n (rb_read_all rb)"
  by (simp add: rb_read_replay_def Let_def rb_len_read_all lastn_def)

section \<open>The contract of a bounded log\<close>

text \<open>What a session relies on: writing returns, keeps the invariant, and leaves the newest
  \<open>capacity\<close> bytes. The clients' facts about several writes are proved once from it.\<close>

primrec write_all :: "('l \<Rightarrow> bytes \<Rightarrow> 'l option) \<Rightarrow> 'l \<Rightarrow> bytes list \<Rightarrow> 'l option" where
  "write_all w l [] = Some l"
| "write_all w l (c # cs) = (case w l c of None \<Rightarrow> None | Some l' \<Rightarrow> write_all w l' cs)"

locale bounded_log =
  fixes log_inv :: "'l \<Rightarrow> bool"
    and log_capacity :: "'l \<Rightarrow> nat"
    and log_contents :: "'l \<Rightarrow> bytes"
    and log_write :: "'l \<Rightarrow> bytes \<Rightarrow> 'l option"
  assumes write_law: "log_inv l \<Longrightarrow>
      \<exists>l'. log_write l data = Some l' \<and> log_inv l' \<and> log_capacity l' = log_capacity l
        \<and> log_contents l' = lastn (log_capacity l) (log_contents l @ data)"
    and bounded_law: "log_inv l \<Longrightarrow> length (log_contents l) \<le> log_capacity l"
begin

lemma write_all_contents:
  assumes "log_inv l"
  shows "\<exists>l'. write_all log_write l cs = Some l' \<and> log_inv l' \<and> log_capacity l' = log_capacity l
    \<and> log_contents l' = lastn (log_capacity l) (log_contents l @ concat cs)"
  using assms
proof (induction cs arbitrary: l)
  case Nil
  then show ?case
    using bounded_law by simp
next
  case (Cons c cs)
  obtain l1 where l1: "log_write l c = Some l1" "log_inv l1" "log_capacity l1 = log_capacity l"
    "log_contents l1 = lastn (log_capacity l) (log_contents l @ c)"
    using write_law[OF Cons.prems] by blast
  show ?case
    using Cons.IH[OF l1(2)] by (simp add: l1 lastn_lastn_append)
qed

end

interpretation rb: bounded_log rb_inv rb_capacity rb_read_all rb_write
proof unfold_locales
  show "\<exists>l'. rb_write l data = Some l' \<and> rb_inv l' \<and> rb_capacity l' = rb_capacity l
    \<and> rb_read_all l' = lastn (rb_capacity l) (rb_read_all l @ data)" if "rb_inv l" for l data
    using that by (rule rb_write_correct)
  show "length (rb_read_all l) \<le> rb_capacity l" if "rb_inv l" for l
    using rb_len_le_capacity[OF that] rb_len_read_all[OF that] by simp
qed

end
