(* ===== verification/Holder_Effects.thy ===== *)
theory Holder_Effects
  imports Holder_Inventory Ring_Buffer
begin

text \<open>
  The effects of the session holder (\<open>crates/persist-holder\<close>). The operating system is a
  parameter: a record \<open>os\<close> of functions, one per system call the holder makes, each of which
  takes the world and returns its result with the next world. Nothing is known of the world
  but what a theorem assumes of these functions; \<open>fd_discipline\<close> states what is documented
  of file descriptors, namely that a new descriptor is not one of the open ones and that
  only \<open>close\<close> ends one.

  A handler is a function on the state of the holder that ends in \<open>Ret\<close>, in \<open>Err\<close> with the
  error it returned, or in \<open>Panic\<close> (an \<open>unwrap\<close> on nothing, an index that is absent, an
  arithmetic underflow); the state reached is kept in each case, because the callers of the
  handlers go on after an error. The result \<open>None\<close> stands for a loop that does not end. The
  triple \<open>hoare P m Q E\<close> says that \<open>m\<close> does not panic and that \<open>Q\<close> or \<open>E\<close> holds when it
  returns.
\<close>

declare map_of_eq_Some_iff [simp del]

section \<open>The operating system\<close>

type_synonym raw_fd = int

datatype read_result = ReadBytes bytes | ReadWouldBlock | ReadEio | ReadFailed

datatype write_result = Written nat | WriteWouldBlock | WriteFailed

datatype wait_result = StillRunning | WaitFailed | WaitExited u8 | WaitSignaled u8 | WaitUnknown

datatype accept_result = NoPeer | AcceptFailed | Peer raw_fd u32 u32

text \<open>What the private state file of a session looks like when it is opened.\<close>

datatype state_file =
    DirectoryUnsafe | FileMissing | FileFailed | FileUnsafe | FileChanged
  | FileContents nat bytes

datatype epoll_op = CtlAdd bool | CtlMod bool | CtlDel

datatype holder_signal = SigInt | SigTerm | SigChld | SigOther

record 'w os =
  os_process_id :: u32
  os_uid :: u32
  os_now_ms :: "'w \<Rightarrow> u64 \<times> 'w"
  os_read :: "raw_fd \<Rightarrow> 'w \<Rightarrow> read_result \<times> 'w"
  os_write :: "raw_fd \<Rightarrow> bytes \<Rightarrow> 'w \<Rightarrow> write_result \<times> 'w"
  os_open_pty :: "create_session_request \<Rightarrow> 'w \<Rightarrow> (raw_fd \<times> u32) option \<times> 'w"
  os_waitpid :: "u32 \<Rightarrow> 'w \<Rightarrow> wait_result \<times> 'w"
  os_kill :: "u32 \<Rightarrow> bool \<Rightarrow> u32 \<Rightarrow> 'w \<Rightarrow> bool \<times> 'w"
  os_tcgetpgrp :: "raw_fd \<Rightarrow> 'w \<Rightarrow> u32 option \<times> 'w"
  os_set_winsize :: "raw_fd \<Rightarrow> u16 \<Rightarrow> u16 \<Rightarrow> 'w \<Rightarrow> bool \<times> 'w"
  os_state_file :: "rstring \<Rightarrow> 'w \<Rightarrow> state_file \<times> 'w"
  os_remove_state :: "rstring \<Rightarrow> 'w \<Rightarrow> bool \<times> 'w"
  os_log_written :: "'w \<Rightarrow> bool list \<times> 'w"
  os_epoll_ctl :: "epoll_op \<Rightarrow> raw_fd \<Rightarrow> u64 \<Rightarrow> 'w \<Rightarrow> bool \<times> 'w"
  os_accept :: "'w \<Rightarrow> accept_result \<times> 'w"
  os_signal :: "'w \<Rightarrow> holder_signal option \<times> 'w"
  os_closes_within :: "raw_fd \<Rightarrow> 'w \<Rightarrow> bool \<times> 'w"
  os_close :: "raw_fd \<Rightarrow> 'w \<Rightarrow> 'w"

text \<open>The documented behaviour of descriptors, for a function \<open>open_fds\<close> that tells which
  descriptors are open in a world.\<close>

definition fd_discipline :: "'w os \<Rightarrow> ('w \<Rightarrow> raw_fd set) \<Rightarrow> bool" where
  "fd_discipline os open_fds \<longleftrightarrow>
     (\<forall>w. open_fds (snd (os_now_ms os w)) = open_fds w)
     \<and> (\<forall>fd w. open_fds (snd (os_read os fd w)) = open_fds w)
     \<and> (\<forall>fd bs w. open_fds (snd (os_write os fd bs w)) = open_fds w)
     \<and> (\<forall>q w. case os_open_pty os q w of
          (None, w') \<Rightarrow> open_fds w' = open_fds w
        | (Some (fd, pid), w') \<Rightarrow> fd \<notin> open_fds w \<and> open_fds w' = insert fd (open_fds w))
     \<and> (\<forall>pid w. open_fds (snd (os_waitpid os pid w)) = open_fds w)
     \<and> (\<forall>pid g sig w. open_fds (snd (os_kill os pid g sig w)) = open_fds w)
     \<and> (\<forall>fd w. open_fds (snd (os_tcgetpgrp os fd w)) = open_fds w)
     \<and> (\<forall>fd r c w. open_fds (snd (os_set_winsize os fd r c w)) = open_fds w)
     \<and> (\<forall>p w. open_fds (snd (os_state_file os p w)) = open_fds w)
     \<and> (\<forall>p w. open_fds (snd (os_remove_state os p w)) = open_fds w)
     \<and> (\<forall>w. open_fds (snd (os_log_written os w)) = open_fds w)
     \<and> (\<forall>op fd t w. open_fds (snd (os_epoll_ctl os op fd t w)) = open_fds w)
     \<and> (\<forall>w. case os_accept os w of
          (Peer fd pid uid, w') \<Rightarrow> fd \<notin> open_fds w \<and> open_fds w' = insert fd (open_fds w)
        | (_, w') \<Rightarrow> open_fds w' = open_fds w)
     \<and> (\<forall>w. open_fds (snd (os_signal os w)) = open_fds w)
     \<and> (\<forall>fd w. open_fds (snd (os_closes_within os fd w)) = open_fds w)
     \<and> (\<forall>fd w. open_fds (os_close os fd w) = open_fds w - {fd})"

text \<open>A write accepts at most the bytes it is given.\<close>

definition writes_bounded :: "'w os \<Rightarrow> bool" where
  "writes_bounded os \<longleftrightarrow>
     (\<forall>fd bs w n w'. os_write os fd bs w = (Written n, w') \<longrightarrow> n \<le> length bs)"

text \<open>A read fills at most the 64 KiB buffer it is given.\<close>

definition reads_bounded :: "'w os \<Rightarrow> bool" where
  "reads_bounded os \<longleftrightarrow>
     (\<forall>fd bs w w'. os_read os fd w = (ReadBytes bs, w') \<longrightarrow> length bs \<le> MAX_HOLDER_IO_FRAME)"

section \<open>Handlers\<close>

datatype 'a res = Ret 'a | Err persist_error | Panic

type_synonym ('s, 'a) handler = "'s \<Rightarrow> ('a res \<times> 's) option"

definition sret :: "'a \<Rightarrow> ('s, 'a) handler" where
  "sret x s = Some (Ret x, s)"

definition serr :: "persist_error \<Rightarrow> ('s, 'a) handler" where
  "serr e s = Some (Err e, s)"

definition spanic :: "('s, 'a) handler" where
  "spanic s = Some (Panic, s)"

definition sbind :: "('s, 'a) handler \<Rightarrow> ('a \<Rightarrow> ('s, 'b) handler) \<Rightarrow> ('s, 'b) handler" where
  "sbind m f s =
     (case m s of
        None \<Rightarrow> None
      | Some (Ret x, s') \<Rightarrow> f x s'
      | Some (Err e, s') \<Rightarrow> Some (Err e, s')
      | Some (Panic, s') \<Rightarrow> Some (Panic, s'))"

text \<open>\<open>is_err()\<close>: go on with whether the handler failed.\<close>

definition scatch :: "('s, 'a) handler \<Rightarrow> (bool \<Rightarrow> ('s, 'b) handler) \<Rightarrow> ('s, 'b) handler" where
  "scatch m f s =
     (case m s of
        None \<Rightarrow> None
      | Some (Ret x, s') \<Rightarrow> f False s'
      | Some (Err e, s') \<Rightarrow> f True s'
      | Some (Panic, s') \<Rightarrow> Some (Panic, s'))"

definition sget :: "('s \<Rightarrow> ('s, 'a) handler) \<Rightarrow> ('s, 'a) handler" where
  "sget f s = f s s"

definition sput :: "('s \<Rightarrow> 's) \<Rightarrow> ('s, unit) handler" where
  "sput f s = Some (Ret (), f s)"

definition sresult :: "(persist_error + 'a) \<Rightarrow> ('s, 'a) handler" where
  "sresult r = (case r of Inl e \<Rightarrow> serr e | Inr x \<Rightarrow> sret x)"

text \<open>\<open>unwrap\<close>, and \<open>ok_or\<close> of an option.\<close>

definition sunwrap :: "'a option \<Rightarrow> ('s, 'a) handler" where
  "sunwrap x = (case x of None \<Rightarrow> spanic | Some v \<Rightarrow> sret v)"

primrec sfor :: "('a \<Rightarrow> ('s, unit) handler) \<Rightarrow> 'a list \<Rightarrow> ('s, unit) handler" where
  "sfor f [] = sret ()"
| "sfor f (x # xs) = sbind (f x) (\<lambda>_. sfor f xs)"

lemmas handler_defs = sret_def serr_def spanic_def sbind_def scatch_def sget_def sput_def
  sresult_def sunwrap_def

section \<open>Triples\<close>

text \<open>\<open>ends Q E\<close> is the weakest precondition of a handler's result: the equations below compute
  it along the handler, and a triple is used where a handler is called.\<close>

definition ends ::
    "('a \<Rightarrow> 's \<Rightarrow> bool) \<Rightarrow> ('s \<Rightarrow> bool) \<Rightarrow> ('a res \<times> 's) option \<Rightarrow> bool" where
  "ends Q E x =
     (case x of
        None \<Rightarrow> True
      | Some (Ret y, s') \<Rightarrow> Q y s'
      | Some (Err e, s') \<Rightarrow> E s'
      | Some (Panic, s') \<Rightarrow> False)"

definition hoare ::
    "('s \<Rightarrow> bool) \<Rightarrow> ('s, 'a) handler \<Rightarrow> ('a \<Rightarrow> 's \<Rightarrow> bool) \<Rightarrow> ('s \<Rightarrow> bool) \<Rightarrow> bool" where
  "hoare P m Q E \<longleftrightarrow> (\<forall>s. P s \<longrightarrow> ends Q E (m s))"

named_theorems wp "equations that compute preconditions of handlers"

lemma ends_simps [simp]:
  "ends Q E None"
  "ends Q E (Some (Ret y, s)) = Q y s"
  "ends Q E (Some (Err e, s)) = E s"
  "ends Q E (Some (Panic, s)) = False"
  by (simp_all add: ends_def)

lemma hoareI: "(\<And>s. P s \<Longrightarrow> ends Q E (m s)) \<Longrightarrow> hoare P m Q E"
  by (simp add: hoare_def)

lemma hoareD: "hoare P m Q E \<Longrightarrow> P s \<Longrightarrow> ends Q E (m s)"
  by (simp add: hoare_def)

lemma ends_mono:
  "ends Q E x \<Longrightarrow> (\<And>y s. Q y s \<Longrightarrow> Q' y s) \<Longrightarrow> (\<And>s. E s \<Longrightarrow> E' s) \<Longrightarrow> ends Q' E' x"
  by (auto simp: ends_def split: option.splits res.splits)

text \<open>Using the triple of a called handler.\<close>

lemma hoare_call:
  "hoare P m Q E \<Longrightarrow> P s \<Longrightarrow> (\<And>y s. Q y s \<Longrightarrow> Q' y s) \<Longrightarrow> (\<And>s. E s \<Longrightarrow> E' s) \<Longrightarrow> ends Q' E' (m s)"
  by (rule ends_mono[OF hoareD])

lemma wp_basic [wp]:
  "ends Q E (sret y s) = Q y s"
  "ends Q E (serr e s) = E s"
  "ends Q E (spanic s) = False"
  "ends Q E (sget g s) = ends Q E (g s s)"
  by (simp_all add: sret_def serr_def spanic_def sget_def)

lemma wp_put [wp]: "ends Q E (sput f s) = Q () (f s)"
  by (simp add: sput_def)

lemma wp_bind [wp]:
  "ends Q E (sbind m f s) = ends (\<lambda>y s'. ends Q E (f y s')) E (m s)"
  by (simp add: sbind_def ends_def split: option.splits prod.splits res.splits)

lemma wp_catch [wp]:
  "ends Q E (scatch m f s) = ends (\<lambda>_ s'. ends Q E (f False s')) (\<lambda>s'. ends Q E (f True s')) (m s)"
  by (simp add: scatch_def ends_def split: option.splits prod.splits res.splits)

lemma wp_if [wp]:
  "ends Q E ((if b then m else n) s) = (if b then ends Q E (m s) else ends Q E (n s))"
  by simp

lemma wp_result [wp]:
  "ends Q E (sresult r s) = (case r of Inl e \<Rightarrow> E s | Inr y \<Rightarrow> Q y s)"
  by (cases r) (simp_all add: sresult_def wp_basic)

lemma wp_unwrap [wp]:
  "ends Q E (sunwrap x s) = (case x of None \<Rightarrow> False | Some y \<Rightarrow> Q y s)"
  by (cases x) (simp_all add: sunwrap_def wp_basic)

lemma hoare_for:
  assumes "\<And>x. x \<in> set xs \<Longrightarrow> hoare P (f x) (\<lambda>_. P) E"
  shows "hoare P (sfor f xs) (\<lambda>_. P) E"
  using assms
proof (induction xs)
  case Nil
  show ?case by (simp add: hoareI wp)
next
  case (Cons x xs)
  have x: "hoare P (f x) (\<lambda>_. P) E" and xs: "hoare P (sfor f xs) (\<lambda>_. P) E"
    using Cons by simp_all
  show ?case
    unfolding sfor.simps
    by (rule hoareI, unfold wp_bind, rule hoare_call[OF x]) (auto intro: hoareD[OF xs])
qed

section \<open>Handlers that return\<close>

text \<open>A handler \<open>returns\<close> when it ends, with a value, an error or a panic, in every state.\<close>

definition returns :: "('s, 'a) handler \<Rightarrow> bool" where
  "returns m \<longleftrightarrow> (\<forall>s. m s \<noteq> None)"

named_theorems rets "handlers that return"

lemma returnsD: "returns m \<Longrightarrow> m s \<noteq> None"
  by (simp add: returns_def)

lemma returns_ends: "returns m \<Longrightarrow> \<exists>r s'. m s = Some (r, s')"
  by (simp add: returns_def split_paired_all)

lemma returns_basic [rets]:
  "returns (sret x)" "returns (serr e)" "returns spanic" "returns (sput g)" "returns (sresult r)"
  "returns (sunwrap v)"
  by (auto simp: returns_def handler_defs split: sum.splits option.splits)

lemma returns_bind [rets]: "returns m \<Longrightarrow> (\<And>x. returns (f x)) \<Longrightarrow> returns (sbind m f)"
  by (auto simp: returns_def sbind_def split: option.splits res.splits)

lemma returns_catch [rets]: "returns m \<Longrightarrow> (\<And>x. returns (f x)) \<Longrightarrow> returns (scatch m f)"
  by (auto simp: returns_def scatch_def split: option.splits res.splits)

lemma returns_get [rets]: "(\<And>s. returns (f s)) \<Longrightarrow> returns (sget f)"
  by (simp add: returns_def sget_def)

lemma returns_if [rets]: "returns m \<Longrightarrow> returns n \<Longrightarrow> returns (if b then m else n)"
  by simp

lemma returns_option [rets]:
  "returns m \<Longrightarrow> (\<And>x. returns (f x)) \<Longrightarrow> returns (case v of None \<Rightarrow> m | Some x \<Rightarrow> f x)"
  by (cases v) simp_all

lemma returns_prod [rets]: "(\<And>x y. returns (f x y)) \<Longrightarrow> returns (case p of (x, y) \<Rightarrow> f x y)"
  by (cases p) simp

lemma returns_let [rets]: "(\<And>x. returns (f x)) \<Longrightarrow> returns (let x = v in f x)"
  by (simp add: Let_def)

lemma returns_for [rets]: "(\<And>x. returns (f x)) \<Longrightarrow> returns (sfor f xs)"
  by (induction xs) (auto intro: rets)

end
