(* ===== verification/Byte_Queue.thy ===== *)
theory Byte_Queue
  imports Holder_Effects
begin

text \<open>
  The bounded byte queues of the holder. A \<open>Session\<close> queues input for its PTY
  (\<open>runtime.rs\<close>: \<open>input\<close>, \<open>input_offset\<close>, \<open>input_bytes\<close>) and a \<open>Connection\<close> queues frames
  for its peer (\<open>connection.rs\<close>: \<open>output\<close>, \<open>output_offset\<close>, \<open>output_bytes\<close>) with the same
  three fields and the same flushing loop, which is modelled once here and used by both. The
  locale \<open>fifo_queue\<close> is the contract the two share: whatever sequence of pushes and partial
  writes happens, the bytes the peer has received followed by those still pending are
  exactly the bytes that were accepted, in order, and never more than the limit is pending.
\<close>

section \<open>Model\<close>

record byte_queue =
  bq_chunks :: "bytes list"
  bq_offset :: nat
  bq_bytes :: nat

definition bq_empty :: byte_queue where
  "bq_empty = \<lparr>bq_chunks = [], bq_offset = 0, bq_bytes = 0\<rparr>"

datatype flush_end = Drained | WroteZero | FlushBlocked | FlushFailed

text \<open>How much is left to write, and 0 for a cursor past its chunk, where the next slice
  panics.\<close>

fun bq_measure :: "bytes list \<Rightarrow> nat \<Rightarrow> nat" where
  "bq_measure [] off = 0"
| "bq_measure (front # rest) off =
     (if length front < off then 0
      else Suc (length (concat (front # rest)) - off + length rest))"

text \<open>The body of the \<open>while let Some(front)\<close> loops: write the front chunk from the offset,
  advance by the count, and drop the chunk when it is written completely. \<open>None\<close> is a panic:
  a slice that starts past the end or a counter that underflows.\<close>

function drain_queue ::
    "('w \<Rightarrow> bytes \<Rightarrow> write_result \<times> 'w) \<Rightarrow> bytes list \<Rightarrow> nat \<Rightarrow> nat \<Rightarrow> 'w
      \<Rightarrow> (flush_end \<times> byte_queue \<times> 'w) option" where
  "drain_queue write [] off n w = Some (Drained, \<lparr>bq_chunks = [], bq_offset = off, bq_bytes = n\<rparr>, w)"
| "drain_queue write (front # rest) off n w =
     (if length front < off then None
      else
        let q = \<lparr>bq_chunks = front # rest, bq_offset = off, bq_bytes = n\<rparr> in
        case write w (drop off front) of
          (Written 0, w') \<Rightarrow> Some (WroteZero, q, w')
        | (Written (Suc k), w') \<Rightarrow>
            if n < Suc k then None
            else if off + Suc k = length front then drain_queue write rest 0 (n - Suc k) w'
            else drain_queue write (front # rest) (off + Suc k) (n - Suc k) w'
        | (WriteWouldBlock, w') \<Rightarrow> Some (FlushBlocked, q, w')
        | (WriteFailed, w') \<Rightarrow> Some (FlushFailed, q, w'))"
  by pat_completeness auto
termination
proof (relation "measure (\<lambda>(put, chunks, off, n, w). bq_measure chunks off)", goal_cases)
  case 1
  show ?case by simp
next
  case (2 put front rest off n w q x w' k)
  then show ?case by (cases rest) auto
next
  case (3 put front rest off n w q x w' k)
  then show ?case by auto
qed

definition bq_flush ::
    "('w \<Rightarrow> bytes \<Rightarrow> write_result \<times> 'w) \<Rightarrow> byte_queue \<Rightarrow> 'w
      \<Rightarrow> (flush_end \<times> byte_queue \<times> 'w) option" where
  "bq_flush write q w = drain_queue write (bq_chunks q) (bq_offset q) (bq_bytes q) w"

text \<open>The check of the limit and the push, shared by \<open>queue_input\<close> and \<open>Connection::queue\<close>;
  the two differ in their messages.\<close>

definition bq_push ::
    "persist_error \<Rightarrow> persist_error \<Rightarrow> nat \<Rightarrow> byte_queue \<Rightarrow> bytes \<Rightarrow> persist_error + byte_queue" where
  "bq_push overflow exceeded limit q data =
     rbind (ok_or overflow (checked_add_usize (bq_bytes q) (length data))) (\<lambda>new_size.
       if limit < new_size then Inl exceeded
       else Inr (q\<lparr>bq_bytes := new_size, bq_chunks := bq_chunks q @ [data]\<rparr>))"

section \<open>Invariant\<close>

definition bq_pending :: "byte_queue \<Rightarrow> bytes" where
  "bq_pending q = drop (bq_offset q) (concat (bq_chunks q))"

definition bq_inv :: "nat \<Rightarrow> byte_queue \<Rightarrow> bool" where
  "bq_inv limit q \<longleftrightarrow> list_all (\<lambda>c. c \<noteq> []) (bq_chunks q)
     \<and> (case bq_chunks q of [] \<Rightarrow> bq_offset q = 0 | c # _ \<Rightarrow> bq_offset q < length c)
     \<and> bq_bytes q = length (bq_pending q) \<and> bq_bytes q \<le> limit"

lemma bq_inv_empty [simp]: "bq_inv limit bq_empty" "bq_pending bq_empty = []"
  by (simp_all add: bq_inv_def bq_empty_def bq_pending_def)

lemma bq_push_inv:
  assumes "bq_inv limit q" and "data \<noteq> []" and "bq_push ov ex limit q data = Inr q'"
  shows "bq_inv limit q' \<and> bq_pending q' = bq_pending q @ data"
proof -
  have "bq_offset q \<le> length (concat (bq_chunks q))"
    using assms(1) by (cases "bq_chunks q") (simp_all add: bq_inv_def)
  then show ?thesis
    using assms
    by (cases "bq_chunks q")
       (auto simp: bq_inv_def bq_pending_def bq_push_def rbind_eq_Inr ok_or_eq_Inr
         checked_add_usize_def split: if_splits)
qed

lemma bq_push_accepts:
  assumes "bq_inv limit q" and "limit \<le> usize_max"
  shows "is_ok (bq_push ov ex limit q data) \<longleftrightarrow> length (bq_pending q) + length data \<le> limit"
  using assms
  by (auto simp: bq_push_def bq_inv_def is_ok_iff rbind_eq_Inr ok_or_eq_Inr checked_add_usize_def)

section \<open>Flushing\<close>

text \<open>What \<open>write(2)\<close> does: it takes a prefix of what it is given, which \<open>accepted\<close> records.\<close>

definition sink :: "('w \<Rightarrow> bytes \<Rightarrow> write_result \<times> 'w) \<Rightarrow> ('w \<Rightarrow> bytes) \<Rightarrow> bool" where
  "sink write accepted \<longleftrightarrow>
     (\<forall>w bs. case write w bs of
        (Written n, w') \<Rightarrow> n \<le> length bs \<and> accepted w' = accepted w @ take n bs
      | (_, w') \<Rightarrow> accepted w' = accepted w)"

text \<open>Whatever is kept by each write is kept by the whole loop.\<close>

definition write_keeps :: "('w \<Rightarrow> bytes \<Rightarrow> write_result \<times> 'w) \<Rightarrow> ('w \<Rightarrow> bool) \<Rightarrow> bool" where
  "write_keeps write P \<longleftrightarrow> (\<forall>w bs. P w \<longrightarrow> P (snd (write w bs)))"

definition write_bounded :: "('w \<Rightarrow> bytes \<Rightarrow> write_result \<times> 'w) \<Rightarrow> bool" where
  "write_bounded write \<longleftrightarrow> (\<forall>w bs n w'. write w bs = (Written n, w') \<longrightarrow> n \<le> length bs)"

definition write_failed :: "('w \<Rightarrow> bytes \<Rightarrow> write_result \<times> 'w) \<Rightarrow> 'w \<Rightarrow> bool" where
  "write_failed put w' \<longleftrightarrow> (\<exists>w bs. put w bs = (WriteFailed, w'))"

lemma sinkD:
  assumes "sink put accepted" and "put w bs = (r, w')"
  shows "accepted w' = accepted w @ (case r of Written k \<Rightarrow> take k bs | _ \<Rightarrow> [])"
  using assms(1)[unfolded sink_def, THEN spec[of _ w], THEN spec[of _ bs]] assms(2)
  by (cases r) auto

lemma sink_bounded: "sink write accepted \<Longrightarrow> write_bounded write"
  unfolding sink_def write_bounded_def by (metis (mono_tags, lifting) prod.case write_result.case(1))

lemma drain_queue_returns:
  assumes "write_bounded put" and "write_keeps put P" and "P w"
    and "bq_inv limit \<lparr>bq_chunks = chunks, bq_offset = off, bq_bytes = n\<rparr>"
  shows "\<exists>e q' w'. drain_queue put chunks off n w = Some (e, q', w') \<and> bq_inv limit q' \<and> P w'
    \<and> (\<forall>accepted. sink put accepted \<longrightarrow>
        accepted w' @ bq_pending q' = accepted w @ drop off (concat chunks))
    \<and> (e = Drained \<longrightarrow> bq_chunks q' = [])
    \<and> (e = FlushFailed \<longrightarrow> write_failed put w')"
  using assms
proof (induction put chunks off n w rule: drain_queue.induct)
  case (1 put off n w)
  then show ?case by (simp add: bq_inv_def bq_pending_def)
next
  case (2 put front rest off n w)
  have off: "off < length front" and n: "n = length (front @ concat rest) - off"
    and ne: "list_all (\<lambda>c. c \<noteq> []) rest" and le: "n \<le> limit"
    using "2.prems"(4) by (auto simp: bq_inv_def bq_pending_def)
  obtain r w1 where wr: "put w (drop off front) = (r, w1)"
    by (cases "put w (drop off front)")
  have P1: "P w1"
    using "2.prems"(2,3) wr by (metis write_keeps_def snd_conv)
  have acc1: "accepted w1 = accepted w @ (case r of Written k \<Rightarrow> take k (drop off front) | _ \<Rightarrow> [])"
    if "sink put accepted" for accepted
    using sinkD[OF that wr] .
  have stop: ?case if "drain_queue put (front # rest) off n w =
      Some (e, \<lparr>bq_chunks = front # rest, bq_offset = off, bq_bytes = n\<rparr>, w1)"
      and "e \<noteq> Drained" and "\<forall>k. r = Written k \<longrightarrow> k = 0" and "e = FlushFailed \<longrightarrow> r = WriteFailed" for e
    using that "2.prems"(4) P1 acc1 wr
    by (cases r) (auto simp: bq_pending_def write_failed_def)
  show ?case
  proof (cases r)
    case (Written k)
    then have k: "k \<le> length front - off"
      using "2.prems"(1) wr by (fastforce simp: write_bounded_def)
    show ?thesis
    proof (cases k)
      case 0
      then show ?thesis
        using off wr Written by (intro stop[of WroteZero]) simp_all
    next
      case (Suc j)
      have room: "\<not> n < Suc j" "\<not> length front < off"
        using k Suc n off by auto
      have sent: "take k (drop off front) @ drop (off + k) (front @ concat rest) =
          drop off (front @ concat rest)"
        using k off by (simp add: append_eq_conv_conj add.commute)
      show ?thesis
      proof (cases "off + Suc j = length front")
        case True
        have "bq_inv limit \<lparr>bq_chunks = rest, bq_offset = 0, bq_bytes = n - Suc j\<rparr>"
          using ne n True le by (cases rest) (auto simp: bq_inv_def bq_pending_def)
        from "2.IH"(1)[OF room(2) refl wr[symmetric] Written[unfolded Suc] refl room(1) True
            "2.prems"(1,2) P1 this]
        show ?thesis
          using wr Written Suc room True acc1 sent by auto
      next
        case False
        then have "bq_inv limit \<lparr>bq_chunks = front # rest, bq_offset = off + Suc j, bq_bytes = n - Suc j\<rparr>"
          using ne n k Suc le off by (auto simp: bq_inv_def bq_pending_def)
        from "2.IH"(2)[OF room(2) refl wr[symmetric] Written[unfolded Suc] refl room(1) False
            "2.prems"(1,2) P1 this]
        moreover have "drain_queue put (front # rest) off n w =
            drain_queue put (front # rest) (off + Suc j) (n - Suc j) w1"
          using wr Written Suc room False by simp
        moreover have "accepted w1 @ drop (off + Suc j) (concat (front # rest)) =
            accepted w @ drop off (concat (front # rest))" if "sink put accepted" for accepted
          unfolding acc1[OF that] using sent
          by (simp only: Written Suc write_result.case concat.simps append_assoc)
        ultimately show ?thesis
          by (auto simp del: drain_queue.simps drop_append concat.simps)
      qed
    qed
  next
    case WriteWouldBlock
    then show ?thesis
      using off wr by (intro stop[of FlushBlocked]) simp_all
  next
    case WriteFailed
    then show ?thesis
      using off wr by (intro stop[of FlushFailed]) simp_all
  qed
qed

lemma bq_flush_returns:
  assumes "write_bounded put" and "write_keeps put P" and "P w" and "bq_inv limit q"
  shows "\<exists>e q' w'. bq_flush put q w = Some (e, q', w') \<and> bq_inv limit q' \<and> P w'
    \<and> (\<forall>accepted. sink put accepted \<longrightarrow>
        accepted w' @ bq_pending q' = accepted w @ bq_pending q)
    \<and> (e = Drained \<longrightarrow> bq_chunks q' = [])
    \<and> (e = FlushFailed \<longrightarrow> write_failed put w')"
proof -
  have "bq_inv limit \<lparr>bq_chunks = bq_chunks q, bq_offset = bq_offset q, bq_bytes = bq_bytes q\<rparr>"
    using assms(4) by (cases q) simp
  from drain_queue_returns[OF assms(1-3) this] show ?thesis
    unfolding bq_flush_def by (simp only: bq_pending_def[of q])
qed

section \<open>The contract of a bounded FIFO\<close>

datatype 'x fifo_op = Push 'x | Flush

text \<open>A client pushes items, of which some are refused, and flushes at any time. The result
  lists the items that were accepted.\<close>

fun run_fifo ::
    "('s \<Rightarrow> 'x \<Rightarrow> persist_error + 's) \<Rightarrow> ('s \<Rightarrow> 'w \<Rightarrow> ('s \<times> 'w) option)
      \<Rightarrow> 'x fifo_op list \<Rightarrow> 's \<Rightarrow> 'w \<Rightarrow> ('x list \<times> 's \<times> 'w) option" where
  "run_fifo push flush [] s w = Some ([], s, w)"
| "run_fifo push flush (Push x # ops) s w =
     (case push s x of
        Inl _ \<Rightarrow> run_fifo push flush ops s w
      | Inr s' \<Rightarrow>
          (case run_fifo push flush ops s' w of
             None \<Rightarrow> None
           | Some (taken, t) \<Rightarrow> Some (x # taken, t)))"
| "run_fifo push flush (Flush # ops) s w =
     (case flush s w of
        None \<Rightarrow> None
      | Some (s', w') \<Rightarrow> run_fifo push flush ops s' w')"

text \<open>An item \<open>x\<close> stands for the bytes \<open>enc x\<close>.\<close>

locale fifo_queue =
  fixes inv :: "'s \<Rightarrow> bool"
    and pending :: "'s \<Rightarrow> bytes"
    and limit :: nat
    and enc :: "'x \<Rightarrow> bytes"
    and push :: "'s \<Rightarrow> 'x \<Rightarrow> persist_error + 's"
    and flush :: "('w \<Rightarrow> bytes \<Rightarrow> write_result \<times> 'w) \<Rightarrow> 's \<Rightarrow> 'w \<Rightarrow> ('s \<times> 'w) option"
  assumes bound_law: "inv s \<Longrightarrow> length (pending s) \<le> limit"
    and push_law: "inv s \<Longrightarrow> push s x = Inr s' \<Longrightarrow> inv s' \<and> pending s' = pending s @ enc x"
    and flush_law: "inv s \<Longrightarrow> sink put accepted \<Longrightarrow>
      \<exists>s' w'. flush put s w = Some (s', w') \<and> inv s'
        \<and> accepted w' @ pending s' = accepted w @ pending s"
begin

lemma run_fifo_order:
  assumes "inv s" and "sink put accepted"
  shows "\<exists>taken s' w'. run_fifo push (flush put) ops s w = Some (taken, s', w') \<and> inv s'
    \<and> accepted w' @ pending s' = accepted w @ pending s @ concat (map enc taken)"
  using assms(1)
proof (induction ops arbitrary: s w)
  case Nil
  then show ?case by simp
next
  case (Cons op ops)
  show ?case
  proof (cases op)
    case (Push x)
    show ?thesis
    proof (cases "push s x")
      case (Inl e)
      then show ?thesis
        using Cons.IH[OF Cons.prems] Push by simp
    next
      case (Inr s1)
      from push_law[OF Cons.prems Inr] Cons.IH[of s1 w] show ?thesis
        using Push Inr by auto
    qed
  next
    case Flush
    obtain s1 w1 where "flush put s w = Some (s1, w1)" "inv s1"
      "accepted w1 @ pending s1 = accepted w @ pending s"
      using flush_law[OF Cons.prems assms(2)] by blast
    then show ?thesis
      using Cons.IH[of s1 w1] Flush by (auto simp: append_assoc[symmetric] simp del: append_assoc)
  qed
qed

end

end
