(* ===== verification/Shell_State.thy ===== *)
theory Shell_State
  imports Holder_Effects
begin

unbundle bit_operations_syntax

text \<open>
  The private state file in which a shell leaves its working directory and environment:
  identities and envelopes (\<open>crates/persist-core/src/shell_state.rs\<close>), the validated read of
  \<open>shell_state/io.rs\<close>, and the two uses the holder makes of them
  (\<open>crates/persist-holder/src/runtime/state.rs\<close>). A path is a byte string, compared as
  \<open>std::path\<close> does, by its components. Shown: the path of a state file determines the
  session and incarnation it belongs to, and what the holder captures from a state file is
  fit to be sent in an exit event.
\<close>

section \<open>Paths\<close>

datatype path_component = RootDir | CurDir | ParentDir | NormalComp rstring

fun split_slash :: "rstring \<Rightarrow> rstring list" where
  "split_slash [] = [[]]"
| "split_slash (b # bs) =
     (if b = 47 then [] # split_slash bs
      else case split_slash bs of [] \<Rightarrow> [[b]] | p # ps \<Rightarrow> (b # p) # ps)"

definition path_components :: "rstring \<Rightarrow> path_component list" where
  "path_components p =
     (let pieces = split_slash p in
      (if path_is_absolute p then [RootDir]
       else if hd pieces = ascii ''.'' then [CurDir] else [])
      @ map (\<lambda>c. if c = ascii ''..'' then ParentDir else NormalComp c)
          (filter (\<lambda>c. c \<noteq> [] \<and> c \<noteq> ascii ''.'') pieces))"

definition components_file_name :: "path_component list \<Rightarrow> rstring option" where
  "components_file_name cs =
     (case rev cs of NormalComp n # _ \<Rightarrow> Some n | _ \<Rightarrow> None)"

definition components_parent :: "path_component list \<Rightarrow> path_component list option" where
  "components_parent cs =
     (case rev cs of [] \<Rightarrow> None | RootDir # _ \<Rightarrow> None | _ # before \<Rightarrow> Some (rev before))"

definition path_file_name :: "rstring \<Rightarrow> rstring option" where
  "path_file_name p = components_file_name (path_components p)"

definition path_parent :: "rstring \<Rightarrow> path_component list option" where
  "path_parent p = components_parent (path_components p)"

section \<open>Identities\<close>

definition SHELL_STATE_VERSION :: u32 where
  "SHELL_STATE_VERSION = 2"

definition SHELL_STATE_LEGACY_VERSION :: u32 where
  "SHELL_STATE_LEGACY_VERSION = 1"

definition MAX_SHELL_STATE_BYTES :: nat where
  "MAX_SHELL_STATE_BYTES = 72 * 1024"

definition MAX_SHELL_CWD_BYTES :: nat where
  "MAX_SHELL_CWD_BYTES = 4096"

definition MAX_STATE_PATH_BYTES :: nat where
  "MAX_STATE_PATH_BYTES = 4096"

record shell_state_identity =
  si_session_id :: u32
  si_incarnation :: bytes
  si_state_file :: rstring

definition encode_incarnation :: "bytes \<Rightarrow> rstring" where
  "encode_incarnation v =
     concat (map (\<lambda>b. [hex_digits ! unat (drop_bit 4 b), hex_digits ! unat (b AND 0x0f)]) v)"

text \<open>The decimal form of an integer (\<open>Display\<close>).\<close>

fun show_nat :: "nat \<Rightarrow> rstring" where
  "show_nat n = (if n < 10 then [of_nat (48 + n)] else show_nat (n div 10) @ [of_nat (48 + n mod 10)])"

declare show_nat.simps [simp del]

definition state_file_name :: "u32 \<Rightarrow> bytes \<Rightarrow> rstring" where
  "state_file_name session_id incarnation =
     show_nat (unat session_id) @ ascii ''-'' @ encode_incarnation incarnation @ ascii ''.json''"

definition identity_from_parts ::
    "u32 \<Rightarrow> bytes \<Rightarrow> rstring \<Rightarrow> persist_error + shell_state_identity" where
  "identity_from_parts session_id incarnation state_file =
     (if session_id = 0
      then Inl (InvalidArgument ''shell state session id must be non-zero'')
      else if incarnation = zero16
      then Inl (InvalidArgument ''shell state incarnation must be non-zero'')
      else if \<not> utf8_valid state_file
      then Inl (InvalidArgument ''shell state path must be valid UTF-8'')
      else if \<not> path_is_absolute state_file \<or> MAX_STATE_PATH_BYTES < length state_file
           \<or> 0 \<in> set state_file
      then Inl (InvalidArgument ''shell state path is invalid'')
      else if path_file_name state_file \<noteq> Some (state_file_name session_id incarnation)
           \<or> Option.bind (path_parent state_file) components_file_name
               \<noteq> Some (ascii ''session-state'')
      then Inl (InvalidArgument ''shell state path does not match identity'')
      else Inr \<lparr>si_session_id = session_id, si_incarnation = incarnation,
                si_state_file = state_file\<rparr>)"

definition validated_identity ::
    "rstring \<Rightarrow> u32 \<Rightarrow> bytes \<Rightarrow> rstring \<Rightarrow> shell_state_identity option" where
  "validated_identity state_dir session_id incarnation state_file =
     (case identity_from_parts session_id incarnation state_file of
        Inl _ \<Rightarrow> None
      | Inr identity \<Rightarrow>
          if path_parent (si_state_file identity) = Some (path_components state_dir)
          then Some identity else None)"

section \<open>Envelopes\<close>

record shell_state_envelope =
  st_version :: u32
  st_session_id :: u32
  st_incarnation :: rstring
  st_sequence :: u64
  st_cwd :: rstring
  st_environment :: "environment_snapshot option"

text \<open>The JSON codec of envelopes is a parameter, as for snapshots.\<close>

type_synonym state_to_vec = "shell_state_envelope \<Rightarrow> string + bytes"
type_synonym state_from_slice = "bytes \<Rightarrow> string + shell_state_envelope"

definition validate_state_fields ::
    "to_vec \<Rightarrow> shell_state_envelope \<Rightarrow> persist_error + unit" where
  "validate_state_fields to_vec state =
     (if \<not> (st_version state = SHELL_STATE_LEGACY_VERSION \<and> st_environment state = None
             \<or> st_version state = SHELL_STATE_VERSION \<and> st_environment state \<noteq> None)
         \<or> st_session_id state = 0
         \<or> length (st_incarnation state) \<noteq> 32
         \<or> st_sequence state = 0
         \<or> \<not> list_all (\<lambda>b. is_ascii_digit b \<or> 97 \<le> b \<and> b \<le> 102) (st_incarnation state)
         \<or> list_all (\<lambda>b. b = 48) (st_incarnation state)
      then Inl (InvalidArgument ''shell state envelope fields are invalid'')
      else if MAX_SHELL_CWD_BYTES < length (st_cwd state) \<or> 0 \<in> set (st_cwd state)
           \<or> \<not> path_is_absolute (st_cwd state)
      then Inl (InvalidArgument ''shell state cwd is invalid'')
      else case st_environment state of
             None \<Rightarrow> Inr ()
           | Some environment \<Rightarrow> snapshot_validate_hard_limits to_vec environment)"

definition envelope_new ::
    "to_vec \<Rightarrow> u32 \<Rightarrow> bytes \<Rightarrow> u64 \<Rightarrow> rstring \<Rightarrow> persist_error + shell_state_envelope" where
  "envelope_new to_vec session_id incarnation seqno cwd =
     (let state = \<lparr>st_version = SHELL_STATE_LEGACY_VERSION, st_session_id = session_id,
            st_incarnation = encode_incarnation incarnation, st_sequence = seqno, st_cwd = cwd,
            st_environment = None\<rparr>
      in rbind (validate_state_fields to_vec state) (\<lambda>_. Inr state))"

definition envelope_new_v2 ::
    "to_vec \<Rightarrow> u32 \<Rightarrow> bytes \<Rightarrow> u64 \<Rightarrow> rstring \<Rightarrow> environment_snapshot
      \<Rightarrow> persist_error + shell_state_envelope" where
  "envelope_new_v2 to_vec session_id incarnation seqno cwd environment =
     (let state = \<lparr>st_version = SHELL_STATE_VERSION, st_session_id = session_id,
            st_incarnation = encode_incarnation incarnation, st_sequence = seqno, st_cwd = cwd,
            st_environment = Some environment\<rparr>
      in rbind (validate_state_fields to_vec state) (\<lambda>_. Inr state))"

definition encode_envelope ::
    "to_vec \<Rightarrow> state_to_vec \<Rightarrow> shell_state_envelope \<Rightarrow> persist_error + bytes" where
  "encode_envelope to_vec state_to_vec state =
     rbind (validate_state_fields to_vec state) (\<lambda>_.
     rbind (map_err (\<lambda>e. InvalidArgument (''encode shell state: '' @ e)) (state_to_vec state))
       (\<lambda>encoded.
         if MAX_SHELL_STATE_BYTES < length encoded
         then Inl (InvalidArgument ''shell state envelope exceeds size limit'')
         else Inr encoded))"

definition decode_and_validate ::
    "to_vec \<Rightarrow> state_from_slice \<Rightarrow> shell_state_identity \<Rightarrow> u64 \<Rightarrow> bytes
      \<Rightarrow> persist_error + shell_state_envelope" where
  "decode_and_validate to_vec state_from_slice identity minimum_sequence encoded =
     (if MAX_SHELL_STATE_BYTES < length encoded
      then Inl (InvalidArgument ''shell state envelope exceeds size limit'')
      else
        rbind (map_err (\<lambda>e. InvalidArgument (''decode shell state: '' @ e))
          (state_from_slice encoded)) (\<lambda>state.
        rbind (validate_state_fields to_vec state) (\<lambda>_.
        if st_session_id state \<noteq> si_session_id identity
           \<or> st_incarnation state \<noteq> encode_incarnation (si_incarnation identity)
           \<or> st_sequence state < minimum_sequence
        then Inl (InvalidArgument ''shell state identity or sequence mismatch'')
        else Inr state)))"

text \<open>\<open>read_validated\<close>, given what opening the file shows: the checks of the directory and of
  the file's owner, mode and inode are the operating system's answer.\<close>

definition read_validated ::
    "to_vec \<Rightarrow> state_from_slice \<Rightarrow> shell_state_identity \<Rightarrow> u64 \<Rightarrow> state_file
      \<Rightarrow> persist_error + shell_state_envelope option" where
  "read_validated to_vec state_from_slice identity minimum_sequence file =
     (case file of
        DirectoryUnsafe \<Rightarrow> Inl (InvalidArgument ''unsafe shell state directory'')
      | FileMissing \<Rightarrow> Inr None
      | FileFailed \<Rightarrow> Inl (IoError ''open shell state file'')
      | FileUnsafe \<Rightarrow> Inl (InvalidArgument ''unsafe shell state file'')
      | FileChanged \<Rightarrow> Inl (InvalidArgument ''shell state file changed while reading'')
      | FileContents st_size contents \<Rightarrow>
          if MAX_SHELL_STATE_BYTES < st_size
          then Inl (InvalidArgument ''shell state file exceeds size limit'')
          else
            let encoded = take (MAX_SHELL_STATE_BYTES + 1) contents in
            if MAX_SHELL_STATE_BYTES < length encoded
            then Inl (InvalidArgument ''shell state file exceeds size limit'')
            else rbind (decode_and_validate to_vec state_from_slice identity minimum_sequence encoded)
                   (\<lambda>state. Inr (Some state)))"

definition capture_state ::
    "to_vec \<Rightarrow> state_from_slice \<Rightarrow> shell_state_identity \<Rightarrow> u64 \<Rightarrow> state_file
      \<Rightarrow> shell_state_envelope option" where
  "capture_state to_vec state_from_slice identity minimum_sequence file =
     (case read_validated to_vec state_from_slice identity minimum_sequence file of
        Inl _ \<Rightarrow> None
      | Inr state \<Rightarrow> state)"

section \<open>File names determine identities\<close>

definition read_nat :: "rstring \<Rightarrow> nat" where
  "read_nat s = foldl (\<lambda>a b. a * 10 + (unat b - 48)) 0 s"

lemma read_nat_snoc: "read_nat (s @ [b]) = read_nat s * 10 + (unat b - 48)"
  by (simp add: read_nat_def)

lemma unat_digit: "d < 10 \<Longrightarrow> unat (of_nat (48 + d) :: u8) = 48 + d"
  by (simp add: unat_of_nat del: of_nat_add)

lemma read_show_nat: "read_nat (show_nat n) = n"
proof (induction n rule: show_nat.induct)
  case (1 n)
  show ?case
  proof (cases "n < 10")
    case True
    then show ?thesis
      using unat_digit[OF True] read_nat_snoc[of "[]" "of_nat (48 + n)"]
      by (subst show_nat.simps) (simp add: read_nat_def del: of_nat_add)
  next
    case False
    have "unat (of_nat (48 + n mod 10) :: u8) = 48 + n mod 10"
      by (rule unat_digit) simp
    then show ?thesis
      using False 1 by (subst show_nat.simps) (simp add: read_nat_snoc del: of_nat_add)
  qed
qed

lemma show_nat_inj: "show_nat m = show_nat n \<Longrightarrow> m = n"
  by (metis read_show_nat)

lemma unat_hi_nibble: "unat (drop_bit 4 (b :: u8)) = unat b div 16"
  by (simp add: drop_bit_eq_div unat_div_distrib)

lemma unat_lo_nibble: "unat ((b :: u8) AND 15) = unat b mod 16"
proof -
  have "b AND 15 = take_bit 4 b"
    by (simp add: take_bit_eq_mask mask_eq_exp_minus_1)
  then show ?thesis
    by (simp add: take_bit_eq_mod unat_mod_distrib)
qed

lemma hex_digit_inj: "i < 16 \<Longrightarrow> j < 16 \<Longrightarrow> hex_digits ! i = hex_digits ! j \<longleftrightarrow> i = j"
proof -
  have "distinct hex_digits" "length hex_digits = 16"
    by (simp_all add: hex_digits_def ascii_def)
  then show "i < 16 \<Longrightarrow> j < 16 \<Longrightarrow> ?thesis"
    by (simp add: nth_eq_iff_index_eq)
qed

lemma length_encode_incarnation [simp]: "length (encode_incarnation v) = 2 * length v"
  by (induction v) (simp_all add: encode_incarnation_def)

lemma encode_incarnation_inj: "encode_incarnation v = encode_incarnation v' \<Longrightarrow> v = v'"
proof (induction v v' rule: list_induct2')
  case (4 a v b v')
  have hi: "unat a div 16 < 16" "unat b div 16 < 16"
    using unat_byte[of a] unat_byte[of b] by (simp_all add: less_mult_imp_div_less)
  have "unat a div 16 = unat b div 16" "unat a mod 16 = unat b mod 16"
    using "4.prems" hi
    by (simp_all add: encode_incarnation_def unat_hi_nibble unat_lo_nibble hex_digit_inj)
  then have "unat a = unat b"
    by (metis div_mult_mod_eq)
  then have "a = b"
    by (simp add: word_unat_eq_iff)
  moreover have "v = v'"
    using 4 by (simp add: encode_incarnation_def)
  ultimately show ?case by simp
qed (simp_all add: encode_incarnation_def)

lemma state_file_name_inj:
  assumes "state_file_name s i = state_file_name s' i'" and "length i = 16" and "length i' = 16"
  shows "s = s' \<and> i = i'"
proof -
  have "show_nat (unat s) = show_nat (unat s')
      \<and> ascii ''-'' @ encode_incarnation i @ ascii ''.json'' =
        ascii ''-'' @ encode_incarnation i' @ ascii ''.json''"
    using assms unfolding state_file_name_def by (subst append_eq_append_conv[symmetric]) simp_all
  then show ?thesis
    by (auto dest: show_nat_inj encode_incarnation_inj simp: word_unat_eq_iff[of s])
qed

lemma identity_from_parts_fields:
  assumes "identity_from_parts s i f = Inr x"
  shows "si_session_id x = s" "si_incarnation x = i" "si_state_file x = f" "s \<noteq> 0"
    "path_file_name f = Some (state_file_name s i)"
  using assms by (auto simp: identity_from_parts_def split: if_splits)

section \<open>Captured states\<close>

text \<open>What the JSON decoder yields for a string is valid UTF-8, as \<open>String\<close> requires.\<close>

definition decodes_utf8 :: "state_from_slice \<Rightarrow> bool" where
  "decodes_utf8 from \<longleftrightarrow> (\<forall>bs st. from bs = Inr st \<longrightarrow> utf8_valid (st_cwd st))"

lemma capture_state_ok:
  assumes "capture_state to_vec from x seqno file = Some st"
  shows "st_session_id st = si_session_id x" "seqno \<le> st_sequence st"
    "validate_state_fields to_vec st = Inr ()"
    "\<exists>bs. from bs = Inr st"
  using assms
  by (auto simp: capture_state_def read_validated_def decode_and_validate_def rbind_eq_Inr
      map_err_eq_Inr Let_def split: sum.splits state_file.splits if_splits)

lemma validated_cwd_ok:
  assumes "validate_state_fields to_vec st = Inr ()" and "utf8_valid (st_cwd st)"
  shows "cwd_ok (Some (st_cwd st))"
  using assms
  by (auto simp: validate_state_fields_def cwd_ok_def opt_str_ok_def str_ok_def
      MAX_SHELL_CWD_BYTES_def MAX_HOLDER_PATH_def path_is_absolute_def split: if_splits)

lemma validated_environment_ok:
  assumes "validate_state_fields to_vec st = Inr ()" and "st_environment st = Some env"
  shows "snapshot_validate_hard_limits to_vec env = Inr ()"
  using assms by (auto simp: validate_state_fields_def split: if_splits)

end
