(* ===== verification/Log_Worker.thy ===== *)
theory Log_Worker
  imports Shell_State
begin

text \<open>
  The session log writer of the holder (\<open>crates/persist-holder/src/log_worker.rs\<close>): the
  bounded backlog between the reactor thread and the worker thread, and the rotating log
  files the worker appends to.

  The two threads meet only under the lock of the queue, so the model has their atomic steps:
  \<open>log_enqueue\<close> and \<open>log_take_failures\<close> of the reactor, \<open>log_worker_step\<close> of the worker, which
  pops one item and records whether its write failed. A file system is a map from paths to
  contents; I/O errors other than missing files are left to the caller, which passes the
  outcome of the write. Shown: the backlog never exceeds 8 MiB and its counter never
  underflows, a refused chunk is reported with its whole length, no accepted chunk is lost,
  repeated or reordered, every failed write is reported, and a rotation shifts every numbered
  file by one and drops only the oldest.

  Not modelled: \<open>open_log\<close> is the opening of a log that passes the check of its owner, mode and
  kind (an error in the code, which counts as a failed write here), and of the renames and
  removals of \<open>rotate_log\<close> only the success and the missing file, not other I/O errors.
\<close>

section \<open>Backlog\<close>

definition MAX_LOG_BACKLOG :: nat where
  "MAX_LOG_BACKLOG = 8 * 1024 * 1024"

record log_item =
  li_session_id :: u32
  li_path :: rstring
  li_data :: bytes

record log_worker =
  lw_items :: "log_item list"
  lw_bytes :: nat
  lw_stopping :: bool
  lw_failures :: "(u32 \<times> u64) list"

definition log_worker_start :: log_worker where
  "log_worker_start = \<lparr>lw_items = [], lw_bytes = 0, lw_stopping = False, lw_failures = []\<rparr>"

definition log_enqueue :: "log_worker \<Rightarrow> u32 \<Rightarrow> rstring \<Rightarrow> bytes \<Rightarrow> u64 \<times> log_worker" where
  "log_enqueue lw session_id path data =
     (case checked_add_usize (lw_bytes lw) (length data) of
        None \<Rightarrow> (of_nat (length data), lw)
      | Some new_size \<Rightarrow>
          if MAX_LOG_BACKLOG < new_size then (of_nat (length data), lw)
          else (0, lw\<lparr>lw_bytes := new_size,
                  lw_items := lw_items lw
                    @ [\<lparr>li_session_id = session_id, li_path = path, li_data = data\<rparr>]\<rparr>))"

definition log_take_failures :: "log_worker \<Rightarrow> (u32 \<times> u64) list \<times> log_worker" where
  "log_take_failures lw = (lw_failures lw, lw\<lparr>lw_failures := []\<rparr>)"

text \<open>One round of \<open>worker_loop\<close>, with the outcome of \<open>write_item\<close>. With an empty queue the
  worker waits; \<open>None\<close> is the panic of an underflowing counter.\<close>

definition log_worker_step :: "bool \<Rightarrow> log_worker \<Rightarrow> log_worker option" where
  "log_worker_step written lw =
     (case lw_items lw of
        [] \<Rightarrow> Some lw
      | item # items \<Rightarrow>
          if lw_bytes lw < length (li_data item) then None
          else
            let lw = lw\<lparr>lw_items := items, lw_bytes := lw_bytes lw - length (li_data item)\<rparr> in
            Some (if written then lw
                  else lw\<lparr>lw_failures := lw_failures lw
                         @ [(li_session_id item, of_nat (length (li_data item)))]\<rparr>))"

fun log_worker_run :: "bool list \<Rightarrow> log_worker \<Rightarrow> log_worker option" where
  "log_worker_run [] lw = Some lw"
| "log_worker_run (r # rs) lw =
     (case log_worker_step r lw of None \<Rightarrow> None | Some lw' \<Rightarrow> log_worker_run rs lw')"

definition lw_inv :: "log_worker \<Rightarrow> bool" where
  "lw_inv lw \<longleftrightarrow> lw_bytes lw = sum_list (map (\<lambda>i. length (li_data i)) (lw_items lw))
     \<and> lw_bytes lw \<le> MAX_LOG_BACKLOG"

lemma lw_inv_start: "lw_inv log_worker_start"
  by (simp add: lw_inv_def log_worker_start_def)

lemma log_enqueue_inv: "lw_inv lw \<Longrightarrow> lw_inv (snd (log_enqueue lw sid path data))"
  by (auto simp: lw_inv_def log_enqueue_def split: option.splits)
     (simp add: checked_add_usize_def split: if_splits)

lemma log_enqueue_dropped:
  assumes "lw_inv lw"
  shows "log_enqueue lw sid path data =
    (if lw_bytes lw + length data \<le> MAX_LOG_BACKLOG
     then (0, lw\<lparr>lw_bytes := lw_bytes lw + length data,
            lw_items := lw_items lw @ [\<lparr>li_session_id = sid, li_path = path, li_data = data\<rparr>]\<rparr>)
     else (of_nat (length data), lw))"
  using assms
  by (simp add: log_enqueue_def checked_add_usize_def usize_max_def MAX_LOG_BACKLOG_def)

lemma log_worker_step_inv: "lw_inv lw \<Longrightarrow> \<exists>lw'. log_worker_step r lw = Some lw' \<and> lw_inv lw'"
  by (auto simp: lw_inv_def log_worker_step_def Let_def split: list.splits)

lemma log_worker_run_inv: "lw_inv lw \<Longrightarrow> \<exists>lw'. log_worker_run rs lw = Some lw' \<and> lw_inv lw'"
proof (induction rs arbitrary: lw)
  case (Cons r rs)
  then show ?case
    using log_worker_step_inv[OF Cons.prems, of r] by auto
qed simp

lemma log_take_failures_inv: "lw_inv lw \<Longrightarrow> lw_inv (snd (log_take_failures lw))"
  by (simp add: lw_inv_def log_take_failures_def)

section \<open>A recorded run\<close>

text \<open>A run of both threads in any order, with a record of what happened: every chunk that was
  offered, the bytes queued at that moment and the answer the session got, every item the worker
  handled and whether its write succeeded, and every failure that was handed out. A round of the
  worker on an empty queue waits and handles nothing. The record only observes; the state of the
  worker goes through the operations above.\<close>

datatype log_event = Offer u32 rstring bytes | WorkerRound bool | TakeFailures

record log_trace =
  lt_worker :: log_worker
  lt_offers :: "(log_item \<times> nat \<times> u64) list"
  lt_handled :: "(log_item \<times> bool) list"
  lt_reported :: "(u32 \<times> u64) list"

definition queued_bytes :: "log_worker \<Rightarrow> nat" where
  "queued_bytes lw = sum_list (map (\<lambda>i. length (li_data i)) (lw_items lw))"

fun log_trace_step :: "log_event \<Rightarrow> log_trace \<Rightarrow> log_trace option" where
  "log_trace_step (Offer sid path data) t =
     (case log_enqueue (lt_worker t) sid path data of (answer, lw) \<Rightarrow>
      Some (t\<lparr>lt_worker := lw, lt_offers := lt_offers t
        @ [(\<lparr>li_session_id = sid, li_path = path, li_data = data\<rparr>, queued_bytes (lt_worker t), answer)]\<rparr>))"
| "log_trace_step (WorkerRound written) t =
     (case log_worker_step written (lt_worker t) of
        None \<Rightarrow> None
      | Some lw \<Rightarrow> Some (t\<lparr>lt_worker := lw, lt_handled := lt_handled t
          @ map (\<lambda>i. (i, written)) (take 1 (lw_items (lt_worker t)))\<rparr>))"
| "log_trace_step TakeFailures t =
     (case log_take_failures (lt_worker t) of (fs, lw) \<Rightarrow>
      Some (t\<lparr>lt_worker := lw, lt_reported := lt_reported t @ fs\<rparr>))"

fun log_trace_run :: "log_event list \<Rightarrow> log_trace \<Rightarrow> log_trace option" where
  "log_trace_run [] t = Some t"
| "log_trace_run (e # es) t = (case log_trace_step e t of None \<Rightarrow> None | Some t \<Rightarrow> log_trace_run es t)"

definition log_trace_start :: log_trace where
  "log_trace_start = \<lparr>lt_worker = log_worker_start, lt_offers = [], lt_handled = [], lt_reported = []\<rparr>"

definition item_failure :: "log_item \<Rightarrow> u32 \<times> u64" where
  "item_failure i = (li_session_id i, of_nat (length (li_data i)))"

definition trace_ok :: "log_trace \<Rightarrow> bool" where
  "trace_ok t \<longleftrightarrow> lw_inv (lt_worker t)
     \<and> map fst (lt_handled t) @ lw_items (lt_worker t)
         = map fst (filter (\<lambda>(_, _, answer). answer = 0) (lt_offers t))
     \<and> list_all (\<lambda>(i, queued, answer). answer =
         (if queued + length (li_data i) \<le> MAX_LOG_BACKLOG then 0 else of_nat (length (li_data i)))) (lt_offers t)
     \<and> lt_reported t @ lw_failures (lt_worker t)
         = map (item_failure \<circ> fst) (filter (Not \<circ> snd) (lt_handled t))"

lemma lw_inv_queued: "lw_inv lw \<Longrightarrow> queued_bytes lw = lw_bytes lw"
  by (simp add: lw_inv_def queued_bytes_def)

lemma refused_nonzero:
  assumes "\<not> n + length (data :: bytes) \<le> MAX_LOG_BACKLOG" and "n \<le> MAX_LOG_BACKLOG" and "length data < 2 ^ 64"
  shows "(of_nat (length data) :: u64) \<noteq> 0"
proof -
  have "length data \<noteq> 0" using assms(1,2) by auto
  then show ?thesis using assms(3) by (simp add: word_of_nat_eq_0_iff nat_dvd_not_less)
qed

lemma log_trace_step_ok:
  assumes "trace_ok t" and "\<And>sid path data. e = Offer sid path data \<Longrightarrow> length data < 2 ^ 64"
  shows "\<exists>t'. log_trace_step e t = Some t' \<and> trace_ok t'"
proof (cases e)
  case (Offer sid path data)
  have inv: "lw_inv (lt_worker t)" using assms(1) by (simp add: trace_ok_def)
  then have "lw_bytes (lt_worker t) \<le> MAX_LOG_BACKLOG" by (simp add: lw_inv_def)
  with Offer assms refused_nonzero[OF _ this, of data] log_enqueue_inv[OF inv, of sid path data] lw_inv_queued[OF inv]
  show ?thesis
    by (auto simp: log_enqueue_dropped[OF inv] trace_ok_def)
next
  case (WorkerRound written)
  obtain lw where lw: "log_worker_step written (lt_worker t) = Some lw" "lw_inv lw"
    using assms(1) log_worker_step_inv[of "lt_worker t" written] by (auto simp: trace_ok_def)
  with WorkerRound assms(1) show ?thesis
    by (cases "lw_items (lt_worker t)")
      (auto simp: trace_ok_def log_worker_step_def Let_def item_failure_def split: if_splits)
next
  case TakeFailures
  with assms(1) log_take_failures_inv[of "lt_worker t"] show ?thesis
    by (auto simp: trace_ok_def log_take_failures_def)
qed

lemma log_trace_run_ok:
  assumes "trace_ok t" and "\<forall>sid path data. Offer sid path data \<in> set es \<longrightarrow> length data < 2 ^ 64"
  shows "\<exists>t'. log_trace_run es t = Some t' \<and> trace_ok t'"
  using assms
proof (induction es arbitrary: t)
  case (Cons e es)
  obtain t1 where "log_trace_step e t = Some t1" "trace_ok t1"
    using log_trace_step_ok[OF Cons.prems(1), of e] Cons.prems(2) by auto
  with Cons show ?case by auto
qed simp

lemma trace_ok_start: "trace_ok log_trace_start"
  by (simp add: trace_ok_def log_trace_start_def log_worker_start_def lw_inv_def)

section \<open>Log files\<close>

type_synonym fs = "rstring \<rightharpoonup> bytes"

definition rotated_path :: "rstring \<Rightarrow> nat \<Rightarrow> rstring" where
  "rotated_path path number = path @ ascii ''.'' @ show_nat number"

definition fs_rename :: "rstring \<Rightarrow> rstring \<Rightarrow> fs \<Rightarrow> fs option" where
  "fs_rename old new fs =
     (case fs old of None \<Rightarrow> None | Some c \<Rightarrow> Some ((fs(old := None))(new \<mapsto> c)))"

definition fs_remove :: "rstring \<Rightarrow> fs \<Rightarrow> fs option" where
  "fs_remove path fs = (case fs path of None \<Rightarrow> None | Some _ \<Rightarrow> Some (fs(path := None)))"

text \<open>\<open>open_log\<close> creates the file when it is absent and starts counting from its length.\<close>

definition open_log :: "rstring \<Rightarrow> fs \<Rightarrow> nat \<times> fs" where
  "open_log path fs =
     (case fs path of None \<Rightarrow> (0, fs(path \<mapsto> [])) | Some c \<Rightarrow> (length c, fs))"

text \<open>The loop \<open>for number in (1..max_files).rev()\<close>, from \<open>number\<close> downwards.\<close>

fun rotate_loop :: "rstring \<Rightarrow> nat \<Rightarrow> fs \<Rightarrow> fs option" where
  "rotate_loop path 0 fs = Some fs"
| "rotate_loop path (Suc n) fs =
     (let old = rotated_path path (Suc n) in
      if fs old \<noteq> None
      then (case fs_rename old (rotated_path path (Suc (Suc n))) fs of
              None \<Rightarrow> None
            | Some fs' \<Rightarrow> rotate_loop path n fs')
      else rotate_loop path n fs)"

definition rotate_log :: "rstring \<Rightarrow> nat \<Rightarrow> fs \<Rightarrow> (nat \<times> fs) option" where
  "rotate_log path max_files fs =
     (let fs = (case fs_remove (rotated_path path max_files) fs of None \<Rightarrow> fs | Some fs' \<Rightarrow> fs') in
      case rotate_loop path (max_files - 1) fs of
        None \<Rightarrow> None
      | Some fs \<Rightarrow>
          (case (if 0 < max_files then fs_rename path (rotated_path path 1) fs
                 else fs_remove path fs) of
             None \<Rightarrow> None
           | Some fs \<Rightarrow> Some (open_log path fs)))"

text \<open>\<open>write_item\<close>, with the open files as a map from paths to the bytes written so far.\<close>

definition write_item ::
    "log_item \<Rightarrow> u64 \<Rightarrow> nat \<Rightarrow> (rstring \<rightharpoonup> u64) \<Rightarrow> fs \<Rightarrow> ((rstring \<rightharpoonup> u64) \<times> fs) option" where
  "write_item item max_file_size max_files files fs =
     (let path = li_path item;
          len = of_nat (length (li_data item));
          (log, fs) = (case files path of
                         Some n \<Rightarrow> (n, fs)
                       | None \<Rightarrow> (case open_log path fs of (n, fs') \<Rightarrow> (of_nat n, fs')))
      in case (if max_file_size < saturating_add_u64 log len
               then (case rotate_log path max_files fs of
                       None \<Rightarrow> None
                     | Some (n, fs') \<Rightarrow> Some (of_nat n, fs'))
               else Some (log, fs)) of
           None \<Rightarrow> None
         | Some (log, fs) \<Rightarrow>
             (case fs path of
                None \<Rightarrow> None
              | Some c \<Rightarrow> Some (files(path \<mapsto> saturating_add_u64 log len),
                                fs(path \<mapsto> c @ li_data item))))"

lemma rotated_path_inj: "rotated_path p m = rotated_path p n \<longleftrightarrow> m = n"
  by (auto simp: rotated_path_def dest: show_nat_inj)

lemma rotated_path_other [simp]: "rotated_path p n \<noteq> p" "p \<noteq> rotated_path p n"
  by (simp_all add: rotated_path_def ascii_def)

text \<open>The loop moves the files \<open>1..n\<close> up by one, when the place above them is free.\<close>

lemma rotate_loop_shift:
  assumes "fs (rotated_path p (Suc n)) = None"
  shows "\<exists>fs'. rotate_loop p n fs = Some fs'
    \<and> (\<forall>k. 1 \<le> k \<and> k \<le> n \<longrightarrow> fs' (rotated_path p (Suc k)) = fs (rotated_path p k))
    \<and> fs' (rotated_path p 1) = (if n = 0 then fs (rotated_path p 1) else None)
    \<and> (\<forall>q. (\<forall>k. 1 \<le> k \<and> k \<le> Suc n \<longrightarrow> q \<noteq> rotated_path p k) \<longrightarrow> fs' q = fs q)"
  using assms
proof (induction n arbitrary: fs)
  case 0
  then show ?case by simp
next
  case (Suc n)
  let ?old = "rotated_path p (Suc n)" and ?new = "rotated_path p (Suc (Suc n))"
  define fs1 where "fs1 = (fs(?new := fs ?old))(?old := None)"
  have "fs1 ?old = None"
    by (simp add: fs1_def)
  from Suc.IH[of fs1, OF this] obtain fs' where fs': "rotate_loop p n fs1 = Some fs'"
    "\<forall>k. 1 \<le> k \<and> k \<le> n \<longrightarrow> fs' (rotated_path p (Suc k)) = fs1 (rotated_path p k)"
    "fs' (rotated_path p 1) = (if n = 0 then fs1 (rotated_path p 1) else None)"
    "\<forall>q. (\<forall>k. 1 \<le> k \<and> k \<le> Suc n \<longrightarrow> q \<noteq> rotated_path p k) \<longrightarrow> fs' q = fs1 q"
    by blast
  have step: "rotate_loop p (Suc n) fs = Some fs'"
  proof (cases "fs ?old")
    case None
    then have "fs1 = fs"
      using Suc.prems by (auto simp: fs1_def)
    then show ?thesis
      using fs'(1) None by simp
  next
    case (Some c)
    then have "fs_rename ?old ?new fs = Some fs1"
      by (simp add: fs_rename_def fs1_def rotated_path_inj fun_upd_twist)
    then show ?thesis
      using fs'(1) Some by (simp add: Let_def)
  qed
  have top: "fs' ?new = fs ?old"
    using fs'(4) by (simp add: rotated_path_inj fs1_def)
  have one: "fs' (rotated_path p 1) = None"
    using fs'(3) by (simp add: fs1_def)
  have shift: "fs' (rotated_path p (Suc k)) = fs (rotated_path p k)"
    if "1 \<le> k \<and> k \<le> Suc n" for k
    using that fs'(2) top by (cases "k = Suc n") (simp_all add: fs1_def rotated_path_inj)
  have other: "fs' q = fs q" if "\<forall>k. 1 \<le> k \<and> k \<le> Suc (Suc n) \<longrightarrow> q \<noteq> rotated_path p k" for q
    using that fs'(4) by (simp add: fs1_def)
  show ?case
    using step shift one other by auto
qed

lemma rotate_log_shift:
  assumes "fs path = Some c" and "0 < max_files"
  shows "\<exists>fs'. rotate_log path max_files fs = Some (0, fs')
    \<and> fs' path = Some [] \<and> fs' (rotated_path path 1) = Some c
    \<and> (\<forall>k. 1 \<le> k \<and> k < max_files \<longrightarrow> fs' (rotated_path path (Suc k)) = fs (rotated_path path k))
    \<and> (\<forall>q. q \<noteq> path \<and> (\<forall>k. 1 \<le> k \<and> k \<le> max_files \<longrightarrow> q \<noteq> rotated_path path k) \<longrightarrow> fs' q = fs q)"
proof -
  obtain n where n: "max_files = Suc n"
    using assms(2) by (cases max_files) auto
  define fs0 where "fs0 = fs(rotated_path path (Suc n) := None)"
  have rem: "(case fs_remove (rotated_path path (Suc n)) fs of None \<Rightarrow> fs | Some fs' \<Rightarrow> fs') = fs0"
    by (auto simp: fs_remove_def fs0_def split: option.splits)
  have "fs0 (rotated_path path (Suc n)) = None"
    by (simp add: fs0_def)
  from rotate_loop_shift[of fs0 path n, OF this] obtain fs1 where fs1: "rotate_loop path n fs0 = Some fs1"
    "\<forall>k. 1 \<le> k \<and> k \<le> n \<longrightarrow> fs1 (rotated_path path (Suc k)) = fs0 (rotated_path path k)"
    "\<forall>q. (\<forall>k. 1 \<le> k \<and> k \<le> Suc n \<longrightarrow> q \<noteq> rotated_path path k) \<longrightarrow> fs1 q = fs0 q"
    by blast
  have "fs1 path = Some c"
    using fs1(3) assms(1) by (simp add: fs0_def)
  then have "rotate_log path max_files fs =
      Some (0, (fs1(path := None))(rotated_path path 1 \<mapsto> c, path \<mapsto> []))"
    using rem fs1(1) by (simp add: rotate_log_def n fs_rename_def open_log_def)
  then show ?thesis
    using fs1(2,3) by (auto simp: n fs0_def rotated_path_inj)
qed

end
