(* ===== verification/Holder_Runtime.thy ===== *)
theory Holder_Runtime
  imports Byte_Queue Log_Worker
begin

text \<open>
  The sessions of the holder (\<open>crates/persist-holder/src/runtime.rs\<close>): their table, the PTY
  output that is kept in a ring buffer and sent to the log, the bounded input queue, and the
  exit of a shell with the state captured from its state file. The PTY handle
  (\<open>crates/persist-pty/src/lib.rs\<close>, \<open>PtySession\<close>) is its descriptor, its child and the cached
  exit status; opening one is an operation of the operating system here.

  The operations are handlers on the runtime together with the log worker and the world. The
  invariant \<open>rt_inv\<close> ties the two tables of the runtime to each other and to the open
  descriptors, and carries what the responses need: every captured context can be encoded.
\<close>

section \<open>State\<close>

definition MAX_PENDING_INPUT :: nat where
  "MAX_PENDING_INPUT = 1024 * 1024"

record pty_session =
  pt_master_fd :: raw_fd
  pt_child_pid :: u32
  pt_exit_status :: "i32 option"

record session =
  ss_pty :: "pty_session option"
  ss_shell_pid :: u32
  ss_ring :: ring_buffer
  ss_log_path :: "rstring option"
  ss_log_state :: holder_log_state
  ss_created_at_ms :: u64
  ss_last_active_at_ms :: u64
  ss_state_identity :: shell_state_identity
  ss_last_state_sequence :: u64
  ss_final_cwd :: "rstring option"
  ss_final_environment :: "environment_snapshot option"
  ss_exit_code :: "i32 option"
  ss_input :: "bytes list"
  ss_input_offset :: nat
  ss_input_bytes :: nat
  ss_closing :: bool

record runtime =
  rt_sessions :: "(u32, session) btreemap"
  rt_pty_to_session :: "(raw_fd, u32) btreemap"
  rt_state_dir :: rstring
  rt_generation :: u64

record output_batch =
  ob_session_id :: u32
  ob_chunks :: "bytes list"
  ob_log_dropped :: u64

record exited_session =
  xs_session_id :: u32
  xs_exit_code :: i32
  xs_cwd :: "rstring option"
  xs_environment :: "environment_snapshot option"
  xs_pty_fd :: raw_fd
  xs_closing :: bool

text \<open>The JSON codecs that the holder is linked with.\<close>

record json =
  js_to_vec :: to_vec
  js_from_slice :: from_slice
  js_state_from_slice :: state_from_slice

text \<open>The runtime with what its operations touch: the log worker and the world.\<close>

record 'w rstate =
  rs_runtime :: runtime
  rs_logs :: log_worker
  rs_world :: 'w

definition rs_call :: "('w \<Rightarrow> 'a \<times> 'w) \<Rightarrow> ('w rstate, 'a) handler" where
  "rs_call f s = (case f (rs_world s) of (x, w) \<Rightarrow> Some (Ret x, s\<lparr>rs_world := w\<rparr>))"

definition rt_update :: "(runtime \<Rightarrow> runtime) \<Rightarrow> ('w rstate, unit) handler" where
  "rt_update f = sput (\<lambda>s. s\<lparr>rs_runtime := f (rs_runtime s)\<rparr>)"

section \<open>Operations\<close>

definition runtime_new :: "rstring \<Rightarrow> runtime" where
  "runtime_new state_dir =
     \<lparr>rt_sessions = [], rt_pty_to_session = [], rt_state_dir = state_dir, rt_generation = 0\<rparr>"

definition bump_generation :: "runtime \<Rightarrow> runtime" where
  "bump_generation rt = rt\<lparr>rt_generation := max (rt_generation rt + 1) 1\<rparr>"

definition response :: "u32 \<Rightarrow> operation_status \<Rightarrow> string \<Rightarrow> operation_response" where
  "response session_id status message =
     \<lparr>or_session_id = session_id, or_status = status, or_message = ascii message\<rparr>"

definition session_get :: "runtime \<Rightarrow> u32 \<Rightarrow> session option" where
  "session_get rt session_id = bt_get (rt_sessions rt) session_id"

definition session_put :: "u32 \<Rightarrow> session \<Rightarrow> runtime \<Rightarrow> runtime" where
  "session_put session_id session rt =
     rt\<lparr>rt_sessions := bt_insert session_id session (rt_sessions rt)\<rparr>"

text \<open>The \<open>Session\<close> that \<open>create\<close> builds for an opened PTY.\<close>

definition session_new ::
    "create_session_request \<Rightarrow> shell_state_identity \<Rightarrow> raw_fd \<Rightarrow> u32 \<Rightarrow> u64 \<Rightarrow> ring_buffer \<Rightarrow> session"
    where
  "session_new request identity fd pid now ring =
     \<lparr>ss_pty = Some \<lparr>pt_master_fd = fd, pt_child_pid = pid, pt_exit_status = None\<rparr>,
      ss_shell_pid = pid, ss_ring = ring, ss_log_path = cs_log_path request,
      ss_log_state = (if cs_log_path request \<noteq> None then Healthy else Disabled),
      ss_created_at_ms = now, ss_last_active_at_ms = now, ss_state_identity = identity,
      ss_last_state_sequence = 0, ss_final_cwd = None, ss_final_environment = None,
      ss_exit_code = None, ss_input = [], ss_input_offset = 0, ss_input_bytes = 0,
      ss_closing = False\<rparr>"

definition rt_create ::
    "'w os \<Rightarrow> create_session_request \<Rightarrow> ('w rstate, operation_response \<times> raw_fd option) handler" where
  "rt_create os request =
     sget (\<lambda>s. let rt = rs_runtime s; session_id = cs_session_id request in
       if session_get rt session_id \<noteq> None
       then sret (response session_id Conflict ''exists'', None)
       else case validated_identity (rt_state_dir rt) session_id (cs_state_incarnation request)
                   (cs_state_file request) of
              None \<Rightarrow> sret (response session_id Rejected ''invalid state identity'', None)
            | Some identity \<Rightarrow>
                sbind (rs_call (os_open_pty os request)) (\<lambda>pty.
                case pty of
                  None \<Rightarrow> serr (IoError ''open holder PTY'')
                | Some (fd, pid) \<Rightarrow>
                    sbind (rs_call (os_now_ms os)) (\<lambda>now.
                    sbind (sunwrap (rb_new (unat (cs_ring_buffer_size request)))) (\<lambda>ring.
                    sbind (rt_update (\<lambda>rt. bump_generation
                      (session_put session_id (session_new request identity fd pid now ring) rt
                        \<lparr>rt_pty_to_session := bt_insert fd session_id (rt_pty_to_session rt)\<rparr>)))
                      (\<lambda>_. sret (response session_id Ok '''', Some fd))))))"

definition session_entry :: "session \<Rightarrow> u32 \<Rightarrow> holder_session_entry" where
  "session_entry s session_id =
     \<lparr>he_session_id = session_id, he_shell_pid = ss_shell_pid s,
      he_state = (if ss_exit_code s \<noteq> None then Exited else Running),
      he_exit_code = ss_exit_code s, he_created_at_ms = ss_created_at_ms s,
      he_last_active_at_ms = ss_last_active_at_ms s,
      he_ring_bytes = of_nat (rb_len (ss_ring s)), he_writer_active = False,
      he_log_state = ss_log_state s,
      he_exit_context_available = (ss_exit_code s \<noteq> None)\<rparr>"

definition inventory :: "runtime \<Rightarrow> inventory_request \<Rightarrow> inventory_response" where
  "inventory rt request =
     (let matching = filter (\<lambda>(id, _). iq_cursor request < id) (rt_sessions rt);
          limit = unat (iq_limit request);
          entries = map (\<lambda>(id, session). session_entry session id) (take limit matching)
      in \<lparr>ir_entries = entries,
          ir_next_cursor = (if drop limit matching = [] \<or> entries = [] then None
                            else Some (he_session_id (last entries)))\<rparr>)"

definition session_for_pty :: "runtime \<Rightarrow> raw_fd \<Rightarrow> u32 option" where
  "session_for_pty rt fd = bt_get (rt_pty_to_session rt) fd"

definition pty_fds :: "runtime \<Rightarrow> raw_fd list" where
  "pty_fds rt = map fst (rt_pty_to_session rt)"

definition pty_fd :: "runtime \<Rightarrow> u32 \<Rightarrow> raw_fd option" where
  "pty_fd rt session_id =
     (case session_get rt session_id of
        None \<Rightarrow> None
      | Some s \<Rightarrow> map_option pt_master_fd (ss_pty s))"

definition replay :: "runtime \<Rightarrow> u32 \<Rightarrow> nat \<Rightarrow> bytes option" where
  "replay rt session_id max_bytes =
     (case session_get rt session_id of
        None \<Rightarrow> None
      | Some s \<Rightarrow> Some (rb_read_replay (ss_ring s) max_bytes))"

definition is_running :: "runtime \<Rightarrow> u32 \<Rightarrow> bool" where
  "is_running rt session_id =
     (case session_get rt session_id of None \<Rightarrow> False | Some s \<Rightarrow> ss_exit_code s = None)"

subsection \<open>Output\<close>

text \<open>The state of the loop of \<open>drain_output\<close>.\<close>

record 'w drain =
  dr_session :: session
  dr_logs :: log_worker
  dr_world :: 'w
  dr_chunks :: "bytes list"
  dr_dropped :: u64

text \<open>What happens to one chunk: the ring, the time stamp and the log. The log worker may have
  taken items since the lock was last held.\<close>

definition drain_chunk :: "'w os \<Rightarrow> u32 \<Rightarrow> bytes \<Rightarrow> 'w drain \<Rightarrow> 'w drain option" where
  "drain_chunk os session_id chunk d =
     (case rb_write (ss_ring (dr_session d)) chunk of
        None \<Rightarrow> None
      | Some ring \<Rightarrow>
          (let (now, w) = os_now_ms os (dr_world d);
               session = (dr_session d)\<lparr>ss_ring := ring, ss_last_active_at_ms := now\<rparr>
           in (case ss_log_path session of
                 None \<Rightarrow> Some (d\<lparr>dr_session := session, dr_world := w,
                                 dr_chunks := dr_chunks d @ [chunk]\<rparr>)
               | Some path \<Rightarrow>
                   (let (written, w) = os_log_written os w
                    in (case log_worker_run written (dr_logs d) of
                          None \<Rightarrow> None
                        | Some lw \<Rightarrow>
                            (let (dropped, lw) = log_enqueue lw session_id path chunk
                             in Some (d\<lparr>dr_session := session, dr_world := w, dr_logs := lw,
                                        dr_dropped := dr_dropped d + dropped,
                                        dr_chunks := dr_chunks d @ [chunk]\<rparr>)))))))"

text \<open>The loop ends at a read of nothing, at an EIO, or at an error. A producer that never
  pauses keeps it running, which is the result \<open>None\<close>.\<close>

partial_function (option) drain_loop ::
    "'w os \<Rightarrow> raw_fd \<Rightarrow> u32 \<Rightarrow> 'w drain \<Rightarrow> (unit res \<times> 'w drain) option" where
  "drain_loop os fd session_id d =
     (let (r, w) = os_read os fd (dr_world d);
          d = d\<lparr>dr_world := w\<rparr>
      in (case r of
            ReadWouldBlock \<Rightarrow> Some (Ret (), d)
          | ReadEio \<Rightarrow> Some (Ret (), d)
          | ReadFailed \<Rightarrow> Some (Err (IoError ''drain holder PTY''), d)
          | ReadBytes chunk \<Rightarrow>
              if chunk = [] then Some (Ret (), d)
              else (case drain_chunk os session_id chunk d of
                      None \<Rightarrow> Some (Panic, d)
                    | Some d' \<Rightarrow> drain_loop os fd session_id d')))"

text \<open>What \<open>drain_output\<close> leaves in the runtime when its loop ends.\<close>

definition drain_finish ::
    "u32 \<Rightarrow> unit res \<times> 'w drain \<Rightarrow> 'w rstate \<Rightarrow> output_batch res \<times> 'w rstate" where
  "drain_finish session_id rd s =
     (let (r, d) = rd;
          newly_degraded = (r = Ret () \<and> 0 < dr_dropped d \<and> ss_log_state (dr_session d) \<noteq> Degraded);
          session = (if newly_degraded
            then (dr_session d)\<lparr>ss_log_state := Degraded\<rparr> else dr_session d);
          rt = session_put session_id session (rs_runtime s);
          rt = (if newly_degraded then bump_generation rt else rt);
          s = s\<lparr>rs_runtime := rt, rs_logs := dr_logs d, rs_world := dr_world d\<rparr>
      in (case r of
            Ret _ \<Rightarrow> (Ret \<lparr>ob_session_id = session_id, ob_chunks = dr_chunks d,
                           ob_log_dropped = dr_dropped d\<rparr>, s)
          | Err e \<Rightarrow> (Err e, s)
          | Panic \<Rightarrow> (Panic, s)))"

definition drain_output :: "'w os \<Rightarrow> raw_fd \<Rightarrow> ('w rstate, output_batch) handler" where
  "drain_output os fd s =
     (case session_for_pty (rs_runtime s) fd of
        None \<Rightarrow> Some (Err (InvalidArgument ''unknown holder PTY''), s)
      | Some session_id \<Rightarrow>
          (case session_get (rs_runtime s) session_id of
             None \<Rightarrow> Some (Panic, s)
           | Some session \<Rightarrow>
               (let d = \<lparr>dr_session = session, dr_logs = rs_logs s, dr_world = rs_world s,
                         dr_chunks = [], dr_dropped = 0\<rparr>
                in map_option (\<lambda>rd. drain_finish session_id rd s)
                     (case ss_pty session of
                        None \<Rightarrow> Some (Ret (), d)
                      | Some pty \<Rightarrow> drain_loop os (pt_master_fd pty) session_id d))))"

subsection \<open>Input\<close>

definition ss_queue :: "session \<Rightarrow> byte_queue" where
  "ss_queue s = \<lparr>bq_chunks = ss_input s, bq_offset = ss_input_offset s, bq_bytes = ss_input_bytes s\<rparr>"

definition ss_set_queue :: "byte_queue \<Rightarrow> session \<Rightarrow> session" where
  "ss_set_queue q s =
     s\<lparr>ss_input := bq_chunks q, ss_input_offset := bq_offset q, ss_input_bytes := bq_bytes q\<rparr>"

definition ss_push_input :: "session \<Rightarrow> bytes \<Rightarrow> persist_error + session" where
  "ss_push_input s data =
     (if ss_exit_code s \<noteq> None \<or> data = []
      then Inl (InvalidArgument ''holder session is not writable'')
      else rbind (bq_push (InvalidArgument ''holder input queue overflow'')
             (InvalidArgument ''holder input queue limit exceeded'') MAX_PENDING_INPUT
             (ss_queue s) data) (\<lambda>q. Inr (ss_set_queue q s)))"

definition ss_flush_input ::
    "('w \<Rightarrow> bytes \<Rightarrow> write_result \<times> 'w) \<Rightarrow> session \<Rightarrow> 'w \<Rightarrow> (flush_end \<times> session \<times> 'w) option" where
  "ss_flush_input put s w =
     (if ss_pty s = None then Some (FlushBlocked, s, w)
      else case bq_flush put (ss_queue s) w of
             None \<Rightarrow> None
           | Some (e, q, w') \<Rightarrow> Some (e, ss_set_queue q s, w'))"

definition flush_input :: "'w os \<Rightarrow> u32 \<Rightarrow> ('w rstate, bool) handler" where
  "flush_input os session_id s =
     (case session_get (rs_runtime s) session_id of
        None \<Rightarrow> Some (Panic, s)
      | Some session \<Rightarrow>
          (let put = (\<lambda>w bs. (case ss_pty session of
                 None \<Rightarrow> (WriteWouldBlock, w)
               | Some pty \<Rightarrow> os_write os (pt_master_fd pty) bs w))
           in (case ss_flush_input put session (rs_world s) of
                 None \<Rightarrow> Some (Panic, s)
               | Some (e, session', w) \<Rightarrow>
                   Some (if e = FlushFailed then Err (IoError ''write holder PTY'')
                         else Ret (ss_input session' \<noteq> []),
                         s\<lparr>rs_runtime := session_put session_id session' (rs_runtime s),
                           rs_world := w\<rparr>))))"

definition queue_input :: "'w os \<Rightarrow> u32 \<Rightarrow> bytes \<Rightarrow> ('w rstate, bool) handler" where
  "queue_input os session_id data =
     sget (\<lambda>s. case session_get (rs_runtime s) session_id of
       None \<Rightarrow> serr (InvalidArgument ''holder session not found'')
     | Some session \<Rightarrow>
         sbind (sresult (ss_push_input session data)) (\<lambda>session.
         sbind (rs_call (os_now_ms os)) (\<lambda>now.
         sbind (rt_update (session_put session_id (session\<lparr>ss_last_active_at_ms := now\<rparr>))) (\<lambda>_.
         flush_input os session_id))))"

subsection \<open>Signals and window size\<close>

definition rt_resize :: "'w os \<Rightarrow> u32 \<Rightarrow> resize_request \<Rightarrow> ('w rstate, unit) handler" where
  "rt_resize os session_id request =
     sget (\<lambda>s. case pty_fd (rs_runtime s) session_id of
       None \<Rightarrow> serr (InvalidArgument ''holder session not running'')
     | Some fd \<Rightarrow>
         sbind (rs_call (os_set_winsize os fd (rz_rows request) (rz_cols request))) (\<lambda>ok.
         if ok then sret () else serr (IoError ''resize holder PTY'')))"

definition rt_signal :: "'w os \<Rightarrow> u32 \<Rightarrow> signal_request \<Rightarrow> ('w rstate, unit) handler" where
  "rt_signal os session_id request =
     sget (\<lambda>s. case Option.bind (session_get (rs_runtime s) session_id) ss_pty of
       None \<Rightarrow> serr (InvalidArgument ''holder session not running'')
     | Some pty \<Rightarrow>
         sbind (rs_call (os_tcgetpgrp os (pt_master_fd pty))) (\<lambda>foreground.
         let target = (case foreground of Some g \<Rightarrow> g | None \<Rightarrow> pt_child_pid pty) in
         sbind (rs_call (os_kill os target (foreground \<noteq> None) (sg_signal request))) (\<lambda>ok.
         if ok then sret () else serr (IoError ''signal holder PTY''))))"

definition SIGHUP :: u32 where
  "SIGHUP = 1"

definition SIGKILL :: u32 where
  "SIGKILL = 9"

definition rt_close :: "'w os \<Rightarrow> u32 \<Rightarrow> ('w rstate, operation_response) handler" where
  "rt_close os session_id =
     sget (\<lambda>s. case session_get (rs_runtime s) session_id of
       None \<Rightarrow> sret (response session_id NotFound ''not found'')
     | Some session \<Rightarrow>
         if ss_exit_code session \<noteq> None then sret (response session_id Ok '''')
         else (case ss_pty session of
                 None \<Rightarrow> sret (response session_id Ok '''')
               | Some pty \<Rightarrow>
                   sbind (rs_call (os_kill os (pt_child_pid pty) False SIGHUP)) (\<lambda>_.
                   sbind (rt_update (session_put session_id (session\<lparr>ss_closing := True\<rparr>))) (\<lambda>_.
                   sret (response session_id Ok '''')))))"

definition rt_kill :: "'w os \<Rightarrow> u32 \<Rightarrow> ('w rstate, operation_response) handler" where
  "rt_kill os session_id =
     sget (\<lambda>s. case session_get (rs_runtime s) session_id of
       None \<Rightarrow> sret (response session_id NotFound ''not found'')
     | Some session \<Rightarrow>
         (case ss_pty session of
            None \<Rightarrow> sret (response session_id Ok '''')
          | Some pty \<Rightarrow>
              sbind (rs_call (os_kill os (pt_child_pid pty) False SIGKILL)) (\<lambda>ok.
              sret (response session_id (if ok then Ok else Internal) ''''))))"

subsection \<open>Exit\<close>

definition exit_context_response_of :: "runtime \<Rightarrow> u32 \<Rightarrow> exit_context_response" where
  "exit_context_response_of rt session_id =
     (case session_get rt session_id of
        None \<Rightarrow> \<lparr>ec_session_id = session_id, ec_status = NotFound, ec_exit_code = None, ec_cwd = None\<rparr>
      | Some session \<Rightarrow>
          (case ss_exit_code session of
             Some code \<Rightarrow> \<lparr>ec_session_id = session_id, ec_status = Ok, ec_exit_code = Some code,
                           ec_cwd = ss_final_cwd session\<rparr>
           | None \<Rightarrow> \<lparr>ec_session_id = session_id, ec_status = Conflict, ec_exit_code = None,
                      ec_cwd = None\<rparr>))"

definition exit_context_response_v2_of :: "runtime \<Rightarrow> u32 \<Rightarrow> exit_context_response_v2" where
  "exit_context_response_v2_of rt session_id =
     (let legacy = exit_context_response_of rt session_id in
      \<lparr>ec2_session_id = ec_session_id legacy, ec2_status = ec_status legacy,
       ec2_exit_code = ec_exit_code legacy, ec2_cwd = ec_cwd legacy,
       ec2_environment = Option.bind (session_get rt session_id) ss_final_environment\<rparr>)"

text \<open>\<open>Drop for Session\<close>: the PTY is closed and the state file removed.\<close>

definition drop_session :: "'w os \<Rightarrow> session \<Rightarrow> ('w rstate, unit) handler" where
  "drop_session os session =
     sbind (case ss_pty session of
              None \<Rightarrow> sret ()
            | Some pty \<Rightarrow> rs_call (\<lambda>w. ((), os_close os (pt_master_fd pty) w))) (\<lambda>_.
     sbind (rs_call (os_remove_state os (si_state_file (ss_state_identity session)))) (\<lambda>_. sret ()))"

definition retire_exited :: "'w os \<Rightarrow> u32 \<Rightarrow> ('w rstate, operation_response) handler" where
  "retire_exited os session_id =
     sget (\<lambda>s. case session_get (rs_runtime s) session_id of
       None \<Rightarrow> sret (response session_id NotFound ''not found'')
     | Some session \<Rightarrow>
         if ss_exit_code session = None then sret (response session_id Conflict ''session is running'')
         else
           sbind (rs_call (os_remove_state os (si_state_file (ss_state_identity session)))) (\<lambda>removed.
           if \<not> removed then sret (response session_id Internal ''state cleanup failed'')
           else
             sbind (drop_session os session) (\<lambda>_.
             sbind (rt_update (\<lambda>rt. bump_generation
               (rt\<lparr>rt_sessions := bt_remove session_id (rt_sessions rt)\<rparr>))) (\<lambda>_.
             sret (response session_id Ok '''')))))"

definition poll_exit :: "'w os \<Rightarrow> pty_session \<Rightarrow> 'w \<Rightarrow> (persist_error + i32 option) \<times> pty_session \<times> 'w" where
  "poll_exit os pty w =
     (case pt_exit_status pty of
        Some status \<Rightarrow> (Inr (Some status), pty, w)
      | None \<Rightarrow>
          (case os_waitpid os (pt_child_pid pty) w of (r, w') \<Rightarrow>
           (case r of
              StillRunning \<Rightarrow> (Inr None, pty, w')
            | WaitFailed \<Rightarrow> (Inl (IoError ''waitpid nonblocking''), pty, w')
            | WaitUnknown \<Rightarrow> (Inl (InternalError ''child process exited with unknown status''), pty, w')
            | WaitExited code \<Rightarrow>
                (Inr (Some (ucast code)), pty\<lparr>pt_exit_status := Some (ucast code)\<rparr>, w')
            | WaitSignaled sig \<Rightarrow>
                (Inr (Some (128 + ucast sig)), pty\<lparr>pt_exit_status := Some (128 + ucast sig)\<rparr>, w'))))"

text \<open>The first loop of \<open>reap_exited\<close>: sessions in the order of their identifiers, up to the
  first error of \<open>poll_exit\<close>.\<close>

definition reap_session ::
    "'w os \<Rightarrow> json \<Rightarrow> u32 \<Rightarrow> session \<Rightarrow> i32 \<Rightarrow> pty_session \<Rightarrow> 'w \<Rightarrow> session \<times> exited_session \<times> 'w" where
  "reap_session os js session_id session code pty w =
     (case os_state_file os (si_state_file (ss_state_identity session)) w of (file, w) \<Rightarrow>
      let session = (case capture_state (js_to_vec js) (js_state_from_slice js)
                            (ss_state_identity session) (ss_last_state_sequence session) file of
              None \<Rightarrow> session
            | Some state \<Rightarrow> session\<lparr>ss_last_state_sequence := st_sequence state,
                ss_final_cwd := Some (st_cwd state), ss_final_environment := st_environment state\<rparr>)
      in case os_now_ms os w of (now, w) \<Rightarrow>
         let session = session\<lparr>ss_pty := Some pty, ss_exit_code := Some code, ss_last_active_at_ms := now\<rparr>
         in (session,
             \<lparr>xs_session_id = session_id, xs_exit_code = code, xs_cwd = ss_final_cwd session,
              xs_environment = ss_final_environment session, xs_pty_fd = pt_master_fd pty,
              xs_closing = ss_closing session\<rparr>, w))"

fun reap_loop ::
    "'w os \<Rightarrow> json \<Rightarrow> (u32 \<times> session) list \<Rightarrow> 'w
      \<Rightarrow> (persist_error + exited_session list) \<times> (u32 \<times> session) list \<times> 'w" where
  "reap_loop os js [] w = (Inr [], [], w)"
| "reap_loop os js ((session_id, session) # rest) w =
     (case ss_pty session of
        None \<Rightarrow>
          (case reap_loop os js rest w of (r, rest', w') \<Rightarrow> (r, (session_id, session) # rest', w'))
      | Some pty \<Rightarrow>
          (case poll_exit os pty w of
             (Inl e, pty', w') \<Rightarrow> (Inl e, (session_id, session\<lparr>ss_pty := Some pty'\<rparr>) # rest, w')
           | (Inr None, pty', w') \<Rightarrow>
               (case reap_loop os js rest w' of (r, rest', w'') \<Rightarrow>
                (r, (session_id, session\<lparr>ss_pty := Some pty'\<rparr>) # rest', w''))
           | (Inr (Some code), pty', w') \<Rightarrow>
               (case reap_session os js session_id session code pty' w' of (session', exited, w'') \<Rightarrow>
                case reap_loop os js rest w'' of (r, rest', w''') \<Rightarrow>
                (rbind r (\<lambda>xs. Inr (exited # xs)), (session_id, session') # rest', w'''))))"

text \<open>One round of the second loop: the PTY is forgotten and closed.\<close>

definition reap_finish :: "'w os \<Rightarrow> exited_session \<Rightarrow> ('w rstate, unit) handler" where
  "reap_finish os exited =
     sget (\<lambda>s.
     sbind (case Option.bind (session_get (rs_runtime s) (xs_session_id exited)) ss_pty of
              None \<Rightarrow> sret ()
            | Some pty \<Rightarrow> rs_call (\<lambda>w. ((), os_close os (pt_master_fd pty) w))) (\<lambda>_.
     rt_update (\<lambda>rt.
       let rt = rt\<lparr>rt_pty_to_session := bt_remove (xs_pty_fd exited) (rt_pty_to_session rt)\<rparr>;
           rt = (case session_get rt (xs_session_id exited) of
                   None \<Rightarrow> rt
                 | Some session \<Rightarrow> session_put (xs_session_id exited) (session\<lparr>ss_pty := None\<rparr>) rt)
       in bump_generation rt)))"

definition reap_exited :: "'w os \<Rightarrow> json \<Rightarrow> ('w rstate, exited_session list) handler" where
  "reap_exited os js =
     sget (\<lambda>s. case reap_loop os js (rt_sessions (rs_runtime s)) (rs_world s) of
       (r, sessions, w) \<Rightarrow>
         sbind (sput (\<lambda>s. s\<lparr>rs_runtime := (rs_runtime s)\<lparr>rt_sessions := sessions\<rparr>, rs_world := w\<rparr>))
           (\<lambda>_. sbind (sresult r) (\<lambda>exited.
             sbind (sfor (reap_finish os) exited) (\<lambda>_. sret exited))))"

definition mark_log_failed :: "u32 \<Rightarrow> runtime \<Rightarrow> runtime" where
  "mark_log_failed session_id rt =
     (case session_get rt session_id of
        None \<Rightarrow> rt
      | Some session \<Rightarrow>
          let newly_degraded = (ss_log_state session \<noteq> Degraded);
              rt = session_put session_id (session\<lparr>ss_log_state := Degraded\<rparr>) rt
          in if newly_degraded then bump_generation rt else rt)"

end
