(* ===== verification/Holder_Runtime_Inv.thy ===== *)
theory Holder_Runtime_Inv
  imports Holder_Runtime
begin

text \<open>
  The invariant of the holder's runtime and that every operation keeps it, without a panic.
  \<open>rs_at js open_fds F O\<close> describes a state whose sessions own the PTY descriptors \<open>F\<close> while
  the descriptors \<open>O\<close> are open; the triples say how each operation changes the two sets. The
  input queue of a session is an instance of the locale \<open>fifo_queue\<close>.
\<close>

section \<open>What is assumed of the operating system\<close>

definition os_ok :: "'w os \<Rightarrow> ('w \<Rightarrow> raw_fd set) \<Rightarrow> bool" where
  "os_ok os open_fds \<longleftrightarrow> fd_discipline os open_fds \<and> writes_bounded os \<and> reads_bounded os
     \<and> (\<forall>q w fd pid w'. os_open_pty os q w = (Some (fd, pid), w') \<longrightarrow> pid \<noteq> 0)"

lemma os_fds:
  assumes "os_ok os open_fds"
  shows "os_now_ms os w = (x1, w') \<Longrightarrow> open_fds w' = open_fds w"
    and "os_read os fd w = (x2, w') \<Longrightarrow> open_fds w' = open_fds w"
    and "os_write os fd bs w = (x3, w') \<Longrightarrow> open_fds w' = open_fds w"
    and "os_waitpid os pid w = (x4, w') \<Longrightarrow> open_fds w' = open_fds w"
    and "os_kill os pid g sig w = (x5, w') \<Longrightarrow> open_fds w' = open_fds w"
    and "os_tcgetpgrp os fd w = (x6, w') \<Longrightarrow> open_fds w' = open_fds w"
    and "os_set_winsize os fd r c w = (x7, w') \<Longrightarrow> open_fds w' = open_fds w"
    and "os_state_file os p w = (x8, w') \<Longrightarrow> open_fds w' = open_fds w"
    and "os_remove_state os p w = (x9, w') \<Longrightarrow> open_fds w' = open_fds w"
    and "os_log_written os w = (x10, w') \<Longrightarrow> open_fds w' = open_fds w"
    and "os_epoll_ctl os ctl fd t w = (x11, w') \<Longrightarrow> open_fds w' = open_fds w"
    and "os_signal os w = (x12, w') \<Longrightarrow> open_fds w' = open_fds w"
    and "os_closes_within os fd w = (x13, w') \<Longrightarrow> open_fds w' = open_fds w"
    and "open_fds (os_close os fd w) = open_fds w - {fd}"
  using assms unfolding os_ok_def fd_discipline_def by (metis snd_conv)+

lemma os_open_pty_fds:
  assumes "os_ok os open_fds" and "os_open_pty os q w = (r, w')"
  shows "case r of None \<Rightarrow> open_fds w' = open_fds w
    | Some (fd, pid) \<Rightarrow> fd \<notin> open_fds w \<and> open_fds w' = insert fd (open_fds w) \<and> pid \<noteq> 0"
proof -
  have "\<forall>q w. case os_open_pty os q w of (None, w') \<Rightarrow> open_fds w' = open_fds w
    | (Some (fd, pid), w') \<Rightarrow> fd \<notin> open_fds w \<and> open_fds w' = insert fd (open_fds w)"
    using assms(1) unfolding os_ok_def fd_discipline_def by (elim conjE)
  from this[THEN spec[of _ q], THEN spec[of _ w]]
  have "case (r, w') of (None, w') \<Rightarrow> open_fds w' = open_fds w
    | (Some (fd, pid), w') \<Rightarrow> fd \<notin> open_fds w \<and> open_fds w' = insert fd (open_fds w)"
    by (simp only: assms(2))
  moreover have "pid \<noteq> 0" if "r = Some (fd, pid)" for fd pid
    using assms that unfolding os_ok_def by blast
  ultimately show ?thesis
    by (auto split: option.splits)
qed

section \<open>Sessions\<close>

definition session_ok :: "json \<Rightarrow> u32 \<Rightarrow> session \<Rightarrow> bool" where
  "session_ok js sid s \<longleftrightarrow> sid \<noteq> 0 \<and> ss_shell_pid s \<noteq> 0
     \<and> rb_inv (ss_ring s) \<and> rb_capacity (ss_ring s) \<le> unat MAX_HOLDER_RING_BUFFER
     \<and> bq_inv MAX_PENDING_INPUT (ss_queue s)
     \<and> cwd_ok (ss_final_cwd s)
     \<and> (\<forall>e. ss_final_environment s = Some e \<longrightarrow>
          snapshot_validate_hard_limits (js_to_vec js) e = Inr ())
     \<and> (ss_exit_code s = None \<longrightarrow> ss_final_cwd s = None \<and> ss_final_environment s = None)"

definition live_pty :: "session \<Rightarrow> bool" where
  "live_pty s \<longleftrightarrow> (ss_exit_code s = None) = (ss_pty s \<noteq> None)"

definition session_fd :: "session \<Rightarrow> raw_fd option" where
  "session_fd s = map_option pt_master_fd (ss_pty s)"

lemma ss_queue_set [simp]:
  "ss_queue (ss_set_queue q s) = q" "ss_pty (ss_set_queue q s) = ss_pty s"
  "ss_exit_code (ss_set_queue q s) = ss_exit_code s" "ss_ring (ss_set_queue q s) = ss_ring s"
  "ss_shell_pid (ss_set_queue q s) = ss_shell_pid s"
  "ss_final_cwd (ss_set_queue q s) = ss_final_cwd s"
  "ss_final_environment (ss_set_queue q s) = ss_final_environment s"
  "ss_input (ss_set_queue q s) = bq_chunks q"
  by (cases q; simp add: ss_queue_def ss_set_queue_def)+

subsection \<open>The input queue is a bounded FIFO\<close>

lemma ss_push_input_ok:
  assumes "ss_push_input s data = Inr s'"
  shows "\<exists>q. s' = ss_set_queue q s \<and> data \<noteq> [] \<and> ss_exit_code s = None
    \<and> bq_push (InvalidArgument ''holder input queue overflow'')
        (InvalidArgument ''holder input queue limit exceeded'') MAX_PENDING_INPUT (ss_queue s) data
      = Inr q"
  using assms by (auto simp: ss_push_input_def rbind_eq_Inr split: if_splits)

lemma ss_flush_input_returns:
  assumes "write_bounded put" and "write_keeps put P" and "P w"
    and "bq_inv MAX_PENDING_INPUT (ss_queue s)"
  shows "\<exists>e q w'. ss_flush_input put s w = Some (e, ss_set_queue q s, w')
    \<and> bq_inv MAX_PENDING_INPUT q \<and> P w'
    \<and> (\<forall>accepted. sink put accepted \<longrightarrow>
        accepted w' @ bq_pending q = accepted w @ bq_pending (ss_queue s))"
proof (cases "ss_pty s")
  case None
  moreover have "s = ss_set_queue (ss_queue s) s"
    by (simp add: ss_set_queue_def ss_queue_def)
  ultimately show ?thesis
    using assms(3,4) by (auto simp: ss_flush_input_def)
next
  case (Some pty)
  from bq_flush_returns[OF assms] obtain e q' w' where
    "bq_flush put (ss_queue s) w = Some (e, q', w')" "bq_inv MAX_PENDING_INPUT q'" "P w'"
    "\<forall>accepted. sink put accepted \<longrightarrow>
      accepted w' @ bq_pending q' = accepted w @ bq_pending (ss_queue s)"
    by blast
  then show ?thesis
    using Some by (auto simp: ss_flush_input_def)
qed

interpretation si: fifo_queue
  "\<lambda>s. bq_inv MAX_PENDING_INPUT (ss_queue s)" "\<lambda>s. bq_pending (ss_queue s)" MAX_PENDING_INPUT
  "\<lambda>data. data" ss_push_input "\<lambda>put s w. map_option snd (ss_flush_input put s w)"
proof unfold_locales
  show "length (bq_pending (ss_queue s)) \<le> MAX_PENDING_INPUT"
    if "bq_inv MAX_PENDING_INPUT (ss_queue s)" for s
    using that by (simp add: bq_inv_def)
  show "bq_inv MAX_PENDING_INPUT (ss_queue s') \<and> bq_pending (ss_queue s') = bq_pending (ss_queue s) @ data"
    if "bq_inv MAX_PENDING_INPUT (ss_queue s)" "ss_push_input s data = Inr s'" for s data s'
    using that ss_push_input_ok[OF that(2)] bq_push_inv by fastforce
  show "\<exists>s' w'. map_option snd (ss_flush_input put s w) = Some (s', w')
      \<and> bq_inv MAX_PENDING_INPUT (ss_queue s')
      \<and> accepted w' @ bq_pending (ss_queue s') = accepted w @ bq_pending (ss_queue s)"
    if "bq_inv MAX_PENDING_INPUT (ss_queue s)" "sink put accepted" for s put accepted w
    using ss_flush_input_returns[of put "\<lambda>_. True" w s] that sink_bounded[OF that(2)]
    by (fastforce simp: write_keeps_def)
qed

section \<open>The tables\<close>

definition rt_inv :: "json \<Rightarrow> runtime \<Rightarrow> bool" where
  "rt_inv js rt \<longleftrightarrow> bt_wf (rt_sessions rt) \<and> bt_wf (rt_pty_to_session rt)
     \<and> (\<forall>sid s. session_get rt sid = Some s \<longrightarrow> session_ok js sid s \<and> live_pty s)
     \<and> (\<forall>fd sid. session_for_pty rt fd = Some sid \<longleftrightarrow>
          (\<exists>s. session_get rt sid = Some s \<and> session_fd s = Some fd))"

definition rs_at :: "json \<Rightarrow> ('w \<Rightarrow> raw_fd set) \<Rightarrow> raw_fd set \<Rightarrow> raw_fd set \<Rightarrow> 'w rstate \<Rightarrow> bool" where
  "rs_at js open_fds F O' s \<longleftrightarrow> rt_inv js (rs_runtime s) \<and> lw_inv (rs_logs s)
     \<and> set (pty_fds (rs_runtime s)) = F \<and> open_fds (rs_world s) = O' \<and> F \<subseteq> O'"

lemma session_put_simps [simp]:
  "bt_wf (rt_sessions rt) \<Longrightarrow>
   session_get (session_put sid s rt) sid' = (if sid' = sid then Some s else session_get rt sid')"
  "rt_pty_to_session (session_put sid s rt) = rt_pty_to_session rt"
  "rt_sessions (session_put sid s rt) = bt_insert sid s (rt_sessions rt)"
  "pty_fds (session_put sid s rt) = pty_fds rt"
  "rt_state_dir (session_put sid s rt) = rt_state_dir rt"
  by (simp_all add: session_get_def session_put_def pty_fds_def)

lemma bump_generation_simps [simp]:
  "rt_sessions (bump_generation rt) = rt_sessions rt"
  "rt_pty_to_session (bump_generation rt) = rt_pty_to_session rt"
  "session_get (bump_generation rt) = session_get rt"
  "session_for_pty (bump_generation rt) = session_for_pty rt"
  "pty_fds (bump_generation rt) = pty_fds rt"
  "rt_inv js (bump_generation rt) = rt_inv js rt"
  by (simp_all add: bump_generation_def session_get_def session_for_pty_def pty_fds_def rt_inv_def
      fun_eq_iff)

lemma rt_invD:
  assumes "rt_inv js rt" and "session_get rt sid = Some s"
  shows "session_ok js sid s" "live_pty s"
  using assms by (simp_all add: rt_inv_def)

lemma rt_inv_wf: "rt_inv js rt \<Longrightarrow> bt_wf (rt_sessions rt)"
  by (simp add: rt_inv_def)

lemma rt_inv_put:
  assumes "rt_inv js rt" and "session_get rt sid = Some s"
    and "session_ok js sid s'" and "live_pty s'" and "session_fd s' = session_fd s"
  shows "rt_inv js (session_put sid s' rt)"
  using assms by (auto simp: rt_inv_def session_for_pty_def)

lemma rt_inv_new: "rt_inv js (runtime_new dir)"
  by (simp add: rt_inv_def runtime_new_def bt_wf_def session_get_def session_for_pty_def)

lemma bump_generation_nonzero: "rt_generation (bump_generation rt) \<noteq> 0"
proof -
  have "1 \<le> max (rt_generation rt + 1) 1"
    by simp
  then show ?thesis
    by (simp add: bump_generation_def del: max.cobounded2) (metis word_le_0_iff zero_neq_one)
qed

lemma pty_fds_iff:
  "fd \<in> set (pty_fds rt) \<longleftrightarrow> (\<exists>sid. session_for_pty rt fd = Some sid)"
  using map_of_eq_None_iff[of "rt_pty_to_session rt" fd]
  by (auto simp: pty_fds_def session_for_pty_def)

section \<open>Rules for calls\<close>

lemma wp_rs_call [wp]:
  "ends Q E (rs_call f s) = (case f (rs_world s) of (x, w) \<Rightarrow> Q x (s\<lparr>rs_world := w\<rparr>))"
  by (simp add: rs_call_def split: prod.splits)

lemma wp_rt_update [wp]:
  "ends Q E (rt_update f s) = Q () (s\<lparr>rs_runtime := f (rs_runtime s)\<rparr>)"
  by (simp add: rt_update_def wp)

lemma rs_at_world: "rs_at js op F Op s \<Longrightarrow> op w = op (rs_world s) \<Longrightarrow> rs_at js op F Op (s\<lparr>rs_world := w\<rparr>)"
  by (simp add: rs_at_def)

lemma rs_at_put:
  assumes "rs_at js op F Op s" and "session_get (rs_runtime s) sid = Some ss"
    and "session_ok js sid ss'" and "live_pty ss'" and "session_fd ss' = session_fd ss"
  shows "rs_at js op F Op (s\<lparr>rs_runtime := session_put sid ss' (rs_runtime s)\<rparr>)"
  using assms rt_inv_put[OF _ assms(2)] by (simp add: rs_at_def)

end
