(* ===== verification/Holder_Runtime_Ops.thy ===== *)
theory Holder_Runtime_Ops
  imports Holder_Runtime_Inv
begin

text \<open>
  What each operation of the runtime does to its invariant, as triples: none of them panics,
  and the set of PTY descriptors changes only when a session is created (by the new
  descriptor) and when exited sessions are reaped (by theirs).
\<close>

section \<open>Output\<close>

text \<open>What the draining loop keeps, relative to the session it started from.\<close>

definition drain_inv ::
    "json \<Rightarrow> ('w \<Rightarrow> raw_fd set) \<Rightarrow> raw_fd set \<Rightarrow> u32 \<Rightarrow> session \<Rightarrow> 'w drain \<Rightarrow> bool" where
  "drain_inv js op Op sid s0 d \<longleftrightarrow> session_ok js sid (dr_session d) \<and> lw_inv (dr_logs d)
     \<and> op (dr_world d) = Op \<and> ss_pty (dr_session d) = ss_pty s0
     \<and> ss_exit_code (dr_session d) = ss_exit_code s0
     \<and> (\<forall>c \<in> set (dr_chunks d). c \<noteq> [] \<and> length c \<le> MAX_HOLDER_IO_FRAME)
     \<and> rb_capacity (ss_ring (dr_session d)) = rb_capacity (ss_ring s0)
     \<and> rb_read_all (ss_ring (dr_session d)) =
         lastn (rb_capacity (ss_ring s0)) (rb_read_all (ss_ring s0) @ concat (dr_chunks d))"

lemma drain_chunk_inv:
  assumes "os_ok os op" and "drain_inv js op Op sid s0 d" and "c \<noteq> []" and "length c \<le> MAX_HOLDER_IO_FRAME"
  shows "\<exists>d'. drain_chunk os sid c d = Some d' \<and> drain_inv js op Op sid s0 d'"
proof -
  note d = assms(2)[unfolded drain_inv_def]
  from d have "rb_inv (ss_ring (dr_session d))"
    by (simp add: session_ok_def)
  from rb_write_correct[OF this, of c] obtain ring where ring:
    "rb_write (ss_ring (dr_session d)) c = Some ring" "rb_inv ring"
    "rb_capacity ring = rb_capacity (ss_ring (dr_session d))"
    "rb_read_all ring = lastn (rb_capacity (ss_ring (dr_session d))) (rb_read_all (ss_ring (dr_session d)) @ c)"
    by blast
  obtain now w1 where now: "os_now_ms os (dr_world d) = (now, w1)"
    by (cases "os_now_ms os (dr_world d)")
  obtain rs w2 where rs: "os_log_written os w1 = (rs, w2)"
    by (cases "os_log_written os w1")
  have op: "op w1 = Op" "op w2 = Op"
    using d os_fds(1)[OF assms(1) now] os_fds(10)[OF assms(1) rs] by simp_all
  obtain lw where lw: "log_worker_run rs (dr_logs d) = Some lw" "lw_inv lw"
    using d log_worker_run_inv by blast
  define s1 where "s1 = (dr_session d)\<lparr>ss_ring := ring, ss_last_active_at_ms := now\<rparr>"
  have s1: "session_ok js sid s1" "ss_pty s1 = ss_pty s0" "ss_exit_code s1 = ss_exit_code s0"
    "rb_capacity (ss_ring s1) = rb_capacity (ss_ring s0)"
    "rb_read_all (ss_ring s1) = lastn (rb_capacity (ss_ring s0))
      (rb_read_all (ss_ring s0) @ concat (dr_chunks d @ [c]))"
    using d ring by (simp_all add: s1_def session_ok_def ss_queue_def lastn_lastn_append)
  show ?thesis
  proof (cases "ss_log_path (dr_session d)")
    case None
    then have "drain_chunk os sid c d = Some (d\<lparr>dr_session := s1, dr_world := w1, dr_chunks := dr_chunks d @ [c]\<rparr>)"
      by (simp add: drain_chunk_def ring now s1_def)
    then show ?thesis
      using d s1 op assms(3,4) by (simp add: drain_inv_def)
  next
    case (Some path)
    obtain dropped lw' where enq: "log_enqueue lw sid path c = (dropped, lw')"
      by (cases "log_enqueue lw sid path c")
    have "lw_inv lw'"
      using log_enqueue_inv[OF lw(2), of sid path c] enq by simp
    moreover have "drain_chunk os sid c d = Some (d\<lparr>dr_session := s1, dr_world := w2, dr_logs := lw',
        dr_dropped := dr_dropped d + dropped, dr_chunks := dr_chunks d @ [c]\<rparr>)"
      using Some by (simp add: drain_chunk_def ring now rs lw enq s1_def)
    ultimately show ?thesis
      using d s1 op assms(3,4) by (simp add: drain_inv_def)
  qed
qed

lemma drain_loop_inv:
  assumes "os_ok os op" and "drain_loop os fd sid d = Some (r, d')" and "drain_inv js op Op sid s0 d"
  shows "r \<noteq> Panic \<and> drain_inv js op Op sid s0 d'"
proof -
  let ?P = "\<lambda>os (fd :: raw_fd) sid d rd. os_ok os op \<longrightarrow> drain_inv js op Op sid s0 d \<longrightarrow>
    (case rd of (r, d') \<Rightarrow> r \<noteq> Panic \<and> drain_inv js op Op sid s0 d')"
  have "?P os fd sid d (r, d')"
  proof (rule drain_loop.raw_induct[where P = ?P, OF _ assms(2)])
    fix f :: "'a os \<Rightarrow> raw_fd \<Rightarrow> u32 \<Rightarrow> 'a drain \<Rightarrow> (unit res \<times> 'a drain) option"
    fix os fd sid d rd
    assume 1: "\<And>os fd sid d y. f os fd sid d = Some y \<Longrightarrow> ?P os fd sid d y"
      "(let (r, w) = os_read os fd (dr_world d); d = d\<lparr>dr_world := w\<rparr>
      in case r of
           ReadBytes chunk \<Rightarrow>
             if chunk = [] then Some (Ret (), d)
             else case drain_chunk os sid chunk d of
                    None \<Rightarrow> Some (Panic, d)
                  | Some d' \<Rightarrow> f os fd sid d'
         | ReadFailed \<Rightarrow> Some (Err (IoError ''drain holder PTY''), d)
         | _ \<Rightarrow> Some (Ret (), d)) = Some rd"
    show "?P os fd sid d rd"
    proof (intro impI)
      assume ok: "os_ok os op" and inv: "drain_inv js op Op sid s0 d"
      obtain x w where read: "os_read os fd (dr_world d) = (x, w)"
        by (cases "os_read os fd (dr_world d)")
      have inv1: "drain_inv js op Op sid s0 (d\<lparr>dr_world := w\<rparr>)"
        using inv os_fds(2)[OF ok read] by (simp add: drain_inv_def)
      show "case rd of (r, d') \<Rightarrow> r \<noteq> Panic \<and> drain_inv js op Op sid s0 d'"
      proof (cases x)
        case (ReadBytes c)
        show ?thesis
        proof (cases "c = []")
          case True
          then show ?thesis
            using 1(2) read ReadBytes inv1 by auto
        next
          case False
          have "length c \<le> MAX_HOLDER_IO_FRAME"
            using ok read ReadBytes by (auto simp: os_ok_def reads_bounded_def)
          from drain_chunk_inv[OF ok inv1 False this] obtain d1 where
            d1: "drain_chunk os sid c (d\<lparr>dr_world := w\<rparr>) = Some d1" "drain_inv js op Op sid s0 d1"
            by blast
          then have "f os fd sid d1 = Some rd"
            using 1(2) read ReadBytes False by simp
          from 1(1)[OF this] show ?thesis
            using ok d1(2) by blast
        qed
      qed (use 1(2) read inv1 in auto)
    qed
  qed
  then show ?thesis
    using assms by blast
qed

definition batch_ok :: "output_batch \<Rightarrow> bool" where
  "batch_ok b \<longleftrightarrow> (\<forall>c \<in> set (ob_chunks b). length c \<le> MAX_HOLDER_IO_FRAME)"

lemma drain_inv_start:
  assumes "session_ok js sid s0" and "lw_inv lw"
  shows "drain_inv js op (op w) sid s0
    \<lparr>dr_session = s0, dr_logs = lw, dr_world = w, dr_chunks = [], dr_dropped = 0\<rparr>"
proof -
  have "length (rb_read_all (ss_ring s0)) \<le> rb_capacity (ss_ring s0)"
    using assms(1) by (intro rb.bounded_law) (simp add: session_ok_def)
  then show ?thesis
    using assms by (simp add: drain_inv_def)
qed

lemma drain_finish_rs:
  assumes "rs_at js op F Op s" and "session_get (rs_runtime s) sid = Some s0"
    and "drain_inv js op Op sid s0 d" and "r \<noteq> Panic"
  shows "ends (\<lambda>b s. rs_at js op F Op s \<and> batch_ok b) (rs_at js op F Op)
    (Some (drain_finish sid (r, d) s))"
proof -
  have wf: "rt_inv js (rs_runtime s)"
    using assms(1) by (simp add: rs_at_def)
  have "session_ok js sid s1 \<and> live_pty s1 \<and> session_fd s1 = session_fd s0"
    if "s1 = dr_session d \<or> s1 = (dr_session d)\<lparr>ss_log_state := Degraded\<rparr>" for s1
    using that assms(3) rt_invD(2)[OF wf assms(2)]
    by (auto simp: drain_inv_def session_ok_def live_pty_def session_fd_def ss_queue_def)
  then have "rt_inv js (session_put sid s1 (rs_runtime s))"
    if "s1 = dr_session d \<or> s1 = (dr_session d)\<lparr>ss_log_state := Degraded\<rparr>" for s1
    using that rt_inv_put[OF wf assms(2)] by blast
  then show ?thesis
    using assms by (cases r) (auto simp: drain_finish_def Let_def rs_at_def drain_inv_def batch_ok_def)
qed

lemma drain_output_rs:
  assumes "os_ok os op"
  shows "hoare (rs_at js op F Op) (drain_output os fd)
    (\<lambda>b s. rs_at js op F Op s \<and> batch_ok b) (rs_at js op F Op)"
proof (rule hoareI)
  fix s :: "'a rstate"
  assume at: "rs_at js op F Op s"
  show "ends (\<lambda>b s. rs_at js op F Op s \<and> batch_ok b) (rs_at js op F Op) (drain_output os fd s)"
  proof (cases "session_for_pty (rs_runtime s) fd")
    case None
    then show ?thesis
      using at by (simp add: drain_output_def)
  next
    case (Some sid)
    then obtain s0 where s0: "session_get (rs_runtime s) sid = Some s0"
      using at unfolding rs_at_def rt_inv_def by blast
    define d where "d = \<lparr>dr_session = s0, dr_logs = rs_logs s, dr_world = rs_world s, dr_chunks = [],
      dr_dropped = 0\<rparr>"
    have inv: "drain_inv js op Op sid s0 d"
      using at drain_inv_start[of js sid s0 "rs_logs s" op "rs_world s"] rt_invD(1)[OF _ s0]
      by (auto simp: rs_at_def d_def)
    have eq: "drain_output os fd s = map_option (\<lambda>rd. drain_finish sid rd s)
        (case ss_pty s0 of None \<Rightarrow> Some (Ret (), d) | Some pty \<Rightarrow> drain_loop os (pt_master_fd pty) sid d)"
      unfolding drain_output_def d_def Let_def using Some s0 by simp
    show ?thesis
    proof (cases "case ss_pty s0 of None \<Rightarrow> Some (Ret (), d) | Some pty \<Rightarrow> drain_loop os (pt_master_fd pty) sid d")
      case None
      then show ?thesis by (simp add: eq)
    next
      case (Some rd)
      obtain r d' where rd: "rd = (r, d')"
        by (cases rd)
      have "r \<noteq> Panic \<and> drain_inv js op Op sid s0 d'"
        using Some rd inv drain_loop_inv[OF assms _ inv] by (cases "ss_pty s0") auto
      then show ?thesis
        using drain_finish_rs[OF at s0, of d' r] Some rd by (simp add: eq)
    qed
  qed
qed

section \<open>Input\<close>

lemma flush_input_rs:
  assumes "os_ok os op"
  shows "hoare (\<lambda>s. rs_at js op F Op s \<and> session_get (rs_runtime s) sid \<noteq> None) (flush_input os sid)
    (\<lambda>_. rs_at js op F Op) (rs_at js op F Op)"
proof (rule hoareI, elim conjE)
  fix s :: "'a rstate"
  assume at: "rs_at js op F Op s" and "session_get (rs_runtime s) sid \<noteq> None"
  then obtain s0 where s0: "session_get (rs_runtime s) sid = Some s0"
    by blast
  have ok: "session_ok js sid s0" "live_pty s0"
    using at rt_invD[OF _ s0] by (auto simp: rs_at_def)
  define put where "put = (\<lambda>w bs. case ss_pty s0 of
      None \<Rightarrow> (WriteWouldBlock, w)
    | Some pty \<Rightarrow> os_write os (pt_master_fd pty) bs w)"
  have "write_bounded put"
    using assms by (auto simp: write_bounded_def put_def os_ok_def writes_bounded_def split: option.splits)
  moreover have "write_keeps put (\<lambda>w. op w = Op)"
  proof -
    have "op (snd (os_write os fd bs w)) = op w" for fd bs w
      by (metis os_fds(3)[OF assms] prod.collapse)
    then show ?thesis
      by (auto simp: write_keeps_def put_def split: option.splits)
  qed
  moreover have "op (rs_world s) = Op" "bq_inv MAX_PENDING_INPUT (ss_queue s0)"
    using at ok by (simp_all add: rs_at_def session_ok_def)
  ultimately obtain e q w' where fl: "ss_flush_input put s0 (rs_world s) = Some (e, ss_set_queue q s0, w')"
    "bq_inv MAX_PENDING_INPUT q" "op w' = Op"
    using ss_flush_input_returns[of put "\<lambda>w. op w = Op" "rs_world s" s0] by blast
  have "session_ok js sid (ss_set_queue q s0)" "live_pty (ss_set_queue q s0)"
    "session_fd (ss_set_queue q s0) = session_fd s0"
    using ok fl(2) by (simp_all add: session_ok_def live_pty_def session_fd_def)
  then have "rs_at js op F Op (s\<lparr>rs_runtime := session_put sid (ss_set_queue q s0) (rs_runtime s)\<rparr>)"
    by (intro rs_at_put[OF at s0])
  then have "rs_at js op F Op (s\<lparr>rs_runtime := session_put sid (ss_set_queue q s0) (rs_runtime s), rs_world := w'\<rparr>)"
    using fl(3) by (simp add: rs_at_def)
  then show "ends (\<lambda>_. rs_at js op F Op) (rs_at js op F Op) (flush_input os sid s)"
    using s0 fl(1) by (simp add: flush_input_def put_def[symmetric])
qed

lemma session_ok_time [simp]:
  "session_ok js sid (s\<lparr>ss_last_active_at_ms := t\<rparr>) = session_ok js sid s"
  "live_pty (s\<lparr>ss_last_active_at_ms := t\<rparr>) = live_pty s"
  "session_fd (s\<lparr>ss_last_active_at_ms := t\<rparr>) = session_fd s"
  "session_ok js sid (s\<lparr>ss_closing := b\<rparr>) = session_ok js sid s"
  "live_pty (s\<lparr>ss_closing := b\<rparr>) = live_pty s"
  "session_fd (s\<lparr>ss_closing := b\<rparr>) = session_fd s"
  "session_ok js sid (s\<lparr>ss_log_state := l\<rparr>) = session_ok js sid s"
  "live_pty (s\<lparr>ss_log_state := l\<rparr>) = live_pty s"
  "session_fd (s\<lparr>ss_log_state := l\<rparr>) = session_fd s"
  by (simp_all add: session_ok_def live_pty_def session_fd_def ss_queue_def)

lemma push_input_session:
  assumes "ss_push_input ss data = Inr ss1" and "session_ok js sid ss" and "live_pty ss"
  shows "session_ok js sid ss1 \<and> live_pty ss1 \<and> session_fd ss1 = session_fd ss"
proof -
  obtain q where "ss1 = ss_set_queue q ss" "bq_inv MAX_PENDING_INPUT q"
    using ss_push_input_ok[OF assms(1)] bq_push_inv assms(2) unfolding session_ok_def by blast
  then show ?thesis
    using assms(2,3) by (simp add: session_ok_def live_pty_def session_fd_def)
qed

lemma rs_atD:
  assumes "rs_at js op F Op s" and "session_get (rs_runtime s) sid = Some ss"
  shows "session_ok js sid ss" "live_pty ss"
  using assms rt_invD by (auto simp: rs_at_def)

lemma rs_at_wf [simp]: "rs_at js op F Op s \<Longrightarrow> bt_wf (rt_sessions (rs_runtime s))"
  by (simp add: rs_at_def rt_inv_def)

lemma queue_input_rs:
  assumes "os_ok os op"
  shows "hoare (rs_at js op F Op) (queue_input os sid data) (\<lambda>_. rs_at js op F Op) (rs_at js op F Op)"
proof (rule hoareI)
  fix s :: "'a rstate"
  assume at: "rs_at js op F Op s"
  have fl: "ends (\<lambda>_. rs_at js op F Op) (rs_at js op F Op) (flush_input os sid
      (s\<lparr>rs_world := w, rs_runtime := session_put sid (ss1\<lparr>ss_last_active_at_ms := now\<rparr>) (rs_runtime s)\<rparr>))"
    if "session_get (rs_runtime s) sid = Some ss" "ss_push_input ss data = Inr ss1"
      "os_now_ms os (rs_world s) = (now, w)" for ss ss1 now w
  proof (rule hoareD[OF flush_input_rs[OF assms]], intro conjI)
    show "rs_at js op F Op
      (s\<lparr>rs_world := w, rs_runtime := session_put sid (ss1\<lparr>ss_last_active_at_ms := now\<rparr>) (rs_runtime s)\<rparr>)"
      using push_input_session[OF that(2) rs_atD[OF at that(1)]] os_fds(1)[OF assms that(3)]
        rs_at_put[OF at that(1), of "ss1\<lparr>ss_last_active_at_ms := now\<rparr>"]
      by (simp add: rs_at_def)
  qed (use at in simp)
  show "ends (\<lambda>_. rs_at js op F Op) (rs_at js op F Op) (queue_input os sid data s)"
    using at by (auto simp: queue_input_def wp fl split: option.splits sum.splits prod.splits)
qed

section \<open>Creating, signalling and closing\<close>

lemma response_ok:
  "sid \<noteq> 0 \<Longrightarrow> str_ok MAX_HOLDER_ERROR_MESSAGE (ascii m) \<Longrightarrow> operation_response_ok (response sid st m)"
  by (simp add: response_def operation_response_ok_def)

lemma cwd_ok_None [simp]: "cwd_ok None"
  by (simp add: cwd_ok_def opt_str_ok_def)

lemma messages_ok [simp]:
  "str_ok MAX_HOLDER_ERROR_MESSAGE (ascii '''')"
  "str_ok MAX_HOLDER_ERROR_MESSAGE (ascii ''exists'')"
  "str_ok MAX_HOLDER_ERROR_MESSAGE (ascii ''invalid state identity'')"
  "str_ok MAX_HOLDER_ERROR_MESSAGE (ascii ''not found'')"
  "str_ok MAX_HOLDER_ERROR_MESSAGE (ascii ''session is running'')"
  "str_ok MAX_HOLDER_ERROR_MESSAGE (ascii ''state cleanup failed'')"
  by (simp_all add: str_ok_def MAX_HOLDER_ERROR_MESSAGE_def ascii_def)

lemma session_new_ok:
  assumes "rb_new (unat (cs_ring_buffer_size q)) = Some ring" and "cs_session_id q \<noteq> 0" and "pid \<noteq> 0"
    and "cs_ring_buffer_size q \<le> MAX_HOLDER_RING_BUFFER"
  shows "session_ok js (cs_session_id q) (session_new q x fd pid now ring)"
    "live_pty (session_new q x fd pid now ring)"
    "session_fd (session_new q x fd pid now ring) = Some fd"
proof -
  have "ss_queue (session_new q x fd pid now ring) = bq_empty"
    by (simp add: session_new_def ss_queue_def bq_empty_def)
  then show "session_ok js (cs_session_id q) (session_new q x fd pid now ring)"
    using assms rb_inv_new[OF assms(1)]
    by (simp add: session_ok_def session_new_def cwd_ok_def opt_str_ok_def word_le_nat_alt)
qed (simp_all add: session_new_def live_pty_def session_fd_def)

lemma rt_inv_create:
  assumes "rt_inv js rt" and "session_get rt sid = None" and "session_for_pty rt fd = None"
    and "session_ok js sid s" and "live_pty s" and "session_fd s = Some fd"
  shows "rt_inv js (session_put sid s rt\<lparr>rt_pty_to_session := bt_insert fd sid (rt_pty_to_session rt)\<rparr>)"
proof -
  have "session_fd s' \<noteq> Some fd" if "session_get rt sid' = Some s'" for sid' s'
    using assms(1,3) that unfolding rt_inv_def by (metis option.distinct(1))
  then show ?thesis
    using assms by (auto simp: rt_inv_def session_for_pty_def session_get_def session_put_def)
qed

lemma rt_create_rs:
  assumes "os_ok os op" and q: "cs_session_id q \<noteq> 0" "cs_ring_buffer_size q \<noteq> 0"
    "cs_ring_buffer_size q \<le> MAX_HOLDER_RING_BUFFER"
  shows "hoare (rs_at js op F Op) (rt_create os q)
    (\<lambda>(resp, fd) s. operation_response_ok resp
       \<and> (case fd of None \<Rightarrow> rs_at js op F Op s
          | Some fd \<Rightarrow> fd \<notin> Op \<and> rs_at js op (insert fd F) (insert fd Op) s))
    (rs_at js op F Op)"
proof (rule hoareI)
  fix s :: "'a rstate"
  assume at: "rs_at js op F Op s"
  let ?Q = "\<lambda>(resp, fd) s. operation_response_ok resp
       \<and> (case fd of None \<Rightarrow> rs_at js op F Op s
          | Some fd \<Rightarrow> fd \<notin> Op \<and> rs_at js op (insert fd F) (insert fd Op) s)"
  obtain r w where pty: "os_open_pty os q (rs_world s) = (r, w)"
    by (cases "os_open_pty os q (rs_world s)")
  obtain now w' where now: "os_now_ms os w = (now, w')"
    by (cases "os_now_ms os w")
  obtain ring where ring: "rb_new (unat (cs_ring_buffer_size q)) = Some ring"
    using q(2) by (simp add: rb_new_def unat_eq_zero)
  have none: "rs_at js op F Op (s\<lparr>rs_world := w\<rparr>)" if "r = None"
    using at os_open_pty_fds[OF assms(1) pty] that by (simp add: rs_at_def)
  have new: "fd \<notin> Op \<and> rs_at js op (insert fd F) (insert fd Op)
      (s\<lparr>rs_world := w', rs_runtime := bump_generation
        (session_put (cs_session_id q) (session_new q x fd pid now ring) (rs_runtime s)
          \<lparr>rt_pty_to_session := bt_insert fd (cs_session_id q) (rt_pty_to_session (rs_runtime s))\<rparr>)\<rparr>)"
    if "session_get (rs_runtime s) (cs_session_id q) = None" and "r = Some (fd, pid)" for x fd pid
  proof -
    have fd: "fd \<notin> op (rs_world s)" "op w = insert fd (op (rs_world s))" "pid \<noteq> 0"
      using os_open_pty_fds[OF assms(1) pty] that(2) by simp_all
    moreover have "op w' = op w"
      using os_fds(1)[OF assms(1) now] .
    moreover have "session_for_pty (rs_runtime s) fd = None"
      using at fd(1) pty_fds_iff[of fd "rs_runtime s"] by (auto simp: rs_at_def)
    moreover have "bt_wf (rt_pty_to_session (rs_runtime s))"
      using at by (simp add: rs_at_def rt_inv_def)
    ultimately show ?thesis
      using at rt_inv_create[OF _ that(1) _ session_new_ok[OF ring q(1) _ q(3)], of js fd pid x now]
      by (auto simp: rs_at_def pty_fds_def image_image)
  qed
  show "ends ?Q (rs_at js op F Op) (rt_create os q s)"
    using at pty now ring none new q(1)
    by (auto simp: rt_create_def wp response_ok Let_def split: option.splits)
qed

lemma rt_resize_rs:
  assumes "os_ok os op"
  shows "hoare (rs_at js op F Op) (rt_resize os sid q) (\<lambda>_. rs_at js op F Op) (rs_at js op F Op)"
  by (rule hoareI)
     (auto simp: rt_resize_def wp rs_at_world os_fds(7)[OF assms] split: option.splits prod.splits)

lemma rt_signal_rs:
  assumes "os_ok os op"
  shows "hoare (rs_at js op F Op) (rt_signal os sid q) (\<lambda>_. rs_at js op F Op) (rs_at js op F Op)"
proof (rule hoareI)
  fix s :: "'a rstate"
  assume at: "rs_at js op F Op s"
  have "rs_at js op F Op (s\<lparr>rs_world := w2\<rparr>)"
    if "os_tcgetpgrp os fd (rs_world s) = (g, w1)" "os_kill os pid b sig w1 = (k, w2)" for fd g w1 pid b sig k w2
    using rs_at_world[OF at] os_fds(6)[OF assms that(1)] os_fds(5)[OF assms that(2)] by simp
  then show "ends (\<lambda>_. rs_at js op F Op) (rs_at js op F Op) (rt_signal os sid q s)"
    using at by (auto simp: rt_signal_def wp Let_def split: option.splits prod.splits)
qed

lemma rt_close_rs:
  assumes "os_ok os op" and "sid \<noteq> 0"
  shows "hoare (rs_at js op F Op) (rt_close os sid)
    (\<lambda>resp s. operation_response_ok resp \<and> rs_at js op F Op s) (rs_at js op F Op)"
proof (rule hoareI)
  fix s :: "'a rstate"
  assume at: "rs_at js op F Op s"
  have closing: "rs_at js op F Op (s\<lparr>rs_world := w,
      rs_runtime := session_put sid (ss\<lparr>ss_closing := True\<rparr>) (rs_runtime s)\<rparr>)"
    if "session_get (rs_runtime s) sid = Some ss" "os_kill os pid g sig (rs_world s) = (b, w)" for ss pid g sig b w
    using rs_at_put[OF at that(1), of "ss\<lparr>ss_closing := True\<rparr>"] rs_atD[OF at that(1)]
      os_fds(5)[OF assms(1) that(2)]
    by (simp add: rs_at_def)
  show "ends (\<lambda>resp s. operation_response_ok resp \<and> rs_at js op F Op s) (rs_at js op F Op) (rt_close os sid s)"
    using at assms(2)
    by (auto simp: rt_close_def wp response_ok closing split: option.splits prod.splits)
qed

lemma rt_kill_rs:
  assumes "os_ok os op" and "sid \<noteq> 0"
  shows "hoare (rs_at js op F Op) (rt_kill os sid)
    (\<lambda>resp s. operation_response_ok resp \<and> rs_at js op F Op s) (rs_at js op F Op)"
  using assms(2)
  by (intro hoareI)
     (auto simp: rt_kill_def wp response_ok rs_at_world os_fds(5)[OF assms(1)]
       split: option.splits prod.splits)

lemma mark_log_failed_rs:
  assumes "rs_at js op F Op s"
  shows "rs_at js op F Op (s\<lparr>rs_runtime := mark_log_failed sid (rs_runtime s)\<rparr>)"
proof (cases "session_get (rs_runtime s) sid")
  case None
  then show ?thesis
    using assms by (simp add: mark_log_failed_def)
next
  case (Some ss)
  have "rs_at js op F Op (s\<lparr>rs_runtime := session_put sid (ss\<lparr>ss_log_state := Degraded\<rparr>) (rs_runtime s)\<rparr>)"
    using rs_at_put[OF assms Some, of "ss\<lparr>ss_log_state := Degraded\<rparr>"] rs_atD[OF assms Some] by simp
  then show ?thesis
    using Some by (auto simp: mark_log_failed_def Let_def rs_at_def)
qed

section \<open>Exit contexts and retirement\<close>

lemma exit_context_encodes:
  assumes "rt_inv js rt" and "sid \<noteq> 0"
  shows "exit_context_ok (exit_context_response_of rt sid)"
    "exit_context_v2_ok (exit_context_response_v2_of rt sid)"
    "\<And>e. ec2_environment (exit_context_response_v2_of rt sid) = Some e \<Longrightarrow>
      snapshot_validate_hard_limits (js_to_vec js) e = Inr ()"
proof -
  have none: "cwd_ok None"
    by (simp add: cwd_ok_def opt_str_ok_def)
  show ok: "exit_context_ok (exit_context_response_of rt sid)"
    using assms none rt_invD(1)[OF assms(1), of sid]
    by (auto simp: exit_context_response_of_def exit_context_ok_def session_ok_def
        split: option.splits)
  have "ec_legacy (exit_context_response_v2_of rt sid) = exit_context_response_of rt sid"
    by (simp add: ec_legacy_def exit_context_response_v2_of_def Let_def)
  moreover have "ec2_environment (exit_context_response_v2_of rt sid) = None"
    if "ec2_status (exit_context_response_v2_of rt sid) \<noteq> Ok"
    using that rt_invD(1)[OF assms(1), of sid]
    by (auto simp: exit_context_response_v2_of_def exit_context_response_of_def Let_def session_ok_def
        split: option.splits)
  ultimately show "exit_context_v2_ok (exit_context_response_v2_of rt sid)"
    using ok by (simp add: exit_context_v2_ok_def)
  show "snapshot_validate_hard_limits (js_to_vec js) e = Inr ()"
    if "ec2_environment (exit_context_response_v2_of rt sid) = Some e" for e
    using that rt_invD(1)[OF assms(1), of sid]
    by (auto simp: exit_context_response_v2_of_def Let_def session_ok_def bind_eq_Some_conv)
qed

lemma rt_inv_remove:
  assumes "rt_inv js rt" and "session_get rt sid = Some s" and "session_fd s = None"
  shows "rt_inv js (rt\<lparr>rt_sessions := bt_remove sid (rt_sessions rt)\<rparr>)"
  using assms by (auto simp: rt_inv_def session_get_def session_for_pty_def)

lemma retire_exited_rs:
  assumes "os_ok os op" and "sid \<noteq> 0"
  shows "hoare (rs_at js op F Op) (retire_exited os sid)
    (\<lambda>resp s. operation_response_ok resp \<and> rs_at js op F Op s) (rs_at js op F Op)"
proof (rule hoareI)
  fix s :: "'a rstate"
  assume at: "rs_at js op F Op s"
  have gone: "rs_at js op F Op (s\<lparr>rs_world := w,
      rs_runtime := bump_generation (rs_runtime s\<lparr>rt_sessions := bt_remove sid (rt_sessions (rs_runtime s))\<rparr>)\<rparr>)"
    if "session_get (rs_runtime s) sid = Some ss" "ss_exit_code ss = Some y" "op w = op (rs_world s)" for ss y w
  proof -
    have "session_fd ss = None"
      using rs_atD[OF at that(1)] that(2) by (simp add: live_pty_def session_fd_def)
    then show ?thesis
      using at rt_inv_remove[OF _ that(1), of js] that(3) by (simp add: rs_at_def pty_fds_def)
  qed
  have pty: "ss_pty ss = None"
    if "session_get (rs_runtime s) sid = Some ss" "ss_exit_code ss = Some y" for ss y
    using rs_atD[OF at that(1)] that(2) by (simp add: live_pty_def)
  show "ends (\<lambda>resp s. operation_response_ok resp \<and> rs_at js op F Op s) (rs_at js op F Op)
      (retire_exited os sid s)"
    using at assms(2)
    by (auto simp: retire_exited_def wp response_ok drop_session_def pty gone rs_at_world
        os_fds(9)[OF assms(1)] split: option.splits prod.splits)
qed

section \<open>Reaping exited sessions\<close>

definition exited_ok :: "json \<Rightarrow> exited_session \<Rightarrow> bool" where
  "exited_ok js e \<longleftrightarrow> xs_session_id e \<noteq> 0 \<and> cwd_ok (xs_cwd e)
     \<and> (\<forall>x. xs_environment e = Some x \<longrightarrow> snapshot_validate_hard_limits (js_to_vec js) x = Inr ())"

text \<open>What the JSON codec of state files guarantees.\<close>

definition json_ok :: "json \<Rightarrow> bool" where
  "json_ok js \<longleftrightarrow> decodes_utf8 (js_state_from_slice js)"

text \<open>Between the two loops of \<open>reap_exited\<close>, the sessions \<open>X\<close> have an exit code and still
  their PTY.\<close>

definition rt_exiting :: "json \<Rightarrow> u32 set \<Rightarrow> runtime \<Rightarrow> bool" where
  "rt_exiting js X rt \<longleftrightarrow> bt_wf (rt_sessions rt) \<and> bt_wf (rt_pty_to_session rt)
     \<and> (\<forall>sid s. session_get rt sid = Some s \<longrightarrow> session_ok js sid s
          \<and> (if sid \<in> X then ss_exit_code s \<noteq> None \<and> ss_pty s \<noteq> None else live_pty s))
     \<and> (\<forall>fd sid. session_for_pty rt fd = Some sid \<longleftrightarrow>
          (\<exists>s. session_get rt sid = Some s \<and> session_fd s = Some fd))"

lemma rt_exiting_none: "rt_exiting js {} rt = rt_inv js rt"
  by (simp add: rt_exiting_def rt_inv_def)

lemma reap_session_ok:
  assumes "os_ok os op" and "json_ok js" and "session_ok js sid s" and "ss_pty s = Some pty0"
    and "pt_master_fd pty = pt_master_fd pty0"
    and "reap_session os js sid s code pty w = (s', e, w')"
  shows "session_ok js sid s'" "session_fd s' = session_fd s" "ss_exit_code s' = Some code"
    "exited_ok js e" "xs_session_id e = sid" "session_fd s = Some (xs_pty_fd e)" "op w' = op w"
proof -
  obtain sf w1 where sf: "os_state_file os (si_state_file (ss_state_identity s)) w = (sf, w1)"
    by (cases "os_state_file os (si_state_file (ss_state_identity s)) w")
  obtain now w2 where now: "os_now_ms os w1 = (now, w2)"
    by (cases "os_now_ms os w1")
  define s1 where "s1 = (case capture_state (js_to_vec js) (js_state_from_slice js)
        (ss_state_identity s) (ss_last_state_sequence s) sf of
      None \<Rightarrow> s
    | Some st \<Rightarrow> s\<lparr>ss_last_state_sequence := st_sequence st,
        ss_final_cwd := Some (st_cwd st), ss_final_environment := st_environment st\<rparr>)"
  define s2 where "s2 = s1\<lparr>ss_pty := Some pty, ss_exit_code := Some code, ss_last_active_at_ms := now\<rparr>"
  have r: "s' = s2" "e = \<lparr>xs_session_id = sid, xs_exit_code = code, xs_cwd = ss_final_cwd s2,
      xs_environment = ss_final_environment s2, xs_pty_fd = pt_master_fd pty, xs_closing = ss_closing s2\<rparr>"
    "w' = w2"
    using assms(6) sf now unfolding s2_def
    by (auto simp: reap_session_def Let_def s1_def[symmetric])
  show "op w' = op w"
    using os_fds(8)[OF assms(1) sf] os_fds(1)[OF assms(1) now] r(3) by simp
  have cwd: "cwd_ok (ss_final_cwd s1)" "\<And>x. ss_final_environment s1 = Some x \<Longrightarrow>
      snapshot_validate_hard_limits (js_to_vec js) x = Inr ()"
  proof -
    have ok: "cwd_ok (Some (st_cwd st))" "\<And>x. st_environment st = Some x \<Longrightarrow>
        snapshot_validate_hard_limits (js_to_vec js) x = Inr ()"
      if "capture_state (js_to_vec js) (js_state_from_slice js) (ss_state_identity s)
        (ss_last_state_sequence s) sf = Some st" for st
      using capture_state_ok(3,4)[OF that] assms(2) validated_cwd_ok validated_environment_ok
      unfolding json_ok_def decodes_utf8_def by blast+
    then show "cwd_ok (ss_final_cwd s1)" "\<And>x. ss_final_environment s1 = Some x \<Longrightarrow>
        snapshot_validate_hard_limits (js_to_vec js) x = Inr ()"
      using assms(3) by (auto simp: s1_def session_ok_def split: option.splits)
  qed
  moreover have "ss_ring s1 = ss_ring s" "ss_queue s1 = ss_queue s" "ss_shell_pid s1 = ss_shell_pid s"
    by (simp_all add: s1_def ss_queue_def split: option.splits)
  ultimately show "session_ok js sid s'" "exited_ok js e"
    using assms(3) by (auto simp: r s2_def session_ok_def exited_ok_def ss_queue_def)
  show "session_fd s' = session_fd s" "ss_exit_code s' = Some code" "xs_session_id e = sid"
    "session_fd s = Some (xs_pty_fd e)"
    using assms(4,5) by (simp_all add: r s2_def session_fd_def)
qed

lemma poll_exit_ok:
  assumes "os_ok os op" and "poll_exit os pty w = (r, pty', w')"
  shows "pt_master_fd pty' = pt_master_fd pty" "op w' = op w"
proof -
  obtain x w1 where wait: "os_waitpid os (pt_child_pid pty) w = (x, w1)"
    by (cases "os_waitpid os (pt_child_pid pty) w")
  show "pt_master_fd pty' = pt_master_fd pty" "op w' = op w"
    using assms(2) wait os_fds(4)[OF assms(1) wait]
    by (auto simp: poll_exit_def split: option.splits wait_result.splits)
qed

text \<open>One session after the first loop: as it was, up to its PTY's exit status, or exited.\<close>

definition reaped :: "json \<Rightarrow> exited_session list \<Rightarrow> u32 \<times> session \<Rightarrow> u32 \<times> session \<Rightarrow> bool" where
  "reaped js es x y \<longleftrightarrow> fst y = fst x \<and> session_ok js (fst y) (snd y)
     \<and> session_fd (snd y) = session_fd (snd x)
     \<and> (if fst y \<in> xs_session_id ` set es then ss_exit_code (snd y) \<noteq> None \<and> ss_pty (snd y) \<noteq> None
        else live_pty (snd y))"

definition exits_from :: "(u32 \<times> session) list \<Rightarrow> exited_session \<Rightarrow> bool" where
  "exits_from xs e \<longleftrightarrow> (\<exists>s. (xs_session_id e, s) \<in> set xs \<and> session_fd s = Some (xs_pty_fd e))"

lemma exits_from_Cons:
  "exits_from ((sid, s) # xs) e \<longleftrightarrow>
   xs_session_id e = sid \<and> session_fd s = Some (xs_pty_fd e) \<or> exits_from xs e"
  by (auto simp: exits_from_def)

lemma exits_from_ids: "\<forall>e \<in> set es. exits_from xs e \<Longrightarrow> sid \<notin> fst ` set xs \<Longrightarrow> sid \<notin> xs_session_id ` set es"
  by (force simp: exits_from_def)

lemma reap_loop_ok:
  assumes "os_ok os op" and "json_ok js"
    and "list_all (\<lambda>(sid, s). session_ok js sid s \<and> live_pty s) xs" and "distinct (map fst xs)"
    and "reap_loop os js xs w = (r, ys, w')"
  shows "op w' = op w \<and> (\<forall>es. r = Inr es \<longrightarrow> list_all2 (reaped js es) xs ys
    \<and> list_all (exited_ok js) es \<and> distinct (map xs_session_id es)
    \<and> (\<forall>e \<in> set es. exits_from xs e))"
  using assms(3-5)
proof (induction xs arbitrary: w r ys w')
  case Nil
  then show ?case by auto
next
  case (Cons x xs)
  obtain sid s where x: "x = (sid, s)"
    by (cases x)
  have ok: "session_ok js sid s" "live_pty s"
    using Cons.prems(1) x by simp_all
  have rest: "list_all (\<lambda>(sid, s). session_ok js sid s \<and> live_pty s) xs" "distinct (map fst xs)"
    "sid \<notin> fst ` set xs"
    using Cons.prems x by auto
  note IH = Cons.IH[OF rest(1,2)]
  have keep: "reaped js es (sid, s) (sid, s')"
    if "session_ok js sid s'" "session_fd s' = session_fd s" "live_pty s'"
      "\<forall>e \<in> set es. exits_from xs e" for es s'
    using that exits_from_ids[OF that(4) rest(3)] by (simp add: reaped_def)
  show ?case
  proof (cases "ss_pty s")
    case None
    obtain r1 ys1 w1 where l: "reap_loop os js xs w = (r1, ys1, w1)"
      by (metis prod_cases3)
    then have "r = r1" "ys = (sid, s) # ys1" "w' = w1"
      using Cons.prems(3) x None by simp_all
    then show ?thesis
      using IH[OF l] keep[OF ok(1) refl ok(2)] x by (auto simp: exits_from_Cons)
  next
    case (Some pty)
    obtain p pty' w1 where p: "poll_exit os pty w = (p, pty', w1)"
      by (metis prod_cases3)
    note pe = poll_exit_ok[OF assms(1) p]
    define s1 where "s1 = s\<lparr>ss_pty := Some pty'\<rparr>"
    have s1: "session_ok js sid s1" "session_fd s1 = session_fd s" "live_pty s1"
      using ok Some pe(1) by (auto simp: s1_def session_ok_def session_fd_def live_pty_def ss_queue_def)
    show ?thesis
    proof (cases p)
      case (Inl e)
      then show ?thesis
        using Cons.prems(3) x Some p pe(2) by auto
    next
      case (Inr q)
      show ?thesis
      proof (cases q)
        case None
        obtain r1 ys1 w2 where l: "reap_loop os js xs w1 = (r1, ys1, w2)"
          by (metis prod_cases3)
        then have "r = r1" "ys = (sid, s1) # ys1" "w' = w2"
          using Cons.prems(3) x Some p Inr None by (simp_all add: s1_def)
        then show ?thesis
          using IH[OF l] keep[OF s1] x pe(2) by (auto simp: exits_from_Cons)
      next
        case (Some code)
        obtain s2 e w2 where rs: "reap_session os js sid s code pty' w1 = (s2, e, w2)"
          by (metis prod_cases3)
        note re = reap_session_ok[OF assms(1,2) ok(1) \<open>ss_pty s = Some pty\<close> pe(1) rs]
        obtain r1 ys1 w3 where l: "reap_loop os js xs w2 = (r1, ys1, w3)"
          by (metis prod_cases3)
        then have eq: "r = rbind r1 (\<lambda>xs. Inr (e # xs))" "ys = (sid, s2) # ys1" "w' = w3"
          using Cons.prems(3) x \<open>ss_pty s = Some pty\<close> p Inr Some rs by simp_all
        have head: "reaped js (e # es) (sid, s) (sid, s2)" for es
          using re by (auto simp: reaped_def session_fd_def)
        have tail: "list_all2 (reaped js (e # es)) xs ys1" if "list_all2 (reaped js es) xs ys1" for es
          using that rest(3) re(5)
          by (auto simp: list_all2_conv_all_nth reaped_def) (metis image_eqI nth_mem)+
        have ids: "xs_session_id e \<notin> xs_session_id ` set es"
          if "\<forall>e \<in> set es. exits_from xs e" for es
          using exits_from_ids[OF that rest(3)] re(5) by simp
        show ?thesis
          using IH[OF l] head tail ids re(4-7) pe(2) x
          by (auto simp: eq rbind_eq_Inr exits_from_Cons)
      qed
    qed
  qed
qed

lemma list_all2_map_of:
  assumes "list_all2 P xs ys" and key: "\<forall>x y. P x y \<longrightarrow> fst y = fst x"
  shows "map fst ys = map fst xs"
    and "map_of xs k = None \<longleftrightarrow> map_of ys k = None"
    and "map_of ys k = Some b \<Longrightarrow> \<exists>a. map_of xs k = Some a \<and> P (k, a) (k, b)"
proof -
  have "map fst ys = map fst xs \<and> (map_of xs k = None \<longleftrightarrow> map_of ys k = None)
    \<and> (map_of ys k = Some b \<longrightarrow> (\<exists>a. map_of xs k = Some a \<and> P (k, a) (k, b)))"
    using assms(1)
  proof (induction rule: list_all2_induct)
    case (Cons x xs y ys)
    then show ?case
      using key[rule_format, OF Cons(1)] by (cases x; cases y) auto
  qed simp
  then show "map fst ys = map fst xs" "map_of xs k = None \<longleftrightarrow> map_of ys k = None"
    "map_of ys k = Some b \<Longrightarrow> \<exists>a. map_of xs k = Some a \<and> P (k, a) (k, b)"
    by blast+
qed

lemma reap_loop_table:
  assumes "rt_inv js rt" and "list_all2 (reaped js es) (rt_sessions rt) ys"
  shows "rt_exiting js (xs_session_id ` set es) (rt\<lparr>rt_sessions := ys\<rparr>)"
proof -
  have fst: "\<forall>x y. reaped js es x y \<longrightarrow> fst y = fst x"
    by (simp add: reaped_def)
  note get = list_all2_map_of(3)[OF assms(2) fst]
  note none = list_all2_map_of(2)[OF assms(2) fst]
  have "map fst ys = map fst (rt_sessions rt)"
    using list_all2_map_of(1)[OF assms(2) fst] .
  then have wf: "bt_wf ys" "bt_wf (rt_pty_to_session rt)"
    using assms(1) by (simp_all add: rt_inv_def bt_wf_def)
  moreover have "session_ok js sid s \<and> (if sid \<in> xs_session_id ` set es
      then ss_exit_code s \<noteq> None \<and> ss_pty s \<noteq> None else live_pty s)"
    if "map_of ys sid = Some s" for sid s
    using get[OF that] by (auto simp: reaped_def)
  moreover have "(\<exists>s. map_of ys sid = Some s \<and> session_fd s = Some fd) \<longleftrightarrow>
      (\<exists>s. map_of (rt_sessions rt) sid = Some s \<and> session_fd s = Some fd)" for sid fd
  proof (cases "map_of ys sid")
    case None
    then show ?thesis using none[of sid] by simp
  next
    case (Some s)
    from get[OF Some] show ?thesis
      using Some by (auto simp: reaped_def)
  qed
  ultimately show ?thesis
    using assms(1) by (simp add: rt_exiting_def rt_inv_def session_get_def session_for_pty_def)
qed

text \<open>The state in the second loop, with the sessions \<open>es\<close> still to be finished.\<close>

definition reaping_at ::
    "json \<Rightarrow> ('w \<Rightarrow> raw_fd set) \<Rightarrow> raw_fd set \<Rightarrow> raw_fd set \<Rightarrow> exited_session list \<Rightarrow> 'w rstate \<Rightarrow> bool"
    where
  "reaping_at js op F Op es s \<longleftrightarrow> rt_exiting js (xs_session_id ` set es) (rs_runtime s)
     \<and> lw_inv (rs_logs s) \<and> distinct (map xs_session_id es)
     \<and> (\<forall>e \<in> set es. \<exists>ss. session_get (rs_runtime s) (xs_session_id e) = Some ss
          \<and> session_fd ss = Some (xs_pty_fd e))
     \<and> set (pty_fds (rs_runtime s)) = F \<and> op (rs_world s) = Op \<and> F \<subseteq> Op"

lemma reap_finish_rs:
  assumes "os_ok os op"
  shows "hoare (reaping_at js op F Op (e # es)) (reap_finish os e)
    (\<lambda>_. reaping_at js op (F - {xs_pty_fd e}) (Op - {xs_pty_fd e}) es) (\<lambda>_. False)"
proof (rule hoareI)
  fix s :: "'a rstate"
  assume at: "reaping_at js op F Op (e # es) s"
  let ?sid = "xs_session_id e" and ?fd = "xs_pty_fd e"
  obtain ss pty where ss: "session_get (rs_runtime s) ?sid = Some ss" and pty: "ss_pty ss = Some pty"
    and fd: "pt_master_fd pty = ?fd"
    using at by (auto simp: reaping_at_def session_fd_def)
  define rt where "rt = rs_runtime s"
  define rt' where "rt' = session_put ?sid (ss\<lparr>ss_pty := None\<rparr>)
      (rt\<lparr>rt_pty_to_session := bt_remove ?fd (rt_pty_to_session rt)\<rparr>)"
  have ex: "rt_exiting js (insert ?sid (xs_session_id ` set es)) rt"
    using at by (simp add: reaping_at_def rt_def)
  have notin: "?sid \<notin> xs_session_id ` set es"
    using at by (auto simp: reaping_at_def)
  have get: "session_get rt' x = (if x = ?sid then Some (ss\<lparr>ss_pty := None\<rparr>) else session_get rt x)" for x
    using ex by (simp add: rt'_def rt_exiting_def session_get_def session_put_def)
  have table: "session_for_pty rt' x = (if x = ?fd then None else session_for_pty rt x)" for x
    by (simp add: rt'_def session_for_pty_def)
  have fdss: "session_fd ss = Some ?fd"
    by (simp add: session_fd_def pty fd)
  have "rt_exiting js (xs_session_id ` set es) rt'"
    unfolding rt_exiting_def
  proof (intro conjI allI impI)
    show "bt_wf (rt_sessions rt')" "bt_wf (rt_pty_to_session rt')"
      using ex by (simp_all add: rt_exiting_def rt'_def)
  next
    fix x t assume t: "session_get rt' x = Some t"
    have old: "session_ok js y u \<and> (if y \<in> insert ?sid (xs_session_id ` set es)
        then ss_exit_code u \<noteq> None \<and> ss_pty u \<noteq> None else live_pty u)"
      if "session_get rt y = Some u" for y u
      using ex that unfolding rt_exiting_def by blast
    have "session_ok js x t \<and> (if x \<in> xs_session_id ` set es
        then ss_exit_code t \<noteq> None \<and> ss_pty t \<noteq> None else live_pty t)"
    proof (cases "x = ?sid")
      case True
      then have "t = ss\<lparr>ss_pty := None\<rparr>"
        using t by (simp add: get)
      then show ?thesis
        using old[of ?sid ss] ss notin True
        by (simp add: rt_def session_ok_def ss_queue_def live_pty_def)
    next
      case False
      then show ?thesis
        using t old[of x t] by (simp add: get)
    qed
    then show "session_ok js x t" "if x \<in> xs_session_id ` set es
        then ss_exit_code t \<noteq> None \<and> ss_pty t \<noteq> None else live_pty t"
      by simp_all
  next
    fix x y
    have old: "session_for_pty rt x = Some y \<longleftrightarrow> (\<exists>t. session_get rt y = Some t \<and> session_fd t = Some x)"
      for x y using ex by (simp add: rt_exiting_def)
    show "session_for_pty rt' x = Some y \<longleftrightarrow> (\<exists>t. session_get rt' y = Some t \<and> session_fd t = Some x)"
      using old[of x y] old[of ?fd y] old[of ?fd ?sid] ss fdss
      by (auto simp: table get rt_def[symmetric] session_fd_def)
  qed
  moreover have "\<exists>t. session_get rt' (xs_session_id e') = Some t \<and> session_fd t = Some (xs_pty_fd e')"
    if "e' \<in> set es" for e'
  proof -
    have "xs_session_id e' \<noteq> ?sid"
      using notin that by (metis image_eqI)
    then show ?thesis
      using at that by (auto simp: get reaping_at_def rt_def)
  qed
  moreover have "set (pty_fds rt') = F - {?fd}"
    using at by (auto simp: reaping_at_def rt'_def rt_def pty_fds_def)
  moreover have "op (os_close os ?fd w) = op w - {?fd}" for w
    by (rule os_fds(14)[OF assms])
  ultimately have post: "reaping_at js op (F - {?fd}) (Op - {?fd}) es
      (s\<lparr>rs_world := os_close os ?fd (rs_world s), rs_runtime := bump_generation rt'\<rparr>)"
    using at by (auto simp: reaping_at_def rt_exiting_def)
  have "bt_wf (rt_sessions rt)"
    using ex by (simp add: rt_exiting_def)
  then have upd: "(let rt = rt\<lparr>rt_pty_to_session := bt_remove ?fd (rt_pty_to_session rt)\<rparr>;
           rt = (case session_get rt ?sid of
                   None \<Rightarrow> rt
                 | Some session \<Rightarrow> session_put ?sid (session\<lparr>ss_pty := None\<rparr>) rt)
       in bump_generation rt) = bump_generation rt'"
    using ss by (simp add: rt'_def rt_def session_get_def Let_def)
  show "ends (\<lambda>_. reaping_at js op (F - {?fd}) (Op - {?fd}) es) (\<lambda>_. False) (reap_finish os e s)"
    using post upd ss pty fd by (simp add: reap_finish_def wp rt_def[symmetric])
qed

lemma reap_finish_all:
  assumes "os_ok os op"
  shows "hoare (reaping_at js op F Op es) (sfor (reap_finish os) es)
    (\<lambda>_. rs_at js op (F - xs_pty_fd ` set es) (Op - xs_pty_fd ` set es)) (\<lambda>_. False)"
proof (induction es arbitrary: F Op)
  case Nil
  show ?case
    by (rule hoareI) (auto simp: wp reaping_at_def rs_at_def rt_exiting_none)
next
  case (Cons e es)
  show ?case
  proof (rule hoareI)
    fix s :: "'a rstate"
    assume at: "reaping_at js op F Op (e # es) s"
    have sets: "F - xs_pty_fd ` set (e # es) = F - {xs_pty_fd e} - xs_pty_fd ` set es"
      "Op - xs_pty_fd ` set (e # es) = Op - {xs_pty_fd e} - xs_pty_fd ` set es"
      by auto
    show "ends (\<lambda>_. rs_at js op (F - xs_pty_fd ` set (e # es)) (Op - xs_pty_fd ` set (e # es)))
        (\<lambda>_. False) (sfor (reap_finish os) (e # es) s)"
      unfolding sfor.simps wp_bind sets
      by (rule hoare_call[OF reap_finish_rs[OF assms] at]) (auto intro: hoareD[OF Cons.IH])
  qed
qed

lemma reap_exited_rs:
  assumes "os_ok os op" and "json_ok js"
  shows "hoare (rs_at js op F Op) (reap_exited os js)
    (\<lambda>es s. rs_at js op (F - xs_pty_fd ` set es) (Op - xs_pty_fd ` set es) s
       \<and> (\<forall>e \<in> set es. exited_ok js e \<and> xs_pty_fd e \<in> F)) (\<lambda>_. True)"
proof (rule hoareI)
  fix s :: "'a rstate"
  assume at: "rs_at js op F Op s"
  let ?Q = "\<lambda>es s. rs_at js op (F - xs_pty_fd ` set es) (Op - xs_pty_fd ` set es) s
       \<and> (\<forall>e \<in> set es. exited_ok js e \<and> xs_pty_fd e \<in> F)"
  define rt where "rt = rs_runtime s"
  have inv: "rt_inv js rt"
    using at by (simp add: rs_at_def rt_def)
  obtain r ys w where l: "reap_loop os js (rt_sessions rt) (rs_world s) = (r, ys, w)"
    by (metis prod_cases3)
  have wf: "distinct (map fst (rt_sessions rt))"
    using inv by (simp add: rt_inv_def bt_wf_distinct)
  have "session_ok js sid ss \<and> live_pty ss" if "(sid, ss) \<in> set (rt_sessions rt)" for sid ss
    using rt_invD[OF inv, of sid ss] map_of_is_SomeI[OF wf that] by (simp add: session_get_def)
  then have "list_all (\<lambda>(sid, s). session_ok js sid s \<and> live_pty s) (rt_sessions rt)"
    by (auto simp: list_all_iff)
  note r = reap_loop_ok[OF assms this wf l]
  let ?s = "s\<lparr>rs_runtime := rt\<lparr>rt_sessions := ys\<rparr>, rs_world := w\<rparr>"
  have reaping: "reaping_at js op F Op es ?s" and owned: "\<forall>e \<in> set es. exited_ok js e \<and> xs_pty_fd e \<in> F"
    if "r = Inr es" for es
  proof -
    from r that have es: "list_all2 (reaped js es) (rt_sessions rt) ys" "list_all (exited_ok js) es"
      "distinct (map xs_session_id es)" "\<forall>e \<in> set es. exits_from (rt_sessions rt) e"
      by auto
    have fst: "\<forall>x y. reaped js es x y \<longrightarrow> fst y = fst x"
      by (simp add: reaped_def)
    have own: "\<exists>ss. map_of (rt_sessions rt) (xs_session_id e) = Some ss \<and> session_fd ss = Some (xs_pty_fd e)"
      if "e \<in> set es" for e
      using es(4) that map_of_is_SomeI[OF wf] by (fastforce simp: exits_from_def)
    have "\<exists>ss. map_of ys (xs_session_id e) = Some ss \<and> session_fd ss = Some (xs_pty_fd e)"
      if "e \<in> set es" for e
    proof -
      obtain ss where ss: "map_of (rt_sessions rt) (xs_session_id e) = Some ss" "session_fd ss = Some (xs_pty_fd e)"
        using own[OF \<open>e \<in> set es\<close>] by blast
      then obtain t where t: "map_of ys (xs_session_id e) = Some t"
        using list_all2_map_of(2)[OF es(1) fst, of "xs_session_id e"] by fastforce
      show ?thesis
        using list_all2_map_of(3)[OF es(1) fst t] ss t by (auto simp: reaped_def)
    qed
    then show "reaping_at js op F Op es ?s"
      using reap_loop_table[OF inv es(1)] es(3) r at
      by (simp add: reaping_at_def rs_at_def rt_def session_get_def pty_fds_def)
    have "xs_pty_fd e \<in> F" if "e \<in> set es" for e
    proof -
      have "session_for_pty rt (xs_pty_fd e) = Some (xs_session_id e)"
        using own[OF that] inv by (simp add: rt_inv_def session_get_def)
      then show ?thesis
        using at pty_fds_iff[of "xs_pty_fd e" rt] by (auto simp: rs_at_def rt_def)
    qed
    then show "\<forall>e \<in> set es. exited_ok js e \<and> xs_pty_fd e \<in> F"
      using es(2) by (simp add: list_all_iff)
  qed
  have fin: "ends (\<lambda>_ s. ?Q es s) (\<lambda>_. True) (sfor (reap_finish os) es ?s)" if "r = Inr es" for es
    by (rule hoare_call[OF reap_finish_all[OF assms(1)] reaping[OF that]]) (use owned[OF that] in auto)
  show "ends ?Q (\<lambda>_. True) (reap_exited os js s)"
    using l fin by (auto simp: reap_exited_def wp rt_def split: sum.splits)
qed

end
