(* ===== verification/Holder_Connection.thy ===== *)
theory Holder_Connection
  imports Byte_Queue Log_Worker
begin

text \<open>
  One peer of the holder (\<open>crates/persist-holder/src/connection.rs\<close>): its role, the session
  it is attached to, the frames reassembled from what it sends and the bounded queue of
  frames to be sent to it. The output queue is an instance of the locale \<open>fifo_queue\<close>, for
  frames in the protocol minor of the connection.
\<close>

section \<open>Model\<close>

definition MAX_PENDING_OUTPUT :: nat where
  "MAX_PENDING_OUTPUT = 1024 * 1024"

datatype connection_role = Pending | Control | Data

record connection =
  cn_peer_fd :: raw_fd
  cn_peer_pid :: u32
  cn_peer_uid :: u32
  cn_role :: connection_role
  cn_attached_session :: "u32 option"
  cn_protocol_minor :: u16
  cn_accumulator :: bytes
  cn_output :: "bytes list"
  cn_output_offset :: nat
  cn_output_bytes :: nat
  cn_close_after_flush :: bool

definition connection_new :: "raw_fd \<Rightarrow> u32 \<Rightarrow> u32 \<Rightarrow> connection" where
  "connection_new fd pid uid =
     \<lparr>cn_peer_fd = fd, cn_peer_pid = pid, cn_peer_uid = uid, cn_role = Pending,
      cn_attached_session = None, cn_protocol_minor = HOLDER_PROTOCOL_BASELINE_MINOR,
      cn_accumulator = acc_new, cn_output = [], cn_output_offset = 0, cn_output_bytes = 0,
      cn_close_after_flush = False\<rparr>"

text \<open>The \<open>Debug\<close> form of a protocol error, in the messages of the holder.\<close>

fun show_protocol_error :: "holder_protocol_error \<Rightarrow> string" where
  "show_protocol_error Truncated = ''Truncated''"
| "show_protocol_error Trailing = ''Trailing''"
| "show_protocol_error InvalidMagic = ''InvalidMagic''"
| "show_protocol_error VersionMismatch = ''VersionMismatch''"
| "show_protocol_error UnknownMessageType = ''UnknownMessageType''"
| "show_protocol_error PayloadTooLarge = ''PayloadTooLarge''"
| "show_protocol_error InvalidField = ''InvalidField''"

definition protocol_error :: "string \<Rightarrow> holder_protocol_error \<Rightarrow> persist_error" where
  "protocol_error context error =
     InvalidArgument (''invalid holder '' @ context @ '': '' @ show_protocol_error error)"

subsection \<open>Reading\<close>

text \<open>\<open>while let Some(frame) = accumulator.try_read_supported()?\<close>.\<close>

function acc_take_frames ::
    "bytes \<Rightarrow> (holder_protocol_error + (u16 \<times> holder_frame) list) \<times> bytes" where
  "acc_take_frames buffer =
     (case acc_try_read_supported buffer of
        Inl e \<Rightarrow> (Inl e, buffer)
      | Inr (None, rest) \<Rightarrow> (Inr [], rest)
      | Inr (Some frame, rest) \<Rightarrow>
          (case acc_take_frames rest of (r, rest') \<Rightarrow> (rbind r (\<lambda>fs. Inr (frame # fs)), rest')))"
  by pat_completeness auto
termination
proof (relation "measure length", goal_cases)
  case 1
  show ?case by simp
next
  case (2 buffer x y rest frame)
  then show ?case
    using acc_try_read_shrinks[of buffer "fst frame" "snd frame" rest] by simp
qed

declare acc_take_frames.simps [simp del]

text \<open>The reading loop of \<open>read_frames\<close>, until the stream has nothing more to read.\<close>

partial_function (option) read_loop ::
    "'w os \<Rightarrow> raw_fd \<Rightarrow> bytes \<Rightarrow> (u16 \<times> holder_frame) list \<Rightarrow> 'w
      \<Rightarrow> ((persist_error + (u16 \<times> holder_frame) list \<times> bool) \<times> bytes \<times> 'w) option" where
  "read_loop os fd acc frames w =
     (let (r, w) = os_read os fd w
      in (case r of
            ReadWouldBlock \<Rightarrow> Some (Inr (frames, False), acc, w)
          | ReadEio \<Rightarrow> Some (Inl (IoError ''read holder peer''), acc, w)
          | ReadFailed \<Rightarrow> Some (Inl (IoError ''read holder peer''), acc, w)
          | ReadBytes bs \<Rightarrow>
              if bs = [] then Some (Inr (frames, True), acc, w)
              else (case acc_feed acc bs of
                      Inl e \<Rightarrow> Some (Inl (protocol_error ''frame'' e), acc, w)
                    | Inr acc \<Rightarrow>
                        (case acc_take_frames acc of
                           (Inl e, acc) \<Rightarrow> Some (Inl (protocol_error ''frame'' e), acc, w)
                         | (Inr fs, acc) \<Rightarrow> read_loop os fd acc (frames @ fs) w))))"

definition read_frames ::
    "'w os \<Rightarrow> connection \<Rightarrow> 'w
      \<Rightarrow> ((persist_error + (u16 \<times> holder_frame) list \<times> bool) \<times> connection \<times> 'w) option" where
  "read_frames os c w =
     (case read_loop os (cn_peer_fd c) (cn_accumulator c) [] w of
        None \<Rightarrow> None
      | Some (Inl e, acc, w) \<Rightarrow> Some (Inl e, c\<lparr>cn_accumulator := acc\<rparr>, w)
      | Some (Inr (frames, closed), acc, w) \<Rightarrow>
          (case acc_take_frames acc of
             (Inl e, acc) \<Rightarrow> Some (Inl (protocol_error ''frame'' e), c\<lparr>cn_accumulator := acc\<rparr>, w)
           | (Inr fs, acc) \<Rightarrow> Some (Inr (frames @ fs, closed), c\<lparr>cn_accumulator := acc\<rparr>, w)))"

subsection \<open>Writing\<close>

definition cn_queue :: "connection \<Rightarrow> byte_queue" where
  "cn_queue c = \<lparr>bq_chunks = cn_output c, bq_offset = cn_output_offset c, bq_bytes = cn_output_bytes c\<rparr>"

definition cn_set_queue :: "byte_queue \<Rightarrow> connection \<Rightarrow> connection" where
  "cn_set_queue q c =
     c\<lparr>cn_output := bq_chunks q, cn_output_offset := bq_offset q, cn_output_bytes := bq_bytes q\<rparr>"

definition conn_queue :: "connection \<Rightarrow> holder_frame \<Rightarrow> persist_error + connection" where
  "conn_queue c frame =
     rbind (map_err (protocol_error ''frame'') (encode_frame_with_minor frame (cn_protocol_minor c)))
       (\<lambda>bs.
     rbind (bq_push (InvalidArgument ''holder output queue overflow'')
       (InvalidArgument ''holder client output queue limit exceeded'') MAX_PENDING_OUTPUT
       (cn_queue c) bs) (\<lambda>q. Inr (cn_set_queue q c)))"

text \<open>\<open>flush\<close> returns whether the connection stays open.\<close>

definition conn_flush ::
    "('w \<Rightarrow> bytes \<Rightarrow> write_result \<times> 'w) \<Rightarrow> connection \<Rightarrow> 'w
      \<Rightarrow> ((persist_error + bool) \<times> connection \<times> 'w) option" where
  "conn_flush put c w =
     (case bq_flush put (cn_queue c) w of
        None \<Rightarrow> None
      | Some (e, q, w') \<Rightarrow>
          Some (case e of
                  FlushFailed \<Rightarrow> Inl (IoError ''write holder peer'')
                | WroteZero \<Rightarrow> Inr False
                | _ \<Rightarrow> Inr (\<not> (cn_close_after_flush c \<and> bq_chunks q = [])),
                cn_set_queue q c, w'))"

definition wants_write :: "connection \<Rightarrow> bool" where
  "wants_write c \<longleftrightarrow> cn_output c \<noteq> []"

definition close_after_flush :: "connection \<Rightarrow> connection" where
  "close_after_flush c = c\<lparr>cn_close_after_flush := True\<rparr>"

section \<open>The output queue is a bounded FIFO of frames\<close>

lemma cn_queue_set [simp]:
  "cn_queue (cn_set_queue q c) = q" "cn_role (cn_set_queue q c) = cn_role c"
  "cn_attached_session (cn_set_queue q c) = cn_attached_session c"
  "cn_protocol_minor (cn_set_queue q c) = cn_protocol_minor c"
  "cn_peer_fd (cn_set_queue q c) = cn_peer_fd c"
  "cn_accumulator (cn_set_queue q c) = cn_accumulator c"
  by (cases q; simp add: cn_queue_def cn_set_queue_def)+

lemma wire_frame_nonempty: "wire_frame minor f \<noteq> []"
  by (simp add: wire_frame_def HOLDER_MAGIC_def ascii_def)

lemma conn_queue_ok:
  assumes "bq_inv MAX_PENDING_OUTPUT (cn_queue c)" and "conn_queue c f = Inr c'"
  shows "\<exists>q. c' = cn_set_queue q c \<and> bq_inv MAX_PENDING_OUTPUT q
    \<and> bq_pending q = bq_pending (cn_queue c) @ wire_frame (cn_protocol_minor c) f
    \<and> frame_ok (cn_protocol_minor c) f"
proof -
  from assms(2) obtain bs q where enc: "encode_frame_with_minor f (cn_protocol_minor c) = Inr bs"
    and q: "bq_push (InvalidArgument ''holder output queue overflow'')
       (InvalidArgument ''holder client output queue limit exceeded'') MAX_PENDING_OUTPUT
       (cn_queue c) bs = Inr q"
    and c': "c' = cn_set_queue q c"
    by (auto simp: conn_queue_def rbind_eq_Inr map_err_eq_Inr)
  from enc have bs: "bs = wire_frame (cn_protocol_minor c) f" "frame_ok (cn_protocol_minor c) f"
    by (simp_all add: encode_frame_eq)
  show ?thesis
    using bq_push_inv[OF assms(1) _ q] wire_frame_nonempty bs c' by auto
qed

lemma conn_queue_accepts:
  assumes "bq_inv MAX_PENDING_OUTPUT (cn_queue c)" and "frame_ok (cn_protocol_minor c) f"
  shows "is_ok (conn_queue c f) \<longleftrightarrow>
    length (bq_pending (cn_queue c)) + HOLDER_HEADER_SIZE + length (fr_payload f) \<le> MAX_PENDING_OUTPUT"
proof -
  have "encode_frame_with_minor f (cn_protocol_minor c) = Inr (wire_frame (cn_protocol_minor c) f)"
    using assms(2) by (simp add: encode_frame_eq)
  then have "is_ok (conn_queue c f) \<longleftrightarrow> is_ok (bq_push (InvalidArgument ''holder output queue overflow'')
       (InvalidArgument ''holder client output queue limit exceeded'') MAX_PENDING_OUTPUT
       (cn_queue c) (wire_frame (cn_protocol_minor c) f))"
    by (auto simp: conn_queue_def is_ok_iff rbind_eq_Inr)
  then show ?thesis
    using bq_push_accepts[OF assms(1)]
    by (simp add: MAX_PENDING_OUTPUT_def usize_max_def add.assoc)
qed

lemma conn_flush_returns:
  assumes "write_bounded put" and "write_keeps put P" and "P w"
    and "bq_inv MAX_PENDING_OUTPUT (cn_queue c)"
  shows "\<exists>r q w'. conn_flush put c w = Some (r, cn_set_queue q c, w')
    \<and> bq_inv MAX_PENDING_OUTPUT q \<and> P w'
    \<and> (\<forall>accepted. sink put accepted \<longrightarrow>
        accepted w' @ bq_pending q = accepted w @ bq_pending (cn_queue c))
    \<and> (\<forall>e. r = Inl e \<longrightarrow> write_failed put w')"
proof -
  from bq_flush_returns[OF assms] obtain e q' w' where
    fl: "bq_flush put (cn_queue c) w = Some (e, q', w')" and *: "bq_inv MAX_PENDING_OUTPUT q'" "P w'"
    "\<forall>accepted. sink put accepted \<longrightarrow>
      accepted w' @ bq_pending q' = accepted w @ bq_pending (cn_queue c)"
    "e = FlushFailed \<longrightarrow> write_failed put w'"
    by blast
  show ?thesis
    using * by (cases e) (auto simp: conn_flush_def fl)
qed

interpretation co: fifo_queue
  "\<lambda>c. bq_inv MAX_PENDING_OUTPUT (cn_queue c) \<and> cn_protocol_minor c = minor"
  "\<lambda>c. bq_pending (cn_queue c)" MAX_PENDING_OUTPUT
  "wire_frame minor" conn_queue "\<lambda>put c w. map_option snd (conn_flush put c w)"
  for minor
proof unfold_locales
  show "length (bq_pending (cn_queue c)) \<le> MAX_PENDING_OUTPUT"
    if "bq_inv MAX_PENDING_OUTPUT (cn_queue c) \<and> cn_protocol_minor c = minor" for c
    using that by (simp add: bq_inv_def)
  show "(bq_inv MAX_PENDING_OUTPUT (cn_queue c') \<and> cn_protocol_minor c' = minor)
      \<and> bq_pending (cn_queue c') = bq_pending (cn_queue c) @ wire_frame minor f"
    if "bq_inv MAX_PENDING_OUTPUT (cn_queue c) \<and> cn_protocol_minor c = minor" "conn_queue c f = Inr c'" for c f c'
    using that conn_queue_ok[of c f c'] by auto
  show "\<exists>c' w'. map_option snd (conn_flush put c w) = Some (c', w')
      \<and> (bq_inv MAX_PENDING_OUTPUT (cn_queue c') \<and> cn_protocol_minor c' = minor)
      \<and> accepted w' @ bq_pending (cn_queue c') = accepted w @ bq_pending (cn_queue c)"
    if "bq_inv MAX_PENDING_OUTPUT (cn_queue c) \<and> cn_protocol_minor c = minor" "sink put accepted"
    for c put accepted w
    using conn_flush_returns[of put "\<lambda>_. True" w c] that sink_bounded[OF that(2)]
    by (fastforce simp: write_keeps_def)
qed

section \<open>Reassembly\<close>

text \<open>The bytes of some frames followed by an incomplete one: the frames come out in order and
  the incomplete rest stays in the accumulator.\<close>

definition partial_frame :: "u16 \<Rightarrow> bytes \<Rightarrow> bool" where
  "partial_frame minor part \<longleftrightarrow>
     (\<exists>f missing. frame_ok minor f \<and> wire_frame minor f = part @ missing \<and> missing \<noteq> [])"

lemma acc_take_frames_all:
  assumes "list_all (frame_ok minor) fs" and "part = [] \<or> partial_frame minor part"
  shows "acc_take_frames (concat (map (wire_frame minor) fs) @ part) = (Inr (map (Pair minor) fs), part)"
  using assms(1)
proof (induction fs)
  case Nil
  have "acc_try_read_supported part = Inr (None, part)"
  proof (cases "part = []")
    case True
    then show ?thesis
      by (simp add: acc_try_read_supported_def HOLDER_HEADER_SIZE_def)
  next
    case False
    then show ?thesis
      using assms(2) unfolding partial_frame_def by (blast intro: acc_try_read_partial)
  qed
  then show ?case
    by (simp add: acc_take_frames.simps)
next
  case (Cons f fs)
  have "acc_try_read_supported (wire_frame minor f @ concat (map (wire_frame minor) fs) @ part) =
      Inr (Some (minor, f), concat (map (wire_frame minor) fs) @ part)"
    using Cons.prems by (intro acc_try_read_frame) simp
  then show ?case
    using Cons by (simp add: acc_take_frames.simps[of "wire_frame minor f @ _"])
qed

end
