(* ===== verification/Holder_Liveness.thy ===== *)
theory Holder_Liveness
  imports Holder_Runtime_Ops Holder_Connection
begin

text \<open>
  Which handlers return. All loops of the runtime end by themselves, apart from the two that
  read until the operating system has nothing more to give. \<open>input_budget os \<mu>\<close> states that
  there is only so much to read and to accept: each non-empty read and each accepted peer
  takes something from \<open>\<mu>\<close>, and the other calls made in these loops add nothing to it.
\<close>

definition input_budget :: "'w os \<Rightarrow> ('w \<Rightarrow> nat) \<Rightarrow> bool" where
  "input_budget os \<mu> \<longleftrightarrow>
     (\<forall>fd w bs w'. os_read os fd w = (ReadBytes bs, w') \<longrightarrow> bs \<noteq> [] \<longrightarrow> \<mu> w' < \<mu> w)
     \<and> (\<forall>w fd pid uid w'. os_accept os w = (Peer fd pid uid, w') \<longrightarrow> \<mu> w' < \<mu> w)
     \<and> (\<forall>w. \<mu> (snd (os_now_ms os w)) \<le> \<mu> w)
     \<and> (\<forall>w. \<mu> (snd (os_log_written os w)) \<le> \<mu> w)
     \<and> (\<forall>ctl fd t w. \<mu> (snd (os_epoll_ctl os ctl fd t w)) \<le> \<mu> w)
     \<and> (\<forall>fd w. \<mu> (os_close os fd w) \<le> \<mu> w)"

lemma input_budgetD:
  assumes "input_budget os \<mu>"
  shows "os_read os fd w = (ReadBytes bs, w') \<Longrightarrow> bs \<noteq> [] \<Longrightarrow> \<mu> w' < \<mu> w"
    and "os_accept os w = (Peer fd pid uid, w') \<Longrightarrow> \<mu> w' < \<mu> w"
    and "os_now_ms os w = (x1, w') \<Longrightarrow> \<mu> w' \<le> \<mu> w"
    and "os_log_written os w = (x2, w') \<Longrightarrow> \<mu> w' \<le> \<mu> w"
    and "os_epoll_ctl os ctl fd t w = (x3, w') \<Longrightarrow> \<mu> w' \<le> \<mu> w"
    and "\<mu> (os_close os fd w) \<le> \<mu> w"
  using assms unfolding input_budget_def by (blast, blast, (metis snd_conv)+)

section \<open>The runtime\<close>

lemma returns_rs_call [rets]: "returns (rs_call f)"
  by (simp add: returns_def rs_call_def split: prod.split)

lemma returns_rt_update [rets]: "returns (rt_update f)"
  by (simp add: rt_update_def rets)

lemma returns_ss_flush: "returns (flush_input os sid)"
  by (auto simp: returns_def flush_input_def Let_def split: option.splits)

lemma returns_runtime [rets]:
  "returns (rt_create os q)" "returns (queue_input os sid data)" "returns (rt_resize os sid r)"
  "returns (rt_signal os sid g)" "returns (rt_close os sid)" "returns (rt_kill os sid)"
  "returns (retire_exited os sid)" "returns (reap_exited os js)" "returns (flush_input os sid)"
  by (auto simp: rt_create_def queue_input_def rt_resize_def rt_signal_def rt_close_def rt_kill_def
      retire_exited_def drop_session_def reap_exited_def reap_finish_def
      intro!: rets returns_ss_flush)

lemma drain_chunk_budget:
  assumes "input_budget os \<mu>" and "drain_chunk os sid c d = Some d'"
  shows "\<mu> (dr_world d') \<le> \<mu> (dr_world d)"
proof -
  obtain now w1 where now: "os_now_ms os (dr_world d) = (now, w1)"
    by (cases "os_now_ms os (dr_world d)")
  obtain rs w2 where rs: "os_log_written os w1 = (rs, w2)"
    by (cases "os_log_written os w1")
  have "\<mu> w1 \<le> \<mu> (dr_world d)" "\<mu> w2 \<le> \<mu> w1"
    using input_budgetD(3)[OF assms(1) now] input_budgetD(4)[OF assms(1) rs] by simp_all
  then show ?thesis
    using assms(2) now rs
    by (auto simp: drain_chunk_def Let_def split: option.splits prod.splits)
qed

lemma drain_loop_returns:
  assumes "input_budget os \<mu>"
  shows "drain_loop os fd sid d \<noteq> None"
proof (induction "\<mu> (dr_world d)" arbitrary: d rule: less_induct)
  case less
  obtain r w where read: "os_read os fd (dr_world d) = (r, w)"
    by (cases "os_read os fd (dr_world d)")
  have "drain_loop os fd sid d' \<noteq> None"
    if "r = ReadBytes c" "c \<noteq> []" "drain_chunk os sid c (d\<lparr>dr_world := w\<rparr>) = Some d'" for c d'
  proof (rule less)
    have "\<mu> w < \<mu> (dr_world d)"
      using input_budgetD(1)[OF assms] read that(1,2) by blast
    then show "\<mu> (dr_world d') < \<mu> (dr_world d)"
      using drain_chunk_budget[OF assms that(3)] by simp
  qed
  then show ?case
    by (subst drain_loop.simps) (auto simp: read Let_def split: read_result.splits option.splits)
qed

lemma returns_drain_output:
  assumes "input_budget os \<mu>"
  shows "returns (drain_output os fd)"
  using drain_loop_returns[OF assms]
  by (auto simp: returns_def drain_output_def Let_def simp del: not_None_eq split: option.split)

section \<open>Connections\<close>

lemma read_loop_returns:
  assumes "input_budget os \<mu>"
  shows "read_loop os fd acc frames w \<noteq> None"
proof (induction "\<mu> w" arbitrary: acc frames w rule: less_induct)
  case less
  obtain r w' where read: "os_read os fd w = (r, w')"
    by (cases "os_read os fd w")
  have "read_loop os fd acc' frames' w' \<noteq> None" if "r = ReadBytes c" "c \<noteq> []" for c acc' frames'
    using less[of w'] input_budgetD(1)[OF assms] read that by blast
  then show ?case
    by (subst read_loop.simps)
      (auto simp: read Let_def split: read_result.splits sum.splits prod.splits)
qed

lemma read_frames_returns:
  assumes "input_budget os \<mu>"
  shows "read_frames os c w \<noteq> None"
  using read_loop_returns[OF assms]
  by (auto simp: read_frames_def split: option.splits sum.splits prod.splits)

end
