(* ===== verification/Holder_Reactor.thy ===== *)
theory Holder_Reactor
  imports Holder_Effects
begin

text \<open>
  The registrations of the holder's epoll instance (\<open>crates/persist-holder/src/reactor.rs\<close>).
  An event carries a token, not a descriptor; the two maps of the reactor are inverse to each
  other, and a token that has been removed is never given to another descriptor, so an event
  that was reported for a closed descriptor cannot reach a new one with the same number.
\<close>

section \<open>Model\<close>

record reactor =
  re_next_token :: u64
  re_tokens :: "(raw_fd, u64) hashmap"
  re_fds :: "(u64, raw_fd) hashmap"

definition reactor_new :: reactor where
  "reactor_new = \<lparr>re_next_token = 1, re_tokens = [], re_fds = []\<rparr>"

definition reactor_add ::
    "'w os \<Rightarrow> raw_fd \<Rightarrow> bool \<Rightarrow> reactor \<Rightarrow> 'w \<Rightarrow> (persist_error + unit) \<times> reactor \<times> 'w" where
  "reactor_add os fd writable re w =
     (let token = re_next_token re;
          re = re\<lparr>re_next_token := max (token + 1) 1\<rparr>;
          (ok, w) = os_epoll_ctl os (CtlAdd writable) fd token w
      in if \<not> ok then (Inl (IoError ''configure holder epoll fd''), re, w)
         else (Inr (), re\<lparr>re_tokens := hm_insert fd token (re_tokens re),
                         re_fds := hm_insert token fd (re_fds re)\<rparr>, w))"

definition reactor_modify ::
    "'w os \<Rightarrow> raw_fd \<Rightarrow> bool \<Rightarrow> reactor \<Rightarrow> 'w \<Rightarrow> (persist_error + unit) \<times> reactor \<times> 'w" where
  "reactor_modify os fd writable re w =
     (case hm_get (re_tokens re) fd of
        None \<Rightarrow> (Inl (InvalidArgument ''holder epoll fd is not registered''), re, w)
      | Some token \<Rightarrow>
          (let (ok, w) = os_epoll_ctl os (CtlMod writable) fd token w
           in (if ok then Inr () else Inl (IoError ''configure holder epoll fd''), re, w)))"

definition reactor_remove :: "'w os \<Rightarrow> raw_fd \<Rightarrow> reactor \<Rightarrow> 'w \<Rightarrow> reactor \<times> 'w" where
  "reactor_remove os fd re w =
     (let re = (case hm_get (re_tokens re) fd of
                  None \<Rightarrow> re
                | Some token \<Rightarrow> re\<lparr>re_tokens := hm_remove fd (re_tokens re),
                                  re_fds := hm_remove token (re_fds re)\<rparr>);
          (_, w) = os_epoll_ctl os CtlDel fd 0 w
      in (re, w))"

definition fd_for_token :: "reactor \<Rightarrow> u64 \<Rightarrow> raw_fd option" where
  "fd_for_token re token = hm_get (re_fds re) token"

section \<open>Invariant\<close>

definition re_inv :: "reactor \<Rightarrow> bool" where
  "re_inv re \<longleftrightarrow> hm_wf (re_tokens re) \<and> hm_wf (re_fds re)
     \<and> (\<forall>fd token. hm_get (re_tokens re) fd = Some token \<longleftrightarrow> hm_get (re_fds re) token = Some fd)
     \<and> (\<forall>token fd. hm_get (re_fds re) token = Some fd \<longrightarrow> token < re_next_token re)"

lemma re_inv_new: "re_inv reactor_new"
  by (simp add: re_inv_def reactor_new_def)

lemma next_token:
  assumes "(n :: u64) \<noteq> - 1"
  shows "max (n + 1) 1 = n + 1" "n < n + 1" "unat (n + 1) = unat n + 1"
proof -
  have n: "unat (n + 1) = unat n + 1"
  proof -
    have "unat n \<noteq> 2 ^ 64 - 1"
      using assms by (auto simp: word_unat_eq_iff unsigned_minus_1_eq_mask mask_eq_exp_minus_1)
    moreover have "unat n < 2 ^ 64"
      using unsigned_less[of n, where 'a = nat] by simp
    ultimately show ?thesis
      by (simp add: unat_word_ariths)
  qed
  then show "unat (n + 1) = unat n + 1" .
  show "n < n + 1" "max (n + 1) 1 = n + 1"
    using n by (auto simp: word_less_nat_alt max_def word_le_nat_alt word_unat_eq_iff)
qed

lemma reactor_remove_inv:
  assumes "re_inv re"
  shows "re_inv (fst (reactor_remove os fd re w))"
proof (cases "hm_get (re_tokens re) fd")
  case None
  then show ?thesis
    using assms by (simp add: reactor_remove_def split: prod.splits)
next
  case (Some t)
  then have "fst (reactor_remove os fd re w) =
      re\<lparr>re_tokens := hm_remove fd (re_tokens re), re_fds := hm_remove t (re_fds re)\<rparr>"
    by (simp add: reactor_remove_def split: prod.splits)
  moreover have "(if x = fd then None else hm_get (re_tokens re) x) = Some y \<longleftrightarrow>
      (if y = t then None else hm_get (re_fds re) y) = Some x" for x y
    using assms Some unfolding re_inv_def by (metis option.inject option.distinct(1))
  ultimately show ?thesis
    using assms by (simp add: re_inv_def)
qed

lemma reactor_remove_tokens:
  "re_next_token (fst (reactor_remove os fd re w)) = re_next_token re"
  "hm_get (re_tokens (fst (reactor_remove os fd re w))) x =
    (if x = fd then None else hm_get (re_tokens re) x)"
  "hm_get (re_fds (fst (reactor_remove os fd re w))) t = None \<or>
   hm_get (re_fds (fst (reactor_remove os fd re w))) t = hm_get (re_fds re) t"
  by (auto simp: reactor_remove_def split: option.splits prod.splits)

lemma reactor_add_inv:
  assumes "re_inv re" and "hm_get (re_tokens re) fd = None" and "re_next_token re \<noteq> - 1"
    and "reactor_add os fd b re w = (r, re', w')"
  shows "re_inv re'" "re_next_token re' = re_next_token re + 1"
proof -
  obtain ok w1 where ctl: "os_epoll_ctl os (CtlAdd b) fd (re_next_token re) w = (ok, w1)"
    by (cases "os_epoll_ctl os (CtlAdd b) fd (re_next_token re) w")
  note n = next_token[OF assms(3)]
  show "re_next_token re' = re_next_token re + 1"
    using assms(4) ctl n by (auto simp: reactor_add_def Let_def split: if_splits)
  have "hm_get (re_fds re) t \<noteq> Some fd" for t
    using assms(1,2) by (metis option.distinct(1) re_inv_def)
  moreover have "hm_get (re_fds re) (re_next_token re) = None"
    using assms(1) by (cases "hm_get (re_fds re) (re_next_token re)") (auto simp: re_inv_def)
  moreover have "t < re_next_token re + 1" if "t < re_next_token re" for t
    using that n(2) by (rule order_less_trans)
  ultimately show "re_inv re'"
    using assms ctl n unfolding re_inv_def by (auto simp: reactor_add_def Let_def split: if_splits)
qed

lemma reactor_modify_same [simp]: "fst (snd (reactor_modify os fd b re w)) = re"
  by (simp add: reactor_modify_def split: option.splits prod.splits)

section \<open>Tokens are not reused\<close>

datatype reactor_op = AddFd raw_fd bool | ModifyFd raw_fd bool | RemoveFd raw_fd

fun reactor_step :: "'w os \<Rightarrow> reactor_op \<Rightarrow> reactor \<times> 'w \<Rightarrow> reactor \<times> 'w" where
  "reactor_step os (AddFd fd b) (re, w) = snd (reactor_add os fd b re w)"
| "reactor_step os (ModifyFd fd b) (re, w) = snd (reactor_modify os fd b re w)"
| "reactor_step os (RemoveFd fd) (re, w) = reactor_remove os fd re w"

definition reactor_run :: "'w os \<Rightarrow> reactor_op list \<Rightarrow> reactor \<times> 'w \<Rightarrow> reactor \<times> 'w" where
  "reactor_run os ops s = fold (reactor_step os) ops s"

definition tokens_below :: "reactor \<Rightarrow> bool" where
  "tokens_below re \<longleftrightarrow> (\<forall>t. fd_for_token re t \<noteq> None \<longrightarrow> t < re_next_token re)"

lemma reactor_step_tokens:
  assumes "re_next_token re \<noteq> - 1"
  shows "t < re_next_token re \<Longrightarrow>
      fd_for_token (fst (reactor_step os x (re, w))) t \<in> {None, fd_for_token re t}"
    and "re_next_token re \<le> re_next_token (fst (reactor_step os x (re, w)))"
    and "unat (re_next_token (fst (reactor_step os x (re, w)))) \<le> unat (re_next_token re) + 1"
    and "tokens_below re \<Longrightarrow> tokens_below (fst (reactor_step os x (re, w)))"
proof -
  note n = next_token[OF assms]
  have "(t < re_next_token re \<longrightarrow>
      fd_for_token (fst (reactor_step os x (re, w))) t \<in> {None, fd_for_token re t})
    \<and> re_next_token re \<le> re_next_token (fst (reactor_step os x (re, w)))
    \<and> unat (re_next_token (fst (reactor_step os x (re, w)))) \<le> unat (re_next_token re) + 1
    \<and> (tokens_below re \<longrightarrow> tokens_below (fst (reactor_step os x (re, w))))"
  proof (cases x)
    case (AddFd fd b)
    then show ?thesis
      using n order_less_imp_le[OF n(2)] order_less_trans[OF _ n(2)]
      by (auto simp: reactor_add_def fd_for_token_def tokens_below_def Let_def split: prod.splits)
  next
    case (ModifyFd fd b)
    then show ?thesis by simp
  next
    case (RemoveFd fd)
    then show ?thesis
      using reactor_remove_tokens[of os fd re w]
      by (auto simp: fd_for_token_def tokens_below_def) (metis option.distinct(1))+
  qed
  then show "t < re_next_token re \<Longrightarrow>
      fd_for_token (fst (reactor_step os x (re, w))) t \<in> {None, fd_for_token re t}"
    "re_next_token re \<le> re_next_token (fst (reactor_step os x (re, w)))"
    "unat (re_next_token (fst (reactor_step os x (re, w)))) \<le> unat (re_next_token re) + 1"
    "tokens_below re \<Longrightarrow> tokens_below (fst (reactor_step os x (re, w)))"
    by auto
qed

lemma not_last_token: "unat (n :: u64) + k < 2 ^ 64 \<Longrightarrow> 0 < k \<Longrightarrow> n \<noteq> - 1"
  by (auto simp: unsigned_minus_1_eq_mask mask_eq_exp_minus_1)

lemma reactor_run_append:
  "reactor_run os (a @ b) s = reactor_run os b (reactor_run os a s)"
  by (simp add: reactor_run_def)

lemma reactor_run_Cons:
  "reactor_run os (x # xs) (re, w) = reactor_run os xs (reactor_step os x (re, w))"
  by (simp add: reactor_run_def)

lemma reactor_run_tokens:
  assumes "unat (re_next_token re) + length ops < 2 ^ 64" and "reactor_run os ops (re, w) = (re', w')"
  shows "t < re_next_token re \<Longrightarrow> fd_for_token re' t \<in> {None, fd_for_token re t}"
    and "re_next_token re \<le> re_next_token re'"
    and "unat (re_next_token re') \<le> unat (re_next_token re) + length ops"
    and "tokens_below re \<Longrightarrow> tokens_below re'"
proof -
  have "(t < re_next_token re \<longrightarrow> fd_for_token re' t \<in> {None, fd_for_token re t})
    \<and> re_next_token re \<le> re_next_token re'
    \<and> unat (re_next_token re') \<le> unat (re_next_token re) + length ops
    \<and> (tokens_below re \<longrightarrow> tokens_below re')"
    using assms
  proof (induction ops arbitrary: re w)
    case Nil
    then show ?case by (simp add: reactor_run_def)
  next
    case (Cons x ops)
    obtain re1 w1 where s: "reactor_step os x (re, w) = (re1, w1)"
      by (cases "reactor_step os x (re, w)")
    have "re_next_token re \<noteq> - 1"
      by (rule not_last_token[OF Cons.prems(1)]) simp
    note step = reactor_step_tokens[OF this, where os = os and x = x and w = w, unfolded s fst_conv]
    have run: "reactor_run os ops (re1, w1) = (re', w')"
      using Cons.prems(2) by (simp add: reactor_run_Cons s)
    have "unat (re_next_token re1) + length ops < 2 ^ 64"
      using Cons.prems(1) step(3) by simp
    note IH = Cons.IH[OF this run]
    show ?case
    proof (intro conjI impI)
      assume t: "t < re_next_token re"
      then have "t < re_next_token re1" using step(2) by (rule order_less_le_trans)
      with IH step(1)[OF t] show "fd_for_token re' t \<in> {None, fd_for_token re t}" by auto
    qed (use IH step order_trans[OF step(2)] in auto)
  qed
  then show "t < re_next_token re \<Longrightarrow> fd_for_token re' t \<in> {None, fd_for_token re t}"
    "re_next_token re \<le> re_next_token re'"
    "unat (re_next_token re') \<le> unat (re_next_token re) + length ops"
    "tokens_below re \<Longrightarrow> tokens_below re'"
    by blast+
qed

text \<open>The descriptor that a token stands for after the operations \<open>ops\<close> on a new reactor.\<close>

definition token_after :: "'w os \<Rightarrow> 'w \<Rightarrow> reactor_op list \<Rightarrow> u64 \<Rightarrow> raw_fd option" where
  "token_after os w ops t = fd_for_token (fst (reactor_run os ops (reactor_new, w))) t"

lemma token_after_step:
  assumes "length (ops1 @ ops2) < 2 ^ 64 - 1" and "\<exists>us vs. ops1 = us @ vs \<and> token_after os w us t \<noteq> None"
  shows "token_after os w (ops1 @ ops2) t \<in> {None, token_after os w ops1 t}"
proof -
  obtain us vs where us: "ops1 = us @ vs" "token_after os w us t \<noteq> None"
    using assms(2) by blast
  obtain re w1 where r: "reactor_run os us (reactor_new, w) = (re, w1)" by fastforce
  obtain re1 w2 where r1: "reactor_run os vs (re, w1) = (re1, w2)" by fastforce
  obtain re2 w3 where r2: "reactor_run os ops2 (re1, w2) = (re2, w3)" by fastforce
  have new: "unat (re_next_token reactor_new) = 1" "tokens_below reactor_new"
    by (simp_all add: reactor_new_def tokens_below_def fd_for_token_def)
  have fit: "length us + length vs + length ops2 < 2 ^ 64 - 1"
    using assms(1) us(1) by simp
  have "unat (re_next_token reactor_new) + length us < 2 ^ 64"
    using fit new by simp
  note a = reactor_run_tokens[OF this r]
  have "unat (re_next_token re) + length vs < 2 ^ 64"
    using fit new a(3) by simp
  note b = reactor_run_tokens[OF this r1]
  have "unat (re_next_token re1) + length ops2 < 2 ^ 64"
    using fit new a(3) b(3) by simp
  note c = reactor_run_tokens[OF this r2]
  have "t < re_next_token re"
    using a(4)[OF new(2)] us(2) r by (simp add: tokens_below_def token_after_def)
  then have "t < re_next_token re1"
    using b(2) by (rule order_less_le_trans)
  from c(1)[OF this] show ?thesis
    by (simp add: token_after_def us(1) reactor_run_append r r1 r2)
qed

end
