(* ===== verification/Holder_Server.thy ===== *)
theory Holder_Server
  imports Holder_Liveness Holder_Reactor
begin

text \<open>
  The event loop of the holder (\<open>crates/persist-holder/src/server.rs\<close> and
  \<open>server_handlers.rs\<close>): connections of the daemon, of which one is the controller and the others
  carry the data of one session each, the writer of every session, and the handlers of frames,
  PTY events, signals and log failures. A handler is a function of the whole server state; the
  iteration order of a \<open>HashMap\<close> is the order of its association list, which is arbitrary.
\<close>

section \<open>State\<close>

record controller =
  ct_fd :: raw_fd
  ct_pid :: u32
  ct_nonce :: bytes
  ct_protocol_minor :: u16
  ct_capabilities :: u64

record 'w server =
  sv_rs :: "'w rstate"
  sv_reactor :: reactor
  sv_connections :: "(raw_fd, connection) hashmap"
  sv_writers :: "(u32, raw_fd) hashmap"
  sv_controller :: "controller option"
  sv_instance_id :: bytes
  sv_shutdown_fd :: "raw_fd option"
  sv_listener_fd :: raw_fd
  sv_signal_fd :: raw_fd
  sv_log_fd :: raw_fd

text \<open>The events epoll reports for a descriptor.\<close>

record fd_events =
  ev_in :: bool
  ev_out :: bool
  ev_err :: bool
  ev_hup :: bool
  ev_rdhup :: bool

abbreviation sv_runtime :: "'w server \<Rightarrow> runtime" where
  "sv_runtime s \<equiv> rs_runtime (sv_rs s)"

abbreviation sv_world :: "'w server \<Rightarrow> 'w" where
  "sv_world s \<equiv> rs_world (sv_rs s)"

definition on_rs :: "('w rstate, 'a) handler \<Rightarrow> ('w server, 'a) handler" where
  "on_rs m s = (case m (sv_rs s) of None \<Rightarrow> None | Some (r, rs) \<Rightarrow> Some (r, s\<lparr>sv_rs := rs\<rparr>))"

definition sv_call :: "('w \<Rightarrow> 'a \<times> 'w) \<Rightarrow> ('w server, 'a) handler" where
  "sv_call f = on_rs (rs_call f)"

definition on_reactor ::
    "(reactor \<Rightarrow> 'w \<Rightarrow> (persist_error + 'a) \<times> reactor \<times> 'w) \<Rightarrow> ('w server, 'a) handler" where
  "on_reactor f s =
     (case f (sv_reactor s) (sv_world s) of (r, re, w) \<Rightarrow>
      sresult r (s\<lparr>sv_reactor := re, sv_rs := (sv_rs s)\<lparr>rs_world := w\<rparr>\<rparr>))"

definition conn_get :: "'w server \<Rightarrow> raw_fd \<Rightarrow> connection option" where
  "conn_get s fd = hm_get (sv_connections s) fd"

definition conn_put :: "raw_fd \<Rightarrow> connection \<Rightarrow> 'w server \<Rightarrow> 'w server" where
  "conn_put fd c s = s\<lparr>sv_connections := hm_insert fd c (sv_connections s)\<rparr>"

definition generation :: "'w server \<Rightarrow> u64" where
  "generation s = rt_generation (sv_runtime s)"

definition out_frame :: "holder_message_type \<Rightarrow> u32 \<Rightarrow> u64 \<Rightarrow> bytes \<Rightarrow> holder_frame" where
  "out_frame kind request_id gen payload =
     \<lparr>fr_message_type = kind, fr_flags = 0, fr_request_id = request_id, fr_generation = gen,
      fr_payload = payload\<rparr>"

definition writer_frame :: "holder_message_type \<Rightarrow> u32 \<Rightarrow> u64 \<Rightarrow> holder_frame" where
  "writer_frame kind session_id gen =
     out_frame kind 0 gen (encode_operation_request \<lparr>oq_session_id = session_id\<rparr>)"

definition parsed :: "string \<Rightarrow> holder_protocol_error + 'a \<Rightarrow> ('w server, 'a) handler" where
  "parsed context r = sresult (map_err (protocol_error context) r)"

section \<open>Connections and writers\<close>

definition detach_connection :: "raw_fd \<Rightarrow> 'w server \<Rightarrow> 'w server" where
  "detach_connection fd s =
     (case conn_get s fd of
        None \<Rightarrow> s
      | Some c \<Rightarrow>
          let s = conn_put fd (c\<lparr>cn_attached_session := None\<rparr>) s
          in (case cn_attached_session c of
                None \<Rightarrow> s
              | Some session_id \<Rightarrow>
                  if hm_get (sv_writers s) session_id = Some fd
                  then s\<lparr>sv_writers := hm_remove session_id (sv_writers s)\<rparr> else s))"

definition detach_session :: "u32 \<Rightarrow> 'w server \<Rightarrow> 'w server" where
  "detach_session session_id s =
     s\<lparr>sv_writers := hm_remove session_id (sv_writers s),
       sv_connections := map (\<lambda>(fd, c). (fd,
         if cn_attached_session c = Some session_id then c\<lparr>cn_attached_session := None\<rparr> else c))
         (sv_connections s)\<rparr>"

text \<open>Removing a connection drops it, which closes its socket.\<close>

definition drop_connection :: "'w os \<Rightarrow> raw_fd \<Rightarrow> ('w server, unit) handler" where
  "drop_connection os fd =
     sget (\<lambda>s. case conn_get s fd of
       None \<Rightarrow> sret ()
     | Some c \<Rightarrow>
         sbind (sv_call (\<lambda>w. ((), os_close os fd w))) (\<lambda>_.
         sput (\<lambda>s. s\<lparr>sv_connections := hm_remove fd (sv_connections s)\<rparr>)))"

text \<open>\<open>disconnect\<close> calls itself for the data connections when it removes the controller. The
  first argument bounds the depth; running out of it counts as a panic.\<close>

primrec disconnect_n :: "nat \<Rightarrow> 'w os \<Rightarrow> raw_fd \<Rightarrow> ('w server, unit) handler" where
  "disconnect_n 0 os fd = spanic"
| "disconnect_n (Suc n) os fd =
     sbind (on_reactor (\<lambda>re w. (Inr (), reactor_remove os fd re w))) (\<lambda>_.
     sbind (sput (detach_connection fd)) (\<lambda>_.
     sbind (drop_connection os fd) (\<lambda>_.
     sget (\<lambda>s.
       if (case sv_controller s of None \<Rightarrow> False | Some c \<Rightarrow> ct_fd c = fd)
       then
         sbind (sput (\<lambda>s. s\<lparr>sv_controller := None\<rparr>)) (\<lambda>_.
         sget (\<lambda>s. sfor (\<lambda>data_fd. disconnect_n n os data_fd)
           (map fst (filter (\<lambda>(_, c). cn_role c = Data) (sv_connections s)))))
       else sret ()))))"

definition disconnect :: "'w os \<Rightarrow> raw_fd \<Rightarrow> ('w server, unit) handler" where
  "disconnect = disconnect_n 2"

definition queue_frame :: "'w os \<Rightarrow> raw_fd \<Rightarrow> holder_frame \<Rightarrow> ('w server, unit) handler" where
  "queue_frame os fd frame =
     sget (\<lambda>s. case conn_get s fd of
       None \<Rightarrow> serr (InvalidArgument ''holder connection disappeared'')
     | Some c \<Rightarrow>
         sbind (sresult (conn_queue c frame)) (\<lambda>c.
         sbind (sput (conn_put fd c)) (\<lambda>_.
         on_reactor (reactor_modify os fd True))))"

definition queue_or_disconnect :: "'w os \<Rightarrow> raw_fd \<Rightarrow> holder_frame \<Rightarrow> ('w server, unit) handler" where
  "queue_or_disconnect os fd frame =
     scatch (queue_frame os fd frame) (\<lambda>failed. if failed then disconnect os fd else sret ())"

definition release_writer :: "'w os \<Rightarrow> u32 \<Rightarrow> ('w server, unit) handler" where
  "release_writer os session_id =
     sget (\<lambda>s. case hm_get (sv_writers s) session_id of
       None \<Rightarrow> sret ()
     | Some fd \<Rightarrow>
         sbind (sput (\<lambda>s. s\<lparr>sv_writers := hm_remove session_id (sv_writers s)\<rparr>)) (\<lambda>_.
         queue_or_disconnect os fd (writer_frame WriteRevoked session_id (generation s))))"

definition send_control :: "'w os \<Rightarrow> holder_frame \<Rightarrow> ('w server, unit) handler" where
  "send_control os frame =
     sget (\<lambda>s. case sv_controller s of
       None \<Rightarrow> sret ()
     | Some c \<Rightarrow> queue_or_disconnect os (ct_fd c) frame)"

definition respond ::
    "'w os \<Rightarrow> raw_fd \<Rightarrow> holder_frame \<Rightarrow> holder_message_type \<Rightarrow> bytes \<Rightarrow> ('w server, unit) handler" where
  "respond os fd request kind payload =
     sget (\<lambda>s. queue_frame os fd (out_frame kind (fr_request_id request) (generation s) payload))"

definition send_response ::
    "'w os \<Rightarrow> raw_fd \<Rightarrow> holder_frame \<Rightarrow> holder_message_type \<Rightarrow> operation_response
      \<Rightarrow> ('w server, unit) handler" where
  "send_response os fd request kind resp =
     sbind (parsed ''operation response'' (encode_operation_response resp)) (\<lambda>payload.
     respond os fd request kind payload)"

section \<open>Handshake\<close>

text \<open>A new daemon takes over when the connection of the controller is about to close.\<close>

definition takeover :: "'w os \<Rightarrow> ('w server, unit) handler" where
  "takeover os =
     sget (\<lambda>s. case sv_controller s of
       None \<Rightarrow> sret ()
     | Some ctl \<Rightarrow>
         (case conn_get s (ct_fd ctl) of
            None \<Rightarrow> sret ()
          | Some c \<Rightarrow>
              sbind (sv_call (os_closes_within os (cn_peer_fd c))) (\<lambda>closes.
              if closes then disconnect os (ct_fd ctl) else sret ())))"

text \<open>The acknowledgement of a hello, and the role that an accepted one gives.\<close>

definition answer_control_hello ::
    "'w os \<Rightarrow> raw_fd \<Rightarrow> holder_frame \<Rightarrow> control_hello \<Rightarrow> hello_status \<Rightarrow> ('w server, unit) handler" where
  "answer_control_hello os fd frame hello status =
     sget (\<lambda>s.
     sbind (queue_frame os fd (out_frame ControlHelloAck (fr_request_id frame) (generation s)
         (encode_control_hello_ack
            \<lparr>cha_holder_pid = os_process_id os, cha_instance_id = sv_instance_id s,
             cha_nonce = ch_nonce hello, cha_status = status\<rparr>))) (\<lambda>_.
     sget (\<lambda>s.
     sbind (sunwrap (conn_get s fd)) (\<lambda>c.
     if status = Accepted
     then
       sbind (sput (conn_put fd (c\<lparr>cn_role := Control\<rparr>))) (\<lambda>_.
       sput (\<lambda>s. s\<lparr>sv_controller :=
         Some \<lparr>ct_fd = fd, ct_pid = ch_daemon_pid hello, ct_nonce = ch_nonce hello,
               ct_protocol_minor = HOLDER_PROTOCOL_BASELINE_MINOR, ct_capabilities = 0\<rparr>\<rparr>))
     else sput (conn_put fd (close_after_flush c))))))"

definition handle_control_hello ::
    "'w os \<Rightarrow> raw_fd \<Rightarrow> u16 \<Rightarrow> holder_frame \<Rightarrow> ('w server, unit) handler" where
  "handle_control_hello os fd minor frame =
     (if minor \<noteq> HOLDER_PROTOCOL_BASELINE_MINOR
      then serr (InvalidArgument ''ControlHello must use baseline minor'')
      else
        sbind (takeover os) (\<lambda>_.
        sbind (parsed ''ControlHello'' (decode_control_hello (fr_payload frame))) (\<lambda>hello.
        sget (\<lambda>s.
        sbind (sunwrap (conn_get s fd)) (\<lambda>peer.
        answer_control_hello os fd frame hello
          (if ch_uid hello \<noteq> cn_peer_uid peer \<or> ch_daemon_pid hello \<noteq> cn_peer_pid peer
           then PermissionDenied
           else if sv_controller s \<noteq> None then Busy else Accepted))))))"

definition data_accepted :: "'w server \<Rightarrow> data_hello \<Rightarrow> u32 \<Rightarrow> u16 \<Rightarrow> bool" where
  "data_accepted s hello peer_pid minor =
     (case sv_controller s of
        None \<Rightarrow> False
      | Some ctl \<Rightarrow> dh_daemon_pid hello = peer_pid \<and> dh_daemon_pid hello = ct_pid ctl
          \<and> dh_instance_id hello = sv_instance_id s \<and> dh_nonce hello = ct_nonce ctl
          \<and> minor = ct_protocol_minor ctl)"

definition answer_data_hello ::
    "'w os \<Rightarrow> raw_fd \<Rightarrow> holder_frame \<Rightarrow> data_hello \<Rightarrow> bool \<Rightarrow> ('w server, unit) handler" where
  "answer_data_hello os fd frame hello accepted =
     sget (\<lambda>s.
     sbind (queue_frame os fd (out_frame DataHelloAck (fr_request_id frame) (generation s)
         (encode_data_hello_ack
            \<lparr>dha_instance_id = sv_instance_id s, dha_nonce = dh_nonce hello,
             dha_status = (if accepted then Accepted else PermissionDenied)\<rparr>))) (\<lambda>_.
     sget (\<lambda>s.
     sbind (sunwrap (conn_get s fd)) (\<lambda>c.
     sput (conn_put fd (if accepted then c\<lparr>cn_role := Data\<rparr> else close_after_flush c))))))"

definition handle_data_hello ::
    "'w os \<Rightarrow> raw_fd \<Rightarrow> u16 \<Rightarrow> holder_frame \<Rightarrow> ('w server, unit) handler" where
  "handle_data_hello os fd minor frame =
     sbind (parsed ''DataHello'' (decode_data_hello (fr_payload frame))) (\<lambda>hello.
     sget (\<lambda>s.
     sbind (sunwrap (conn_get s fd)) (\<lambda>peer.
     let accepted = data_accepted s hello (cn_peer_pid peer) minor
     in
     sbind (if accepted then sput (conn_put fd (peer\<lparr>cn_protocol_minor := minor\<rparr>)) else sret ()) (\<lambda>_.
     answer_data_hello os fd frame hello accepted))))"

definition handle_hello ::
    "'w os \<Rightarrow> raw_fd \<Rightarrow> u16 \<Rightarrow> holder_frame \<Rightarrow> ('w server, unit) handler" where
  "handle_hello os fd minor frame =
     (if fr_message_type frame = ControlHello then handle_control_hello os fd minor frame
      else if fr_message_type frame = DataHello then handle_data_hello os fd minor frame
      else serr (InvalidArgument ''expected holder hello''))"

definition handle_capability ::
    "'w os \<Rightarrow> raw_fd \<Rightarrow> u16 \<Rightarrow> holder_frame \<Rightarrow> ('w server, unit) handler" where
  "handle_capability os fd minor frame =
     sget (\<lambda>s.
     sbind (sunwrap (conn_get s fd)) (\<lambda>c.
     if minor \<noteq> HOLDER_PROTOCOL_MINOR \<or> cn_protocol_minor c \<noteq> HOLDER_PROTOCOL_BASELINE_MINOR
     then serr (InvalidArgument ''invalid holder capability negotiation state'')
     else
       sbind (parsed ''Capability'' (decode_capability_request (fr_payload frame))) (\<lambda>request.
       if cq_max_minor request \<noteq> HOLDER_PROTOCOL_MINOR
       then serr (InvalidArgument ''unsupported holder capability minor'')
       else
         (case sv_controller s of
            None \<Rightarrow> serr (InvalidArgument ''missing holder controller'')
          | Some ctl \<Rightarrow>
              if ct_fd ctl \<noteq> fd then serr (InvalidArgument ''missing holder controller'')
              else if cq_instance_id request \<noteq> sv_instance_id s \<or> cq_nonce request \<noteq> ct_nonce ctl
              then serr (InvalidArgument ''holder capability identity mismatch'')
              else
                sbind (sput (\<lambda>s. s\<lparr>sv_controller :=
                  Some (ctl\<lparr>ct_protocol_minor := HOLDER_PROTOCOL_MINOR,
                            ct_capabilities := HOLDER_CAPABILITY_ENVIRONMENT_CONTEXT\<rparr>)\<rparr>)) (\<lambda>_.
                sbind (sput (conn_put fd (c\<lparr>cn_protocol_minor := HOLDER_PROTOCOL_MINOR\<rparr>))) (\<lambda>_.
                queue_frame os fd (out_frame CapabilityResp (fr_request_id frame) (generation s)
                  (encode_capability_response
                     \<lparr>cr_instance_id = sv_instance_id s, cr_nonce = cq_nonce request,
                      cr_selected_minor = HOLDER_PROTOCOL_MINOR,
                      cr_capabilities = HOLDER_CAPABILITY_ENVIRONMENT_CONTEXT\<rparr>))))))))"

section \<open>Requests of the controller\<close>

definition handle_inventory :: "'w os \<Rightarrow> raw_fd \<Rightarrow> holder_frame \<Rightarrow> ('w server, unit) handler" where
  "handle_inventory os fd frame =
     sbind (parsed ''Inventory'' (decode_inventory_request (fr_payload frame))) (\<lambda>request.
     sget (\<lambda>s.
     let page = inventory (sv_runtime s) request;
         page = page\<lparr>ir_entries := map (\<lambda>e. e\<lparr>he_writer_active :=
           hm_get (sv_writers s) (he_session_id e) \<noteq> None\<rparr>) (ir_entries page)\<rparr>
     in sbind (parsed ''InventoryResp'' (encode_inventory_response page)) (\<lambda>payload.
        respond os fd frame InventoryResp payload)))"

definition handle_create ::
    "'w os \<Rightarrow> raw_fd \<Rightarrow> u16 \<Rightarrow> holder_frame \<Rightarrow> ('w server, unit) handler" where
  "handle_create os fd minor frame =
     sbind (parsed ''Create'' (if minor = HOLDER_PROTOCOL_MINOR
         then decode_create_request_v2 (fr_payload frame)
         else decode_create_request (fr_payload frame))) (\<lambda>request.
     sbind (on_rs (rt_create os request)) (\<lambda>(resp, pty_fd).
     sbind (case pty_fd of None \<Rightarrow> sret () | Some p \<Rightarrow> on_reactor (reactor_add os p False)) (\<lambda>_.
     send_response os fd frame CreateResp resp)))"

definition handle_control ::
    "'w os \<Rightarrow> json \<Rightarrow> raw_fd \<Rightarrow> u16 \<Rightarrow> holder_frame \<Rightarrow> ('w server, unit) handler" where
  "handle_control os js fd minor frame =
     (if fr_message_type frame = Capability then handle_capability os fd minor frame
      else
        sget (\<lambda>s.
        sbind (sunwrap (conn_get s fd)) (\<lambda>c.
        if minor \<noteq> cn_protocol_minor c
        then serr (InvalidArgument ''holder control protocol minor changed'')
        else
          (case fr_message_type frame of
             Inventory \<Rightarrow> handle_inventory os fd frame
           | Create \<Rightarrow> handle_create os fd minor frame
           | Close \<Rightarrow>
               sbind (parsed ''operation'' (decode_operation_request (fr_payload frame))) (\<lambda>request.
               sbind (on_rs (rt_close os (oq_session_id request))) (\<lambda>resp.
               send_response os fd frame CloseResp resp))
           | Kill \<Rightarrow>
               sbind (parsed ''operation'' (decode_operation_request (fr_payload frame))) (\<lambda>request.
               sbind (on_rs (rt_kill os (oq_session_id request))) (\<lambda>resp.
               send_response os fd frame KillResp resp))
           | GetExitContext \<Rightarrow>
               sbind (parsed ''GetExitContext'' (decode_operation_request (fr_payload frame))) (\<lambda>request.
               sbind (parsed ''GetExitContextResp''
                   (if minor = HOLDER_PROTOCOL_MINOR
                    then encode_exit_context_response_v2 (js_to_vec js)
                           (exit_context_response_v2_of (sv_runtime s) (oq_session_id request))
                    else encode_exit_context_response
                           (exit_context_response_of (sv_runtime s) (oq_session_id request)))) (\<lambda>payload.
               respond os fd frame GetExitContextResp payload))
           | RetireExited \<Rightarrow>
               sbind (parsed ''RetireExited'' (decode_operation_request (fr_payload frame))) (\<lambda>request.
               sbind (on_rs (retire_exited os (oq_session_id request))) (\<lambda>resp.
               send_response os fd frame RetireExitedResp resp))
           | ShutdownAll \<Rightarrow>
               if fr_payload frame = []
               then sbind (respond os fd frame ShutdownAllResp []) (\<lambda>_.
                    sput (\<lambda>s. s\<lparr>sv_shutdown_fd := Some fd\<rparr>))
               else serr (InvalidArgument ''invalid holder control request'')
           | _ \<Rightarrow> serr (InvalidArgument ''invalid holder control request'')))))"

section \<open>Requests of data clients\<close>

text \<open>\<open>chunks(MAX_HOLDER_IO_FRAME)\<close> of the replayed output.\<close>

fun chunks_of :: "nat \<Rightarrow> bytes \<Rightarrow> bytes list" where
  "chunks_of n bs = (if bs = [] \<or> n = 0 then [] else take n bs # chunks_of n (drop n bs))"

declare chunks_of.simps [simp del]

text \<open>The new writer of a session, of which the previous one is told.\<close>

definition claim_writer :: "'w os \<Rightarrow> raw_fd \<Rightarrow> u32 \<Rightarrow> ('w server, unit) handler" where
  "claim_writer os fd session_id =
     sget (\<lambda>s.
     sbind (sput (\<lambda>s. s\<lparr>sv_writers := hm_insert session_id fd (sv_writers s)\<rparr>)) (\<lambda>_.
     (case hm_get (sv_writers s) session_id of
        None \<Rightarrow> sret ()
      | Some previous \<Rightarrow>
          queue_or_disconnect os previous (writer_frame WriteRevoked session_id (generation s)))))"

text \<open>What a client that has been attached is sent.\<close>

definition send_attached :: "'w os \<Rightarrow> raw_fd \<Rightarrow> holder_frame \<Rightarrow> attach_request \<Rightarrow> ('w server, unit) handler" where
  "send_attached os fd frame request =
     (let session_id = ar_session_id request in
      sbind (send_response os fd frame AttachResp (response session_id Ok '''')) (\<lambda>_.
      sget (\<lambda>s.
      sbind (sunwrap (replay (sv_runtime s) session_id (unat (ar_replay_bytes request)))) (\<lambda>bytes.
      sbind (sfor (\<lambda>chunk. sget (\<lambda>s. queue_frame os fd (out_frame Output 0 (generation s) chunk)))
              (chunks_of MAX_HOLDER_IO_FRAME bytes)) (\<lambda>_.
      if ar_mode request = ReadWrite
      then sget (\<lambda>s. queue_frame os fd (writer_frame WriteGranted session_id (generation s)))
      else sret ())))))"

definition attach :: "'w os \<Rightarrow> raw_fd \<Rightarrow> holder_frame \<Rightarrow> ('w server, unit) handler" where
  "attach os fd frame =
     sbind (parsed ''Attach'' (decode_attach_request (fr_payload frame))) (\<lambda>request.
     let session_id = ar_session_id request in
     sget (\<lambda>s.
     if replay (sv_runtime s) session_id 0 = None
     then send_response os fd frame AttachResp (response session_id NotFound ''not found'')
     else
       sbind (sput (detach_connection fd)) (\<lambda>_.
       sbind (if ar_mode request = ReadWrite then claim_writer os fd session_id else sret ()) (\<lambda>_.
       sget (\<lambda>s.
       sbind (sunwrap (conn_get s fd)) (\<lambda>c.
       sbind (sput (conn_put fd (c\<lparr>cn_attached_session := Some session_id\<rparr>))) (\<lambda>_.
       send_attached os fd frame request)))))))"

definition require_writer :: "raw_fd \<Rightarrow> ('w server, u32) handler" where
  "require_writer fd =
     sget (\<lambda>s.
     sbind (sunwrap (conn_get s fd)) (\<lambda>c.
     (case cn_attached_session c of
        None \<Rightarrow> serr (InvalidArgument ''holder data client not attached'')
      | Some session_id \<Rightarrow>
          if hm_get (sv_writers s) session_id \<noteq> Some fd \<or> \<not> is_running (sv_runtime s) session_id
          then serr (InvalidArgument ''holder data client is not writer'')
          else sret session_id)))"

definition handle_input :: "'w os \<Rightarrow> raw_fd \<Rightarrow> holder_frame \<Rightarrow> ('w server, unit) handler" where
  "handle_input os fd frame =
     sbind (require_writer fd) (\<lambda>session_id.
     sbind (on_rs (queue_input os session_id (fr_payload frame))) (\<lambda>pending.
     sget (\<lambda>s. case pty_fd (sv_runtime s) session_id of
       None \<Rightarrow> sret ()
     | Some p \<Rightarrow> on_reactor (reactor_modify os p pending))))"

definition handle_data :: "'w os \<Rightarrow> raw_fd \<Rightarrow> holder_frame \<Rightarrow> ('w server, unit) handler" where
  "handle_data os fd frame =
     (case fr_message_type frame of
        Attach \<Rightarrow> attach os fd frame
      | Detach \<Rightarrow>
          if fr_payload frame = [] then sput (detach_connection fd)
          else serr (InvalidArgument ''invalid holder data request'')
      | Input \<Rightarrow> handle_input os fd frame
      | Resize \<Rightarrow>
          sbind (require_writer fd) (\<lambda>session_id.
          sbind (parsed ''Resize'' (decode_resize_request (fr_payload frame))) (\<lambda>request.
          on_rs (rt_resize os session_id request)))
      | Signal \<Rightarrow>
          sbind (require_writer fd) (\<lambda>session_id.
          sbind (parsed ''Signal'' (decode_signal_request (fr_payload frame))) (\<lambda>request.
          on_rs (rt_signal os session_id request)))
      | _ \<Rightarrow> serr (InvalidArgument ''invalid holder data request''))"

definition process_frame ::
    "'w os \<Rightarrow> json \<Rightarrow> raw_fd \<Rightarrow> u16 \<Rightarrow> holder_frame \<Rightarrow> ('w server, unit) handler" where
  "process_frame os js fd minor frame =
     sget (\<lambda>s.
     sbind (sunwrap (conn_get s fd)) (\<lambda>c.
     (case cn_role c of
        Pending \<Rightarrow> handle_hello os fd minor frame
      | Control \<Rightarrow> handle_control os js fd minor frame
      | Data \<Rightarrow>
          if minor \<noteq> cn_protocol_minor c
          then serr (InvalidArgument ''holder data protocol minor changed'')
          else handle_data os fd frame)))"

section \<open>Events\<close>

text \<open>\<open>process_frame\<close> for the frames of one read; the value tells whether all were accepted.\<close>

primrec process_frames ::
    "'w os \<Rightarrow> json \<Rightarrow> raw_fd \<Rightarrow> (u16 \<times> holder_frame) list \<Rightarrow> ('w server, bool) handler" where
  "process_frames os js fd [] = sret True"
| "process_frames os js fd (f # fs) =
     scatch (process_frame os js fd (fst f) (snd f)) (\<lambda>failed.
       if failed then sbind (disconnect os fd) (\<lambda>_. sret False)
       else process_frames os js fd fs)"

definition conn_read ::
    "'w os \<Rightarrow> raw_fd \<Rightarrow> ('w server, (persist_error + (u16 \<times> holder_frame) list \<times> bool)) handler" where
  "conn_read os fd s =
     (case conn_get s fd of
        None \<Rightarrow> Some (Panic, s)
      | Some c \<Rightarrow>
          (case read_frames os c (sv_world s) of
             None \<Rightarrow> None
           | Some (r, c', w) \<Rightarrow>
               Some (Ret r, conn_put fd c' (s\<lparr>sv_rs := (sv_rs s)\<lparr>rs_world := w\<rparr>\<rparr>))))"

definition conn_write :: "'w os \<Rightarrow> raw_fd \<Rightarrow> ('w server, bool) handler" where
  "conn_write os fd s =
     (case conn_get s fd of
        None \<Rightarrow> Some (Panic, s)
      | Some c \<Rightarrow>
          (case conn_flush (\<lambda>w bs. os_write os fd bs w) c (sv_world s) of
             None \<Rightarrow> Some (Panic, s)
           | Some (r, c', w) \<Rightarrow>
               sresult r (conn_put fd c' (s\<lparr>sv_rs := (sv_rs s)\<lparr>rs_world := w\<rparr>\<rparr>))))"

definition handle_connection ::
    "'w os \<Rightarrow> json \<Rightarrow> raw_fd \<Rightarrow> fd_events \<Rightarrow> ('w server, unit) handler" where
  "handle_connection os js fd ev =
     sbind (if ev_in ev then conn_read os fd else sret (Inr ([], False))) (\<lambda>r.
     (case r of
        Inl e \<Rightarrow> disconnect os fd
      | Inr (frames, peer_closed) \<Rightarrow>
          sbind (process_frames os js fd frames) (\<lambda>all.
          if \<not> all then sret ()
          else if ev_err ev \<or> ev_hup ev \<or> ev_rdhup ev \<or> peer_closed then disconnect os fd
          else
            sbind (if ev_out ev then conn_write os fd else sret True) (\<lambda>stays.
            if \<not> stays then disconnect os fd
            else sget (\<lambda>s. case conn_get s fd of
                   None \<Rightarrow> sret ()
                 | Some c \<Rightarrow> on_reactor (reactor_modify os fd (wants_write c)))))))"

definition publish_output :: "'w os \<Rightarrow> output_batch \<Rightarrow> ('w server, unit) handler" where
  "publish_output os batch =
     sget (\<lambda>s.
     let targets = map fst (filter (\<lambda>(_, c). cn_attached_session c = Some (ob_session_id batch))
           (sv_connections s))
     in
     sbind (sfor (\<lambda>chunk. sget (\<lambda>s.
         let frame = out_frame Output 0 (generation s) chunk
         in sfor (\<lambda>fd. queue_or_disconnect os fd frame) targets)) (ob_chunks batch)) (\<lambda>_.
     if 0 < ob_log_dropped batch
     then sget (\<lambda>s. send_control os (out_frame LogDegraded 0 (generation s)
            (encode_log_degraded \<lparr>ld_session_id = ob_session_id batch,
                                  ld_dropped_bytes = ob_log_dropped batch\<rparr>)))
     else sret ()))"

definition handle_pty :: "'w os \<Rightarrow> raw_fd \<Rightarrow> fd_events \<Rightarrow> ('w server, unit) handler" where
  "handle_pty os fd ev =
     sbind (if ev_in ev \<or> ev_hup ev \<or> ev_err ev
            then sbind (on_rs (drain_output os fd)) (publish_output os) else sret ()) (\<lambda>_.
     if ev_out ev
     then sget (\<lambda>s.
       sbind (sunwrap (session_for_pty (sv_runtime s) fd)) (\<lambda>session_id.
       sbind (on_rs (flush_input os session_id)) (\<lambda>pending.
       on_reactor (reactor_modify os fd pending))))
     else sret ())"

text \<open>What the daemon and the clients learn of one exited session.\<close>

definition announce_exit ::
    "'w os \<Rightarrow> json \<Rightarrow> exited_session \<Rightarrow> ('w server, unit) handler" where
  "announce_exit os js exited =
     sbind (on_reactor (\<lambda>re w. (Inr (), reactor_remove os (xs_pty_fd exited) re w))) (\<lambda>_.
     sbind (release_writer os (xs_session_id exited)) (\<lambda>_.
     sbind (parsed ''SessionExited'' (encode_session_exited_event
         \<lparr>se_session_id = xs_session_id exited, se_exit_code = xs_exit_code exited,
          se_cwd = xs_cwd exited\<rparr>)) (\<lambda>legacy_payload.
     sbind (parsed ''SessionExited v2'' (encode_session_exited_event_v2 (js_to_vec js)
         \<lparr>se2_session_id = xs_session_id exited, se2_exit_code = xs_exit_code exited,
          se2_cwd = xs_cwd exited, se2_environment = xs_environment exited\<rparr>)) (\<lambda>v2_payload.
     let exit_frame = (\<lambda>minor gen. out_frame SessionExited 0 gen
           (if minor = HOLDER_PROTOCOL_MINOR then v2_payload else legacy_payload))
     in
     sget (\<lambda>s.
     sbind (sfor (\<lambda>target. sget (\<lambda>s.
         sbind (sunwrap (conn_get s target)) (\<lambda>c.
         queue_or_disconnect os target (exit_frame (cn_protocol_minor c) (generation s)))))
       (map fst (filter (\<lambda>(_, c). cn_attached_session c = Some (xs_session_id exited))
          (sv_connections s)))) (\<lambda>_.
     sbind (if xs_closing exited then sput (detach_session (xs_session_id exited)) else sret ()) (\<lambda>_.
     sget (\<lambda>s. case sv_controller s of
       None \<Rightarrow> sret ()
     | Some ctl \<Rightarrow>
         queue_or_disconnect os (ct_fd ctl) (exit_frame (ct_protocol_minor ctl) (generation s))))))))))"

definition handle_signal :: "'w os \<Rightarrow> json \<Rightarrow> ('w server, bool) handler" where
  "handle_signal os js =
     sbind (sv_call (os_signal os)) (\<lambda>sig.
     (case sig of
        None \<Rightarrow> serr (IoError ''read holder signalfd'')
      | Some SigInt \<Rightarrow> sret True
      | Some SigTerm \<Rightarrow> sret True
      | Some SigChld \<Rightarrow>
          sget (\<lambda>s.
          sbind (sfor (\<lambda>fd. sbind (on_rs (drain_output os fd)) (publish_output os))
                  (pty_fds (sv_runtime s))) (\<lambda>_.
          sbind (on_rs (reap_exited os js)) (\<lambda>exited.
          sbind (sfor (announce_exit os js) exited) (\<lambda>_. sret False))))
      | Some SigOther \<Rightarrow> sret False))"

text \<open>The log worker has made some progress when its failures are taken.\<close>

definition log_progress :: "'w os \<Rightarrow> ('w rstate, unit) handler" where
  "log_progress os =
     sbind (rs_call (os_log_written os)) (\<lambda>written.
     sget (\<lambda>s.
     sbind (sunwrap (log_worker_run written (rs_logs s))) (\<lambda>lw.
     sput (\<lambda>s. s\<lparr>rs_logs := lw\<rparr>))))"

definition take_failures :: "('w rstate, (u32 \<times> u64) list) handler" where
  "take_failures =
     sget (\<lambda>s. case log_take_failures (rs_logs s) of (failures, lw) \<Rightarrow>
       sbind (sput (\<lambda>s. s\<lparr>rs_logs := lw\<rparr>)) (\<lambda>_. sret failures))"

definition handle_log_failures :: "'w os \<Rightarrow> ('w server, unit) handler" where
  "handle_log_failures os =
     sbind (on_rs (log_progress os)) (\<lambda>_.
     sbind (on_rs take_failures) (\<lambda>failures.
     sfor (\<lambda>(session_id, dropped).
       sbind (on_rs (rt_update (mark_log_failed session_id))) (\<lambda>_.
       sget (\<lambda>s. send_control os (out_frame LogDegraded 0 (generation s)
         (encode_log_degraded \<lparr>ld_session_id = session_id, ld_dropped_bytes = dropped\<rparr>)))))
       failures))"

partial_function (option) accept_connections ::
    "'w os \<Rightarrow> 'w server \<Rightarrow> (unit res \<times> 'w server) option" where
  "accept_connections os s =
     (case os_accept os (sv_world s) of (r, w) \<Rightarrow>
      let s = s\<lparr>sv_rs := (sv_rs s)\<lparr>rs_world := w\<rparr>\<rparr> in
      (case r of
         NoPeer \<Rightarrow> Some (Ret (), s)
       | AcceptFailed \<Rightarrow> Some (Err (IoError ''accept holder connection''), s)
       | Peer fd pid uid \<Rightarrow>
           if uid \<noteq> os_uid os
           then Some (Err (InvalidArgument ''holder peer uid does not match''),
                  s\<lparr>sv_rs := (sv_rs s)\<lparr>rs_world := os_close os fd (sv_world s)\<rparr>\<rparr>)
           else
             (case reactor_add os fd False (sv_reactor s) (sv_world s) of
                (Inl e, re, w) \<Rightarrow>
                  Some (Err e, s\<lparr>sv_reactor := re,
                                 sv_rs := (sv_rs s)\<lparr>rs_world := os_close os fd w\<rparr>\<rparr>)
              | (Inr _, re, w) \<Rightarrow>
                  accept_connections os (conn_put fd (connection_new fd pid uid)
                    (s\<lparr>sv_reactor := re, sv_rs := (sv_rs s)\<lparr>rs_world := w\<rparr>\<rparr>)))))"

section \<open>The loop\<close>

text \<open>One event; the value tells whether the loop ends.\<close>

definition handle_event ::
    "'w os \<Rightarrow> json \<Rightarrow> u64 \<times> fd_events \<Rightarrow> ('w server, bool) handler" where
  "handle_event os js event =
     sget (\<lambda>s. case fd_for_token (sv_reactor s) (fst event) of
       None \<Rightarrow> sret False
     | Some fd \<Rightarrow>
         if fd = sv_listener_fd s then sret False
         else if fd = sv_signal_fd s then handle_signal os js
         else if fd = sv_log_fd s then sbind (handle_log_failures os) (\<lambda>_. sret False)
         else if session_for_pty (sv_runtime s) fd \<noteq> None
         then sbind (handle_pty os fd (snd event)) (\<lambda>_. sret False)
         else if conn_get s fd \<noteq> None
         then sbind (handle_connection os js fd (snd event)) (\<lambda>_. sret False)
         else sret False)"

primrec handle_events ::
    "'w os \<Rightarrow> json \<Rightarrow> (u64 \<times> fd_events) list \<Rightarrow> ('w server, bool) handler" where
  "handle_events os js [] = sret False"
| "handle_events os js (e # es) =
     sbind (handle_event os js e) (\<lambda>stop. if stop then sret True else handle_events os js es)"

definition shutting_down :: "'w server \<Rightarrow> bool" where
  "shutting_down s =
     (case sv_shutdown_fd s of
        None \<Rightarrow> False
      | Some fd \<Rightarrow> (case conn_get s fd of None \<Rightarrow> True | Some c \<Rightarrow> \<not> wants_write c))"

text \<open>One round of \<open>run\<close> for the events that epoll reported; the value \<open>True\<close> is \<open>return Ok(())\<close>.\<close>

definition run_round ::
    "'w os \<Rightarrow> json \<Rightarrow> (u64 \<times> fd_events) list \<Rightarrow> ('w server, bool) handler" where
  "run_round os js events =
     sget (\<lambda>s.
     let accept_ready = list_ex (\<lambda>e. fd_for_token (sv_reactor s) (fst e) = Some (sv_listener_fd s)) events
     in
     sbind (handle_events os js events) (\<lambda>stop.
     if stop then sret True
     else
       sbind (if accept_ready then accept_connections os else sret ()) (\<lambda>_.
       sget (\<lambda>s. sret (shutting_down s)))))"

primrec run_rounds ::
    "'w os \<Rightarrow> json \<Rightarrow> (u64 \<times> fd_events) list list \<Rightarrow> ('w server, bool) handler" where
  "run_rounds os js [] = sret False"
| "run_rounds os js (es # ess) =
     sbind (run_round os js es) (\<lambda>stop. if stop then sret True else run_rounds os js ess)"

definition server_new ::
    "'w os \<Rightarrow> raw_fd \<Rightarrow> raw_fd \<Rightarrow> raw_fd \<Rightarrow> bytes \<Rightarrow> rstring \<Rightarrow> 'w
      \<Rightarrow> (persist_error + unit) \<times> 'w server" where
  "server_new os listener signal log instance_id state_dir w =
     (case reactor_add os listener False reactor_new w of (r1, re, w) \<Rightarrow>
      case (case r1 of Inl e \<Rightarrow> (Inl e, re, w) | Inr _ \<Rightarrow> reactor_add os signal False re w) of
        (r2, re, w) \<Rightarrow>
      case (case r2 of Inl e \<Rightarrow> (Inl e, re, w) | Inr _ \<Rightarrow> reactor_add os log False re w) of
        (r3, re, w) \<Rightarrow>
      (r3, \<lparr>sv_rs = \<lparr>rs_runtime = runtime_new state_dir, rs_logs = log_worker_start, rs_world = w\<rparr>,
            sv_reactor = re, sv_connections = [], sv_writers = [], sv_controller = None,
            sv_instance_id = instance_id, sv_shutdown_fd = None, sv_listener_fd = listener,
            sv_signal_fd = signal, sv_log_fd = log\<rparr>))"

end
