(* ===== verification/Holder_Server_Inv.thy ===== *)
theory Holder_Server_Inv
  imports Holder_Server
begin

text \<open>
  The invariant of the holder's server, and the operations that change connections: queueing
  a frame and disconnecting. \<open>sv_step D s s'\<close> says that from \<open>s\<close> to \<open>s'\<close> exactly the connections \<open>D\<close>
  went away, with the writers they held, and the controller if it was among them; all other
  connections keep their role, session, peer and protocol version, and the sessions
  themselves are untouched. Every broadcast of the server is such a step.
\<close>

section \<open>Invariant\<close>

definition conn_ok :: "raw_fd \<Rightarrow> connection \<Rightarrow> bool" where
  "conn_ok fd c \<longleftrightarrow> cn_peer_fd c = fd \<and> bq_inv MAX_PENDING_OUTPUT (cn_queue c)
     \<and> (cn_attached_session c \<noteq> None \<longrightarrow> cn_role c = Data)
     \<and> is_ok (validate_minor (cn_protocol_minor c))"

definition special_fds :: "'w server \<Rightarrow> raw_fd set" where
  "special_fds s = {sv_listener_fd s, sv_signal_fd s, sv_log_fd s}"

text \<open>Descriptors: connections, PTYs and the three of the server itself are disjoint and open, and
  only they are registered, apart from the exceptions \<open>X\<close>.\<close>

definition sv_fds_ok :: "('w \<Rightarrow> raw_fd set) \<Rightarrow> raw_fd set \<Rightarrow> 'w server \<Rightarrow> bool" where
  "sv_fds_ok op X s \<longleftrightarrow>
     (\<forall>fd. conn_get s fd \<noteq> None \<longrightarrow>
        fd \<in> op (sv_world s) \<and> fd \<notin> set (pty_fds (sv_runtime s)) \<and> fd \<notin> special_fds s)
     \<and> special_fds s \<subseteq> op (sv_world s) \<and> special_fds s \<inter> set (pty_fds (sv_runtime s)) = {}
     \<and> (\<forall>fd. hm_get (re_tokens (sv_reactor s)) fd \<noteq> None \<longrightarrow>
          fd \<in> set (pty_fds (sv_runtime s)) \<or> conn_get s fd \<noteq> None \<or> fd \<in> special_fds s \<or> fd \<in> X)"

text \<open>A writer is a data connection attached to its session, apart from the exceptions \<open>W\<close>.\<close>

definition writers_ok :: "(u32 \<times> raw_fd) set \<Rightarrow> 'w server \<Rightarrow> bool" where
  "writers_ok W s \<longleftrightarrow>
     (\<forall>sid fd. hm_get (sv_writers s) sid = Some fd \<longrightarrow>
        (\<exists>c. conn_get s fd = Some c \<and> cn_role c = Data
           \<and> (cn_attached_session c = Some sid \<or> (sid, fd) \<in> W)))"

text \<open>There is one control connection, that of the controller.\<close>

definition controller_ok :: "'w server \<Rightarrow> bool" where
  "controller_ok s \<longleftrightarrow>
     (\<forall>ctl. sv_controller s = Some ctl \<longrightarrow> is_ok (validate_minor (ct_protocol_minor ctl))
        \<and> (\<exists>c. conn_get s (ct_fd ctl) = Some c \<and> cn_role c = Control))
     \<and> (\<forall>fd c. conn_get s fd = Some c \<longrightarrow> cn_role c = Control \<longrightarrow>
          (\<exists>ctl. sv_controller s = Some ctl \<and> ct_fd ctl = fd))"

definition sv_core ::
    "json \<Rightarrow> ('w \<Rightarrow> raw_fd set) \<Rightarrow> (u32 \<times> raw_fd) set \<Rightarrow> raw_fd set \<Rightarrow> 'w server \<Rightarrow> bool" where
  "sv_core js op W X s \<longleftrightarrow>
     rs_at js op (set (pty_fds (sv_runtime s))) (op (sv_world s)) (sv_rs s)
     \<and> hm_wf (sv_connections s) \<and> hm_wf (sv_writers s)
     \<and> (\<forall>fd c. conn_get s fd = Some c \<longrightarrow> conn_ok fd c)
     \<and> sv_fds_ok op X s \<and> writers_ok W s \<and> controller_ok s"

text \<open>Data connections exist only while there is a controller.\<close>

definition sv_inv ::
    "json \<Rightarrow> ('w \<Rightarrow> raw_fd set) \<Rightarrow> (u32 \<times> raw_fd) set \<Rightarrow> raw_fd set \<Rightarrow> 'w server \<Rightarrow> bool" where
  "sv_inv js op W X s \<longleftrightarrow> sv_core js op W X s
     \<and> (\<forall>fd c. conn_get s fd = Some c \<longrightarrow> cn_role c = Data \<longrightarrow> sv_controller s \<noteq> None)"

lemma sv_inv_core: "sv_inv js op W X s \<Longrightarrow> sv_core js op W X s"
  by (simp add: sv_inv_def)

section \<open>Steps\<close>

definition links :: "connection \<Rightarrow> connection_role \<times> u32 option \<times> u16 \<times> u32 \<times> u32" where
  "links c = (cn_role c, cn_attached_session c, cn_protocol_minor c, cn_peer_pid c, cn_peer_uid c)"

lemma links_set_queue [simp]: "links (cn_set_queue q c) = links c"
  by (simp add: links_def cn_set_queue_def)

definition sv_step :: "raw_fd set \<Rightarrow> 'w server \<Rightarrow> 'w server \<Rightarrow> bool" where
  "sv_step D s s' \<longleftrightarrow> sv_runtime s' = sv_runtime s
     \<and> sv_instance_id s' = sv_instance_id s \<and> sv_shutdown_fd s' = sv_shutdown_fd s
     \<and> special_fds s' = special_fds s
     \<and> (\<forall>fd. map_option links (conn_get s' fd) =
          (if fd \<in> D then None else map_option links (conn_get s fd)))
     \<and> (\<forall>sid. hm_get (sv_writers s') sid = hm_get (sv_writers s) sid
          \<or> hm_get (sv_writers s') sid = None \<and> (\<exists>fd \<in> D. hm_get (sv_writers s) sid = Some fd))
     \<and> (sv_controller s' = sv_controller s
        \<or> sv_controller s' = None \<and> (\<exists>ctl. sv_controller s = Some ctl \<and> ct_fd ctl \<in> D))"

lemma sv_stepD:
  assumes "sv_step D s s'"
  shows "sv_runtime s' = sv_runtime s" "sv_instance_id s' = sv_instance_id s"
    "sv_shutdown_fd s' = sv_shutdown_fd s" "special_fds s' = special_fds s"
    "map_option links (conn_get s' fd) = (if fd \<in> D then None else map_option links (conn_get s fd))"
    "hm_get (sv_writers s') sid = hm_get (sv_writers s) sid
      \<or> hm_get (sv_writers s') sid = None \<and> (\<exists>fd \<in> D. hm_get (sv_writers s) sid = Some fd)"
    "sv_controller s' = sv_controller s
      \<or> sv_controller s' = None \<and> (\<exists>ctl. sv_controller s = Some ctl \<and> ct_fd ctl \<in> D)"
  using assms unfolding sv_step_def by blast+

lemma sv_step_writer:
  assumes "sv_step D s s'"
  shows "hm_get (sv_writers s') sid = Some fd \<Longrightarrow> hm_get (sv_writers s) sid = Some fd"
    and "hm_get (sv_writers s) sid = Some fd \<Longrightarrow> fd \<notin> D \<Longrightarrow> hm_get (sv_writers s') sid = Some fd"
  using sv_stepD(6)[OF assms, of sid] by auto

lemma sv_step_refl: "sv_step {} s s"
  by (simp add: sv_step_def)

lemma sv_step_trans:
  assumes "sv_step D s s'" and "sv_step D' s' s''"
  shows "sv_step (D \<union> D') s s''"
  unfolding sv_step_def
proof (intro conjI allI)
  note a = sv_stepD[OF assms(1)] and b = sv_stepD[OF assms(2)]
  show "map_option links (conn_get s'' fd) =
      (if fd \<in> D \<union> D' then None else map_option links (conn_get s fd))" for fd
    unfolding b(5) a(5) by simp
  show "hm_get (sv_writers s'') sid = hm_get (sv_writers s) sid
      \<or> hm_get (sv_writers s'') sid = None \<and> (\<exists>fd \<in> D \<union> D'. hm_get (sv_writers s) sid = Some fd)" for sid
    using a(6)[of sid] b(6)[of sid] by (metis UnCI)
  show "sv_controller s'' = sv_controller s
      \<or> sv_controller s'' = None \<and> (\<exists>ctl. sv_controller s = Some ctl \<and> ct_fd ctl \<in> D \<union> D')"
  proof (cases "sv_controller s' = sv_controller s")
    case True
    then show ?thesis
      using b(7) unfolding True by blast
  next
    case False
    then have "sv_controller s' = None" "\<exists>ctl. sv_controller s = Some ctl \<and> ct_fd ctl \<in> D"
      using a(7) by auto
    then show ?thesis
      using b(7) by auto
  qed
qed (simp_all only: sv_stepD(1-4)[OF assms(1)] sv_stepD(1-4)[OF assms(2)])

lemma sv_step_no_controller:
  assumes "sv_step D s s'" and "sv_controller s = Some ctl" and "ct_fd ctl \<in> D"
  shows "sv_step D s (s'\<lparr>sv_controller := None\<rparr>)"
  using assms by (simp add: sv_step_def special_fds_def conn_get_def)

lemma sv_step_get:
  assumes "sv_step D s s'" and "conn_get s fd = Some c" and "fd \<notin> D"
  shows "\<exists>c'. conn_get s' fd = Some c' \<and> links c' = links c"
  using assms unfolding sv_step_def by (metis (no_types, lifting) map_option_eq_Some option.simps(9))

lemma sv_step_back:
  assumes "sv_step D s s'" and "conn_get s' fd = Some c'"
  shows "fd \<notin> D \<and> (\<exists>c. conn_get s fd = Some c \<and> links c = links c')"
  using assms unfolding sv_step_def
  by (metis (no_types, lifting) map_option_eq_Some option.distinct(1) option.simps(9))

lemma sv_step_gone: "sv_step D s s' \<Longrightarrow> fd \<in> D \<Longrightarrow> conn_get s' fd = None"
  unfolding sv_step_def by (metis option.map_disc_iff)

lemma sv_step_none: "sv_step D s s' \<Longrightarrow> conn_get s fd = None \<Longrightarrow> conn_get s' fd = None"
  unfolding sv_step_def by (metis option.map_disc_iff)

section \<open>Rules for the combinators\<close>

lemma wp_on_rs [wp]:
  "ends Q E (on_rs m s) =
   ends (\<lambda>x rs. Q x (s\<lparr>sv_rs := rs\<rparr>)) (\<lambda>rs. E (s\<lparr>sv_rs := rs\<rparr>)) (m (sv_rs s))"
  by (auto simp: on_rs_def ends_def split: option.splits res.splits)

lemma wp_sv_call [wp]:
  "ends Q E (sv_call f s) =
   (case f (sv_world s) of (x, w) \<Rightarrow> Q x (s\<lparr>sv_rs := (sv_rs s)\<lparr>rs_world := w\<rparr>\<rparr>))"
  by (simp add: sv_call_def wp)

lemma wp_on_reactor [wp]:
  "ends Q E (on_reactor f s) =
   (case f (sv_reactor s) (sv_world s) of (r, re, w) \<Rightarrow>
     (case r of
        Inl e \<Rightarrow> E (s\<lparr>sv_reactor := re, sv_rs := (sv_rs s)\<lparr>rs_world := w\<rparr>\<rparr>)
      | Inr x \<Rightarrow> Q x (s\<lparr>sv_reactor := re, sv_rs := (sv_rs s)\<lparr>rs_world := w\<rparr>\<rparr>)))"
  by (simp add: on_reactor_def wp split: prod.splits sum.splits)

lemma wp_parsed [wp]:
  "ends Q E (parsed context r s) = (case r of Inl e \<Rightarrow> E s | Inr x \<Rightarrow> Q x s)"
  by (cases r) (simp_all add: parsed_def wp)

lemma conn_get_put [simp]:
  "conn_get (conn_put fd c s) fd' = (if fd' = fd then Some c else conn_get s fd')"
  "sv_rs (conn_put fd c s) = sv_rs s" "sv_reactor (conn_put fd c s) = sv_reactor s"
  "sv_writers (conn_put fd c s) = sv_writers s" "sv_controller (conn_put fd c s) = sv_controller s"
  "sv_instance_id (conn_put fd c s) = sv_instance_id s"
  "sv_shutdown_fd (conn_put fd c s) = sv_shutdown_fd s" "special_fds (conn_put fd c s) = special_fds s"
  "hm_wf (sv_connections s) \<Longrightarrow> hm_wf (sv_connections (conn_put fd c s))"
  by (simp_all add: conn_get_def conn_put_def special_fds_def)

lemma server_simps [simp]:
  "conn_get (s\<lparr>sv_rs := a\<rparr>) = conn_get s" "conn_get (s\<lparr>sv_reactor := b\<rparr>) = conn_get s"
  "conn_get (s\<lparr>sv_writers := wr\<rparr>) = conn_get s" "conn_get (s\<lparr>sv_controller := d\<rparr>) = conn_get s"
  "conn_get (s\<lparr>sv_shutdown_fd := e\<rparr>) = conn_get s"
  "special_fds (s\<lparr>sv_rs := a\<rparr>) = special_fds s" "special_fds (s\<lparr>sv_reactor := b\<rparr>) = special_fds s"
  "special_fds (s\<lparr>sv_writers := wr\<rparr>) = special_fds s" "special_fds (s\<lparr>sv_controller := d\<rparr>) = special_fds s"
  "special_fds (s\<lparr>sv_shutdown_fd := e\<rparr>) = special_fds s"
  "special_fds (s\<lparr>sv_connections := f\<rparr>) = special_fds s"
  by (simp_all add: conn_get_def special_fds_def fun_eq_iff)

lemma conn_get_connections [simp]:
  "conn_get (s\<lparr>sv_connections := m\<rparr>) = hm_get m" "hm_get (sv_connections s) = conn_get s"
  by (simp_all add: conn_get_def fun_eq_iff)

section \<open>Detaching and dropping\<close>

lemma detach_simps [simp]:
  "sv_rs (detach_connection fd s) = sv_rs s" "sv_reactor (detach_connection fd s) = sv_reactor s"
  "sv_controller (detach_connection fd s) = sv_controller s"
  "sv_instance_id (detach_connection fd s) = sv_instance_id s"
  "sv_shutdown_fd (detach_connection fd s) = sv_shutdown_fd s"
  "special_fds (detach_connection fd s) = special_fds s"
  "conn_get (detach_connection fd s) fd' =
    (if fd' = fd then map_option (\<lambda>c. c\<lparr>cn_attached_session := None\<rparr>) (conn_get s fd) else conn_get s fd')"
  by (auto simp: detach_connection_def Let_def split: option.splits)

lemma detach_writers:
  "hm_get (sv_writers (detach_connection fd s)) sid =
    (if hm_get (sv_writers s) sid = Some fd
        \<and> Option.bind (conn_get s fd) cn_attached_session = Some sid
     then None else hm_get (sv_writers s) sid)"
  by (auto simp: detach_connection_def Let_def split: option.splits)

lemma detach_wf [simp]:
  "hm_wf (sv_connections s) \<Longrightarrow> hm_wf (sv_connections (detach_connection fd s))"
  "hm_wf (sv_writers s) \<Longrightarrow> hm_wf (sv_writers (detach_connection fd s))"
  by (auto simp: detach_connection_def conn_put_def Let_def split: option.splits)

text \<open>What \<open>disconnect\<close> does before it looks at the controller.\<close>

definition dropped :: "'w os \<Rightarrow> raw_fd \<Rightarrow> 'w server \<Rightarrow> 'w server" where
  "dropped os fd s =
     (case reactor_remove os fd (sv_reactor s) (sv_world s) of (re, w) \<Rightarrow>
      (let s = detach_connection fd (s\<lparr>sv_reactor := re, sv_rs := (sv_rs s)\<lparr>rs_world := w\<rparr>\<rparr>)
       in (case conn_get s fd of
             None \<Rightarrow> s
           | Some c \<Rightarrow> s\<lparr>sv_rs := (sv_rs s)\<lparr>rs_world := os_close os fd (sv_world s)\<rparr>,
                         sv_connections := hm_remove fd (sv_connections s)\<rparr>)))"

definition is_controller :: "'w server \<Rightarrow> raw_fd \<Rightarrow> bool" where
  "is_controller s fd \<longleftrightarrow> (case sv_controller s of None \<Rightarrow> False | Some c \<Rightarrow> ct_fd c = fd)"

lemma is_controller_iff: "is_controller s fd \<longleftrightarrow> (\<exists>ctl. sv_controller s = Some ctl \<and> ct_fd ctl = fd)"
  by (auto simp: is_controller_def split: option.splits)

definition data_fds :: "'w server \<Rightarrow> raw_fd list" where
  "data_fds s = map fst (filter (\<lambda>(_, c). cn_role c = Data) (sv_connections s))"

lemma ends_disconnect:
  "ends Q E (disconnect_n (Suc n) os fd s) =
   (let s1 = dropped os fd s in
    if is_controller s1 fd
    then ends Q E (sfor (disconnect_n n os) (data_fds (s1\<lparr>sv_controller := None\<rparr>))
           (s1\<lparr>sv_controller := None\<rparr>))
    else Q () s1)"
  by (simp add: wp dropped_def drop_connection_def is_controller_def data_fds_def Let_def
      split: prod.splits option.splits)

lemma ends_disconnect_top:
  "ends Q E (disconnect os fd s) =
   (let s1 = dropped os fd s in
    if is_controller s1 fd
    then ends Q E (sfor (disconnect_n (Suc 0) os) (data_fds (s1\<lparr>sv_controller := None\<rparr>))
           (s1\<lparr>sv_controller := None\<rparr>))
    else Q () s1)"
  by (simp only: disconnect_def numeral_2_eq_2 ends_disconnect)

lemma dropped_simps [simp]:
  "sv_controller (dropped os fd s) = sv_controller s" "sv_instance_id (dropped os fd s) = sv_instance_id s"
  "sv_shutdown_fd (dropped os fd s) = sv_shutdown_fd s" "special_fds (dropped os fd s) = special_fds s"
  "sv_runtime (dropped os fd s) = sv_runtime s" "rs_logs (sv_rs (dropped os fd s)) = rs_logs (sv_rs s)"
  "conn_get (dropped os fd s) fd' = (if fd' = fd then None else conn_get s fd')"
  "hm_wf (sv_writers s) \<Longrightarrow> hm_wf (sv_writers (dropped os fd s))"
  "hm_get (re_tokens (sv_reactor (dropped os fd s))) t =
    (if t = fd then None else hm_get (re_tokens (sv_reactor s)) t)"
  using reactor_remove_tokens(2)[of os fd "sv_reactor s" "sv_world s" t]
  by (auto simp: dropped_def Let_def split: prod.splits option.splits)

lemma dropped_is_controller [simp]: "is_controller (dropped os fd s) f = is_controller s f"
  by (simp add: is_controller_def)

lemma dropped_wf [simp]:
  "hm_wf (sv_connections s) \<Longrightarrow> hm_wf (sv_connections (dropped os fd s))"
  using detach_wf(1)[of "s\<lparr>sv_reactor := a, sv_rs := b\<rparr>" fd for a b]
  by (auto simp: dropped_def Let_def split: prod.splits option.splits)

lemma dropped_writers:
  "hm_get (sv_writers (dropped os fd s)) sid =
    (if hm_get (sv_writers s) sid = Some fd
        \<and> Option.bind (conn_get s fd) cn_attached_session = Some sid
     then None else hm_get (sv_writers s) sid)"
  by (auto simp: dropped_def Let_def detach_writers split: prod.splits option.splits)

lemma dropped_world:
  assumes "os_ok os op"
  shows "op (sv_world (dropped os fd s)) =
    (if conn_get s fd = None then op (sv_world s) else op (sv_world s) - {fd})"
proof -
  have "op w' = op w" if "reactor_remove os fd re w = (re', w')" for re re' w w'
  proof -
    obtain ok w1 where ctl: "os_epoll_ctl os CtlDel fd 0 w = (ok, w1)"
      by (cases "os_epoll_ctl os CtlDel fd 0 w")
    then show ?thesis
      using that os_fds(11)[OF assms ctl] by (simp add: reactor_remove_def)
  qed
  then show ?thesis
    by (auto simp: dropped_def Let_def os_fds(14)[OF assms] split: prod.splits option.splits)
qed

section \<open>Disconnecting\<close>

lemma rs_at_self:
  "rs_at js op (set (pty_fds (rs_runtime rs))) (op (rs_world rs)) rs \<longleftrightarrow>
   rt_inv js (rs_runtime rs) \<and> lw_inv (rs_logs rs) \<and> set (pty_fds (rs_runtime rs)) \<subseteq> op (rs_world rs)"
  by (simp add: rs_at_def)

lemma sv_coreD:
  assumes "sv_core js op W X s"
  shows "rt_inv js (sv_runtime s)" "lw_inv (rs_logs (sv_rs s))"
    "set (pty_fds (sv_runtime s)) \<subseteq> op (sv_world s)"
    "hm_wf (sv_connections s)" "hm_wf (sv_writers s)"
    "conn_get s fd = Some c \<Longrightarrow> conn_ok fd c"
    "sv_fds_ok op X s" "writers_ok W s" "controller_ok s"
  using assms by (auto simp: sv_core_def rs_at_self)

lemma sv_coreI:
  assumes "rt_inv js (sv_runtime s)" "lw_inv (rs_logs (sv_rs s))"
    "set (pty_fds (sv_runtime s)) \<subseteq> op (sv_world s)"
    "hm_wf (sv_connections s)" "hm_wf (sv_writers s)"
    "\<And>fd c. conn_get s fd = Some c \<Longrightarrow> conn_ok fd c"
    "sv_fds_ok op X s" "writers_ok W s" "controller_ok s"
  shows "sv_core js op W X s"
  using assms by (simp add: sv_core_def rs_at_self)

lemma dropped_fds:
  assumes "os_ok os op" and "sv_fds_ok op X s"
  shows "sv_fds_ok op X (dropped os fd s)"
  using assms(2) unfolding sv_fds_ok_def by (auto simp: dropped_world[OF assms(1)])

lemma dropped_writers_ok:
  assumes "writers_ok W s" and "\<forall>p \<in> W. snd p \<noteq> fd"
  shows "writers_ok W (dropped os fd s)"
  unfolding writers_ok_def
proof (intro allI impI)
  fix sid f
  assume w: "hm_get (sv_writers (dropped os fd s)) sid = Some f"
  then have ws: "hm_get (sv_writers s) sid = Some f"
    by (auto simp: dropped_writers split: if_splits)
  then obtain c where c: "conn_get s f = Some c" "cn_role c = Data"
    "cn_attached_session c = Some sid \<or> (sid, f) \<in> W"
    using assms(1) unfolding writers_ok_def by blast
  have "f \<noteq> fd"
  proof
    assume "f = fd"
    with c assms(2) have "Option.bind (conn_get s fd) cn_attached_session = Some sid"
      by auto
    with w ws \<open>f = fd\<close> show False
      by (simp add: dropped_writers)
  qed
  with c show "\<exists>c. conn_get (dropped os fd s) f = Some c \<and> cn_role c = Data
      \<and> (cn_attached_session c = Some sid \<or> (sid, f) \<in> W)"
    by simp
qed

lemma dropped_step:
  "sv_step {fd} s (dropped os fd s)"
  by (auto simp: sv_step_def dropped_writers split: if_splits)

lemma dropped_core:
  assumes "os_ok os op" and "sv_core js op W X s" and "\<forall>p \<in> W. snd p \<noteq> fd"
    and "\<not> is_controller s fd"
  shows "sv_core js op W X (dropped os fd s)"
proof (rule sv_coreI)
  note core = sv_coreD[OF assms(2)]
  show "set (pty_fds (sv_runtime (dropped os fd s))) \<subseteq> op (sv_world (dropped os fd s))"
    using core(3,7) by (auto simp: dropped_world[OF assms(1)] sv_fds_ok_def)
  show "controller_ok (dropped os fd s)"
    using core(9) assms(4) by (auto simp: controller_ok_def is_controller_def split: option.splits)
  show "conn_ok fd' c" if "conn_get (dropped os fd s) fd' = Some c" for fd' c
    using that core(6) by (auto split: if_splits)
qed (use sv_coreD[OF assms(2)] dropped_fds[OF assms(1)] dropped_writers_ok[OF _ assms(3)] in auto)

lemma dropped_controller:
  assumes "os_ok os op" and "sv_core js op W X s" and "\<forall>p \<in> W. snd p \<noteq> fd"
    and "is_controller s fd"
  shows "sv_core js op W X (dropped os fd s\<lparr>sv_controller := None\<rparr>)"
    "sv_step {fd} s (dropped os fd s\<lparr>sv_controller := None\<rparr>)"
proof -
  note core = sv_coreD[OF assms(2)]
  obtain ctl where ctl: "sv_controller s = Some ctl" "ct_fd ctl = fd"
    using assms(4) by (auto simp: is_controller_def split: option.splits)
  show "sv_core js op W X (dropped os fd s\<lparr>sv_controller := None\<rparr>)"
  proof (rule sv_coreI)
    show "set (pty_fds (sv_runtime (dropped os fd s\<lparr>sv_controller := None\<rparr>)))
        \<subseteq> op (sv_world (dropped os fd s\<lparr>sv_controller := None\<rparr>))"
      using core(3,7) by (auto simp: dropped_world[OF assms(1)] sv_fds_ok_def)
    show "controller_ok (dropped os fd s\<lparr>sv_controller := None\<rparr>)"
      using core(9) ctl by (auto simp: controller_ok_def)
    show "conn_ok fd' c" if "conn_get (dropped os fd s\<lparr>sv_controller := None\<rparr>) fd' = Some c" for fd' c
      using that core(6) by (auto split: if_splits)
    show "sv_fds_ok op X (dropped os fd s\<lparr>sv_controller := None\<rparr>)"
      using dropped_fds[OF assms(1) core(7)] by (simp add: sv_fds_ok_def)
    show "writers_ok W (dropped os fd s\<lparr>sv_controller := None\<rparr>)"
      using dropped_writers_ok[OF core(8) assms(3)] by (simp add: writers_ok_def)
  qed (use core in auto)
  show "sv_step {fd} s (dropped os fd s\<lparr>sv_controller := None\<rparr>)"
    using ctl by (intro sv_step_no_controller[OF dropped_step]) simp_all
qed

lemma disconnect_list:
  assumes "os_ok os op" and "sv_core js op {} X s" and "sv_controller s = None"
  shows "ends (\<lambda>_ s'. sv_core js op {} X s' \<and> sv_step (set fds) s s') (\<lambda>_. False)
    (sfor (disconnect_n (Suc n) os) fds s)"
  using assms(2,3)
proof (induction fds arbitrary: s)
  case Nil
  then show ?case by (simp add: wp sv_step_refl)
next
  case (Cons fd fds)
  let ?s = "dropped os fd s"
  have one: "sv_core js op {} X ?s" "sv_step {fd} s ?s"
    using dropped_core[OF assms(1) Cons.prems(1)] dropped_step Cons.prems(2)
    by (auto simp: is_controller_def)
  have "ends (\<lambda>_ s'. sv_core js op {} X s' \<and> sv_step (set (fd # fds)) s s') (\<lambda>_. False)
      (sfor (disconnect_n (Suc n) os) fds ?s)"
    by (rule ends_mono[OF Cons.IH[OF one(1)]])
      (use Cons.prems(2) sv_step_trans[OF one(2)] in auto)
  then show ?case
    using Cons.prems(2)
    unfolding sfor.simps wp_bind ends_disconnect by (simp add: is_controller_def Let_def del: disconnect_n.simps)
qed

text \<open>The connections that go when \<open>fd\<close> is disconnected.\<close>

definition gone :: "'w server \<Rightarrow> raw_fd \<Rightarrow> raw_fd set" where
  "gone s fd = insert fd (if is_controller s fd
     then {f. \<exists>c. conn_get s f = Some c \<and> cn_role c = Data} else {})"

lemma data_fds_set:
  "hm_wf (sv_connections s) \<Longrightarrow> set (data_fds s) = {f. \<exists>c. conn_get s f = Some c \<and> cn_role c = Data}"
  by (auto simp: data_fds_def conn_get_def map_of_is_SomeI simp del: conn_get_connections
      dest: map_of_SomeD intro!: image_eqI)

lemma disconnect_ends:
  assumes "os_ok os op" and "sv_inv js op W X s"
    and "W = {} \<or> \<not> is_controller s fd \<and> (\<forall>p \<in> W. snd p \<noteq> fd)"
  shows "ends (\<lambda>_ s'. sv_inv js op W X s' \<and> sv_step (gone s fd) s s') (\<lambda>_. False) (disconnect os fd s)"
proof (cases "is_controller s fd")
  case False
  have "sv_core js op W X (dropped os fd s)"
    using dropped_core[OF assms(1) sv_inv_core[OF assms(2)]] False assms(3) by auto
  moreover have "sv_controller s \<noteq> None"
    if "conn_get (dropped os fd s) f = Some c" "cn_role c = Data" for f c
    using assms(2) that by (auto simp: sv_inv_def split: if_splits)
  ultimately show ?thesis
    using dropped_step[of fd s os] False
    by (simp add: ends_disconnect_top Let_def sv_inv_def gone_def)
next
  case True
  with assms(3) have W: "W = {}"
    by blast
  let ?s = "dropped os fd s\<lparr>sv_controller := None\<rparr>"
  note core = sv_inv_core[OF assms(2)]
  from dropped_controller[OF assms(1) core _ True] W have
    s1: "sv_core js op {} X ?s" "sv_step {fd} s ?s"
    by simp_all
  have set: "set (data_fds ?s) = {f. \<exists>c. conn_get ?s f = Some c \<and> cn_role c = Data}"
    by (rule data_fds_set) (rule sv_coreD(4)[OF s1(1)])
  have "{fd} \<union> set (data_fds ?s) = gone s fd"
    using True by (auto simp: set gone_def)
  then have step: "sv_step (gone s fd) s s'" if "sv_step (set (data_fds ?s)) ?s s'" for s'
    using sv_step_trans[OF s1(2) that] by simp
  have "\<exists>ctl. sv_controller s' = Some ctl"
    if st: "sv_step (set (data_fds ?s)) ?s s'" and c: "conn_get s' f = Some c" "cn_role c = Data" for s' f c
  proof -
    obtain c0 where "f \<notin> set (data_fds ?s)" "conn_get ?s f = Some c0" "links c0 = links c"
      using sv_step_back[OF st c(1)] by blast
    with c(2) show ?thesis
      by (auto simp: set links_def)
  qed
  with step have "ends (\<lambda>_ s'. sv_inv js op W X s' \<and> sv_step (gone s fd) s s') (\<lambda>_. False)
      (sfor (disconnect_n (Suc 0) os) (data_fds ?s) ?s)"
    by (intro ends_mono[OF disconnect_list[OF assms(1) s1(1)]]) (auto simp: sv_inv_def W)
  then show ?thesis
    using True by (simp add: ends_disconnect_top Let_def del: disconnect_n.simps)
qed

section \<open>Updating a connection\<close>

lemma sv_inv_put:
  assumes "sv_inv js op W X s" and "conn_get s fd = Some c" and "links c' = links c" and "conn_ok fd c'"
  shows "sv_inv js op W X (conn_put fd c' s)" "sv_step {} s (conn_put fd c' s)"
proof -
  note core = sv_coreD[OF sv_inv_core[OF assms(1)]]
  have l: "cn_role c' = cn_role c" "cn_attached_session c' = cn_attached_session c"
    "cn_protocol_minor c' = cn_protocol_minor c"
    using assms(3) by (simp_all add: links_def)
  have "sv_core js op W X (conn_put fd c' s)"
  proof (rule sv_coreI)
    show "sv_fds_ok op X (conn_put fd c' s)"
      using core(7) assms(2) unfolding sv_fds_ok_def by simp
    show "writers_ok W (conn_put fd c' s)"
      using core(8) assms(2) l unfolding writers_ok_def by simp (metis option.inject)
    show "controller_ok (conn_put fd c' s)"
      using core(9) assms(2) l unfolding controller_ok_def by simp (metis option.inject)
    show "conn_ok f d" if "conn_get (conn_put fd c' s) f = Some d" for f d
      using that core(6) assms(4) by (auto split: if_splits)
  qed (use core in auto)
  moreover have "sv_controller s \<noteq> None"
    if "conn_get (conn_put fd c' s) f = Some d" "cn_role d = Data" for f d
    using assms(1,2) that l by (auto simp: sv_inv_def split: if_splits)
  ultimately show "sv_inv js op W X (conn_put fd c' s)"
    by (simp add: sv_inv_def)
  show "sv_step {} s (conn_put fd c' s)"
    using assms(2,3) by (simp add: sv_step_def)
qed

text \<open>A system call that opens and closes nothing.\<close>

lemma sv_inv_io:
  assumes "sv_inv js op W X s" and "op w' = op (sv_world s)"
    and "\<And>fd. hm_get (re_tokens re') fd \<noteq> None \<Longrightarrow> hm_get (re_tokens (sv_reactor s)) fd \<noteq> None"
  shows "sv_inv js op W X (s\<lparr>sv_reactor := re', sv_rs := (sv_rs s)\<lparr>rs_world := w'\<rparr>\<rparr>)"
    "sv_step {} s (s\<lparr>sv_reactor := re', sv_rs := (sv_rs s)\<lparr>rs_world := w'\<rparr>\<rparr>)"
proof -
  note core = sv_coreD[OF sv_inv_core[OF assms(1)]]
  let ?s = "s\<lparr>sv_reactor := re', sv_rs := (sv_rs s)\<lparr>rs_world := w'\<rparr>\<rparr>"
  have "sv_core js op W X ?s"
  proof (rule sv_coreI)
    show "sv_fds_ok op X ?s"
      using core(7) assms(2,3) unfolding sv_fds_ok_def by (simp del: not_None_eq)
    show "writers_ok W ?s" "controller_ok ?s"
      using core(8,9) by (simp_all add: writers_ok_def controller_ok_def)
  qed (use core assms(2) in simp_all)
  then show "sv_inv js op W X ?s"
    using assms(1) by (simp add: sv_inv_def)
  show "sv_step {} s ?s"
    by (simp add: sv_step_def)
qed

lemma reactor_modify_world:
  assumes "os_ok os op" and "reactor_modify os fd b re w = (r, re', w')"
  shows "re' = re" "op w' = op w"
proof -
  show "re' = re"
    using reactor_modify_same[of os fd b re w] assms(2) by simp
  show "op w' = op w"
    using assms(2) os_fds(11)[OF assms(1)]
    by (auto simp: reactor_modify_def split: option.splits prod.splits)
qed

lemma modify_ends:
  assumes "os_ok os op" and "sv_inv js op W X s"
  shows "ends (\<lambda>_ s'. sv_inv js op W X s' \<and> sv_step {} s s') (\<lambda>s'. sv_inv js op W X s' \<and> sv_step {} s s')
    (on_reactor (reactor_modify os fd b) s)"
proof -
  obtain r re' w' where m: "reactor_modify os fd b (sv_reactor s) (sv_world s) = (r, re', w')"
    by (metis prod_cases3)
  note rw = reactor_modify_world[OF assms(1) m]
  show ?thesis
    using m sv_inv_io[OF assms(2), of w' re'] rw by (simp add: wp split: sum.splits)
qed

lemma queue_frame_ends:
  assumes "os_ok os op" and "sv_inv js op W X s"
  shows "ends (\<lambda>_ s'. sv_inv js op W X s' \<and> sv_step {} s s') (\<lambda>s'. sv_inv js op W X s' \<and> sv_step {} s s')
    (queue_frame os fd frame s)"
proof (cases "conn_get s fd")
  case None
  then show ?thesis
    using assms(2) by (simp add: queue_frame_def wp sv_step_refl)
next
  case (Some c)
  show ?thesis
  proof (cases "conn_queue c frame")
    case (Inl e)
    then show ?thesis
      using assms(2) Some by (simp add: queue_frame_def wp sv_step_refl)
  next
    case (Inr c')
    have ok: "conn_ok fd c"
      using sv_coreD(6)[OF sv_inv_core[OF assms(2)] Some] .
    then have "bq_inv MAX_PENDING_OUTPUT (cn_queue c)"
      by (simp add: conn_ok_def)
    from conn_queue_ok[OF this Inr] have "links c' = links c" "conn_ok fd c'"
      using ok by (auto simp: conn_ok_def)
    note put = sv_inv_put[OF assms(2) Some this]
    show ?thesis
      using Some Inr ends_mono[OF modify_ends[OF assms(1) put(1), of fd True]] sv_step_trans[OF put(2)]
      by (simp add: queue_frame_def wp del: wp_on_reactor)
  qed
qed

lemma gone_mono:
  assumes "sv_step D s s'"
  shows "gone s' fd \<subseteq> gone s fd"
proof -
  have "is_controller s fd" if "is_controller s' fd"
    using that sv_stepD(7)[OF assms] unfolding is_controller_iff by (metis option.distinct(1))
  moreover have "\<exists>c. conn_get s f = Some c \<and> cn_role c = Data"
    if "conn_get s' f = Some c" "cn_role c = Data" for f c
    using sv_step_back[OF assms that(1)] that(2) by (auto simp: links_def)
  ultimately show ?thesis
    by (auto simp: gone_def)
qed

text \<open>A broadcast: a step that removes connections of \<open>G\<close> at most.\<close>

definition bcast ::
    "json \<Rightarrow> ('w \<Rightarrow> raw_fd set) \<Rightarrow> (u32 \<times> raw_fd) set \<Rightarrow> raw_fd set \<Rightarrow> raw_fd set
      \<Rightarrow> 'w server \<Rightarrow> 'w server \<Rightarrow> bool" where
  "bcast js op W X G s s' \<longleftrightarrow> sv_inv js op W X s' \<and> (\<exists>D \<subseteq> G. sv_step D s s')"

lemma bcast_refl: "sv_inv js op W X s \<Longrightarrow> bcast js op W X G s s"
  using sv_step_refl by (auto simp: bcast_def)

lemma bcast_trans: "bcast js op W X G s s' \<Longrightarrow> bcast js op W X G s' s'' \<Longrightarrow> bcast js op W X G s s''"
  unfolding bcast_def by (metis Un_least sv_step_trans)

lemma bcast_mono: "bcast js op W X G s s' \<Longrightarrow> G \<subseteq> G' \<Longrightarrow> bcast js op W X G' s s'"
  unfolding bcast_def by blast

lemma bcast_step: "sv_inv js op W X s' \<Longrightarrow> sv_step D s s' \<Longrightarrow> D \<subseteq> G \<Longrightarrow> bcast js op W X G s s'"
  unfolding bcast_def by blast

lemma queue_or_disconnect_ends:
  assumes "os_ok os op" and "sv_inv js op W X s"
    and "W = {} \<or> \<not> is_controller s fd \<and> (\<forall>p \<in> W. snd p \<noteq> fd)"
  shows "ends (\<lambda>_. bcast js op W X (gone s fd) s) (\<lambda>_. False) (queue_or_disconnect os fd frame s)"
proof -
  have "ends (\<lambda>_. bcast js op W X (gone s fd) s) (\<lambda>_. False) (disconnect os fd s1)"
    if s1: "sv_inv js op W X s1" "sv_step {} s s1" for s1
  proof -
    have "is_controller s1 fd \<longrightarrow> is_controller s fd"
      using sv_stepD(7)[OF s1(2)] unfolding is_controller_iff by (metis option.distinct(1))
    then have "W = {} \<or> \<not> is_controller s1 fd \<and> (\<forall>p \<in> W. snd p \<noteq> fd)"
      using assms(3) by blast
    from disconnect_ends[OF assms(1) s1(1) this] show ?thesis
    proof (rule ends_mono)
      show "bcast js op W X (gone s fd) s s'"
        if "sv_inv js op W X s' \<and> sv_step (gone s1 fd) s1 s'" for s'
        using that gone_mono[OF s1(2)] sv_step_trans[OF s1(2), of "gone s1 fd" s'] by (auto intro: bcast_step)
    qed
  qed
  then show ?thesis
    using bcast_step[of js op W X _ "{}" s "gone s fd"]
    unfolding queue_or_disconnect_def wp_catch
    by (intro ends_mono[OF queue_frame_ends[OF assms(1,2)]]) (simp_all add: wp)
qed

end
