(* ===== verification/Holder_Server_Ops.thy ===== *)
theory Holder_Server_Ops
  imports Holder_Server_Inv
begin

text \<open>
  The handlers of PTY events, signals and log failures keep the invariant of the server. What
  they send may disconnect peers that cannot take it, and nothing else; the loops over the
  connections attached to a session never find one missing.
\<close>

section \<open>Sending\<close>

lemma controller_okD:
  assumes "controller_ok s"
  shows "sv_controller s = Some ctl \<Longrightarrow> is_ok (validate_minor (ct_protocol_minor ctl))"
    and "sv_controller s = Some ctl \<Longrightarrow> \<exists>c. conn_get s (ct_fd ctl) = Some c \<and> cn_role c = Control"
    and "conn_get s fd = Some c \<Longrightarrow> cn_role c = Control \<Longrightarrow> \<exists>ctl. sv_controller s = Some ctl \<and> ct_fd ctl = fd"
  using assms unfolding controller_ok_def by blast+

lemma controller_okI:
  assumes "\<And>ctl. sv_controller s = Some ctl \<Longrightarrow> is_ok (validate_minor (ct_protocol_minor ctl))
      \<and> (\<exists>c. conn_get s (ct_fd ctl) = Some c \<and> cn_role c = Control)"
    and "\<And>fd c. conn_get s fd = Some c \<Longrightarrow> cn_role c = Control \<Longrightarrow>
      \<exists>ctl. sv_controller s = Some ctl \<and> ct_fd ctl = fd"
  shows "controller_ok s"
  using assms unfolding controller_ok_def by blast

lemma controller_role:
  assumes "controller_ok s" and "is_controller s fd" and "conn_get s fd = Some c"
  shows "cn_role c = Control"
  using assms controller_okD(2)[OF assms(1)] by (fastforce simp: is_controller_iff)

text \<open>An update of the connections that keeps which one has the role of the controller.\<close>

lemma controller_ok_same:
  assumes "controller_ok s" and "sv_controller s' = sv_controller s"
    and "\<And>fd. (\<exists>c. conn_get s' fd = Some c \<and> cn_role c = Control)
      \<longleftrightarrow> (\<exists>c. conn_get s fd = Some c \<and> cn_role c = Control)"
  shows "controller_ok s'"
proof (rule controller_okI)
  show "is_ok (validate_minor (ct_protocol_minor ctl))
      \<and> (\<exists>c. conn_get s' (ct_fd ctl) = Some c \<and> cn_role c = Control)"
    if "sv_controller s' = Some ctl" for ctl
    using controller_okD(1,2)[OF assms(1), of ctl] that assms(2,3) by simp
  show "\<exists>ctl. sv_controller s' = Some ctl \<and> ct_fd ctl = fd"
    if "conn_get s' fd = Some c" "cn_role c = Control" for fd c
    using controller_okD(3)[OF assms(1), of fd] that assms(2,3) by metis
qed

text \<open>The sessions and the world change: what must hold of the descriptors afterwards.\<close>

lemma sv_inv_sessions:
  assumes "sv_inv js op W X s" and "rt_inv js (rs_runtime rs)" and "lw_inv (rs_logs rs)"
    and "set (pty_fds (rs_runtime rs)) \<subseteq> op (rs_world rs)"
    and "\<And>fd. conn_get s fd \<noteq> None \<or> fd \<in> special_fds s \<Longrightarrow>
      fd \<in> op (rs_world rs) \<and> fd \<notin> set (pty_fds (rs_runtime rs))"
    and "set (pty_fds (sv_runtime s)) - set (pty_fds (rs_runtime rs)) \<union> X \<subseteq> X'"
  shows "sv_inv js op W X' (s\<lparr>sv_rs := rs\<rparr>)"
proof -
  note core = sv_coreD[OF sv_inv_core[OF assms(1)]]
  have "sv_core js op W X' (s\<lparr>sv_rs := rs\<rparr>)"
  proof (rule sv_coreI)
    show "sv_fds_ok op X' (s\<lparr>sv_rs := rs\<rparr>)"
      using core(7) assms(5,6) unfolding sv_fds_ok_def by (simp del: not_None_eq) blast
    show "writers_ok W (s\<lparr>sv_rs := rs\<rparr>)" "controller_ok (s\<lparr>sv_rs := rs\<rparr>)"
      using core(8,9) by (simp_all add: writers_ok_def controller_ok_def)
  qed (use core assms in simp_all)
  then show ?thesis
    using assms(1) by (simp add: sv_inv_def)
qed

lemma sv_inv_fds:
  assumes "sv_inv js op W X s"
  shows "conn_get s fd \<noteq> None \<or> fd \<in> special_fds s \<Longrightarrow>
      fd \<in> op (sv_world s) \<and> fd \<notin> set (pty_fds (sv_runtime s))"
    and "conn_get s fd \<noteq> None \<Longrightarrow> fd \<notin> special_fds s"
  using sv_coreD(7)[OF sv_inv_core[OF assms]] unfolding sv_fds_ok_def by blast+

lemma sv_inv_rs:
  assumes "sv_inv js op W X s" and "rt_inv js (rs_runtime rs)" and "lw_inv (rs_logs rs)"
    and "set (pty_fds (rs_runtime rs)) = set (pty_fds (sv_runtime s))"
    and "op (rs_world rs) = op (sv_world s)"
  shows "sv_inv js op W X (s\<lparr>sv_rs := rs\<rparr>)"
  using sv_coreD(3)[OF sv_inv_core[OF assms(1)]] sv_inv_fds(1)[OF assms(1)] assms
  by (intro sv_inv_sessions[OF assms(1)]) auto

text \<open>Fewer registrations, and registrations of what is known.\<close>

lemma sv_inv_reactor:
  assumes "sv_inv js op W X s" and "op w' = op (sv_world s)"
    and "\<And>fd. hm_get (re_tokens re') fd \<noteq> None \<Longrightarrow>
      hm_get (re_tokens (sv_reactor s)) fd \<noteq> None \<and> fd \<notin> X
      \<or> fd \<in> set (pty_fds (sv_runtime s)) \<or> conn_get s fd \<noteq> None \<or> fd \<in> X'"
  shows "sv_inv js op W X' (s\<lparr>sv_reactor := re', sv_rs := (sv_rs s)\<lparr>rs_world := w'\<rparr>\<rparr>)"
proof -
  note core = sv_coreD[OF sv_inv_core[OF assms(1)]]
  let ?s = "s\<lparr>sv_reactor := re', sv_rs := (sv_rs s)\<lparr>rs_world := w'\<rparr>\<rparr>"
  have "sv_core js op W X' ?s"
  proof (rule sv_coreI)
    show "sv_fds_ok op X' ?s"
      using core(7) assms(2,3) unfolding sv_fds_ok_def by (simp del: not_None_eq) blast
    show "writers_ok W ?s" "controller_ok ?s"
      using core(8,9) by (simp_all add: writers_ok_def controller_ok_def)
  qed (use core assms(2) in simp_all)
  then show ?thesis
    using assms(1) by (simp add: sv_inv_def)
qed

text \<open>An operation of the runtime whose triple keeps both sets of descriptors.\<close>

lemma sv_inv_on_rs:
  assumes "sv_inv js op W X s"
    and "rs_at js op (set (pty_fds (sv_runtime s))) (op (sv_world s)) rs"
  shows "sv_inv js op W X (s\<lparr>sv_rs := rs\<rparr>)"
  using sv_inv_rs[OF assms(1), of rs] assms(2) by (simp add: rs_at_def)

lemma sv_inv_rs_at:
  "sv_inv js op W X s \<Longrightarrow> rs_at js op (set (pty_fds (sv_runtime s))) (op (sv_world s)) (sv_rs s)"
  by (simp add: sv_inv_def sv_core_def)

lemma on_rs_ends:
  assumes "hoare (rs_at js op (set (pty_fds (sv_runtime s))) (op (sv_world s))) m
      (\<lambda>x rs. Q x \<and> rs_at js op (set (pty_fds (sv_runtime s))) (op (sv_world s)) rs)
      (rs_at js op (set (pty_fds (sv_runtime s))) (op (sv_world s)))"
    and "sv_inv js op W X s"
  shows "ends (\<lambda>x s'. Q x \<and> sv_inv js op W X s' \<and> (\<forall>fd. conn_get s' fd = conn_get s fd))
    (\<lambda>s'. sv_inv js op W X s' \<and> (\<forall>fd. conn_get s' fd = conn_get s fd)) (on_rs m s)"
  unfolding wp_on_rs
  by (rule hoare_call[OF assms(1) sv_inv_rs_at[OF assms(2)]])
    (use sv_inv_on_rs[OF assms(2)] in auto)

lemma bcast_for:
  assumes "\<And>x s. x \<in> set xs \<Longrightarrow> sv_inv js op W X s \<Longrightarrow>
      ends (\<lambda>_. bcast js op W X UNIV s) (\<lambda>_. False) (f x s)"
    and "sv_inv js op W X s"
  shows "ends (\<lambda>_. bcast js op W X UNIV s) (\<lambda>_. False) (sfor f xs s)"
  using assms
proof (induction xs arbitrary: s)
  case Nil
  then show ?case by (simp add: wp bcast_refl)
next
  case (Cons x xs)
  have "ends (\<lambda>_. bcast js op W X UNIV s) (\<lambda>_. False) (sfor f xs s1)"
    if s1: "bcast js op W X UNIV s s1" for s1
  proof -
    have "sv_inv js op W X s1"
      using s1 by (simp add: bcast_def)
    moreover have "ends (\<lambda>_. bcast js op W X UNIV s2) (\<lambda>_. False) (f y s2)"
      if "y \<in> set xs" "sv_inv js op W X s2" for y s2
      using Cons.prems(1)[of y s2] that by simp
    ultimately show ?thesis
      by (intro ends_mono[OF Cons.IH[of s1]]) (auto intro: bcast_trans[OF s1])
  qed
  then show ?case
    using ends_mono[OF Cons.prems(1)[of x s]] Cons.prems(2) unfolding sfor.simps wp_bind by simp
qed

lemma send_ends:
  assumes "os_ok os op" and "sv_inv js op {} X s"
  shows "ends (\<lambda>_. bcast js op {} X UNIV s) (\<lambda>_. False) (queue_or_disconnect os fd frame s)"
  by (rule ends_mono[OF queue_or_disconnect_ends[OF assms]]) (auto intro: bcast_mono)

lemma send_control_ends:
  assumes "os_ok os op" and "sv_inv js op {} X s"
  shows "ends (\<lambda>_. bcast js op {} X UNIV s) (\<lambda>_. False) (send_control os frame s)"
  using send_ends[OF assms] bcast_refl[OF assms(2)]
  by (auto simp: send_control_def wp split: option.splits)

lemma publish_ends:
  assumes "os_ok os op" and "sv_inv js op {} X s"
  shows "ends (\<lambda>_. bcast js op {} X UNIV s) (\<lambda>_. False) (publish_output os batch s)"
proof -
  let ?B = "\<lambda>_. bcast js op {} X UNIV s"
  define targets where "targets = map fst (filter (\<lambda>(_, c). cn_attached_session c = Some (ob_session_id batch))
           (sv_connections s))"
  have each: "ends (\<lambda>_. bcast js op {} X UNIV s1) (\<lambda>_. False)
      (sget (\<lambda>s. let frame = out_frame Output 0 (generation s) chunk
         in sfor (\<lambda>fd. queue_or_disconnect os fd frame) targets) s1)"
    if "sv_inv js op {} X s1" for s1 chunk
    using bcast_for[OF send_ends[OF assms(1)] that] by (simp add: wp Let_def)
  have "ends ?B (\<lambda>_. False) (sget (\<lambda>s. send_control os (out_frame LogDegraded 0 (generation s) payload)) s1)"
    if s1: "bcast js op {} X UNIV s s1" for s1 payload
  proof -
    have "sv_inv js op {} X s1"
      using s1 by (simp add: bcast_def)
    from ends_mono[OF send_control_ends[OF assms(1) this] bcast_trans[OF s1]] show ?thesis
      by (simp add: wp)
  qed
  then have "ends ?B (\<lambda>_. False) ((if 0 < ob_log_dropped batch
      then sget (\<lambda>s. send_control os (out_frame LogDegraded 0 (generation s)
            (encode_log_degraded \<lparr>ld_session_id = ob_session_id batch,
                                  ld_dropped_bytes = ob_log_dropped batch\<rparr>)))
      else sret ()) s1)"
    if "bcast js op {} X UNIV s s1" for s1
    using that by (simp add: wp)
  then show ?thesis
    unfolding publish_output_def wp_basic(4) Let_def targets_def[symmetric] wp_bind
    using each[unfolded Let_def]
    by (intro ends_mono[OF bcast_for[OF _ assms(2)]]) auto
qed


section \<open>Sessions that ended\<close>

lemma sv_inv_drop_writer:
  assumes "sv_inv js op W X s"
  shows "sv_inv js op W X (s\<lparr>sv_writers := hm_remove sid (sv_writers s)\<rparr>)"
proof -
  note core = sv_coreD[OF sv_inv_core[OF assms]]
  let ?s = "s\<lparr>sv_writers := hm_remove sid (sv_writers s)\<rparr>"
  have "sv_core js op W X ?s"
  proof (rule sv_coreI)
    show "sv_fds_ok op X ?s"
      using core(7) by (simp add: sv_fds_ok_def)
    show "writers_ok W ?s"
      using core(8) by (auto simp: writers_ok_def)
    show "controller_ok ?s"
      using core(9) by (simp add: controller_ok_def)
  qed (use core in simp_all)
  then show ?thesis
    using assms by (simp add: sv_inv_def)
qed

lemma release_writer_ends:
  assumes "os_ok os op" and "sv_inv js op {} X s"
  shows "ends (\<lambda>_. sv_inv js op {} X) (\<lambda>_. False) (release_writer os sid s)"
proof -
  have "ends (\<lambda>_. sv_inv js op {} X) (\<lambda>_. False) (queue_or_disconnect os fd frame
      (s\<lparr>sv_writers := hm_remove sid (sv_writers s)\<rparr>))" for fd frame
    by (rule ends_mono[OF send_ends[OF assms(1) sv_inv_drop_writer[OF assms(2)]]])
      (simp_all add: bcast_def)
  then show ?thesis
    using assms(2) by (simp add: release_writer_def wp generation_def split: option.splits)
qed

lemma cn_queue_updates [simp]:
  "cn_queue (c\<lparr>cn_attached_session := a\<rparr>) = cn_queue c" "cn_queue (c\<lparr>cn_role := r\<rparr>) = cn_queue c"
  "cn_queue (c\<lparr>cn_protocol_minor := m\<rparr>) = cn_queue c"
  by (simp_all add: cn_queue_def)

lemma detach_session_get:
  "conn_get (detach_session sid s) fd = map_option (\<lambda>c.
     if cn_attached_session c = Some sid then c\<lparr>cn_attached_session := None\<rparr> else c) (conn_get s fd)"
proof -
  have "map_of (map (\<lambda>(k, c). (k, g c)) m) = map_option g \<circ> map_of m" for g :: "connection \<Rightarrow> connection"
    and m :: "(raw_fd \<times> connection) list"
    by (rule map_of_map)
  then show ?thesis
    by (simp add: detach_session_def conn_get_def del: conn_get_connections)
qed

lemma sv_inv_detach_session:
  assumes "sv_inv js op {} X s"
  shows "sv_inv js op {} X (detach_session sid s)"
proof -
  note core = sv_coreD[OF sv_inv_core[OF assms]]
  let ?s = "detach_session sid s"
  have same: "sv_rs ?s = sv_rs s" "sv_reactor ?s = sv_reactor s" "sv_controller ?s = sv_controller s"
    "special_fds ?s = special_fds s" "sv_writers ?s = hm_remove sid (sv_writers s)"
    by (simp_all add: detach_session_def special_fds_def)
  have "sv_core js op {} X ?s"
  proof (rule sv_coreI)
    show "sv_fds_ok op X ?s"
      using core(7) by (simp add: sv_fds_ok_def same detach_session_get)
    show "writers_ok {} ?s"
      unfolding writers_ok_def
    proof (intro allI impI)
      fix x fd
      assume "hm_get (sv_writers ?s) x = Some fd"
      then have "x \<noteq> sid" "hm_get (sv_writers s) x = Some fd"
        using core(5) by (auto simp: same split: if_splits)
      then show "\<exists>c. conn_get ?s fd = Some c \<and> cn_role c = Data
          \<and> (cn_attached_session c = Some x \<or> (x, fd) \<in> {})"
        using core(8) unfolding writers_ok_def detach_session_get by fastforce
    qed
    show "controller_ok ?s"
    proof (rule controller_ok_same[OF core(9)])
      show "(\<exists>c. conn_get ?s fd = Some c \<and> cn_role c = Control)
          \<longleftrightarrow> (\<exists>c. conn_get s fd = Some c \<and> cn_role c = Control)" for fd
        by (cases "conn_get s fd") (auto simp: detach_session_get)
    qed (simp add: same)
    show "conn_ok fd c" if c: "conn_get ?s fd = Some c" for fd c
    proof -
      obtain d where d: "conn_get s fd = Some d"
          "c = (if cn_attached_session d = Some sid then d\<lparr>cn_attached_session := None\<rparr> else d)"
        using c by (auto simp: detach_session_get)
      from core(6)[OF d(1)] show ?thesis
        unfolding d(2) by (simp add: conn_ok_def)
    qed
    show "hm_wf (sv_connections ?s)"
      using core(4) by (simp add: detach_session_def comp_def case_prod_beta)
  qed (use core in \<open>simp_all add: same\<close>)
  moreover have "sv_controller s \<noteq> None" if "conn_get ?s fd = Some c" "cn_role c = Data" for fd c
    using that assms by (auto simp: detach_session_get sv_inv_def split: if_splits)
  ultimately show ?thesis
    by (simp add: sv_inv_def same)
qed

text \<open>The loop over the connections attached to an exited session: a peer that is disconnected
  takes no other of them with it, since none is the controller.\<close>

lemma targets_loop:
  assumes "os_ok os op" and "sv_inv js op {} X s" and "distinct ts"
    and "\<And>t. t \<in> set ts \<Longrightarrow> \<exists>c. conn_get s t = Some c \<and> cn_role c = Data"
  shows "ends (\<lambda>_. sv_inv js op {} X) (\<lambda>_. False) (sfor (\<lambda>target. sget (\<lambda>s.
         sbind (sunwrap (conn_get s target)) (\<lambda>c. queue_or_disconnect os target (f s c)))) ts s)"
  using assms(2-)
proof (induction ts arbitrary: s)
  case Nil
  then show ?case by (simp add: wp)
next
  case (Cons t ts)
  obtain c where c: "conn_get s t = Some c" "cn_role c = Data"
    using Cons.prems(3)[of t] by auto
  have "\<not> is_controller s t"
    using controller_role[OF sv_coreD(9)[OF sv_inv_core[OF Cons.prems(1)]] _ c(1)] c(2) by auto
  then have gone: "gone s t = {t}"
    by (simp add: gone_def)
  have "ends (\<lambda>_. sv_inv js op {} X) (\<lambda>_. False) (sfor (\<lambda>target. sget (\<lambda>s.
         sbind (sunwrap (conn_get s target)) (\<lambda>c. queue_or_disconnect os target (f s c)))) ts s1)"
    if b: "bcast js op {} X (gone s t) s s1" for s1
  proof (rule Cons.IH)
    show "sv_inv js op {} X s1"
      using b by (simp add: bcast_def)
    obtain D where D: "D \<subseteq> {t}" "sv_step D s s1"
      using b gone by (auto simp: bcast_def)
    show "\<exists>c. conn_get s1 u = Some c \<and> cn_role c = Data" if "u \<in> set ts" for u
    proof -
      have "u \<notin> D"
        using that Cons.prems(2) D(1) by auto
      moreover have "u \<in> set (t # ts)"
        using that by simp
      from Cons.prems(3)[OF this] obtain d where "conn_get s u = Some d" "cn_role d = Data"
        by blast
      ultimately show ?thesis
        using sv_step_get[OF D(2)] by (fastforce simp: links_def)
    qed
  qed (use Cons.prems(2) in simp)
  then show ?case
    using ends_mono[OF queue_or_disconnect_ends[OF assms(1) Cons.prems(1), of t]] c(1)
    unfolding sfor.simps wp_bind by (simp add: wp)
qed


lemma sv_inv_mono: "sv_inv js op W X s \<Longrightarrow> X \<subseteq> X' \<Longrightarrow> sv_inv js op W X' s"
  by (auto simp: sv_inv_def sv_core_def sv_fds_ok_def)

lemma attached_targets:
  assumes "sv_inv js op {} X s"
  shows "distinct (map fst (filter (\<lambda>(_, c). cn_attached_session c = Some sid) (sv_connections s)))"
    and "t \<in> set (map fst (filter (\<lambda>(_, c). cn_attached_session c = Some sid) (sv_connections s))) \<Longrightarrow>
      \<exists>c. conn_get s t = Some c \<and> cn_role c = Data"
proof -
  note core = sv_coreD[OF sv_inv_core[OF assms]]
  show "distinct (map fst (filter (\<lambda>(_, c). cn_attached_session c = Some sid) (sv_connections s)))"
    using core(4) by (rule distinct_map_filter)
  assume "t \<in> set (map fst (filter (\<lambda>(_, c). cn_attached_session c = Some sid) (sv_connections s)))"
  then obtain c where "(t, c) \<in> set (sv_connections s)" "cn_attached_session c = Some sid"
    by auto
  then have c: "conn_get s t = Some c" "cn_attached_session c = Some sid"
    using core(4) by (simp_all add: conn_get_def map_of_is_SomeI del: conn_get_connections)
  with core(6)[OF c(1)] show "\<exists>c. conn_get s t = Some c \<and> cn_role c = Data"
    by (simp add: conn_ok_def)
qed


text \<open>What the daemon is told of an exited session always fits a message.\<close>

lemma exited_encodes:
  assumes "exited_ok js e"
  shows "\<exists>p. encode_session_exited_event
      \<lparr>se_session_id = xs_session_id e, se_exit_code = xs_exit_code e, se_cwd = xs_cwd e\<rparr> = Inr p"
    and "\<exists>p. encode_session_exited_event_v2 (js_to_vec js)
      \<lparr>se2_session_id = xs_session_id e, se2_exit_code = xs_exit_code e, se2_cwd = xs_cwd e,
       se2_environment = xs_environment e\<rparr> = Inr p"
proof -
  let ?e = "\<lparr>se_session_id = xs_session_id e, se_exit_code = xs_exit_code e, se_cwd = xs_cwd e\<rparr>"
  from assms have "session_exited_event_ok ?e"
    by (simp add: exited_ok_def session_exited_event_ok_def)
  note legacy = encode_session_exited_ok[OF this]
  then show "\<exists>p. encode_session_exited_event ?e = Inr p"
    by blast
  have "\<exists>x. transpose_invalid (encode_environment_snapshot (js_to_vec js)) (xs_environment e) = Inr x
    \<and> (\<forall>y. x = Some y \<longrightarrow> length y \<le> MAX_SHELL_ENVIRONMENT_BYTES)"
  proof (cases "xs_environment e")
    case None
    then show ?thesis by (simp add: transpose_invalid_def)
  next
    case (Some s)
    then have valid: "snapshot_validate_hard_limits (js_to_vec js) s = Inr ()"
      using assms by (simp add: exited_ok_def)
    then obtain x where "js_to_vec js s = Inr x"
      unfolding snapshot_validate_hard_limits_def snapshot_validate_def
      by (cases "js_to_vec js s") (auto split: if_splits elim!: rbind_Inr_elim)
    then have "encode_environment_snapshot (js_to_vec js) s = Inr x"
      using valid by (simp add: encode_snapshot_iff)
    then show ?thesis
      using Some encode_snapshot_length by (fastforce simp: transpose_invalid_def)
  qed
  then obtain x where x: "transpose_invalid (encode_environment_snapshot (js_to_vec js)) (xs_environment e)
      = Inr x" "\<And>y. x = Some y \<Longrightarrow> length y \<le> MAX_SHELL_ENVIRONMENT_BYTES"
    by blast
  then show "\<exists>p. encode_session_exited_event_v2 (js_to_vec js)
      \<lparr>se2_session_id = xs_session_id e, se2_exit_code = xs_exit_code e, se2_cwd = xs_cwd e,
       se2_environment = xs_environment e\<rparr> = Inr p"
    by (simp add: encode_session_exited_event_v2_def legacy put_optional_bytes_ok)
qed

lemma announce_exit_ends:
  assumes "os_ok os op" and "sv_inv js op {} X s" and "exited_ok js e"
  shows "ends (\<lambda>_. sv_inv js op {} (X - {xs_pty_fd e})) (\<lambda>_. False) (announce_exit os js e s)"
proof -
  let ?X = "X - {xs_pty_fd e}"
  obtain p1 p2 where p: "encode_session_exited_event
      \<lparr>se_session_id = xs_session_id e, se_exit_code = xs_exit_code e, se_cwd = xs_cwd e\<rparr> = Inr p1"
    "encode_session_exited_event_v2 (js_to_vec js)
      \<lparr>se2_session_id = xs_session_id e, se2_exit_code = xs_exit_code e, se2_cwd = xs_cwd e,
       se2_environment = xs_environment e\<rparr> = Inr p2"
    using exited_encodes[OF assms(3)] by blast
  obtain re w where rm: "reactor_remove os (xs_pty_fd e) (sv_reactor s) (sv_world s) = (re, w)"
    by (cases "reactor_remove os (xs_pty_fd e) (sv_reactor s) (sv_world s)")
  obtain ok w1 where ctl: "os_epoll_ctl os CtlDel (xs_pty_fd e) 0 (sv_world s) = (ok, w1)"
    by (cases "os_epoll_ctl os CtlDel (xs_pty_fd e) 0 (sv_world s)")
  have "op w = op (sv_world s)"
    using rm ctl os_fds(11)[OF assms(1) ctl] by (simp add: reactor_remove_def)
  then have s1: "sv_inv js op {} ?X (s\<lparr>sv_reactor := re, sv_rs := (sv_rs s)\<lparr>rs_world := w\<rparr>\<rparr>)"
    using reactor_remove_tokens(2)[of os "xs_pty_fd e" "sv_reactor s" "sv_world s"] rm
    by (intro sv_inv_reactor[OF sv_inv_mono[OF assms(2) subset_refl]])
      (use sv_coreD(7)[OF sv_inv_core[OF assms(2)]] in \<open>auto simp: sv_fds_ok_def split: if_splits\<close>)
  have controller: "ends (\<lambda>_. sv_inv js op {} ?X) (\<lambda>_. False) (queue_or_disconnect os fd frame s2)"
    if "sv_inv js op {} ?X s2" for s2 fd frame
    by (rule ends_mono[OF send_ends[OF assms(1) that]]) (simp_all add: bcast_def)
  have targets: "ends (\<lambda>_. sv_inv js op {} ?X) (\<lambda>_. False)
      (sfor (\<lambda>target. sget (\<lambda>s. sbind (sunwrap (conn_get s target)) (\<lambda>c.
         queue_or_disconnect os target (f s c))))
       (map fst (filter (\<lambda>(_, c). cn_attached_session c = Some (xs_session_id e)) (sv_connections s2))) s2)"
    if "sv_inv js op {} ?X s2" for s2 f
    using attached_targets[OF that] by (rule targets_loop[OF assms(1) that])
  show ?thesis
    unfolding announce_exit_def wp_bind wp_on_reactor rm prod.case sum.case
    by (rule ends_mono[OF release_writer_ends[OF assms(1) s1]])
      (auto simp: wp p Let_def controller sv_inv_detach_session split: option.split
        intro!: ends_mono[OF targets])
qed


section \<open>Events\<close>

text \<open>The handlers of events keep the invariant unless they end the loop with an error.\<close>

abbreviation keeps :: "json \<Rightarrow> ('w \<Rightarrow> raw_fd set) \<Rightarrow> ('w server, 'a) handler \<Rightarrow> bool" where
  "keeps js op m \<equiv> hoare (sv_inv js op {} {}) m (\<lambda>_. sv_inv js op {} {}) (\<lambda>_. True)"

lemma keepsD: "keeps js op m \<Longrightarrow> sv_inv js op {} {} s \<Longrightarrow> ends (\<lambda>_. sv_inv js op {} {}) (\<lambda>_. True) (m s)"
  by (rule hoareD)

lemma hoare_bind:
  assumes "hoare P m (\<lambda>_. Q) E" and "\<And>x. hoare Q (f x) R E"
  shows "hoare P (sbind m f) R E"
  by (rule hoareI, unfold wp_bind, rule hoare_call[OF assms(1)]) (auto intro: hoareD[OF assms(2)])

lemma hoare_basic:
  "hoare P (sret x) (\<lambda>_. P) E" "(\<And>s. P s \<Longrightarrow> E s) \<Longrightarrow> hoare P (serr e) Q E"
  "(\<And>s. hoare P (g s) Q E) \<Longrightarrow> hoare P (sget g) Q E"
  "hoare P m Q E \<Longrightarrow> hoare P n Q E \<Longrightarrow> hoare P (if b then m else n) Q E"
  by (auto simp: hoare_def wp)

lemma on_rs_keeps:
  assumes "\<And>F Op. hoare (rs_at js op F Op) m (\<lambda>_. rs_at js op F Op) (rs_at js op F Op)"
  shows "keeps js op (on_rs m)"
proof (rule hoareI)
  fix s :: "'a server"
  assume inv: "sv_inv js op {} {} s"
  show "ends (\<lambda>_. sv_inv js op {} {}) (\<lambda>_. True) (on_rs m s)"
    unfolding wp_on_rs
    by (rule hoare_call[OF assms sv_inv_rs_at[OF inv]]) (auto intro: sv_inv_on_rs[OF inv])
qed

definition kept :: "json \<Rightarrow> ('w \<Rightarrow> raw_fd set) \<Rightarrow> raw_fd set \<Rightarrow> 'w server \<Rightarrow> bool" where
  "kept js op F s \<longleftrightarrow> sv_inv js op {} {} s \<and> set (pty_fds (sv_runtime s)) = F"

lemma keptI: "sv_inv js op {} {} s \<Longrightarrow> kept js op (set (pty_fds (sv_runtime s))) s"
  by (simp add: kept_def)

lemma drain_publish_kept:
  assumes "os_ok os op"
  shows "hoare (kept js op F) (sbind (on_rs (drain_output os fd)) (publish_output os))
    (\<lambda>_. kept js op F) (\<lambda>_. True)"
proof (rule hoareI)
  fix s :: "'a server"
  assume "kept js op F s"
  then have inv: "sv_inv js op {} {} s" and F: "set (pty_fds (sv_runtime s)) = F"
    by (simp_all add: kept_def)
  have publish: "ends (\<lambda>_. kept js op F) (\<lambda>_. True) (publish_output os b s1)"
    if "kept js op F s1" for b s1
    using that sv_stepD(1)[of _ s1]
    by (intro ends_mono[OF publish_ends[OF assms]]) (auto simp: bcast_def kept_def)
  show "ends (\<lambda>_. kept js op F) (\<lambda>_. True)
      (sbind (on_rs (drain_output os fd)) (publish_output os) s)"
    unfolding wp_bind wp_on_rs
    by (rule hoare_call[OF drain_output_rs[OF assms] sv_inv_rs_at[OF inv]])
      (auto intro!: publish simp: kept_def F sv_inv_on_rs[OF inv] rs_at_def)
qed

lemma drain_publish_keeps:
  assumes "os_ok os op"
  shows "keeps js op (sbind (on_rs (drain_output os fd)) (publish_output os))"
  by (intro hoareI ends_mono[OF hoareD[OF drain_publish_kept[OF assms] keptI]])
    (auto simp: kept_def)

lemma handle_pty_keeps:
  assumes "os_ok os op" and "sv_inv js op {} {} s" and "session_for_pty (sv_runtime s) fd \<noteq> None"
  shows "ends (\<lambda>_. sv_inv js op {} {}) (\<lambda>_. True) (handle_pty os fd ev s)"
proof -
  let ?F = "set (pty_fds (sv_runtime s))"
  have fd: "fd \<in> ?F"
    using assms(3) by (auto simp: pty_fds_iff)
  have flush: "ends (\<lambda>_. sv_inv js op {} {}) (\<lambda>_. True) ((if ev_out ev
     then sget (\<lambda>s.
       sbind (sunwrap (session_for_pty (sv_runtime s) fd)) (\<lambda>session_id.
       sbind (on_rs (flush_input os session_id)) (\<lambda>pending.
       on_reactor (reactor_modify os fd pending))))
     else sret ()) s1)"
    if s1: "kept js op ?F s1" for s1
  proof -
    have inv: "sv_inv js op {} {} s1"
      using s1 by (simp add: kept_def)
    obtain sid where sid: "session_for_pty (sv_runtime s1) fd = Some sid"
      using s1 fd by (metis kept_def pty_fds_iff)
    have "session_get (sv_runtime s1) sid \<noteq> None"
      using sid sv_coreD(1)[OF sv_inv_core[OF inv]] unfolding rt_inv_def by (metis option.distinct(1))
    then have "ends (\<lambda>_. sv_inv js op {} {}) (\<lambda>_. True)
        (sbind (on_rs (flush_input os sid)) (\<lambda>pending. on_reactor (reactor_modify os fd pending)) s1)"
      unfolding wp_bind wp_on_rs
      by (intro hoare_call[OF flush_input_rs[OF assms(1)]] conjI sv_inv_rs_at[OF inv])
        (auto intro!: ends_mono[OF modify_ends[OF assms(1)]] sv_inv_on_rs[OF inv] sv_inv_rs_at[OF inv])
    then show ?thesis
      using inv by (simp add: wp sid del: wp_on_reactor wp_on_rs)
  qed
  show ?thesis
    unfolding handle_pty_def
  proof (rule hoareD[where P = "kept js op ?F"], rule hoare_bind[where Q = "kept js op ?F"])
    show "hoare (kept js op ?F)
        (if ev_in ev \<or> ev_hup ev \<or> ev_err ev
         then sbind (on_rs (drain_output os fd)) (publish_output os) else sret ())
        (\<lambda>_. kept js op ?F) (\<lambda>_. True)"
      by (intro hoare_basic(1,4) drain_publish_kept assms(1))
    show "kept js op ?F s"
      by (rule keptI[OF assms(2)])
  qed (rule hoareI, erule flush)
qed

lemma log_progress_rs:
  assumes "os_ok os op"
  shows "hoare (rs_at js op F Op) (log_progress os) (\<lambda>_. rs_at js op F Op) (rs_at js op F Op)"
proof (rule hoareI)
  fix s :: "'a rstate"
  assume at: "rs_at js op F Op s"
  obtain rs w where written: "os_log_written os (rs_world s) = (rs, w)"
    by (cases "os_log_written os (rs_world s)")
  have "op w = op (rs_world s)" "lw_inv (rs_logs s)"
    using os_fds(10)[OF assms written] at by (simp_all add: rs_at_def)
  moreover from this(2) obtain lw where "log_worker_run rs (rs_logs s) = Some lw" "lw_inv lw"
    using log_worker_run_inv by blast
  ultimately show "ends (\<lambda>_. rs_at js op F Op) (rs_at js op F Op) (log_progress os s)"
    using at by (simp add: log_progress_def wp written rs_at_def)
qed

lemma take_failures_rs:
  "hoare (rs_at js op F Op) take_failures (\<lambda>_. rs_at js op F Op) (rs_at js op F Op)"
proof (rule hoareI)
  fix s :: "'a rstate"
  assume at: "rs_at js op F Op s"
  then have "lw_inv (snd (log_take_failures (rs_logs s)))"
    by (intro log_take_failures_inv) (simp add: rs_at_def)
  then show "ends (\<lambda>_. rs_at js op F Op) (rs_at js op F Op) (take_failures s)"
    using at by (cases "log_take_failures (rs_logs s)") (simp add: take_failures_def wp rs_at_def)
qed

lemma send_control_keeps:
  assumes "os_ok os op"
  shows "keeps js op (sget (\<lambda>s. send_control os (f s)))"
  by (intro hoareI, unfold wp_basic, rule ends_mono[OF send_control_ends[OF assms]])
    (auto simp: bcast_def)

lemma log_failures_keeps:
  assumes "os_ok os op"
  shows "keeps js op (handle_log_failures os)"
proof -
  have mark: "keeps js op (on_rs (rt_update (mark_log_failed sid)))" for sid
    by (intro on_rs_keeps hoareI) (simp add: wp mark_log_failed_rs)
  show ?thesis
    unfolding handle_log_failures_def
    by (rule hoare_bind[OF on_rs_keeps[OF log_progress_rs[OF assms]]],
        rule hoare_bind[OF on_rs_keeps[OF take_failures_rs]], rule hoare_for)
      (auto intro: hoare_bind[OF mark send_control_keeps[OF assms]])
qed

lemma reap_keeps:
  assumes "os_ok os op" and "json_ok js"
  shows "keeps js op (sbind (on_rs (reap_exited os js)) (\<lambda>exited. sfor (announce_exit os js) exited))"
proof (rule hoareI)
  fix s :: "'a server"
  assume inv: "sv_inv js op {} {} s"
  have announce: "ends (\<lambda>_. sv_inv js op {} {}) (\<lambda>_. False) (sfor (announce_exit os js) es s1)"
    if "\<forall>e \<in> set es. exited_ok js e" "sv_inv js op {} (xs_pty_fd ` set es) s1" for es s1
    using that
  proof (induction es arbitrary: s1)
    case Nil
    then show ?case by (simp add: wp)
  next
    case (Cons e es)
    have "ends (\<lambda>_. sv_inv js op {} {}) (\<lambda>_. False) (sfor (announce_exit os js) es s2)"
      if "sv_inv js op {} (xs_pty_fd ` set (e # es) - {xs_pty_fd e}) s2" for s2
      using Cons.prems(1) sv_inv_mono[OF that] by (intro Cons.IH) auto
    then show ?case
      using Cons.prems unfolding sfor.simps wp_bind
      by (intro ends_mono[OF announce_exit_ends[OF assms(1) Cons.prems(2)]]) auto
  qed
  have "sv_inv js op {} (xs_pty_fd ` set es) (s\<lparr>sv_rs := rs\<rparr>)"
    if rs: "rs_at js op (set (pty_fds (sv_runtime s)) - xs_pty_fd ` set es)
        (op (sv_world s) - xs_pty_fd ` set es) rs"
      and ex: "\<forall>e \<in> set es. xs_pty_fd e \<in> set (pty_fds (sv_runtime s))" for es rs
  proof (rule sv_inv_sessions[OF inv])
    show "fd \<in> op (rs_world rs) \<and> fd \<notin> set (pty_fds (rs_runtime rs))"
      if "conn_get s fd \<noteq> None \<or> fd \<in> special_fds s" for fd
      using sv_inv_fds(1)[OF inv that] rs ex by (auto simp: rs_at_def)
  qed (use rs in \<open>auto simp: rs_at_def\<close>)
  then show "ends (\<lambda>_. sv_inv js op {} {}) (\<lambda>_. True)
      (sbind (on_rs (reap_exited os js)) (\<lambda>exited. sfor (announce_exit os js) exited) s)"
    unfolding wp_bind wp_on_rs
    by (intro hoare_call[OF reap_exited_rs[OF assms] sv_inv_rs_at[OF inv]])
      (auto intro!: ends_mono[OF announce])
qed

lemma signal_keeps:
  assumes "os_ok os op" and "json_ok js"
  shows "keeps js op (handle_signal os js)"
proof (rule hoareI)
  fix s :: "'a server"
  assume inv: "sv_inv js op {} {} s"
  obtain sig w where sig: "os_signal os (sv_world s) = (sig, w)"
    by (cases "os_signal os (sv_world s)")
  let ?s = "s\<lparr>sv_rs := (sv_rs s)\<lparr>rs_world := w\<rparr>\<rparr>"
  have s1: "sv_inv js op {} {} ?s"
    using sv_inv_rs_at[OF inv] os_fds(12)[OF assms(1) sig]
    by (intro sv_inv_on_rs[OF inv] rs_at_world) simp_all
  have "keeps js op (sget (\<lambda>s.
      sbind (sfor (\<lambda>fd. sbind (on_rs (drain_output os fd)) (publish_output os)) (pty_fds (sv_runtime s)))
       (\<lambda>_. sbind (sbind (on_rs (reap_exited os js)) (\<lambda>exited. sfor (announce_exit os js) exited))
         (\<lambda>_. sret False))))"
    by (intro hoare_basic(3) hoare_bind[OF hoare_for] hoare_bind[OF reap_keeps] drain_publish_keeps
        hoare_basic(1) assms)
  from keepsD[OF this s1] show "ends (\<lambda>_. sv_inv js op {} {}) (\<lambda>_. True) (handle_signal os js s)"
    using s1 by (auto simp: handle_signal_def wp_bind wp_basic wp_sv_call sig
        split: option.split holder_signal.split)
qed

section \<open>Accepting\<close>

lemma sv_inv_accept:
  assumes "sv_inv js op {} {} s" and "fd \<notin> op (sv_world s)" and "op w = insert fd (op (sv_world s))"
    and "\<And>x. hm_get (re_tokens re) x \<noteq> None \<Longrightarrow> hm_get (re_tokens (sv_reactor s)) x \<noteq> None \<or> x = fd"
  shows "sv_inv js op {} {} (conn_put fd (connection_new fd pid uid)
    (s\<lparr>sv_reactor := re, sv_rs := (sv_rs s)\<lparr>rs_world := w\<rparr>\<rparr>))" (is "sv_inv _ _ _ _ ?s")
proof -
  note core = sv_coreD[OF sv_inv_core[OF assms(1)]]
  have fresh: "conn_get s fd = None" "fd \<notin> special_fds s" "fd \<notin> set (pty_fds (sv_runtime s))"
    using sv_inv_fds(1)[OF assms(1), of fd] assms(2) core(3) by blast+
  have new: "cn_role (connection_new fd pid uid) = Pending" "conn_ok fd (connection_new fd pid uid)"
    by (simp_all add: connection_new_def conn_ok_def cn_queue_def bq_inv_def bq_pending_def
        HOLDER_PROTOCOL_BASELINE_MINOR_def validate_minor_def HOLDER_PROTOCOL_MINOR_def)
  have "sv_core js op {} {} ?s"
  proof (rule sv_coreI)
    show "sv_fds_ok op {} ?s"
      using core(7) fresh assms(3,4) unfolding sv_fds_ok_def by (simp del: not_None_eq) blast
    show "writers_ok {} ?s"
      using core(8) fresh(1) by (fastforce simp: writers_ok_def)
    show "controller_ok ?s"
      using fresh(1) new(1) by (intro controller_ok_same[OF core(9)]) auto
    show "conn_ok x c" if "conn_get ?s x = Some c" for x c
      using that core(6)[of x c] new(2) by (auto split: if_splits)
  qed (use core assms(3) in auto)
  moreover have "sv_controller s \<noteq> None" if "conn_get ?s x = Some c" "cn_role c = Data" for x c
    using that assms(1) new(1) by (auto simp: sv_inv_def split: if_splits)
  ultimately show ?thesis
    by (simp add: sv_inv_def)
qed


lemma os_accept_fds:
  assumes "os_ok os op" and "os_accept os w = (r, w')"
  shows "case r of Peer fd pid uid \<Rightarrow> fd \<notin> op w \<and> op w' = insert fd (op w) | _ \<Rightarrow> op w' = op w"
proof -
  have "\<forall>w. case os_accept os w of
          (Peer fd pid uid, w') \<Rightarrow> fd \<notin> op w \<and> op w' = insert fd (op w)
        | (_, w') \<Rightarrow> op w' = op w"
    using assms(1) unfolding os_ok_def fd_discipline_def by (elim conjE)
  from this[THEN spec[of _ w]] show ?thesis
    using assms(2) by (auto split: accept_result.splits)
qed

lemma reactor_add_fds:
  assumes "os_ok os op" and "reactor_add os fd b re w = (r, re', w')"
  shows "op w' = op w" and "hm_get (re_tokens re') x \<noteq> None \<Longrightarrow> hm_get (re_tokens re) x \<noteq> None \<or> x = fd"
proof -
  obtain ok w1 where ctl: "os_epoll_ctl os (CtlAdd b) fd (re_next_token re) w = (ok, w1)"
    by (cases "os_epoll_ctl os (CtlAdd b) fd (re_next_token re) w")
  show "op w' = op w"
    using assms(2) ctl os_fds(11)[OF assms(1) ctl]
    by (auto simp: reactor_add_def Let_def split: if_splits)
  show "hm_get (re_tokens re) x \<noteq> None \<or> x = fd" if "hm_get (re_tokens re') x \<noteq> None"
    using that assms(2) ctl by (auto simp: reactor_add_def Let_def split: if_splits)
qed

text \<open>The three ways in which a peer is dealt with.\<close>

lemma accept_peer:
  assumes "os_ok os op" and "sv_inv js op {} {} s"
    and acc: "os_accept os (sv_world s) = (Peer fd pid uid, w)"
    and add: "reactor_add os fd False (sv_reactor s) w = (y, re, w2)"
  shows "sv_inv js op {} {} (s\<lparr>sv_rs := (sv_rs s)\<lparr>rs_world := os_close os fd w\<rparr>\<rparr>)"
    and "y = Inl e \<Longrightarrow> sv_inv js op {} {} (s\<lparr>sv_reactor := re,
        sv_rs := (sv_rs s)\<lparr>rs_world := os_close os fd w2\<rparr>\<rparr>)"
    and "sv_inv js op {} {} (conn_put fd (connection_new fd pid uid)
        (s\<lparr>sv_reactor := re, sv_rs := (sv_rs s)\<lparr>rs_world := w2\<rparr>\<rparr>))"
proof -
  have fresh: "fd \<notin> op (sv_world s)" "op w = insert fd (op (sv_world s))"
    using os_accept_fds[OF assms(1) acc] by simp_all
  note rf = reactor_add_fds[OF assms(1) add]
  have closed: "op (os_close os fd w) = op (sv_world s)" "op (os_close os fd w2) = op (sv_world s)"
    using fresh rf(1) os_fds(14)[OF assms(1)] by simp_all
  show "sv_inv js op {} {} (s\<lparr>sv_rs := (sv_rs s)\<lparr>rs_world := os_close os fd w\<rparr>\<rparr>)"
    using rs_at_world[OF sv_inv_rs_at[OF assms(2)] closed(1)] by (rule sv_inv_on_rs[OF assms(2)])
  have "hm_get (re_tokens (sv_reactor s)) z \<noteq> None" if "y = Inl e" "hm_get (re_tokens re) z \<noteq> None" for z
    using that add by (auto simp: reactor_add_def Let_def split: prod.splits if_splits)
  then show "sv_inv js op {} {} (s\<lparr>sv_reactor := re,
      sv_rs := (sv_rs s)\<lparr>rs_world := os_close os fd w2\<rparr>\<rparr>)" if "y = Inl e"
    using closed(2) that by (intro sv_inv_io(1)[OF assms(2)]) auto
  show "sv_inv js op {} {} (conn_put fd (connection_new fd pid uid)
      (s\<lparr>sv_reactor := re, sv_rs := (sv_rs s)\<lparr>rs_world := w2\<rparr>\<rparr>))"
    using fresh rf by (intro sv_inv_accept[OF assms(2)]) auto
qed

lemma accept_inv:
  assumes "os_ok os op" and "accept_connections os s = Some (r, s')" and "sv_inv js op {} {} s"
  shows "r \<noteq> Panic \<and> sv_inv js op {} {} s'"
proof -
  let ?P = "\<lambda>os s rs. os_ok os op \<longrightarrow> sv_inv js op {} {} s \<longrightarrow>
    (case rs of (r, s') \<Rightarrow> r \<noteq> Panic \<and> sv_inv js op {} {} s')"
  have "?P os s (r, s')"
  proof (rule accept_connections.raw_induct[where P = ?P, OF _ assms(2)])
    fix f :: "'a os \<Rightarrow> 'a server \<Rightarrow> (unit res \<times> 'a server) option"
    fix os s rs
    assume 1: "\<And>os s y. f os s = Some y \<Longrightarrow> ?P os s y"
      "(case os_accept os (sv_world s) of (r, w) \<Rightarrow>
      let s = s\<lparr>sv_rs := (sv_rs s)\<lparr>rs_world := w\<rparr>\<rparr> in
      (case r of
         NoPeer \<Rightarrow> Some (Ret (), s)
       | AcceptFailed \<Rightarrow> Some (Err (IoError ''accept holder connection''), s)
       | Peer fd pid uid \<Rightarrow>
           if uid \<noteq> os_uid os
           then Some (Err (InvalidArgument ''holder peer uid does not match''),
                  s\<lparr>sv_rs := (sv_rs s)\<lparr>rs_world := os_close os fd (sv_world s)\<rparr>\<rparr>)
           else
             (case reactor_add os fd False (sv_reactor s) (sv_world s) of
                (Inl e, re, w) \<Rightarrow>
                  Some (Err e, s\<lparr>sv_reactor := re,
                                 sv_rs := (sv_rs s)\<lparr>rs_world := os_close os fd w\<rparr>\<rparr>)
              | (Inr _, re, w) \<Rightarrow>
                  f os (conn_put fd (connection_new fd pid uid)
                    (s\<lparr>sv_reactor := re, sv_rs := (sv_rs s)\<lparr>rs_world := w\<rparr>\<rparr>))))) = Some rs"
    show "?P os s rs"
    proof (intro impI)
      assume ok: "os_ok os op" and inv: "sv_inv js op {} {} s"
      obtain x w where acc: "os_accept os (sv_world s) = (x, w)"
        by (cases "os_accept os (sv_world s)")
      show "case rs of (r, s') \<Rightarrow> r \<noteq> Panic \<and> sv_inv js op {} {} s'"
      proof (cases x)
        case (Peer fd pid uid)
        obtain y re w2 where add: "reactor_add os fd False (sv_reactor s) w = (y, re, w2)"
          by (metis prod_cases3)
        note peer = accept_peer[OF ok inv acc[unfolded Peer] add]
        show ?thesis
        proof (cases "uid = os_uid os \<and> (\<exists>u. y = Inr u)")
          case True
          then have "f os (conn_put fd (connection_new fd pid uid)
              (s\<lparr>sv_reactor := re, sv_rs := (sv_rs s)\<lparr>rs_world := w2\<rparr>\<rparr>)) = Some rs"
            using 1(2) acc Peer add by auto
          then show ?thesis
            using 1(1) ok peer(3) by blast
        next
          case False
          then show ?thesis
            using 1(2) acc Peer add peer(1,2) by (cases y) (auto simp: Let_def split: if_splits)
        qed
      next
        case NoPeer
        with 1(2) acc os_accept_fds[OF ok acc] show ?thesis
          using sv_inv_on_rs[OF inv rs_at_world[OF sv_inv_rs_at[OF inv], of w]] by auto
      next
        case AcceptFailed
        with 1(2) acc os_accept_fds[OF ok acc] show ?thesis
          using sv_inv_on_rs[OF inv rs_at_world[OF sv_inv_rs_at[OF inv], of w]] by auto
      qed
    qed
  qed
  then show ?thesis
    using assms by blast
qed

lemma accept_keeps: "os_ok os op \<Longrightarrow> keeps js op (accept_connections os)"
  using accept_inv[of os op]
  by (intro hoareI) (fastforce simp: ends_def split: option.splits res.splits)

end
