(* ===== verification/Holder_Server_Frames.thy ===== *)
theory Holder_Server_Frames
  imports Holder_Server_Ops
begin

text \<open>
  The handlers of frames. Whatever a peer sends, the handler of its frame does not panic, keeps
  the invariant of the server, and leaves the peer's own connection in place, also when it
  rejects the frame: it is the caller that disconnects then.
\<close>

section \<open>Handlers for one connection\<close>

definition own :: "json \<Rightarrow> ('w \<Rightarrow> raw_fd set) \<Rightarrow> raw_fd \<Rightarrow> 'w server \<Rightarrow> bool" where
  "own js op fd s \<longleftrightarrow> sv_inv js op {} {} s \<and> conn_get s fd \<noteq> None"

abbreviation serves :: "json \<Rightarrow> ('w \<Rightarrow> raw_fd set) \<Rightarrow> raw_fd \<Rightarrow> ('w server, 'a) handler \<Rightarrow> bool" where
  "serves js op fd m \<equiv> hoare (own js op fd) m (\<lambda>_. own js op fd) (own js op fd)"

named_theorems serves

lemma serves_bind [serves]:
  "serves js op fd m \<Longrightarrow> (\<And>x. serves js op fd (f x)) \<Longrightarrow> serves js op fd (sbind m f)"
  by (rule hoare_bind)

lemma serves_basic [serves]:
  "serves js op fd (sret x)" "serves js op fd (serr e)"
  "(\<And>s. serves js op fd (g s)) \<Longrightarrow> serves js op fd (sget g)"
  "serves js op fd m \<Longrightarrow> serves js op fd n \<Longrightarrow> serves js op fd (if b then m else n)"
  by (auto intro: hoare_basic)

text \<open>The value of a parser is known when the handler goes on.\<close>

lemma serves_parsed [serves]:
  "(\<And>x. r = Inr x \<Longrightarrow> serves js op fd (f x)) \<Longrightarrow> serves js op fd (sbind (parsed context r) f)"
  by (cases r) (auto simp: hoare_def wp)

lemma serves_conn [serves]:
  assumes "\<And>s c. own js op fd s \<Longrightarrow> conn_get s fd = Some c \<Longrightarrow>
      ends (\<lambda>_. own js op fd) (own js op fd) (f s c s)"
  shows "serves js op fd (sget (\<lambda>s. sbind (sunwrap (conn_get s fd)) (f s)))"
proof (rule hoareI)
  fix s :: "'a server"
  assume o: "own js op fd s"
  then obtain c where "conn_get s fd = Some c"
    by (auto simp: own_def)
  then show "ends (\<lambda>_. own js op fd) (own js op fd)
      (sget (\<lambda>s. sbind (sunwrap (conn_get s fd)) (f s)) s)"
    using assms[OF o] by (simp add: wp)
qed

lemma ownI: "sv_inv js op {} {} s \<Longrightarrow> conn_get s fd = Some c \<Longrightarrow> own js op fd s"
  by (simp add: own_def)

lemma own_inv: "own js op fd s \<Longrightarrow> sv_inv js op {} {} s"
  by (simp add: own_def)

lemma own_step: "sv_inv js op {} {} s' \<Longrightarrow> sv_step D s s' \<Longrightarrow> own js op fd s \<Longrightarrow> fd \<notin> D \<Longrightarrow> own js op fd s'"
  using sv_step_get[of D s s' fd] unfolding own_def by fastforce

lemma serves_queue [serves]:
  assumes "os_ok os op"
  shows "serves js op fd (queue_frame os fd' frame)"
  by (rule hoareI, rule ends_mono[OF queue_frame_ends[OF assms own_inv]])
    (auto elim: own_step)

lemma serves_modify [serves]:
  assumes "os_ok os op"
  shows "serves js op fd (on_reactor (reactor_modify os p b))"
  by (rule hoareI, rule ends_mono[OF modify_ends[OF assms own_inv]])
    (auto elim: own_step)

lemma serves_respond [serves]:
  "os_ok os op \<Longrightarrow> serves js op fd (respond os fd request kind payload)"
  "os_ok os op \<Longrightarrow> serves js op fd (send_response os fd request kind resp)"
  by (auto simp: respond_def send_response_def intro!: serves)

lemma serves_on_rs:
  assumes "\<And>F Op. hoare (rs_at js op F Op) m (\<lambda>x rs. rs_at js op F Op rs) (rs_at js op F Op)"
  shows "serves js op fd (on_rs m)"
proof (rule hoareI)
  fix s :: "'a server"
  assume o: "own js op fd s"
  show "ends (\<lambda>_. own js op fd) (own js op fd) (on_rs m s)"
    unfolding wp_on_rs
    by (rule hoare_call[OF assms sv_inv_rs_at[OF own_inv[OF o]]])
      (use o in \<open>auto simp: own_def sv_inv_on_rs\<close>)
qed

lemma hoare_weaken: "hoare P m (\<lambda>x s. R x \<and> Q s) E \<Longrightarrow> hoare P m (\<lambda>_. Q) E"
  "hoare P m (\<lambda>x s. Q s \<and> R' x) E \<Longrightarrow> hoare P m (\<lambda>_. Q) E"
  by (auto simp: hoare_def intro: ends_mono)

lemma serves_runtime [serves]:
  assumes "os_ok os op"
  shows "serves js op fd (on_rs (queue_input os sid data))"
    "serves js op fd (on_rs (rt_resize os sid rq))" "serves js op fd (on_rs (rt_signal os sid sq))"
    "sid \<noteq> 0 \<Longrightarrow> serves js op fd (on_rs (rt_close os sid))"
    "sid \<noteq> 0 \<Longrightarrow> serves js op fd (on_rs (rt_kill os sid))"
    "sid \<noteq> 0 \<Longrightarrow> serves js op fd (on_rs (retire_exited os sid))"
  by (auto intro!: serves_on_rs queue_input_rs rt_resize_rs rt_signal_rs
      hoare_weaken(1)[OF rt_close_rs] hoare_weaken(1)[OF rt_kill_rs] hoare_weaken(1)[OF retire_exited_rs]
      assms)

section \<open>Updating a connection\<close>

lemma sv_inv_conn:
  assumes "sv_inv js op W X s" and "conn_get s fd = Some c" and "conn_ok fd c'"
    and "cn_role c' = Control \<longleftrightarrow> cn_role c = Control"
    and "cn_role c' = Data \<Longrightarrow> sv_controller s \<noteq> None"
    and "\<And>sid. hm_get (sv_writers s) sid = Some fd \<Longrightarrow>
      cn_role c' = Data \<and> (cn_attached_session c' = Some sid \<or> (sid, fd) \<in> W')"
    and "\<And>p. p \<in> W \<Longrightarrow> snd p = fd"
  shows "sv_inv js op W' X (conn_put fd c' s)"
proof -
  note core = sv_coreD[OF sv_inv_core[OF assms(1)]]
  let ?s = "conn_put fd c' s"
  have "sv_core js op W' X ?s"
  proof (rule sv_coreI)
    show "sv_fds_ok op X ?s"
      using core(7) assms(2) unfolding sv_fds_ok_def by simp
    show "writers_ok W' ?s"
      unfolding writers_ok_def
    proof (intro allI impI)
      fix sid f
      assume w: "hm_get (sv_writers ?s) sid = Some f"
      show "\<exists>c. conn_get ?s f = Some c \<and> cn_role c = Data
          \<and> (cn_attached_session c = Some sid \<or> (sid, f) \<in> W')"
      proof (cases "f = fd")
        case True
        then show ?thesis
          using assms(6)[of sid] w by simp
      next
        case False
        then have "(sid, f) \<notin> W"
          using assms(7)[of "(sid, f)"] by auto
        then show ?thesis
          using core(8) w False unfolding writers_ok_def by fastforce
      qed
    qed
    show "controller_ok ?s"
      using assms(2,4) by (intro controller_ok_same[OF core(9)]) auto
    show "conn_ok x d" if "conn_get ?s x = Some d" for x d
      using that core(6)[of x d] assms(3) by (auto split: if_splits)
  qed (use core in auto)
  moreover have "sv_controller s \<noteq> None" if "conn_get ?s x = Some d" "cn_role d = Data" for x d
    using that assms(1,5) by (auto simp: sv_inv_def split: if_splits)
  ultimately show ?thesis
    by (simp add: sv_inv_def)
qed

lemma sv_inv_detach:
  assumes "sv_inv js op {} X s"
  shows "sv_inv js op {} X (detach_connection fd s)"
proof -
  note core = sv_coreD[OF sv_inv_core[OF assms]]
  let ?s = "detach_connection fd s"
  have "sv_core js op {} X ?s"
  proof (rule sv_coreI)
    show "sv_fds_ok op X ?s"
      using core(7) unfolding sv_fds_ok_def by simp
    show "writers_ok {} ?s"
      using core(8) unfolding writers_ok_def detach_writers by (fastforce split: if_splits)
    show "controller_ok ?s"
    proof (rule controller_ok_same[OF core(9)])
      show "(\<exists>c. conn_get ?s x = Some c \<and> cn_role c = Control)
          \<longleftrightarrow> (\<exists>c. conn_get s x = Some c \<and> cn_role c = Control)" for x
        by (cases "conn_get s fd") auto
    qed simp
    show "conn_ok x c" if c: "conn_get ?s x = Some c" for x c
    proof (cases "x = fd")
      case True
      then obtain d where "conn_get s fd = Some d" "c = d\<lparr>cn_attached_session := None\<rparr>"
        using c by auto
      then show ?thesis
        using core(6)[of fd d] True by (simp add: conn_ok_def)
    qed (use c core(6)[of x c] in simp)
  qed (use core in auto)
  moreover have "sv_controller s \<noteq> None" if "conn_get ?s x = Some d" "cn_role d = Data" for x d
    using that assms by (auto simp: sv_inv_def split: if_splits)
  ultimately show ?thesis
    by (simp add: sv_inv_def)
qed

lemma serves_detach [serves]: "serves js op fd (sput (detach_connection fd'))"
  by (auto simp: hoare_def wp own_def sv_inv_detach)


section \<open>Hellos\<close>

text \<open>A handler for a connection that stays pending: the peer has no role yet, so the disconnection
  of the controller does not reach it.\<close>

lemma takeover_ends:
  assumes "os_ok os op" and "sv_inv js op {} {} s" and "conn_get s fd = Some c" and "cn_role c = Pending"
  shows "ends (\<lambda>_ s'. sv_inv js op {} {} s' \<and> (\<exists>D. sv_step D s s' \<and> fd \<notin> D))
    (\<lambda>_. False) (takeover os s)"
proof -
  note controller = controller_okD[OF sv_coreD(9)[OF sv_inv_core[OF assms(2)]]]
  show ?thesis
  proof (cases "sv_controller s")
    case None
    then show ?thesis
      using assms(2) sv_step_refl[of s] by (auto simp: takeover_def wp)
  next
    case (Some ctl)
    then obtain d where d: "conn_get s (ct_fd ctl) = Some d" "cn_role d = Control"
      using controller(2) by blast
    obtain b w where closes: "os_closes_within os (cn_peer_fd d) (sv_world s) = (b, w)"
      by (cases "os_closes_within os (cn_peer_fd d) (sv_world s)")
    let ?s = "s\<lparr>sv_rs := (sv_rs s)\<lparr>rs_world := w\<rparr>\<rparr>"
    have inv: "sv_inv js op {} {} ?s"
      using os_fds(13)[OF assms(1) closes] sv_inv_rs_at[OF assms(2)]
      by (intro sv_inv_on_rs[OF assms(2)] rs_at_world) simp_all
    have step: "sv_step {} s ?s"
      by (simp add: sv_step_def)
    have "fd \<notin> gone ?s (ct_fd ctl)"
      using assms(3,4) d by (auto simp: gone_def)
    then have "ends (\<lambda>_ s'. sv_inv js op {} {} s' \<and> (\<exists>D. sv_step D s s' \<and> fd \<notin> D))
        (\<lambda>_. False) (disconnect os (ct_fd ctl) ?s)"
      by (intro ends_mono[OF disconnect_ends[OF assms(1) inv]]) (auto dest: sv_step_trans[OF step])
    then show ?thesis
      using Some d(1) inv step by (auto simp: takeover_def wp closes)
  qed
qed

lemma sv_inv_new_controller:
  assumes "sv_inv js op {} X s" and "conn_get s fd = Some c" and "cn_role c = Pending"
    and "sv_controller s = None" and "ct_fd ctl = fd" and "is_ok (validate_minor (ct_protocol_minor ctl))"
  shows "sv_inv js op {} X ((conn_put fd (c\<lparr>cn_role := Control\<rparr>) s)\<lparr>sv_controller := Some ctl\<rparr>)"
proof -
  note core = sv_coreD[OF sv_inv_core[OF assms(1)]]
  let ?s = "(conn_put fd (c\<lparr>cn_role := Control\<rparr>) s)\<lparr>sv_controller := Some ctl\<rparr>"
  have other: "cn_role d \<noteq> Control" if "conn_get s x = Some d" for x d
    using controller_okD(3)[OF core(9) that] assms(4) by auto
  have "sv_core js op {} X ?s"
  proof (rule sv_coreI)
    show "sv_fds_ok op X ?s"
      using core(7) assms(2) unfolding sv_fds_ok_def by simp
    show "writers_ok {} ?s"
      using core(8) assms(2,3) unfolding writers_ok_def by fastforce
    show "controller_ok ?s"
      using assms(5,6) other by (intro controller_okI) (auto split: if_splits)
    show "conn_ok x d" if "conn_get ?s x = Some d" for x d
      using that core(6)[of x d] core(6)[OF assms(2)] assms(3) by (auto simp: conn_ok_def split: if_splits)
  qed (use core in auto)
  then show ?thesis
    by (simp add: sv_inv_def)
qed

lemma close_after_flush_ok:
  assumes "conn_ok fd c"
  shows "conn_ok fd (close_after_flush c)" "links (close_after_flush c) = links c"
  using assms by (simp_all add: close_after_flush_def conn_ok_def links_def cn_queue_def)

lemma own_put_same:
  assumes "own js op fd s" and "conn_get s fd = Some c" and "links c' = links c" and "conn_ok fd c'"
  shows "own js op fd (conn_put fd c' s)"
  using sv_inv_put(1)[OF own_inv[OF assms(1)] assms(2-4)] by (simp add: own_def)


text \<open>Queueing a frame changes nothing but the queue.\<close>

lemma queue_conn_ends:
  assumes "os_ok os op" and "sv_inv js op {} {} s" and "conn_get s fd = Some c"
  shows "ends (\<lambda>_ s'. sv_inv js op {} {} s' \<and> sv_controller s' = sv_controller s
      \<and> hm_get (sv_writers s') = hm_get (sv_writers s) \<and> sv_runtime s' = sv_runtime s
      \<and> (\<exists>c'. conn_get s' fd = Some c' \<and> links c' = links c))
    (own js op fd) (queue_frame os fd' frame s)"
proof (rule ends_mono[OF queue_frame_ends[OF assms(1,2)]])
  fix s'
  assume s': "sv_inv js op {} {} s' \<and> sv_step {} s s'"
  then have step: "sv_step {} s s'" and "\<exists>c'. conn_get s' fd = Some c' \<and> links c' = links c"
    using sv_step_get[of "{}" s s' fd c] assms(3) by simp_all
  then show "own js op fd s'"
    using s' by (auto simp: own_def)
  have "hm_get (sv_writers s') sid = hm_get (sv_writers s) sid" for sid
    using sv_stepD(6)[OF step, of sid] by simp
  then show "sv_inv js op {} {} s' \<and> sv_controller s' = sv_controller s
      \<and> hm_get (sv_writers s') = hm_get (sv_writers s) \<and> sv_runtime s' = sv_runtime s
      \<and> (\<exists>c'. conn_get s' fd = Some c' \<and> links c' = links c)"
    using s' \<open>\<exists>c'. _\<close> sv_stepD(1)[OF step] sv_stepD(7)[OF step] by (simp add: fun_eq_iff)
qed

lemma answer_control_serves:
  assumes "os_ok os op" and s1: "sv_inv js op {} {} s" "conn_get s fd = Some c" "cn_role c = Pending"
    and status: "status = Accepted \<longrightarrow> sv_controller s = None"
  shows "ends (\<lambda>_. own js op fd) (own js op fd) (answer_control_hello os fd frame hello status s)"
proof -
  let ?ctl = "\<lparr>ct_fd = fd, ct_pid = ch_daemon_pid hello, ct_nonce = ch_nonce hello,
               ct_protocol_minor = HOLDER_PROTOCOL_BASELINE_MINOR, ct_capabilities = 0\<rparr>"
  have minor: "is_ok (validate_minor (ct_protocol_minor ?ctl))"
    by (simp add: HOLDER_PROTOCOL_BASELINE_MINOR_def validate_minor_def HOLDER_PROTOCOL_MINOR_def)
  have "ends (\<lambda>_. own js op fd) (own js op fd)
      (sget (\<lambda>s. sbind (sunwrap (conn_get s fd)) (\<lambda>c.
      if status = Accepted
      then sbind (sput (conn_put fd (c\<lparr>cn_role := Control\<rparr>))) (\<lambda>_.
        sput (\<lambda>s. s\<lparr>sv_controller := Some ?ctl\<rparr>))
      else sput (conn_put fd (close_after_flush c)))) s2)"
    if s2: "sv_inv js op {} {} s2" "conn_get s2 fd = Some c2" "links c2 = links c"
      "sv_controller s2 = sv_controller s" for s2 c2
  proof (cases "status = Accepted")
    case True
    then show ?thesis
      using sv_inv_new_controller[OF s2(1,2) _ _ _ minor] s1(3) s2 status
      by (simp add: wp own_def links_def)
  next
    case False
    note close = close_after_flush_ok[OF sv_coreD(6)[OF sv_inv_core[OF s2(1)] s2(2)]]
    then show ?thesis
      using False own_put_same[OF ownI[OF s2(1,2)] s2(2) close(2,1)] s2(2) by (simp add: wp)
  qed
  then show ?thesis
    unfolding answer_control_hello_def wp_basic wp_bind
    by (intro ends_mono[OF queue_conn_ends[OF assms(1) s1(1,2)]]) auto
qed

lemma control_hello_serves:
  assumes "os_ok os op" and "own js op fd s" and "conn_get s fd = Some c" and "cn_role c = Pending"
  shows "ends (\<lambda>_. own js op fd) (own js op fd) (handle_control_hello os fd minor frame s)"
proof (cases "minor = HOLDER_PROTOCOL_BASELINE_MINOR")
  case False
  then show ?thesis
    using assms(2) by (simp add: handle_control_hello_def wp_basic)
next
  case True
  have "ends (\<lambda>_. own js op fd) (own js op fd)
      (sbind (parsed ''ControlHello'' (decode_control_hello (fr_payload frame))) (\<lambda>hello.
        sget (\<lambda>s. sbind (sunwrap (conn_get s fd)) (\<lambda>peer.
        answer_control_hello os fd frame hello
          (if ch_uid hello \<noteq> cn_peer_uid peer \<or> ch_daemon_pid hello \<noteq> cn_peer_pid peer
           then PermissionDenied
           else if sv_controller s \<noteq> None then Busy else Accepted)))) s1)"
    if "sv_inv js op {} {} s1" "conn_get s1 fd = Some c1" "cn_role c1 = Pending" for s1 c1
    using answer_control_serves[OF assms(1) that] that
    by (auto simp: wp own_def split: sum.split)
  then show ?thesis
    using True assms(4) unfolding handle_control_hello_def
    by (simp only: not_True_eq_False if_False wp_bind refl)
      (intro ends_mono[OF takeover_ends[OF assms(1) own_inv[OF assms(2)] assms(3,4)]];
        auto dest: sv_step_get[OF _ assms(3)] simp: links_def)
qed


lemma is_ok_baseline: "is_ok (validate_minor HOLDER_PROTOCOL_BASELINE_MINOR)"
  "is_ok (validate_minor HOLDER_PROTOCOL_MINOR)"
  by (simp_all add: HOLDER_PROTOCOL_BASELINE_MINOR_def validate_minor_def HOLDER_PROTOCOL_MINOR_def)

lemma writers_okD:
  assumes "writers_ok W s" and "hm_get (sv_writers s) sid = Some fd" and "conn_get s fd = Some c"
  shows "cn_role c = Data" "cn_attached_session c = Some sid \<or> (sid, fd) \<in> W"
  using assms unfolding writers_ok_def by fastforce+

text \<open>A pending connection holds no session and writes to none.\<close>

lemma pending_idle:
  assumes "sv_inv js op {} X s" and "conn_get s fd = Some c" and "cn_role c = Pending"
  shows "cn_attached_session c = None" "hm_get (sv_writers s) sid \<noteq> Some fd"
proof -
  note core = sv_coreD[OF sv_inv_core[OF assms(1)]]
  show "cn_attached_session c = None"
    using core(6)[OF assms(2)] assms(3) by (auto simp: conn_ok_def)
  show "hm_get (sv_writers s) sid \<noteq> Some fd"
    using writers_okD(1)[OF core(8) _ assms(2)] assms(3) by auto
qed

lemma answer_data_serves:
  assumes "os_ok os op" and "sv_inv js op {} {} s" and "conn_get s fd = Some c" and "cn_role c = Pending"
    and "accepted \<longrightarrow> sv_controller s \<noteq> None"
  shows "ends (\<lambda>_. own js op fd) (own js op fd) (answer_data_hello os fd frame hello accepted s)"
proof -
  have "own js op fd (conn_put fd (if accepted then c2\<lparr>cn_role := Data\<rparr> else close_after_flush c2) s2)"
    if s2: "sv_inv js op {} {} s2" "conn_get s2 fd = Some c2" "links c2 = links c"
      "sv_controller s2 = sv_controller s" for s2 c2
  proof (cases accepted)
    case True
    have c2: "cn_role c2 = Pending" "conn_ok fd c2"
      using s2(3) assms(4) sv_coreD(6)[OF sv_inv_core[OF s2(1)] s2(2)] by (simp_all add: links_def)
    have "sv_inv js op {} {} (conn_put fd (c2\<lparr>cn_role := Data\<rparr>) s2)"
    proof (rule sv_inv_conn[OF s2(1,2)])
      show "conn_ok fd (c2\<lparr>cn_role := Data\<rparr>)"
        using c2(2) by (simp add: conn_ok_def)
    qed (use c2(1) assms(5) s2(4) True pending_idle(2)[OF s2(1,2) c2(1)] in auto)
    then show ?thesis
      using True by (simp add: own_def)
  next
    case False
    note close = close_after_flush_ok[OF sv_coreD(6)[OF sv_inv_core[OF s2(1)] s2(2)]]
    show ?thesis
      using False own_put_same[OF ownI[OF s2(1,2)] s2(2) close(2,1)] by simp
  qed
  then show ?thesis
    unfolding answer_data_hello_def wp_basic wp_bind
    by (intro ends_mono[OF queue_conn_ends[OF assms(1-3)]]) (auto simp: wp)
qed

lemma data_hello_serves:
  assumes "os_ok os op" and "own js op fd s" and "conn_get s fd = Some c" and "cn_role c = Pending"
  shows "ends (\<lambda>_. own js op fd) (own js op fd) (handle_data_hello os fd minor frame s)"
proof (cases "decode_data_hello (fr_payload frame)")
  case (Inl e)
  then show ?thesis
    using assms(2) by (simp add: handle_data_hello_def wp)
next
  case (Inr hello)
  note inv = own_inv[OF assms(2)]
  note core = sv_coreD[OF sv_inv_core[OF inv]]
  have answer: "ends (\<lambda>_. own js op fd) (own js op fd) (answer_data_hello os fd frame hello b s)"
    if "b \<longrightarrow> sv_controller s \<noteq> None" for b
    using answer_data_serves[OF assms(1) inv assms(3,4) that] .
  show ?thesis
  proof (cases "data_accepted s hello (cn_peer_pid c) minor")
    case False
    then show ?thesis
      using Inr assms(3) answer[of False] by (simp add: handle_data_hello_def wp)
  next
    case True
    then obtain ctl where ctl: "sv_controller s = Some ctl" "minor = ct_protocol_minor ctl"
      by (auto simp: data_accepted_def split: option.splits)
    then have ok: "conn_ok fd (c\<lparr>cn_protocol_minor := minor\<rparr>)"
      using core(6)[OF assms(3)] controller_okD(1)[OF core(9)] by (simp add: conn_ok_def)
    have "sv_inv js op {} {} (conn_put fd (c\<lparr>cn_protocol_minor := minor\<rparr>) s)"
      using ok assms(4) ctl pending_idle(2)[OF inv assms(3,4)] by (intro sv_inv_conn[OF inv assms(3)]) auto
    from answer_data_serves[OF assms(1) this, of fd "c\<lparr>cn_protocol_minor := minor\<rparr>" True]
    show ?thesis
      using Inr True assms(3,4) ctl by (simp add: handle_data_hello_def wp)
  qed
qed

lemma hello_serves:
  assumes "os_ok os op" and "own js op fd s" and "conn_get s fd = Some c" and "cn_role c = Pending"
  shows "ends (\<lambda>_. own js op fd) (own js op fd) (handle_hello os fd minor frame s)"
  using control_hello_serves[OF assms] data_hello_serves[OF assms] assms(2)
  by (simp add: handle_hello_def wp_basic)

section \<open>Requests of the controller\<close>

lemma sv_inv_controller:
  assumes "sv_inv js op W X s" and "sv_controller s = Some ctl" and "ct_fd ctl' = ct_fd ctl"
    and "is_ok (validate_minor (ct_protocol_minor ctl'))"
  shows "sv_inv js op W X (s\<lparr>sv_controller := Some ctl'\<rparr>)"
proof -
  note core = sv_coreD[OF sv_inv_core[OF assms(1)]]
  let ?s = "s\<lparr>sv_controller := Some ctl'\<rparr>"
  have "sv_core js op W X ?s"
  proof (rule sv_coreI)
    show "sv_fds_ok op X ?s"
      using core(7) by (simp add: sv_fds_ok_def)
    show "writers_ok W ?s"
      using core(8) by (simp add: writers_ok_def)
    show "controller_ok ?s"
      using controller_okD[OF core(9)] assms(2-4) by (intro controller_okI) auto
  qed (use core in auto)
  then show ?thesis
    by (simp add: sv_inv_def)
qed

lemma capability_serves [serves]:
  assumes "os_ok os op"
  shows "serves js op fd (handle_capability os fd minor frame)"
proof -
  have queue: "ends (\<lambda>_. own js op fd) (own js op fd) (queue_frame os fd f
      (conn_put fd (c\<lparr>cn_protocol_minor := HOLDER_PROTOCOL_MINOR\<rparr>) (s\<lparr>sv_controller :=
         Some (ctl\<lparr>ct_protocol_minor := HOLDER_PROTOCOL_MINOR, ct_capabilities := x\<rparr>)\<rparr>)))"
    if o: "own js op fd s" and c: "conn_get s fd = Some c" and ctl: "sv_controller s = Some ctl"
    for fd s c f ctl x
  proof -
    note inv = own_inv[OF o]
    let ?s = "s\<lparr>sv_controller := Some (ctl\<lparr>ct_protocol_minor := HOLDER_PROTOCOL_MINOR, ct_capabilities := x\<rparr>)\<rparr>"
    have inv1: "sv_inv js op {} {} ?s"
      by (rule sv_inv_controller[OF inv ctl]) (simp_all add: is_ok_baseline)
    have "sv_inv js op {} {} (conn_put fd (c\<lparr>cn_protocol_minor := HOLDER_PROTOCOL_MINOR\<rparr>) ?s)"
    proof (rule sv_inv_conn[OF inv1, of fd c])
      show "conn_ok fd (c\<lparr>cn_protocol_minor := HOLDER_PROTOCOL_MINOR\<rparr>)"
        using sv_coreD(6)[OF sv_inv_core[OF inv] c] is_ok_baseline(2) by (simp add: conn_ok_def)
      show "cn_role (c\<lparr>cn_protocol_minor := HOLDER_PROTOCOL_MINOR\<rparr>) = Data
          \<and> (cn_attached_session (c\<lparr>cn_protocol_minor := HOLDER_PROTOCOL_MINOR\<rparr>) = Some sid
             \<or> (sid, fd) \<in> {})"
        if "hm_get (sv_writers ?s) sid = Some fd" for sid
        using writers_okD[OF sv_coreD(8)[OF sv_inv_core[OF inv]] _ c, of sid] that by simp
    qed (use c in simp_all)
    then show ?thesis
      by (intro hoareD[OF serves_queue[OF assms]]) (simp add: own_def)
  qed
  show ?thesis
    unfolding handle_capability_def
    by (rule serves_conn) (auto simp: wp intro!: queue split: sum.split option.split)
qed


lemma decode_create_valid:
  assumes "decode_create p structured = Inr q"
  shows "cs_session_id q \<noteq> 0" "cs_ring_buffer_size q \<noteq> 0" "cs_ring_buffer_size q \<le> MAX_HOLDER_RING_BUFFER"
proof -
  have "validate_create q = Inr ()"
    using assms by (auto simp: decode_create_def Let_def elim!: rbind_Inr_elim split: if_splits)
  then show "cs_session_id q \<noteq> 0" "cs_ring_buffer_size q \<noteq> 0" "cs_ring_buffer_size q \<le> MAX_HOLDER_RING_BUFFER"
    by (auto simp: validate_create_def split: if_splits)
qed

text \<open>The new PTY is not one of the known descriptors, so it can be registered.\<close>

lemma sv_inv_new_pty:
  assumes "sv_inv js op {} X s" and "p \<notin> op (sv_world s)"
    and "rs_at js op (insert p (set (pty_fds (sv_runtime s)))) (insert p (op (sv_world s))) rs"
  shows "sv_inv js op {} X (s\<lparr>sv_rs := rs\<rparr>)" "p \<in> set (pty_fds (rs_runtime rs))"
proof -
  show "sv_inv js op {} X (s\<lparr>sv_rs := rs\<rparr>)"
  proof (rule sv_inv_sessions[OF assms(1)])
    show "fd \<in> op (rs_world rs) \<and> fd \<notin> set (pty_fds (rs_runtime rs))"
      if "conn_get s fd \<noteq> None \<or> fd \<in> special_fds s" for fd
      using sv_inv_fds(1)[OF assms(1) that] assms(2,3) by (auto simp: rs_at_def)
  qed (use assms(3) in \<open>auto simp: rs_at_def\<close>)
  show "p \<in> set (pty_fds (rs_runtime rs))"
    using assms(3) by (simp add: rs_at_def)
qed

lemma add_pty_ends:
  assumes "os_ok os op" and "own js op fd s" and "p \<in> set (pty_fds (sv_runtime s))"
  shows "ends (\<lambda>_. own js op fd) (own js op fd) (on_reactor (reactor_add os p False) s)"
proof -
  obtain r re w where add: "reactor_add os p False (sv_reactor s) (sv_world s) = (r, re, w)"
    by (metis prod_cases3)
  have "sv_inv js op {} {} (s\<lparr>sv_reactor := re, sv_rs := (sv_rs s)\<lparr>rs_world := w\<rparr>\<rparr>)"
    using reactor_add_fds[OF assms(1) add] assms(3)
    by (intro sv_inv_reactor[OF own_inv[OF assms(2)]]) auto
  then show ?thesis
    using assms(2) by (simp add: wp add own_def split: sum.split)
qed

lemma create_own:
  assumes "os_ok os op" and "cs_session_id q \<noteq> 0" and "cs_ring_buffer_size q \<noteq> 0"
    and "cs_ring_buffer_size q \<le> MAX_HOLDER_RING_BUFFER"
  shows "hoare (own js op fd) (on_rs (rt_create os q))
    (\<lambda>(resp, pty) s. own js op fd s \<and> (\<forall>p. pty = Some p \<longrightarrow> p \<in> set (pty_fds (sv_runtime s))))
    (own js op fd)"
proof (rule hoareI)
  fix s :: "'a server"
  assume o: "own js op fd s"
  note inv = own_inv[OF o]
  show "ends (\<lambda>(resp, pty) s. own js op fd s \<and> (\<forall>p. pty = Some p \<longrightarrow> p \<in> set (pty_fds (sv_runtime s))))
      (own js op fd) (on_rs (rt_create os q) s)"
    unfolding wp_on_rs
  proof (rule hoare_call[OF rt_create_rs[OF assms] sv_inv_rs_at[OF inv]], goal_cases)
    case (1 y rs)
    then show ?case
      using o sv_inv_on_rs[OF inv, of rs] sv_inv_new_pty[OF inv, of _ rs]
      by (auto simp: own_def split: option.splits)
  next
    case (2 rs)
    then show ?case
      using o sv_inv_on_rs[OF inv, of rs] by (simp add: own_def)
  qed
qed

lemma create_serves [serves]:
  assumes "os_ok os op"
  shows "serves js op fd (handle_create os fd minor frame)"
  unfolding handle_create_def
proof (intro serves_parsed hoareI)
  fix q s
  assume q: "(if minor = HOLDER_PROTOCOL_MINOR then decode_create_request_v2 (fr_payload frame)
       else decode_create_request (fr_payload frame)) = Inr q"
    and o: "own js op fd s"
  have valid: "cs_session_id q \<noteq> 0" "cs_ring_buffer_size q \<noteq> 0"
    "cs_ring_buffer_size q \<le> MAX_HOLDER_RING_BUFFER"
    using q decode_create_valid
    by (auto simp: decode_create_request_def decode_create_request_v2_def split: if_splits)
  note respond = hoareD[OF serves_respond(2)[OF assms]]
  have rest: "ends (\<lambda>_. own js op fd) (own js op fd)
      (sbind (case pty of None \<Rightarrow> sret () | Some p \<Rightarrow> on_reactor (reactor_add os p False)) (\<lambda>_.
       send_response os fd frame CreateResp resp) s1)"
    if s1: "own js op fd s1" "\<forall>p. pty = Some p \<longrightarrow> p \<in> set (pty_fds (sv_runtime s1))" for s1 pty resp
    unfolding wp_bind
    using s1 ends_mono[OF add_pty_ends[OF assms s1(1)] respond]
    by (cases pty) (auto simp: wp_basic intro: respond)
  show "ends (\<lambda>_. own js op fd) (own js op fd)
      (sbind (on_rs (rt_create os q)) (\<lambda>(resp, pty_fd).
       sbind (case pty_fd of None \<Rightarrow> sret () | Some p \<Rightarrow> on_reactor (reactor_add os p False)) (\<lambda>_.
       send_response os fd frame CreateResp resp)) s)"
    unfolding wp_bind[of _ _ "on_rs m" for m]
    by (rule hoare_call[OF create_own[OF assms valid] o]) (auto intro: rest)
qed

lemma serves_operation [serves]:
  assumes "os_ok os op" and "\<And>sid. sid \<noteq> 0 \<Longrightarrow> serves js op fd (on_rs (m sid))"
  shows "serves js op fd (sbind (parsed c (decode_operation_request (fr_payload frame))) (\<lambda>request.
     sbind (on_rs (m (oq_session_id request))) (\<lambda>resp. send_response os fd frame kind resp)))"
  by (intro serves_parsed serves_bind serves_respond assms) (simp add: operation_request_codec)

lemma serves_conn_all:
  "(\<And>s c. serves js op fd (f s c)) \<Longrightarrow>
   serves js op fd (sget (\<lambda>s. sbind (sunwrap (conn_get s fd)) (f s)))"
  by (rule serves_conn) (auto intro: hoareD)

lemma serves_shutdown [serves]: "serves js op fd (sput (\<lambda>s. s\<lparr>sv_shutdown_fd := x\<rparr>))"
proof (rule hoareI)
  fix s :: "'a server"
  assume o: "own js op fd s"
  let ?s = "s\<lparr>sv_shutdown_fd := x\<rparr>"
  note core = sv_coreD[OF sv_inv_core[OF own_inv[OF o]]]
  have "sv_core js op {} {} ?s"
  proof (rule sv_coreI)
    show "sv_fds_ok op {} ?s" "writers_ok {} ?s"
      using core(7,8) by (simp_all add: sv_fds_ok_def writers_ok_def)
    show "controller_ok ?s"
      by (rule controller_ok_same[OF core(9)]) simp_all
  qed (use core in auto)
  then show "ends (\<lambda>_. own js op fd) (own js op fd) (sput (\<lambda>s. s\<lparr>sv_shutdown_fd := x\<rparr>) s)"
    using o by (simp add: wp own_def sv_inv_def)
qed

lemma inventory_serves [serves]: "os_ok os op \<Longrightarrow> serves js op fd (handle_inventory os fd frame)"
  unfolding handle_inventory_def Let_def by (intro serves)

lemma control_serves [serves]:
  assumes "os_ok os op"
  shows "serves js op fd (handle_control os js fd minor frame)"
proof -
  have exit: "serves js op fd (sbind (parsed c (decode_operation_request (fr_payload frame))) (\<lambda>request.
      sbind (parsed c' (f request)) (\<lambda>payload. respond os fd frame kind payload)))" for c c' f kind
    by (intro serves_parsed serves_respond assms)
  have shutdown: "serves js op fd (if fr_payload frame = []
      then sbind (respond os fd frame ShutdownAllResp []) (\<lambda>_. sput (\<lambda>s. s\<lparr>sv_shutdown_fd := Some fd\<rparr>))
      else serr e)" for e
    by (intro serves_basic(2,4) serves_bind serves_respond(1) serves_shutdown assms)
  note branches = inventory_serves[OF assms] create_serves[OF assms] exit shutdown
    serves_operation[OF assms serves_runtime(4)[OF assms]]
    serves_operation[OF assms serves_runtime(5)[OF assms]]
    serves_operation[OF assms serves_runtime(6)[OF assms]] serves_basic(2)
  show ?thesis
    unfolding handle_control_def
    by (intro serves_basic(4) serves_basic(2) capability_serves[OF assms] serves_conn_all)
      (cases "fr_message_type frame"; simp only: holder_message_type.case; (assumption | rule branches))
qed


section \<open>Attaching\<close>

text \<open>A client that writes to nothing becomes the writer of a session: the writer before it is
  another data client.\<close>

lemma claimed_inv:
  assumes "sv_inv js op {} {} s" and "conn_get s fd = Some c" and "cn_role c = Data"
  shows "sv_inv js op {(sid, fd)} {} (s\<lparr>sv_writers := hm_insert sid fd (sv_writers s)\<rparr>)"
proof -
  note core = sv_coreD[OF sv_inv_core[OF assms(1)]]
  let ?s = "s\<lparr>sv_writers := hm_insert sid fd (sv_writers s)\<rparr>"
  have "sv_core js op {(sid, fd)} {} ?s"
  proof (rule sv_coreI)
    show "sv_fds_ok op {} ?s"
      using core(7) by (simp add: sv_fds_ok_def)
    show "writers_ok {(sid, fd)} ?s"
      using core(8) assms(2,3) unfolding writers_ok_def by (auto split: if_splits)
    show "controller_ok ?s"
      by (rule controller_ok_same[OF core(9)]) simp_all
  qed (use core in auto)
  then show ?thesis
    using assms(1) by (simp add: sv_inv_def)
qed

lemma previous_writer:
  assumes "sv_inv js op {} {} s" and "hm_get (sv_writers s) sid = Some previous" and "previous \<noteq> fd"
  shows "gone (s\<lparr>sv_writers := w\<rparr>) previous = {previous}"
    and "{(sid, fd)} = {} \<or> \<not> is_controller (s\<lparr>sv_writers := w\<rparr>) previous
      \<and> (\<forall>p \<in> {(sid, fd)}. snd p \<noteq> previous)"
proof -
  note core = sv_coreD[OF sv_inv_core[OF assms(1)]]
  obtain d where d: "conn_get s previous = Some d" "cn_role d = Data"
    using core(8) assms(2) unfolding writers_ok_def by blast
  have "\<not> is_controller (s\<lparr>sv_writers := w\<rparr>) previous"
    using controller_role[OF core(9) _ d(1)] d(2) by (auto simp: is_controller_def)
  then show "gone (s\<lparr>sv_writers := w\<rparr>) previous = {previous}"
    and "{(sid, fd)} = {} \<or> \<not> is_controller (s\<lparr>sv_writers := w\<rparr>) previous
      \<and> (\<forall>p \<in> {(sid, fd)}. snd p \<noteq> previous)"
    using assms(3) by (auto simp: gone_def)
qed

lemma claim_writer_ends:
  assumes "os_ok os op" and "sv_inv js op {} {} s" and "conn_get s fd = Some c" and "cn_role c = Data"
    and "\<And>x. hm_get (sv_writers s) x \<noteq> Some fd"
  shows "ends (\<lambda>_ s'. sv_inv js op {(sid, fd)} {} s' \<and> sv_runtime s' = sv_runtime s
      \<and> hm_get (sv_writers s') sid = Some fd
      \<and> (\<exists>c'. conn_get s' fd = Some c' \<and> links c' = links c)) (\<lambda>_. False) (claim_writer os fd sid s)"
proof -
  let ?s = "s\<lparr>sv_writers := hm_insert sid fd (sv_writers s)\<rparr>"
  note inv = claimed_inv[OF assms(2-4), of sid]
  show ?thesis
  proof (cases "hm_get (sv_writers s) sid")
    case None
    then show ?thesis
      using inv assms(3) by (simp add: claim_writer_def wp)
  next
    case (Some previous)
    have previous: "previous \<noteq> fd"
      using assms(5)[of sid] Some by auto
    note other = previous_writer[OF assms(2) Some previous]
    have "ends (\<lambda>_ s'. sv_inv js op {(sid, fd)} {} s' \<and> sv_runtime s' = sv_runtime s
      \<and> hm_get (sv_writers s') sid = Some fd
      \<and> (\<exists>c'. conn_get s' fd = Some c' \<and> links c' = links c)) (\<lambda>_. False)
      (queue_or_disconnect os previous f ?s)" for f
    proof (rule ends_mono[OF queue_or_disconnect_ends[OF assms(1) inv other(2)]])
      fix s'
      assume "bcast js op {(sid, fd)} {} (gone ?s previous) ?s s'"
      then obtain D where D: "sv_inv js op {(sid, fd)} {} s'" "D \<subseteq> {previous}" "sv_step D ?s s'"
        by (auto simp: bcast_def other(1))
      have "fd \<notin> D"
        using D(2) previous by auto
      then have "hm_get (sv_writers s') sid = Some fd" "\<exists>c'. conn_get s' fd = Some c' \<and> links c' = links c"
        using sv_step_writer(2)[OF D(3), of sid fd] sv_step_get[OF D(3), of fd c] assms(3) by simp_all
      then show "sv_inv js op {(sid, fd)} {} s' \<and> sv_runtime s' = sv_runtime s
          \<and> hm_get (sv_writers s') sid = Some fd
          \<and> (\<exists>c'. conn_get s' fd = Some c' \<and> links c' = links c)"
        using D(1) sv_stepD(1)[OF D(3)] by simp
    qed simp_all
    then show ?thesis
      using Some by (simp add: claim_writer_def wp)
  qed
qed

lemma respond_conn_ends:
  assumes "os_ok os op" and "sv_inv js op {} {} s" and "conn_get s fd = Some c"
  shows "ends (\<lambda>_ s'. sv_inv js op {} {} s' \<and> hm_get (sv_writers s') = hm_get (sv_writers s)
      \<and> sv_runtime s' = sv_runtime s \<and> (\<exists>c'. conn_get s' fd = Some c' \<and> links c' = links c))
    (own js op fd) (send_response os fd frame kind resp s)"
  using ends_mono[OF queue_conn_ends[OF assms]] assms(2,3)
  by (auto simp: send_response_def respond_def wp own_def split: sum.split)

lemma send_attached_serves:
  assumes "os_ok os op" and "own js op fd s" and "replay (sv_runtime s) (ar_session_id q) 0 \<noteq> None"
  shows "ends (\<lambda>_. own js op fd) (own js op fd) (send_attached os fd frame q s)"
proof -
  obtain c where c: "conn_get s fd = Some c"
    using assms(2) by (auto simp: own_def)
  have rest: "serves js op fd (sbind (sfor (\<lambda>chunk. sget (\<lambda>s. queue_frame os fd (f s chunk))) chunks)
      (\<lambda>_. if b then sget (\<lambda>s. queue_frame os fd (g s)) else sret ()))" for f g chunks b
    by (rule serves_bind, rule hoare_for) (intro serves_basic serves_queue assms(1))+
  show ?thesis
    unfolding send_attached_def Let_def wp_bind[of _ _ "send_response a b x y z" for a b x y z]
  proof (rule ends_mono[OF respond_conn_ends[OF assms(1) own_inv[OF assms(2)] c]])
    fix s'
    assume s': "sv_inv js op {} {} s' \<and> hm_get (sv_writers s') = hm_get (sv_writers s)
      \<and> sv_runtime s' = sv_runtime s \<and> (\<exists>c'. conn_get s' fd = Some c' \<and> links c' = links c)"
    then have own: "own js op fd s'"
      by (auto simp: own_def)
    obtain bs where bs: "replay (sv_runtime s') (ar_session_id q) (unat (ar_replay_bytes q)) = Some bs"
      using s' assms(3) by (auto simp: replay_def split: option.splits)
    show "ends (\<lambda>_. own js op fd) (own js op fd)
       (sget (\<lambda>s. sbind (sunwrap (replay (sv_runtime s) (ar_session_id q) (unat (ar_replay_bytes q)))) (\<lambda>bytes.
        sbind (sfor (\<lambda>chunk. sget (\<lambda>s. queue_frame os fd (out_frame Output 0 (generation s) chunk)))
              (chunks_of MAX_HOLDER_IO_FRAME bytes)) (\<lambda>_.
        if ar_mode q = ReadWrite
        then sget (\<lambda>s. queue_frame os fd (writer_frame WriteGranted (ar_session_id q) (generation s)))
        else sret ()))) s')"
      unfolding wp_basic(4) wp_bind[of _ _ "sunwrap v" for v] wp_unwrap bs option.case
      by (rule hoareD[OF rest own])
  qed simp
qed

lemma attach_conn_inv:
  assumes "sv_inv js op W {} s" and "conn_get s fd = Some c" and "cn_role c = Data"
    and "cn_attached_session c = None" and "W \<subseteq> {(sid, fd)}"
  shows "sv_inv js op {} {} (conn_put fd (c\<lparr>cn_attached_session := Some sid\<rparr>) s)"
proof (rule sv_inv_conn[OF assms(1,2)])
  note core = sv_coreD[OF sv_inv_core[OF assms(1)]]
  show "conn_ok fd (c\<lparr>cn_attached_session := Some sid\<rparr>)"
    using core(6)[OF assms(2)] assms(3) by (simp add: conn_ok_def)
  show "sv_controller s \<noteq> None"
    using assms(1-3) unfolding sv_inv_def by blast
  show "cn_role (c\<lparr>cn_attached_session := Some sid\<rparr>) = Data
      \<and> (cn_attached_session (c\<lparr>cn_attached_session := Some sid\<rparr>) = Some x \<or> (x, fd) \<in> {})"
    if "hm_get (sv_writers s) x = Some fd" for x
    using writers_okD(2)[OF core(8) that assms(2)] assms(3-5) by auto
  show "snd p = fd" if "p \<in> W" for p
    using that assms(5) by auto
qed simp

lemma attach_serves:
  assumes "os_ok os op" and "own js op fd s" and "conn_get s fd = Some c" and "cn_role c = Data"
  shows "ends (\<lambda>_. own js op fd) (own js op fd) (attach os fd frame s)"
proof (cases "decode_attach_request (fr_payload frame)")
  case (Inl e)
  then show ?thesis
    using assms(2) by (simp add: attach_def wp)
next
  case (Inr q)
  let ?sid = "ar_session_id q"
  show ?thesis
  proof (cases "replay (sv_runtime s) ?sid 0 = None")
    case True
    then show ?thesis
      using Inr hoareD[OF serves_respond(2)[OF assms(1)] assms(2)] by (simp add: attach_def wp Let_def)
  next
    case False
    let ?s = "detach_connection fd s"
    have inv: "sv_inv js op {} {} ?s"
      by (rule sv_inv_detach[OF own_inv[OF assms(2)]])
    have c: "conn_get ?s fd = Some (c\<lparr>cn_attached_session := None\<rparr>)"
      using assms(3) by simp
    have free: "hm_get (sv_writers ?s) x \<noteq> Some fd" for x
      using writers_okD(2)[OF sv_coreD(8)[OF sv_inv_core[OF inv]] _ c, of x] by auto
    have attached: "ends (\<lambda>_. own js op fd) (own js op fd)
        (send_attached os fd frame q (conn_put fd (d\<lparr>cn_attached_session := Some ?sid\<rparr>) s1))"
      if "sv_inv js op W {} s1" "W \<subseteq> {(?sid, fd)}" "sv_runtime s1 = sv_runtime s"
        "conn_get s1 fd = Some d" "links d = links (c\<lparr>cn_attached_session := None\<rparr>)" for W s1 d
    proof (rule send_attached_serves[OF assms(1)])
      show "own js op fd (conn_put fd (d\<lparr>cn_attached_session := Some ?sid\<rparr>) s1)"
        using attach_conn_inv[OF that(1,4) _ _ that(2)] that(5) assms(4) by (simp add: own_def links_def)
      show "replay (sv_runtime (conn_put fd (d\<lparr>cn_attached_session := Some ?sid\<rparr>) s1)) ?sid 0 \<noteq> None"
        using False that(3) by simp
    qed
    show ?thesis
    proof (cases "ar_mode q = ReadWrite")
      case True
      have "ends (\<lambda>_ s1. ends (\<lambda>_. own js op fd) (own js op fd) (sbind (sunwrap (conn_get s1 fd)) (\<lambda>c.
          sbind (sput (conn_put fd (c\<lparr>cn_attached_session := Some ?sid\<rparr>))) (\<lambda>_.
          send_attached os fd frame q)) s1)) (own js op fd) (claim_writer os fd ?sid ?s)"
        by (rule ends_mono[OF claim_writer_ends[OF assms(1) inv c _ free]])
          (use assms(4) in \<open>auto simp: wp intro!: attached\<close>)
      then show ?thesis
        using Inr False True by (auto simp: attach_def wp Let_def)
    next
      case ro: False
      have "ends (\<lambda>_. own js op fd) (own js op fd) (send_attached os fd frame q
          (conn_put fd (c\<lparr>cn_attached_session := Some ?sid\<rparr>) ?s))"
        using attached[OF inv _ _ c] by (simp add: links_def)
      then show ?thesis
        using Inr False ro assms(3) by (auto simp: attach_def wp Let_def)
    qed
  qed
qed

section \<open>Requests of data clients\<close>

lemma serves_writer:
  assumes "\<And>sid. serves js op fd (f sid)"
  shows "serves js op fd (sbind (require_writer fd) f)"
proof (rule serves_bind[OF _ assms])
  show "serves js op fd (require_writer fd)"
    unfolding require_writer_def
    by (rule serves_conn) (auto simp: wp_basic split: option.split)
qed

lemma data_serves:
  assumes "os_ok os op" and "own js op fd s" and "conn_get s fd = Some c" and "cn_role c = Data"
  shows "ends (\<lambda>_. own js op fd) (own js op fd) (handle_data os fd frame s)"
proof -
  have detach: "serves js op fd (if fr_payload frame = [] then sput (detach_connection fd) else serr e)" for e
    by (intro serves_basic(2,4) serves_detach)
  have input: "serves js op fd (handle_input os fd frame)"
    unfolding handle_input_def
    by (intro serves_writer serves_bind serves_runtime(1) serves_basic(3) assms(1))
      (auto split: option.split intro: serves_basic(1) serves_modify[OF assms(1)])
  have resize: "serves js op fd (sbind (require_writer fd) (\<lambda>session_id.
      sbind (parsed x (decode_resize_request (fr_payload frame))) (\<lambda>request.
      on_rs (rt_resize os session_id request))))" for x
    by (intro serves_writer serves_parsed serves_runtime(2) assms(1))
  have signal: "serves js op fd (sbind (require_writer fd) (\<lambda>session_id.
      sbind (parsed x (decode_signal_request (fr_payload frame))) (\<lambda>request.
      on_rs (rt_signal os session_id request))))" for x
    by (intro serves_writer serves_parsed serves_runtime(3) assms(1))
  note branches = hoareD[OF detach assms(2)] hoareD[OF input assms(2)] hoareD[OF resize assms(2)]
    hoareD[OF signal assms(2)] hoareD[OF serves_basic(2) assms(2)] attach_serves[OF assms]
  show ?thesis
    unfolding handle_data_def
    by (cases "fr_message_type frame"; simp only: holder_message_type.case; rule branches)
qed

lemma process_frame_serves:
  assumes "os_ok os op"
  shows "serves js op fd (process_frame os js fd minor frame)"
  unfolding process_frame_def
proof (rule serves_conn, goal_cases)
  case (1 s c)
  then show ?case
    using hello_serves[OF assms 1] hoareD[OF control_serves[OF assms] 1(1)] data_serves[OF assms 1]
    by (cases "cn_role c") (simp_all add: wp_basic)
qed

end
