(* ===== verification/Holder_Server_Run.thy ===== *)
theory Holder_Server_Run
  imports Holder_Server_Frames
begin

text \<open>
  The event loop: every round keeps the invariant of the server and does not panic, whatever the
  peers send, whatever the shells write and whichever calls fail, and every round ends as long as
  there is only so much input to read.
\<close>

section \<open>The frames of one connection\<close>

lemma disconnect_inv:
  assumes "os_ok os op" and "sv_inv js op {} {} s"
  shows "ends (\<lambda>_. sv_inv js op {} {}) (\<lambda>_. False) (disconnect os fd s)"
  by (rule ends_mono[OF disconnect_ends[OF assms]]) auto

lemma process_frames_ends:
  assumes "os_ok os op" and "own js op fd s"
  shows "ends (\<lambda>all s'. if all then own js op fd s' else sv_inv js op {} {} s') (\<lambda>_. False)
    (process_frames os js fd fs s)"
  using assms(2)
proof (induction fs arbitrary: s)
  case Nil
  then show ?case by (simp add: wp)
next
  case (Cons f fs)
  have closed: "ends (\<lambda>all s'. if all then own js op fd s' else sv_inv js op {} {} s') (\<lambda>_. False)
      (sbind (disconnect os fd) (\<lambda>_. sret False) s1)" if "own js op fd s1" for s1
    unfolding wp_bind
    by (rule ends_mono[OF disconnect_inv[OF assms(1) own_inv[OF that]]]) (simp_all add: wp_basic)
  show ?case
    unfolding process_frames.simps wp_catch
    by (rule ends_mono[OF hoareD[OF process_frame_serves[OF assms(1)] Cons.prems]])
      (simp_all add: Cons.IH closed)
qed

section \<open>Reading and writing\<close>

lemma read_loop_fds:
  assumes "os_ok os op" and "read_loop os fd acc frames w = Some (r, acc', w')"
  shows "op w' = op w"
proof -
  let ?P = "\<lambda>os (fd :: raw_fd) (acc :: bytes) (frames :: (u16 \<times> holder_frame) list) w y.
    os_ok os op \<longrightarrow> (case y of (r, acc', w') \<Rightarrow> op w' = op w)"
  have "?P os fd acc frames w (r, acc', w')"
  proof (rule read_loop.raw_induct[where P = ?P, OF _ assms(2)])
    fix f :: "'a os \<Rightarrow> raw_fd \<Rightarrow> bytes \<Rightarrow> (u16 \<times> holder_frame) list \<Rightarrow> 'a
      \<Rightarrow> ((persist_error + (u16 \<times> holder_frame) list \<times> bool) \<times> bytes \<times> 'a) option"
    fix os fd acc frames w y
    assume 1: "\<And>os fd acc frames w y. f os fd acc frames w = Some y \<Longrightarrow> ?P os fd acc frames w y"
      "(let (r, w) = os_read os fd w
      in (case r of
            ReadWouldBlock \<Rightarrow> Some (Inr (frames, False), acc, w)
          | ReadEio \<Rightarrow> Some (Inl (IoError ''read holder peer''), acc, w)
          | ReadFailed \<Rightarrow> Some (Inl (IoError ''read holder peer''), acc, w)
          | ReadBytes bs \<Rightarrow>
              if bs = [] then Some (Inr (frames, True), acc, w)
              else (case acc_feed acc bs of
                      Inl e \<Rightarrow> Some (Inl (protocol_error ''frame'' e), acc, w)
                    | Inr acc \<Rightarrow>
                        (case acc_take_frames acc of
                           (Inl e, acc) \<Rightarrow> Some (Inl (protocol_error ''frame'' e), acc, w)
                         | (Inr fs, acc) \<Rightarrow> f os fd acc (frames @ fs) w)))) = Some y"
    show "?P os fd acc frames w y"
    proof
      assume ok: "os_ok os op"
      obtain x w1 where read: "os_read os fd w = (x, w1)"
        by (cases "os_read os fd w")
      show "case y of (r, acc', w') \<Rightarrow> op w' = op w"
        using 1(2) read os_fds(2)[OF ok read] 1(1)[rule_format, OF _ ok, of fd _ _ w1 y]
        by (auto split: read_result.splits if_splits sum.splits prod.splits)
    qed
  qed
  then show ?thesis
    using assms(1) by simp
qed

lemma read_frames_keeps:
  assumes "os_ok os op" and "read_frames os c w = Some (r, c', w')"
  shows "op w' = op w" and "\<exists>acc. c' = c\<lparr>cn_accumulator := acc\<rparr>"
  using assms(2) read_loop_fds[OF assms(1), of "cn_peer_fd c" "cn_accumulator c" "[]" w]
  by (auto simp: read_frames_def split: option.splits sum.splits prod.splits)

lemma own_io:
  assumes "own js op fd s" and "conn_get s fd = Some c" and "op w = op (sv_world s)"
    and "links c' = links c" and "conn_ok fd c'"
  shows "own js op fd (conn_put fd c' (s\<lparr>sv_rs := (sv_rs s)\<lparr>rs_world := w\<rparr>\<rparr>))"
proof -
  let ?s = "s\<lparr>sv_rs := (sv_rs s)\<lparr>rs_world := w\<rparr>\<rparr>"
  have "sv_inv js op {} {} ?s"
    by (rule sv_inv_on_rs[OF own_inv[OF assms(1)] rs_at_world[OF sv_inv_rs_at[OF own_inv[OF assms(1)]]]])
      (rule assms(3))
  from sv_inv_put(1)[OF this _ assms(4,5)] show ?thesis
    using assms(2) by (simp add: own_def)
qed

lemma conn_read_ends:
  assumes "os_ok os op" and "own js op fd s"
  shows "ends (\<lambda>_. own js op fd) (\<lambda>_. False) (conn_read os fd s)"
proof -
  obtain c where c: "conn_get s fd = Some c"
    using assms(2) by (auto simp: own_def)
  show ?thesis
  proof (cases "read_frames os c (sv_world s)")
    case None
    then show ?thesis by (simp add: conn_read_def c)
  next
    case (Some y)
    obtain r c' w where y: "read_frames os c (sv_world s) = Some (r, c', w)"
      using Some by (cases y) auto
    note keep = read_frames_keeps[OF assms(1) y]
    obtain acc where acc: "c' = c\<lparr>cn_accumulator := acc\<rparr>"
      using keep(2) by blast
    have "links c' = links c" "conn_ok fd c'"
      using sv_coreD(6)[OF sv_inv_core[OF own_inv[OF assms(2)]] c]
      by (simp_all add: acc links_def conn_ok_def cn_queue_def)
    from own_io[OF assms(2) c keep(1) this] show ?thesis
      by (simp add: conn_read_def c y)
  qed
qed

lemma conn_write_ends:
  assumes "os_ok os op" and "own js op fd s"
  shows "ends (\<lambda>_. own js op fd) (own js op fd) (conn_write os fd s)"
proof -
  obtain c where c: "conn_get s fd = Some c"
    using assms(2) by (auto simp: own_def)
  have ok: "conn_ok fd c"
    by (rule sv_coreD(6)[OF sv_inv_core[OF own_inv[OF assms(2)]] c])
  let ?put = "\<lambda>w bs. os_write os fd bs w"
  have "write_bounded ?put"
    using assms(1) unfolding write_bounded_def os_ok_def writes_bounded_def by blast
  moreover have "write_keeps ?put (\<lambda>w. op w = op (sv_world s))"
    unfolding write_keeps_def
    using os_fds(3)[OF assms(1)] by (metis prod.collapse)
  moreover have "bq_inv MAX_PENDING_OUTPUT (cn_queue c)"
    using ok by (simp add: conn_ok_def)
  ultimately obtain r q w where fl: "conn_flush ?put c (sv_world s) = Some (r, cn_set_queue q c, w)"
    "bq_inv MAX_PENDING_OUTPUT q" "op w = op (sv_world s)"
    using conn_flush_returns[of ?put "\<lambda>w. op w = op (sv_world s)" "sv_world s" c] by auto
  have "conn_ok fd (cn_set_queue q c)"
    using ok fl(2) by (simp add: conn_ok_def)
  from own_io[OF assms(2) c fl(3) _ this] show ?thesis
    by (simp add: conn_write_def c fl(1) wp split: sum.split)
qed

lemma connection_keeps:
  assumes "os_ok os op" and "own js op fd s"
  shows "ends (\<lambda>_. sv_inv js op {} {}) (\<lambda>_. True) (handle_connection os js fd ev s)"
proof -
  have gone: "ends (\<lambda>_. sv_inv js op {} {}) (\<lambda>_. True) (disconnect os fd s1)" if "own js op fd s1" for s1
    by (rule ends_mono[OF disconnect_inv[OF assms(1) own_inv[OF that]]]) simp_all
  have modify: "ends (\<lambda>_. sv_inv js op {} {}) (\<lambda>_. True) (on_reactor (reactor_modify os fd b) s1)"
    if "own js op fd s1" for s1 b
    by (rule ends_mono[OF modify_ends[OF assms(1) own_inv[OF that]]]) simp_all
  have last: "ends (\<lambda>_. sv_inv js op {} {}) (\<lambda>_. True)
      ((if \<not> stays then disconnect os fd
       else sget (\<lambda>s. case conn_get s fd of
              None \<Rightarrow> sret ()
            | Some c \<Rightarrow> on_reactor (reactor_modify os fd (wants_write c)))) s1)"
    if o: "own js op fd s1" for s1 stays
    using gone[OF o] modify[OF o] own_inv[OF o]
    by (cases stays) (auto simp: wp_basic simp del: wp_on_reactor split: option.split)
  have rest: "ends (\<lambda>_. sv_inv js op {} {}) (\<lambda>_. True)
      (sbind (if ev_out ev then conn_write os fd else sret True) (\<lambda>stays.
       if \<not> stays then disconnect os fd
       else sget (\<lambda>s. case conn_get s fd of
              None \<Rightarrow> sret ()
            | Some c \<Rightarrow> on_reactor (reactor_modify os fd (wants_write c)))) s1)"
    if o: "own js op fd s1" for s1
  proof (cases "ev_out ev")
    case True
    show ?thesis
      unfolding wp_bind if_P[OF True]
      by (rule ends_mono[OF conn_write_ends[OF assms(1) o]]) (simp_all add: last)
  next
    case False
    show ?thesis
      unfolding wp_bind if_not_P[OF False] wp_basic(1) by (rule last[OF o])
  qed
  have frames: "ends (\<lambda>_. sv_inv js op {} {}) (\<lambda>_. True)
      (sbind (process_frames os js fd frames) (\<lambda>all.
       if \<not> all then sret ()
       else if ev_err ev \<or> ev_hup ev \<or> ev_rdhup ev \<or> peer_closed then disconnect os fd
       else sbind (if ev_out ev then conn_write os fd else sret True) (\<lambda>stays.
         if \<not> stays then disconnect os fd
         else sget (\<lambda>s. case conn_get s fd of
                None \<Rightarrow> sret ()
              | Some c \<Rightarrow> on_reactor (reactor_modify os fd (wants_write c))))) s1)"
    if "own js op fd s1" for s1 frames peer_closed
    unfolding wp_bind[of _ _ "process_frames a b c d" for a b c d]
    by (rule ends_mono[OF process_frames_ends[OF assms(1) that]])
      (auto simp: wp_basic gone rest split: if_splits simp del: wp_bind)
  have read: "ends (\<lambda>_. own js op fd) (\<lambda>_. False)
      ((if ev_in ev then conn_read os fd else sret (Inr ([], False))) s)"
    using conn_read_ends[OF assms] assms(2) by (simp add: wp_basic)
  show ?thesis
    unfolding handle_connection_def wp_bind[of _ _ "If a b c" for a b c]
  proof (rule ends_mono[OF read], goal_cases)
    case (1 r s1)
    then show ?case
      using gone[of s1] frames[of s1]
      by (cases r; (cases "projr r")?; simp only: sum.case prod.case sum.sel)
  qed simp
qed

section \<open>Rounds\<close>

lemma event_keeps:
  assumes "os_ok os op" and "json_ok js"
  shows "keeps js op (handle_event os js ev)"
proof (rule hoareI)
  fix s :: "'a server"
  assume inv: "sv_inv js op {} {} s"
  let ?E = "\<lambda>m. ends (\<lambda>_. sv_inv js op {} {}) (\<lambda>_. True) (m s)"
  have then_false: "?E (sbind m (\<lambda>_. sret False))" if "?E m" for m :: "('a server, unit) handler"
    using that by (simp add: wp)
  have "?E (handle_signal os js)"
    by (rule keepsD[OF signal_keeps[OF assms] inv])
  moreover have "?E (handle_log_failures os)"
    by (rule keepsD[OF log_failures_keeps[OF assms(1)] inv])
  moreover have "?E (handle_pty os fd e)" if "session_for_pty (sv_runtime s) fd \<noteq> None" for fd e
    by (rule handle_pty_keeps[OF assms(1) inv that])
  moreover have "?E (handle_connection os js fd e)" if "conn_get s fd \<noteq> None" for fd e
    using connection_keeps[OF assms(1)] inv that by (auto simp: own_def)
  ultimately show "?E (handle_event os js ev)"
    using inv by (auto simp: handle_event_def wp_basic then_false split: option.split simp del: wp_bind)
qed

lemma events_keep:
  assumes "os_ok os op" and "json_ok js"
  shows "keeps js op (handle_events os js es)"
proof (induction es)
  case Nil
  show ?case by (simp add: hoareI wp)
next
  case (Cons e es)
  show ?case
    unfolding handle_events.simps
    by (rule hoare_bind[OF event_keeps[OF assms]]) (intro hoare_basic(4) hoare_basic(1) Cons.IH)
qed

lemma round_keeps:
  assumes "os_ok os op" and "json_ok js"
  shows "keeps js op (run_round os js es)"
proof -
  have accept: "keeps js op (if b then accept_connections os else sret ())" for b
    by (intro hoare_basic(4) hoare_basic(1) accept_keeps[OF assms(1)])
  have rest: "keeps js op (if stop then sret True else sbind (if b then accept_connections os else sret ())
      (\<lambda>_. sget (\<lambda>s. sret (shutting_down s))))" for stop b
    by (rule hoare_basic(4)[OF hoare_basic(1) hoare_bind[OF accept]]) (intro hoare_basic(3) hoare_basic(1))
  show ?thesis
    unfolding run_round_def Let_def
    by (intro hoare_basic(3) hoare_bind[OF events_keep[OF assms] rest])
qed

lemma rounds_keep:
  assumes "os_ok os op" and "json_ok js"
  shows "keeps js op (run_rounds os js ess)"
proof (induction ess)
  case Nil
  show ?case by (simp add: hoareI wp)
next
  case (Cons es ess)
  show ?case
    unfolding run_rounds.simps
    by (rule hoare_bind[OF round_keeps[OF assms]]) (intro hoare_basic(4) hoare_basic(1) Cons.IH)
qed

section \<open>Every round ends\<close>

lemma returns_server [rets]:
  "returns m \<Longrightarrow> returns (on_rs m)" "returns (sv_call f)" "returns (on_reactor g)"
  "returns (parsed context r)"
  by (auto simp: returns_def on_rs_def sv_call_def on_reactor_def rs_call_def parsed_def sresult_def
      handler_defs split: option.splits prod.splits sum.splits)

lemma returns_disconnect_n: "returns (disconnect_n n os fd)"
  by (induction n arbitrary: fd) (auto simp: drop_connection_def intro!: rets)

lemma returns_sending [rets]:
  "returns (disconnect os fd)" "returns (queue_frame os fd frame)"
  "returns (queue_or_disconnect os fd frame)" "returns (release_writer os sid)"
  "returns (send_control os frame)" "returns (respond os fd request kind payload)"
  "returns (send_response os fd request kind resp)" "returns (takeover os)"
  by (auto simp: disconnect_def queue_frame_def queue_or_disconnect_def release_writer_def
      send_control_def respond_def send_response_def takeover_def Let_def
      intro!: rets returns_disconnect_n)

lemma returns_hello [rets]: "returns (handle_hello os fd minor frame)"
  unfolding handle_hello_def handle_control_hello_def handle_data_hello_def Let_def
    answer_control_hello_def answer_data_hello_def
  by (intro rets)

lemma returns_control [rets]: "returns (handle_control os js fd minor frame)"
  unfolding handle_control_def handle_capability_def handle_inventory_def handle_create_def Let_def
  by (cases "fr_message_type frame"; simp only: holder_message_type.case; intro rets)

lemma returns_attach [rets]: "returns (attach os fd frame)"
  unfolding attach_def claim_writer_def send_attached_def Let_def by (intro rets)

lemma returns_data [rets]: "returns (handle_data os fd frame)"
  unfolding handle_data_def handle_input_def require_writer_def Let_def
  by (cases "fr_message_type frame"; simp only: holder_message_type.case; intro rets)

lemma returns_process_frame [rets]: "returns (process_frame os js fd minor frame)"
proof -
  have "returns (case r of Pending \<Rightarrow> a | Control \<Rightarrow> b | Data \<Rightarrow> c)"
    if "returns a" "returns b" "returns c" for r and a b c :: "('a server, unit) handler"
    using that by (cases r) simp_all
  note roles = this
  show ?thesis
    unfolding process_frame_def by (intro rets roles)
qed

lemma returns_process_frames [rets]: "returns (process_frames os js fd fs)"
  by (induction fs) (auto intro!: rets)

text \<open>The loops that read: what is left to read and to accept bounds them.\<close>

lemma accept_returns:
  assumes "input_budget os \<mu>"
  shows "accept_connections os s \<noteq> None"
proof (induction "\<mu> (sv_world s)" arbitrary: s rule: less_induct)
  case less
  obtain r w where acc: "os_accept os (sv_world s) = (r, w)"
    by (cases "os_accept os (sv_world s)")
  have "accept_connections os s' \<noteq> None"
    if "r = Peer fd pid uid" "reactor_add os fd False (sv_reactor s) w = (x, re, w2)"
      "sv_world s' = w2" for fd pid uid x re w2 s'
  proof (rule less)
    obtain ok w3 where ctl: "os_epoll_ctl os (CtlAdd False) fd (re_next_token (sv_reactor s)) w = (ok, w3)"
      by (cases "os_epoll_ctl os (CtlAdd False) fd (re_next_token (sv_reactor s)) w")
    then have "w2 = w3"
      using that(2) by (auto simp: reactor_add_def Let_def split: if_splits)
    moreover have "\<mu> w < \<mu> (sv_world s)"
      using input_budgetD(2)[OF assms] acc that(1) by blast
    ultimately show "\<mu> (sv_world s') < \<mu> (sv_world s)"
      using input_budgetD(5)[OF assms ctl] that(3) by simp
  qed
  then show ?case
    by (subst accept_connections.simps)
      (auto simp: acc Let_def split: accept_result.splits sum.splits prod.splits)
qed

lemma returns_reading:
  assumes "input_budget os \<mu>"
  shows "returns (conn_read os fd)" "returns (accept_connections os)" "returns (conn_write os fd)"
proof -
  show "returns (conn_read os fd)"
    using read_frames_returns[OF assms]
    by (auto simp: returns_def conn_read_def simp del: not_None_eq split: option.split prod.split)
  show "returns (accept_connections os)"
    using accept_returns[OF assms] by (simp add: returns_def)
  show "returns (conn_write os fd)"
    by (auto simp: returns_def conn_write_def sresult_def handler_defs split: option.split sum.split prod.split)
qed

lemma returns_sum:
  "(\<And>e. returns (f e)) \<Longrightarrow> (\<And>x. returns (g x)) \<Longrightarrow> returns (case r of Inl e \<Rightarrow> f e | Inr x \<Rightarrow> g x)"
  by (cases r) simp_all

lemma returns_connection:
  assumes "input_budget os \<mu>"
  shows "returns (handle_connection os js fd ev)"
  unfolding handle_connection_def by (intro rets returns_sum returns_reading[OF assms])

lemma returns_publish [rets]: "returns (publish_output os batch)"
  unfolding publish_output_def Let_def by (intro rets)

lemma returns_event:
  assumes "input_budget os \<mu>"
  shows "returns (handle_event os js ev)"
proof -
  note drain = returns_drain_output[OF assms]
  have announce: "returns (announce_exit os js x)" for x
    unfolding announce_exit_def Let_def by (intro rets)
  have sigs: "returns (case g of None \<Rightarrow> a | Some SigInt \<Rightarrow> b | Some SigTerm \<Rightarrow> b
      | Some SigChld \<Rightarrow> c | Some SigOther \<Rightarrow> d)"
    if "returns a" "returns b" "returns c" "returns d" for g and a b c d :: "('a server, bool) handler"
    using that by (auto split: option.split holder_signal.split)
  have signal: "returns (handle_signal os js)"
    unfolding handle_signal_def by (intro rets sigs drain announce)
  have logs: "returns (handle_log_failures os)"
    unfolding handle_log_failures_def log_progress_def take_failures_def by (intro rets)
  have pty: "returns (handle_pty os fd e)" for fd e
    unfolding handle_pty_def by (intro rets drain)
  show ?thesis
    unfolding handle_event_def by (intro rets signal logs pty returns_connection[OF assms])
qed

lemma returns_round:
  assumes "input_budget os \<mu>"
  shows "returns (run_round os js es)"
proof -
  have "returns (handle_events os js es)" for es
    by (induction es) (auto intro!: rets returns_event[OF assms])
  then show ?thesis
    unfolding run_round_def Let_def by (intro rets returns_reading[OF assms])
qed

lemma returns_rounds:
  assumes "input_budget os \<mu>"
  shows "returns (run_rounds os js ess)"
  by (induction ess) (auto intro!: rets returns_round[OF assms])

section \<open>The start\<close>

lemma server_new_inv:
  assumes "os_ok os op" and "{listener, signals, logs} \<subseteq> op w"
    and "server_new os listener signals logs instance_id dir w = (r, s)"
  shows "sv_inv js op {} {} s"
proof -
  have add: "op w2 = op w1 \<and> (\<forall>x. hm_get (re_tokens re2) x \<noteq> None \<longrightarrow> hm_get (re_tokens re1) x \<noteq> None \<or> x = fd)"
    if "reactor_add os fd False re1 w1 = (y, re2, w2)" for fd re1 w1 y re2 w2
    using reactor_add_fds[OF assms(1) that] by blast
  obtain r1 re1 w1 where 1: "reactor_add os listener False reactor_new w = (r1, re1, w1)"
    by (metis prod_cases3)
  obtain r2 re2 w2 where 2: "(case r1 of Inl e \<Rightarrow> (Inl e, re1, w1) | Inr _ \<Rightarrow> reactor_add os signals False re1 w1)
      = (r2, re2, w2)"
    by (metis prod_cases3)
  obtain r3 re3 w3 where 3: "(case r2 of Inl e \<Rightarrow> (Inl e, re2, w2) | Inr _ \<Rightarrow> reactor_add os logs False re2 w2)
      = (r3, re3, w3)"
    by (metis prod_cases3)
  have a2: "op w2 = op w1 \<and> (\<forall>x. hm_get (re_tokens re2) x \<noteq> None \<longrightarrow> hm_get (re_tokens re1) x \<noteq> None \<or> x = signals)"
    using 2 add[of signals re1 w1] by (cases r1) auto
  have a3: "op w3 = op w2 \<and> (\<forall>x. hm_get (re_tokens re3) x \<noteq> None \<longrightarrow> hm_get (re_tokens re2) x \<noteq> None \<or> x = logs)"
    using 3 add[of logs re2 w2] by (cases r2) auto
  have w3: "op w3 = op w"
    using add[OF 1] a2 a3 by simp
  have reg: "x \<in> {listener, signals, logs}" if "hm_get (re_tokens re3) x \<noteq> None" for x
  proof -
    have "hm_get (re_tokens re1) y \<noteq> None \<longrightarrow> y = listener" for y
      using add[OF 1] by (simp add: reactor_new_def del: not_None_eq)
    then show ?thesis
      using that a2 a3 by blast
  qed
  have s: "s = \<lparr>sv_rs = \<lparr>rs_runtime = runtime_new dir, rs_logs = log_worker_start, rs_world = w3\<rparr>,
            sv_reactor = re3, sv_connections = [], sv_writers = [], sv_controller = None,
            sv_instance_id = instance_id, sv_shutdown_fd = None, sv_listener_fd = listener,
            sv_signal_fd = signals, sv_log_fd = logs\<rparr>"
    using assms(3) 1 2 3 by (simp add: server_new_def)
  have none: "conn_get s fd = None" "pty_fds (sv_runtime s) = []" for fd
    by (simp_all add: s conn_get_def pty_fds_def runtime_new_def del: conn_get_connections)
  have fields: "rs_logs (sv_rs s) = log_worker_start" "sv_runtime s = runtime_new dir"
    "sv_connections s = []" "sv_writers s = []" "sv_controller s = None"
    by (simp_all add: s)
  have "sv_core js op {} {} s"
  proof (rule sv_coreI)
    show "sv_fds_ok op {} s"
      using reg assms(2) w3 unfolding sv_fds_ok_def none
      by (simp add: s special_fds_def del: not_None_eq)
    show "set (pty_fds (sv_runtime s)) \<subseteq> op (sv_world s)"
      by (simp add: none)
  qed (simp_all add: none fields writers_ok_def controller_ok_def rt_inv_new lw_inv_start)
  then show ?thesis
    by (simp add: sv_inv_def none)
qed

end
