(* ===== verification/Holder_Server_Access.thy ===== *)
theory Holder_Server_Access
  imports Holder_Server_Run
begin

text \<open>
  What the server guarantees its peers: who may become a controller or a data client, who may
  write to a session, and which bytes a client is sent. \<open>sent F s s'\<close> says that from \<open>s\<close> to \<open>s'\<close>
  every connection either has the frames \<open>F\<close> gives it appended to its output, or is gone;
  \<open>served\<close> adds that a connection with room for its frames is not gone.
\<close>

section \<open>Output\<close>

definition sent :: "(raw_fd \<Rightarrow> holder_frame list) \<Rightarrow> 'w server \<Rightarrow> 'w server \<Rightarrow> bool" where
  "sent F s s' \<longleftrightarrow>
     (\<forall>fd c'. conn_get s' fd = Some c' \<longrightarrow>
        (\<exists>c. conn_get s fd = Some c \<and> cn_protocol_minor c' = cn_protocol_minor c
           \<and> bq_pending (cn_queue c') = bq_pending (cn_queue c)
               @ concat (map (wire_frame (cn_protocol_minor c)) (F fd))))"

definition sent_to :: "raw_fd \<Rightarrow> holder_frame \<Rightarrow> raw_fd \<Rightarrow> holder_frame list" where
  "sent_to fd frame = (\<lambda>_. [])(fd := [frame])"

lemma sent_drop: "(\<And>fd. conn_get s' fd = None \<or> conn_get s' fd = conn_get s fd) \<Longrightarrow> sent (\<lambda>_. []) s s'"
  unfolding sent_def by (metis append_Nil2 concat.simps(1) list.simps(8) option.distinct(1))

lemma sent_refl: "sent (\<lambda>_. []) s s"
  by (rule sent_drop) simp

lemma sent_trans:
  assumes "sent F s s1" and "sent G s1 s2"
  shows "sent (\<lambda>fd. F fd @ G fd) s s2"
  unfolding sent_def
proof (intro allI impI)
  fix fd c2
  assume "conn_get s2 fd = Some c2"
  then obtain c1 where c1: "conn_get s1 fd = Some c1" "cn_protocol_minor c2 = cn_protocol_minor c1"
    "bq_pending (cn_queue c2) = bq_pending (cn_queue c1) @ concat (map (wire_frame (cn_protocol_minor c1)) (G fd))"
    using assms(2) unfolding sent_def by blast
  with assms(1) obtain c where "conn_get s fd = Some c" "cn_protocol_minor c1 = cn_protocol_minor c"
    "bq_pending (cn_queue c1) = bq_pending (cn_queue c) @ concat (map (wire_frame (cn_protocol_minor c)) (F fd))"
    unfolding sent_def by blast
  with c1 show "\<exists>c. conn_get s fd = Some c \<and> cn_protocol_minor c2 = cn_protocol_minor c
      \<and> bq_pending (cn_queue c2) = bq_pending (cn_queue c)
          @ concat (map (wire_frame (cn_protocol_minor c)) (F fd @ G fd))"
    by simp
qed

lemma sent_cong:
  assumes "sent F s s'" and "\<And>fd c'. conn_get s' fd = Some c' \<Longrightarrow> F fd = G fd"
  shows "sent G s s'"
  using assms unfolding sent_def by metis

lemma sentD:
  assumes "sent F s s'" and "conn_get s fd = Some c" and "conn_get s' fd = Some c'"
  shows "bq_pending (cn_queue c') = bq_pending (cn_queue c)
    @ concat (map (wire_frame (cn_protocol_minor c)) (F fd))"
  using assms unfolding sent_def by fastforce

lemma sent_same:
  assumes "sent F s s1" and "conn_get s' = conn_get s"
  shows "sent F s' s1"
  using assms by (simp add: sent_def)

lemma sent_gone: "sent F s s' \<Longrightarrow> conn_get s fd = None \<Longrightarrow> conn_get s' fd = None"
  unfolding sent_def by (metis option.exhaust option.distinct(1))

lemma ends_conj:
  "ends Q E x \<Longrightarrow> ends Q' E' x \<Longrightarrow> ends (\<lambda>y s. Q y s \<and> Q' y s) (\<lambda>s. E s \<and> E' s) x"
  by (auto simp: ends_def split: option.splits res.splits)

text \<open>Disconnecting takes connections away and leaves the others as they are.\<close>

definition drops :: "'w server \<Rightarrow> 'w server \<Rightarrow> bool" where
  "drops s s' \<longleftrightarrow> (\<forall>x. conn_get s' x = None \<or> conn_get s' x = conn_get s x)"

lemma drops_trans: "drops s s1 \<Longrightarrow> drops s1 s2 \<Longrightarrow> drops s s2"
  unfolding drops_def by metis

lemma drops_dropped: "drops s (dropped os fd s)"
  by (simp add: drops_def)

lemma drops_list:
  assumes "sv_controller s = None"
  shows "ends (\<lambda>_. drops s) (\<lambda>_. False) (sfor (disconnect_n (Suc n) os) fds s)"
  using assms
proof (induction fds arbitrary: s)
  case Nil
  then show ?case by (simp add: wp drops_def)
next
  case (Cons fd fds)
  have "ends (\<lambda>_. drops s) (\<lambda>_. False) (sfor (disconnect_n (Suc n) os) fds (dropped os fd s))"
    by (rule ends_mono[OF Cons.IH]) (use Cons.prems drops_trans[OF drops_dropped] in auto)
  then show ?case
    using Cons.prems
    unfolding sfor.simps wp_bind ends_disconnect
    by (simp add: is_controller_def Let_def del: disconnect_n.simps)
qed

lemma disconnect_drops:
  "ends (\<lambda>_ s'. drops s s' \<and> conn_get s' fd = None) (\<lambda>_. False) (disconnect os fd s)"
proof (cases "is_controller s fd")
  case False
  then show ?thesis
    by (simp add: ends_disconnect_top Let_def drops_dropped)
next
  case True
  let ?s = "dropped os fd s\<lparr>sv_controller := None\<rparr>"
  have "drops s s' \<and> conn_get s' fd = None" if "drops ?s s'" for s'
  proof
    show "conn_get s' fd = None"
      using that unfolding drops_def by (auto dest: spec[of _ fd])
    have "drops s ?s"
      by (simp add: drops_def)
    from drops_trans[OF this that] show "drops s s'" .
  qed
  then have "ends (\<lambda>_ s'. drops s s' \<and> conn_get s' fd = None) (\<lambda>_. False)
      (sfor (disconnect_n (Suc 0) os) (data_fds ?s) ?s)"
    by (intro ends_mono[OF drops_list]) simp_all
  then show ?thesis
    using True by (simp add: ends_disconnect_top Let_def del: disconnect_n.simps)
qed

lemma queue_frame_sent:
  assumes "sv_inv js op W X s"
  shows "ends (\<lambda>_. sent (sent_to fd frame) s)
    (\<lambda>s'. \<forall>x. x \<noteq> fd \<longrightarrow> conn_get s' x = conn_get s x) (queue_frame os fd frame s)"
proof (cases "conn_get s fd")
  case None
  then show ?thesis
    by (simp add: queue_frame_def wp)
next
  case (Some c)
  show ?thesis
  proof (cases "conn_queue c frame")
    case (Inl e)
    then show ?thesis
      using Some by (simp add: queue_frame_def wp)
  next
    case (Inr c')
    have "bq_inv MAX_PENDING_OUTPUT (cn_queue c)"
      using sv_coreD(6)[OF sv_inv_core[OF assms] Some] by (simp add: conn_ok_def)
    from conn_queue_ok[OF this Inr] obtain q where q: "c' = cn_set_queue q c"
      "bq_pending q = bq_pending (cn_queue c) @ wire_frame (cn_protocol_minor c) frame"
      by blast
    have "sent (sent_to fd frame) s s'" if "conn_get s' = conn_get (conn_put fd c' s)" for s'
      using Some q that by (auto simp: sent_def sent_to_def)
    then show ?thesis
      using Some Inr by (simp add: queue_frame_def wp split: prod.split sum.split)
  qed
qed


text \<open>Who is served. A connection has room for some frames when they can be encoded, fit into its
  queue, and its descriptor is registered. \<open>served\<close> adds to \<open>sent\<close> that a connection with room for
  its frames stays, given that epoll accepts changes of registered descriptors and that the
  controller has room for its own frames: losing the controller disconnects every client.\<close>

definition epoll_modifies :: "'w os \<Rightarrow> bool" where
  "epoll_modifies os \<longleftrightarrow> (\<forall>b fd t w. fst (os_epoll_ctl os (CtlMod b) fd t w))"

definition registered :: "'w server \<Rightarrow> raw_fd \<Rightarrow> bool" where
  "registered s fd \<longleftrightarrow> hm_get (re_tokens (sv_reactor s)) fd \<noteq> None"

definition room :: "connection \<Rightarrow> holder_frame list \<Rightarrow> bool" where
  "room c fs \<longleftrightarrow> list_all (frame_ok (cn_protocol_minor c)) fs
     \<and> length (bq_pending (cn_queue c)) + length (concat (map (wire_frame (cn_protocol_minor c)) fs)) \<le> MAX_PENDING_OUTPUT"

definition has_room :: "'w server \<Rightarrow> raw_fd \<Rightarrow> holder_frame list \<Rightarrow> bool" where
  "has_room s fd fs \<longleftrightarrow> registered s fd \<and> (\<exists>c. conn_get s fd = Some c \<and> room c fs)"

definition controller_room :: "(raw_fd \<Rightarrow> holder_frame list) \<Rightarrow> 'w server \<Rightarrow> bool" where
  "controller_room F s \<longleftrightarrow>
     (\<forall>fd. is_controller s fd \<and> conn_get s fd \<noteq> None \<and> F fd \<noteq> [] \<longrightarrow> has_room s fd (F fd))"

definition stays :: "(raw_fd \<Rightarrow> holder_frame list) \<Rightarrow> 'w server \<Rightarrow> 'w server \<Rightarrow> bool" where
  "stays F s s' \<longleftrightarrow>
     (controller_room F s \<longrightarrow> sv_controller s' = sv_controller s
        \<and> (\<forall>fd. has_room s fd (F fd) \<longrightarrow> conn_get s' fd \<noteq> None)
        \<and> (\<forall>fd. conn_get s' fd \<noteq> None \<longrightarrow> registered s fd \<longrightarrow> registered s' fd))"

definition served :: "'w os \<Rightarrow> (raw_fd \<Rightarrow> holder_frame list) \<Rightarrow> 'w server \<Rightarrow> 'w server \<Rightarrow> bool" where
  "served os F s s' \<longleftrightarrow> sent F s s' \<and> (epoll_modifies os \<longrightarrow> stays F s s')"

lemma room_append: "room c (fs @ gs) \<Longrightarrow> room c fs"
  by (simp add: room_def)

lemma has_room_append: "has_room s fd (fs @ gs) \<Longrightarrow> has_room s fd fs"
  using room_append by (auto simp: has_room_def)

lemma controller_room_append: "controller_room (\<lambda>fd. F fd @ G fd) s \<Longrightarrow> controller_room F s"
  using has_room_append unfolding controller_room_def by fastforce

text \<open>The room that is left after the first frames.\<close>

lemma has_room_rest:
  assumes "sent F s s1" and "conn_get s1 fd \<noteq> None" and "registered s1 fd" and "has_room s fd (F fd @ gs)"
  shows "has_room s1 fd gs"
proof -
  obtain c1 where c1: "conn_get s1 fd = Some c1" using assms(2) by blast
  with assms(1) obtain c where "conn_get s fd = Some c" "cn_protocol_minor c1 = cn_protocol_minor c"
    "bq_pending (cn_queue c1) = bq_pending (cn_queue c)
        @ concat (map (wire_frame (cn_protocol_minor c)) (F fd))"
    unfolding sent_def by blast
  with assms(3,4) c1 show ?thesis
    by (auto simp: has_room_def room_def)
qed

lemma stays_trans:
  assumes "sent F s s1" and "stays F s s1" and "stays G s1 s2" and "\<And>fd. conn_get s1 fd = None \<Longrightarrow> conn_get s2 fd = None"
  shows "stays (\<lambda>fd. F fd @ G fd) s s2"
proof -
  have step: "conn_get s1 fd \<noteq> None \<and> has_room s1 fd (G fd)"
    if "controller_room (\<lambda>fd. F fd @ G fd) s" "has_room s fd (F fd @ G fd)" for fd
  proof
    show stay: "conn_get s1 fd \<noteq> None"
      using assms(2) controller_room_append[OF that(1)] has_room_append[OF that(2)] unfolding stays_def by blast
    then have "registered s1 fd"
      using assms(2) that(2) controller_room_append[OF that(1)] unfolding stays_def has_room_def by blast
    then show "has_room s1 fd (G fd)"
      by (rule has_room_rest[OF assms(1) stay _ that(2)])
  qed
  have ctl: "controller_room G s1 \<and> sv_controller s1 = sv_controller s"
    if "controller_room (\<lambda>fd. F fd @ G fd) s"
  proof
    show same: "sv_controller s1 = sv_controller s"
      using assms(2) controller_room_append[OF that] unfolding stays_def by blast
    show "controller_room G s1"
      unfolding controller_room_def
    proof (intro allI impI)
      fix fd
      assume fd: "is_controller s1 fd \<and> conn_get s1 fd \<noteq> None \<and> G fd \<noteq> []"
      then have "is_controller s fd"
        using same by (simp add: is_controller_def)
      moreover have "conn_get s fd \<noteq> None"
        using fd sent_gone[OF assms(1), of fd] by (cases "conn_get s fd = None") simp_all
      ultimately have "is_controller s fd" "conn_get s fd \<noteq> None"
        by blast+
      with fd that have "has_room s fd (F fd @ G fd)"
        unfolding controller_room_def by blast
      then show "has_room s1 fd (G fd)" using step[OF that] by blast
    qed
  qed
  show ?thesis
    using assms(2-4) step ctl controller_room_append[of F G s] unfolding stays_def by metis
qed

lemma served_trans:
  assumes "served os F s s1" and "served os G s1 s2"
  shows "served os (\<lambda>fd. F fd @ G fd) s s2"
  using assms sent_trans[of F s s1 G s2] stays_trans[of F s s1 G s2] sent_gone[of G s1 s2]
  unfolding served_def by blast

lemma stays_cong:
  assumes "stays F s s'" and "\<And>fd. conn_get s fd \<noteq> None \<Longrightarrow> F fd = G fd"
  shows "stays G s s'"
proof -
  have "controller_room G s = controller_room F s"
    unfolding controller_room_def using assms(2) by metis
  moreover have "has_room s fd (F fd)" if "has_room s fd (G fd)" for fd
    using that assms(2)[of fd] by (auto simp: has_room_def)
  ultimately show ?thesis
    using assms(1) unfolding stays_def by blast
qed

lemma served_cong:
  assumes "served os F s s'" and "\<And>fd. conn_get s fd \<noteq> None \<Longrightarrow> F fd = G fd"
  shows "served os G s s'"
proof -
  have "F fd = G fd" if "conn_get s' fd = Some c'" for fd c'
    using that assms sent_gone[of F s s' fd] unfolding served_def by fastforce
  then show ?thesis
    using assms stays_cong sent_cong[of F s s' G] unfolding served_def by blast
qed

lemma served_sent: "served os F s s' \<Longrightarrow> sent F s s'"
  by (simp add: served_def)

lemma served_refl: "served os (\<lambda>_. []) s s"
  by (auto simp: served_def sent_refl stays_def has_room_def)

lemma queue_frame_room:
  assumes "sv_inv js op W X s"
  shows "ends (\<lambda>_ s'. sv_reactor s' = sv_reactor s \<and> sv_controller s' = sv_controller s
        \<and> (\<forall>x. conn_get s' x = None \<longleftrightarrow> conn_get s x = None))
    (\<lambda>s'. sv_reactor s' = sv_reactor s \<and> sv_controller s' = sv_controller s
        \<and> (\<forall>x. conn_get s' x = None \<longleftrightarrow> conn_get s x = None)
        \<and> \<not> (epoll_modifies os \<and> has_room s fd [frame])) (queue_frame os fd frame s)"
proof (cases "conn_get s fd")
  case None
  then show ?thesis
    by (simp add: queue_frame_def wp has_room_def)
next
  case (Some c)
  have inv: "bq_inv MAX_PENDING_OUTPUT (cn_queue c)"
    using sv_coreD(6)[OF sv_inv_core[OF assms] Some] by (simp add: conn_ok_def)
  have fits: "is_ok (conn_queue c frame)" if "has_room s fd [frame]"
    using that Some conn_queue_accepts[OF inv, of frame] by (simp add: has_room_def room_def length_wire_frame)
  show ?thesis
  proof (cases "conn_queue c frame")
    case (Inl e)
    then show ?thesis
      using Some fits by (auto simp: queue_frame_def wp)
  next
    case (Inr c')
    then show ?thesis
      using Some reactor_modify_same[of os fd True "sv_reactor s" "sv_world s"]
      by (auto simp: queue_frame_def wp reactor_modify_def epoll_modifies_def has_room_def registered_def
          split: prod.splits sum.splits option.splits if_splits)
        (metis fst_conv)?
  qed
qed

text \<open>Disconnecting a client leaves the others connected and registered.\<close>

lemma disconnect_client:
  assumes "\<not> is_controller s fd"
  shows "ends (\<lambda>_ s'. s' = dropped os fd s) (\<lambda>_. False) (disconnect os fd s)"
  using assms by (simp add: ends_disconnect_top Let_def)

lemma dropped_registered: "x \<noteq> fd \<Longrightarrow> registered (dropped os fd s) x = registered s x"
  by (simp add: registered_def)

lemma queue_or_disconnect_sent:
  assumes "os_ok os op" and "sv_inv js op W X s"
    and "W = {} \<or> \<not> is_controller s fd \<and> (\<forall>p \<in> W. snd p \<noteq> fd)"
  shows "ends (\<lambda>_ s'. bcast js op W X (gone s fd) s s' \<and> sent (sent_to fd frame) s s') (\<lambda>_. False)
    (queue_or_disconnect os fd frame s)"
proof -
  have "sent (sent_to fd frame) s s'"
    if other: "\<forall>x. x \<noteq> fd \<longrightarrow> conn_get s1 x = conn_get s x" and d: "drops s1 s'" "conn_get s' fd = None"
    for s1 s'
  proof (rule sent_cong[OF sent_drop])
    show "conn_get s' x = None \<or> conn_get s' x = conn_get s x" for x
      using other d unfolding drops_def by (cases "x = fd") auto
    show "[] = sent_to fd frame x" if "conn_get s' x = Some c" for x c
      using that d(2) by (auto simp: sent_to_def)
  qed
  then have "ends (\<lambda>_. sent (sent_to fd frame) s) (\<lambda>_. False) (queue_or_disconnect os fd frame s)"
    unfolding queue_or_disconnect_def wp_catch
    by (intro ends_mono[OF queue_frame_sent[OF assms(2)]])
      (auto simp: wp_basic intro!: ends_mono[OF disconnect_drops])
  from ends_conj[OF queue_or_disconnect_ends[OF assms] this] show ?thesis
    by simp
qed

lemma queue_or_disconnect_stays:
  fixes s :: "'w server"
  assumes "sv_inv js op W X s"
  shows "ends (\<lambda>_ s'. epoll_modifies os \<longrightarrow> stays (sent_to fd frame) s s'
      \<and> (has_room s fd [frame] \<longrightarrow> (\<forall>x. conn_get s x \<noteq> None \<longrightarrow> conn_get s' x \<noteq> None)))
    (\<lambda>_. True) (queue_or_disconnect os fd frame s)"
proof -
  let ?P = "\<lambda>s'. epoll_modifies os \<longrightarrow> stays (sent_to fd frame) s s'
      \<and> (has_room s fd [frame] \<longrightarrow> (\<forall>x. conn_get s x \<noteq> None \<longrightarrow> conn_get s' x \<noteq> None))"
  have queued: "?P s'"
    if "sv_reactor s' = sv_reactor s" "sv_controller s' = sv_controller s"
      "\<forall>x. conn_get s' x = None \<longleftrightarrow> conn_get s x = None" for s'
    using that by (auto simp: stays_def registered_def has_room_def)
  have failed: "ends (\<lambda>_. ?P) (\<lambda>_. True) (disconnect os fd s1)"
    if s1: "sv_reactor s1 = sv_reactor s" "sv_controller s1 = sv_controller s"
      "\<forall>x. conn_get s1 x = None \<longleftrightarrow> conn_get s x = None" "\<not> (epoll_modifies os \<and> has_room s fd [frame])" for s1
  proof (cases "is_controller s1 fd")
    case True
    then have "is_controller s fd" using s1(2) by (simp add: is_controller_def)
    have "?P s'" for s'
    proof (intro impI conjI)
      assume e: "epoll_modifies os"
      then have no_room: "\<not> has_room s fd [frame]" using s1(4) by blast
      show "stays (sent_to fd frame) s s'"
      proof (cases "conn_get s fd")
        case None
        obtain ctl where "sv_controller s = Some ctl" "ct_fd ctl = fd"
          using \<open>is_controller s fd\<close> by (auto simp: is_controller_iff)
        with None show ?thesis
          using controller_okD(2)[OF sv_coreD(9)[OF sv_inv_core[OF assms]]] by fastforce
      next
        case (Some c)
        then have "\<not> controller_room (sent_to fd frame) s"
          using no_room \<open>is_controller s fd\<close> by (auto simp: controller_room_def sent_to_def)
        then show ?thesis by (simp add: stays_def)
      qed
    qed (use s1(4) in blast)
    then show ?thesis by (intro ends_mono[OF disconnect_drops]) simp_all
  next
    case False
    have "?P (dropped os fd s1)"
    proof (intro impI conjI)
      assume e: "epoll_modifies os"
      then have no_room: "\<not> has_room s fd [frame]" using s1(4) by blast
      have same: "registered s1 x = registered s x" for x
        using s1(1) by (simp add: registered_def)
      show "stays (sent_to fd frame) s (dropped os fd s1)"
        unfolding stays_def
      proof (intro impI conjI allI)
        show "conn_get (dropped os fd s1) x \<noteq> None" if "has_room s x (sent_to fd frame x)" for x
        proof -
          have "x \<noteq> fd" "conn_get s x \<noteq> None"
            using that no_room by (auto simp: sent_to_def has_room_def)
          then show ?thesis using s1(3) by simp
        qed
        show "registered (dropped os fd s1) x"
          if "conn_get (dropped os fd s1) x \<noteq> None" "registered s x" for x
          using that same dropped_registered[of x fd os s1] by (simp split: if_splits)
      qed (use s1(2) in simp)
    qed (use s1(4) in blast)
    then show ?thesis by (intro ends_mono[OF disconnect_client[OF False]]) simp_all
  qed
  show ?thesis
    unfolding queue_or_disconnect_def wp_catch
  proof (rule ends_mono[OF queue_frame_room[OF assms]])
    fix s1 :: "'w server"
    assume "sv_reactor s1 = sv_reactor s \<and> sv_controller s1 = sv_controller s
        \<and> (\<forall>x. conn_get s1 x = None \<longleftrightarrow> conn_get s x = None)"
    then have "?P s1" by (intro queued) blast+
    then show "ends (\<lambda>_. ?P) (\<lambda>_. True) ((if False then disconnect os fd else sret ()) s1)"
      by (simp only: if_False wp_basic)
  next
    fix s1 :: "'w server"
    assume "sv_reactor s1 = sv_reactor s \<and> sv_controller s1 = sv_controller s
        \<and> (\<forall>x. conn_get s1 x = None \<longleftrightarrow> conn_get s x = None)
        \<and> \<not> (epoll_modifies os \<and> has_room s fd [frame])"
    then show "ends (\<lambda>_. ?P) (\<lambda>_. True) ((if True then disconnect os fd else sret ()) s1)"
      unfolding if_True by (intro failed) blast+
  qed
qed

lemma queue_or_disconnect_served:
  assumes "os_ok os op" and "sv_inv js op W X s"
    and "W = {} \<or> \<not> is_controller s fd \<and> (\<forall>p \<in> W. snd p \<noteq> fd)"
  shows "ends (\<lambda>_ s'. bcast js op W X (gone s fd) s s' \<and> served os (sent_to fd frame) s s'
      \<and> (epoll_modifies os \<longrightarrow> has_room s fd [frame] \<longrightarrow> (\<forall>x. conn_get s x \<noteq> None \<longrightarrow> conn_get s' x \<noteq> None)))
    (\<lambda>_. False) (queue_or_disconnect os fd frame s)"
  by (rule ends_mono[OF ends_conj[OF queue_or_disconnect_sent[OF assms] queue_or_disconnect_stays[OF assms(2)]]])
    (auto simp: served_def)

text \<open>A loop over distinct connections gives each of them the frame.\<close>

lemma send_all_served:
  assumes "os_ok os op" and "sv_inv js op {} X s" and "distinct fds"
  shows "ends (\<lambda>_ s'. bcast js op {} X UNIV s s' \<and> served os (\<lambda>x. if x \<in> set fds then [frame] else []) s s')
    (\<lambda>_. False) (sfor (\<lambda>fd. queue_or_disconnect os fd frame) fds s)"
  using assms(2,3)
proof (induction fds arbitrary: s)
  case Nil
  then show ?case by (simp add: wp bcast_refl served_refl)
next
  case (Cons fd fds)
  have "ends (\<lambda>_ s'. bcast js op {} X UNIV s s'
      \<and> served os (\<lambda>x. if x \<in> set (fd # fds) then [frame] else []) s s') (\<lambda>_. False)
      (sfor (\<lambda>fd. queue_or_disconnect os fd frame) fds s1)"
    if s1: "bcast js op {} X (gone s fd) s s1" "served os (sent_to fd frame) s s1" for s1
  proof -
    have b: "bcast js op {} X UNIV s s1" and inv: "sv_inv js op {} X s1"
      using bcast_mono[OF s1(1)] s1(1) by (auto simp: bcast_def)
    show ?thesis
    proof (rule ends_mono[OF Cons.IH[OF inv]])
      show "bcast js op {} X UNIV s s' \<and> served os (\<lambda>x. if x \<in> set (fd # fds) then [frame] else []) s s'"
        if "bcast js op {} X UNIV s1 s' \<and> served os (\<lambda>x. if x \<in> set fds then [frame] else []) s1 s'" for s'
        using bcast_trans[OF b, of s'] served_trans[OF s1(2), of "\<lambda>x. if x \<in> set fds then [frame] else []" s']
          that Cons.prems(2)
        by (auto elim!: served_cong simp: sent_to_def)
    qed (use Cons.prems(2) in auto)
  qed
  then show ?case
    unfolding sfor.simps wp_bind
    by (intro ends_mono[OF queue_or_disconnect_served[OF assms(1) Cons.prems(1)]]) auto
qed


section \<open>Broadcasts\<close>

definition attached_to :: "'w server \<Rightarrow> u32 \<Rightarrow> raw_fd \<Rightarrow> bool" where
  "attached_to s sid fd \<longleftrightarrow> (\<exists>c. conn_get s fd = Some c \<and> cn_attached_session c = Some sid)"

lemma attached_set:
  assumes "hm_wf (sv_connections s)"
  shows "set (map fst (filter (\<lambda>(_, c). cn_attached_session c = Some sid) (sv_connections s)))
    = {fd. attached_to s sid fd}"
  using assms
  by (auto simp: attached_to_def conn_get_def map_of_is_SomeI simp del: conn_get_connections
      dest: map_of_SomeD intro!: image_eqI)

lemma bcast_generation: "bcast js op W X G s s' \<Longrightarrow> generation s' = generation s"
  using sv_stepD(1) by (fastforce simp: bcast_def generation_def)

lemma chunks_served:
  assumes "os_ok os op" and "sv_inv js op {} X s" and "distinct fds"
  shows "ends (\<lambda>_ s'. bcast js op {} X UNIV s s'
      \<and> served os (\<lambda>x. if x \<in> set fds then map (out_frame Output 0 (generation s)) chunks else []) s s')
    (\<lambda>_. False)
    (sfor (\<lambda>chunk. sget (\<lambda>s. sfor (\<lambda>fd. queue_or_disconnect os fd (out_frame Output 0 (generation s) chunk))
       fds)) chunks s)"
  using assms(2)
proof (induction chunks arbitrary: s)
  case Nil
  then show ?case by (simp add: wp bcast_refl served_refl cong: if_cong)
next
  case (Cons chunk chunks)
  let ?F = "\<lambda>cs x. if x \<in> set fds then map (out_frame Output 0 (generation s)) cs else []"
  have "ends (\<lambda>_ s'. bcast js op {} X UNIV s s' \<and> served os (?F (chunk # chunks)) s s') (\<lambda>_. False)
      (sfor (\<lambda>chunk. sget (\<lambda>s. sfor (\<lambda>fd. queue_or_disconnect os fd (out_frame Output 0 (generation s) chunk))
       fds)) chunks s1)"
    if s1: "bcast js op {} X UNIV s s1" "served os (?F [chunk]) s s1" for s1
  proof -
    have inv: "sv_inv js op {} X s1"
      using s1(1) by (simp add: bcast_def)
    show ?thesis
    proof (rule ends_mono[OF Cons.IH[OF inv]])
      show "bcast js op {} X UNIV s s' \<and> served os (?F (chunk # chunks)) s s'"
        if s': "bcast js op {} X UNIV s1 s' \<and> served os (\<lambda>x. if x \<in> set fds
          then map (out_frame Output 0 (generation s1)) chunks else []) s1 s'" for s'
      proof
        show "bcast js op {} X UNIV s s'"
          using bcast_trans[OF s1(1)] s' by blast
        have "served os (?F chunks) s1 s'"
          using s' unfolding bcast_generation[OF s1(1)] by blast
        from served_trans[OF s1(2) this] show "served os (?F (chunk # chunks)) s s'"
          by (rule served_cong) simp
      qed
    qed simp
  qed
  then show ?case
    unfolding sfor.simps wp_bind wp_basic
    by (intro ends_mono[OF send_all_served[OF assms(1) Cons.prems assms(3)]]) (simp_all cong: if_cong)
qed

lemma send_control_served:
  assumes "os_ok os op" and "sv_inv js op {} X s"
  shows "ends (\<lambda>_ s'. bcast js op {} X UNIV s s' \<and> served os (\<lambda>x. if is_controller s x then [frame] else []) s s')
    (\<lambda>_. False) (send_control os frame s)"
proof (cases "sv_controller s")
  case None
  then show ?thesis
    using assms(2) by (simp add: send_control_def wp bcast_refl served_refl is_controller_def)
next
  case (Some ctl)
  have "ends (\<lambda>_ s'. bcast js op {} X UNIV s s' \<and> served os (\<lambda>x. if is_controller s x then [frame] else []) s s')
      (\<lambda>_. False) (queue_or_disconnect os (ct_fd ctl) frame s)"
    by (rule ends_mono[OF queue_or_disconnect_served[OF assms]])
      (auto simp: is_controller_def Some sent_to_def elim!: served_cong intro: bcast_mono)
  then show ?thesis
    using Some by (simp add: send_control_def wp)
qed

text \<open>A step that takes the controller's role away takes its connection away.\<close>

lemma step_controller:
  assumes "sv_step D s s'" and "conn_get s' fd = Some c"
  shows "is_controller s' fd = is_controller s fd"
proof -
  have "fd \<notin> D"
    using sv_step_gone[OF assms(1), of fd] assms(2) by auto
  then show ?thesis
    using sv_stepD(7)[OF assms(1)] unfolding is_controller_iff by (metis option.distinct(1) option.inject)
qed

definition published :: "'w server \<Rightarrow> output_batch \<Rightarrow> raw_fd \<Rightarrow> holder_frame list" where
  "published s batch fd =
     (if attached_to s (ob_session_id batch) fd
      then map (out_frame Output 0 (generation s)) (ob_chunks batch) else [])
     @ (if 0 < ob_log_dropped batch \<and> is_controller s fd
        then [out_frame LogDegraded 0 (generation s) (encode_log_degraded
                \<lparr>ld_session_id = ob_session_id batch, ld_dropped_bytes = ob_log_dropped batch\<rparr>)]
        else [])"

lemma publish_served:
  assumes "os_ok os op" and "sv_inv js op {} X s"
  shows "ends (\<lambda>_ s'. bcast js op {} X UNIV s s' \<and> served os (published s batch) s s') (\<lambda>_. False)
    (publish_output os batch s)"
proof -
  define targets where "targets = map fst (filter (\<lambda>(_, c). cn_attached_session c = Some (ob_session_id batch))
           (sv_connections s))"
  have set: "set targets = {fd. attached_to s (ob_session_id batch) fd}"
    unfolding targets_def by (rule attached_set[OF sv_coreD(4)[OF sv_inv_core[OF assms(2)]]])
  have targets: "distinct targets"
    unfolding targets_def by (rule attached_targets(1)[OF assms(2)])
  let ?F = "\<lambda>x. if x \<in> set targets then map (out_frame Output 0 (generation s)) (ob_chunks batch) else []"
  have rest: "ends (\<lambda>_ s'. bcast js op {} X UNIV s s' \<and> served os (published s batch) s s') (\<lambda>_. False)
     ((if 0 < ob_log_dropped batch
       then sget (\<lambda>s. send_control os (out_frame LogDegraded 0 (generation s)
            (encode_log_degraded \<lparr>ld_session_id = ob_session_id batch,
                                  ld_dropped_bytes = ob_log_dropped batch\<rparr>)))
       else sret ()) s1)"
    if s1: "bcast js op {} X UNIV s s1" "served os ?F s s1" for s1
  proof (cases "0 < ob_log_dropped batch")
    case False
    have "served os (published s batch) s s1"
      using s1(2) by (rule served_cong) (simp add: published_def set False)
    then show ?thesis
      using False s1(1) by (simp add: wp_basic)
  next
    case True
    obtain D where inv: "sv_inv js op {} X s1" and D: "sv_step D s s1"
      using s1(1) by (auto simp: bcast_def)
    let ?f = "out_frame LogDegraded 0 (generation s1) (encode_log_degraded
      \<lparr>ld_session_id = ob_session_id batch, ld_dropped_bytes = ob_log_dropped batch\<rparr>)"
    have same: "?F fd @ (if is_controller s fd then [?f] else []) = published s batch fd" for fd
      using True by (simp add: published_def set bcast_generation[OF s1(1)])
    have "served os (published s batch) s s'"
      if s': "served os (\<lambda>x. if is_controller s1 x then [?f] else []) s1 s'" for s'
    proof -
      let ?H = "\<lambda>fd. ?F fd @ (if is_controller s1 fd then [?f] else [])"
      have H: "served os ?H s s'"
        by (rule served_trans[OF s1(2) s'])
      have "sent (published s batch) s s'"
      proof (rule sent_cong[OF served_sent[OF H]])
        fix fd c'
        assume "conn_get s' fd = Some c'"
        then obtain c where "conn_get s1 fd = Some c"
          using sent_gone[OF served_sent[OF s'], of fd] by (cases "conn_get s1 fd") auto
        then show "?H fd = published s batch fd"
          using same[of fd] step_controller[OF D] by simp
      qed
      moreover have "stays (published s batch) s s'" if e: "epoll_modifies os"
        unfolding stays_def
      proof
        assume ctl: "controller_room (published s batch) s"
        then have "controller_room (\<lambda>fd. ?F fd @ (if is_controller s fd then [?f] else [])) s"
          by (simp only: same)
        from controller_room_append[OF this] have "sv_controller s1 = sv_controller s"
          using s1(2) e unfolding served_def stays_def by blast
        then have "?H = published s batch"
          using same by (simp add: is_controller_def fun_eq_iff)
        then have "stays (published s batch) s s'"
          using H e by (simp add: served_def)
        with ctl show "sv_controller s' = sv_controller s
            \<and> (\<forall>fd. has_room s fd (published s batch fd) \<longrightarrow> conn_get s' fd \<noteq> None)
            \<and> (\<forall>fd. conn_get s' fd \<noteq> None \<longrightarrow> registered s fd \<longrightarrow> registered s' fd)"
          unfolding stays_def by blast
      qed
      ultimately show ?thesis by (simp add: served_def)
    qed
    then show ?thesis
      unfolding if_P[OF True] wp_basic
      using bcast_trans[OF s1(1)]
      by (intro ends_mono[OF send_control_served[OF assms(1) inv]]) auto
  qed
  show ?thesis
    unfolding publish_output_def wp_basic(4) Let_def targets_def[symmetric] wp_bind
    by (rule ends_mono[OF chunks_served[OF assms targets]]) (simp_all add: rest)
qed



section \<open>Roles\<close>

text \<open>What a hello must contain to be accepted: who the peer is, according to the socket, and for
  a data client what only the daemon that is the controller knows.\<close>

definition admits_control :: "connection \<Rightarrow> u16 \<Rightarrow> holder_frame \<Rightarrow> control_hello \<Rightarrow> bool" where
  "admits_control c minor frame hello \<longleftrightarrow>
     fr_message_type frame = ControlHello \<and> minor = HOLDER_PROTOCOL_BASELINE_MINOR
     \<and> decode_control_hello (fr_payload frame) = Inr hello
     \<and> ch_uid hello = cn_peer_uid c \<and> ch_daemon_pid hello = cn_peer_pid c"

definition admits_data :: "'w server \<Rightarrow> connection \<Rightarrow> u16 \<Rightarrow> holder_frame \<Rightarrow> bool" where
  "admits_data s c minor frame \<longleftrightarrow>
     fr_message_type frame = DataHello
     \<and> (\<exists>hello ctl. decode_data_hello (fr_payload frame) = Inr hello \<and> sv_controller s = Some ctl
          \<and> dh_daemon_pid hello = cn_peer_pid c \<and> ct_pid ctl = cn_peer_pid c
          \<and> dh_instance_id hello = sv_instance_id s \<and> dh_nonce hello = ct_nonce ctl
          \<and> minor = ct_protocol_minor ctl)"

lemma queue_step:
  assumes "os_ok os op" and "sv_inv js op {} {} s"
  shows "ends (\<lambda>_ s'. sv_step {} s s') (\<lambda>_. True) (queue_frame os fd frame s)"
  by (rule ends_mono[OF queue_frame_ends[OF assms]]) simp_all

text \<open>Which role a pending connection has after its hello, and who is the controller.\<close>

definition role_after :: "'w server \<Rightarrow> raw_fd \<Rightarrow> connection \<Rightarrow> u16 \<Rightarrow> holder_frame \<Rightarrow> 'w server \<Rightarrow> bool" where
  "role_after s fd c minor frame s' \<longleftrightarrow>
     (\<exists>c'. conn_get s' fd = Some c'
        \<and> (case cn_role c' of
             Pending \<Rightarrow> True
           | Data \<Rightarrow> admits_data s c minor frame
           | Control \<Rightarrow>
               (\<exists>hello ctl. admits_control c minor frame hello \<and> sv_controller s' = Some ctl
                  \<and> ct_fd ctl = fd \<and> ct_pid ctl = cn_peer_pid c \<and> ct_nonce ctl = ch_nonce hello
                  \<and> (\<forall>old. sv_controller s = Some old \<longrightarrow> conn_get s' (ct_fd old) = None))))"

lemma data_role:
  assumes "os_ok os op" and "sv_inv js op {} {} s" and "conn_get s fd = Some c" and "cn_role c = Pending"
    and "fr_message_type frame = DataHello"
  shows "ends (\<lambda>_. role_after s fd c minor frame) (\<lambda>_. True) (handle_data_hello os fd minor frame s)"
proof (cases "decode_data_hello (fr_payload frame)")
  case (Inl e)
  then show ?thesis
    by (simp add: handle_data_hello_def wp)
next
  case (Inr hello)
  note core = sv_coreD[OF sv_inv_core[OF assms(2)]]
  have answer: "ends (\<lambda>_. role_after s fd c minor frame) (\<lambda>_. True)
      (answer_data_hello os fd frame hello b s1)"
    if s1: "sv_inv js op {} {} s1" "conn_get s1 fd = Some c1" "cn_role c1 = Pending"
      and b: "b \<longrightarrow> admits_data s c minor frame" for b s1 c1
  proof -
    have "role_after s fd c minor frame (conn_put fd (if b then c2\<lparr>cn_role := Data\<rparr> else close_after_flush c2) s2)"
      if "conn_get s2 fd = Some c2" "links c2 = links c1" for s2 c2
      using that s1(3) b by (cases b) (auto simp: role_after_def links_def close_after_flush_def)
    then show ?thesis
      unfolding answer_data_hello_def wp_basic wp_bind
      by (intro ends_mono[OF queue_step[OF assms(1) s1(1)]]) (auto simp: wp dest!: sv_step_get[OF _ s1(2)])
  qed
  show ?thesis
  proof (cases "data_accepted s hello (cn_peer_pid c) minor")
    case False
    then show ?thesis
      using Inr assms(3) answer[OF assms(2-4), of False] by (simp add: handle_data_hello_def wp)
  next
    case True
    then obtain ctl where ctl: "sv_controller s = Some ctl" "minor = ct_protocol_minor ctl"
      and ok: "admits_data s c minor frame"
      using Inr assms(5) by (auto simp: data_accepted_def admits_data_def split: option.splits)
    have "conn_ok fd (c\<lparr>cn_protocol_minor := minor\<rparr>)"
      using core(6)[OF assms(3)] controller_okD(1)[OF core(9)] ctl by (simp add: conn_ok_def)
    then have "sv_inv js op {} {} (conn_put fd (c\<lparr>cn_protocol_minor := minor\<rparr>) s)"
      using assms(4) ctl pending_idle(2)[OF assms(2,3,4)] by (intro sv_inv_conn[OF assms(2,3)]) auto
    from answer[OF this, of "c\<lparr>cn_protocol_minor := minor\<rparr>" True] show ?thesis
      using Inr True assms(3,4) ok by (simp add: handle_data_hello_def wp)
  qed
qed

lemma control_role:
  assumes "os_ok os op" and "sv_inv js op {} {} s" and "conn_get s fd = Some c" and "cn_role c = Pending"
    and "fr_message_type frame = ControlHello"
  shows "ends (\<lambda>_. role_after s fd c minor frame) (\<lambda>_. True) (handle_control_hello os fd minor frame s)"
proof (cases "minor = HOLDER_PROTOCOL_BASELINE_MINOR")
  case False
  then show ?thesis
    by (simp add: handle_control_hello_def wp_basic)
next
  case True
  have answer: "ends (\<lambda>_. role_after s fd c minor frame) (\<lambda>_. True)
      (answer_control_hello os fd frame hello status s1)"
    if s1: "sv_inv js op {} {} s1" "sv_step D s s1" "fd \<notin> D"
      and ok: "status = Accepted \<longrightarrow> sv_controller s1 = None \<and> admits_control c minor frame hello"
    for s1 D hello status
  proof -
    obtain c1 where c1: "conn_get s1 fd = Some c1" "links c1 = links c"
      using sv_step_get[OF s1(2) assms(3) s1(3)] by blast
    have gone: "conn_get s2 (ct_fd old) = None"
      if "sv_step {} s1 s2" "status = Accepted" "sv_controller s = Some old" for s2 old
    proof -
      have "ct_fd old \<in> D"
        using sv_stepD(7)[OF s1(2)] ok that(2,3) by auto
      from sv_step_gone[OF s1(2) this] show ?thesis
        by (rule sv_step_none[OF that(1)])
    qed
    have accepted: "role_after s fd c minor frame ((conn_put fd (c2\<lparr>cn_role := Control\<rparr>) s2)\<lparr>sv_controller :=
         Some \<lparr>ct_fd = fd, ct_pid = ch_daemon_pid hello, ct_nonce = ch_nonce hello,
               ct_protocol_minor = HOLDER_PROTOCOL_BASELINE_MINOR, ct_capabilities = 0\<rparr>\<rparr>)"
      if s2: "sv_step {} s1 s2" "status = Accepted" for s2 c2
    proof -
      have "ct_fd old \<noteq> fd" if "sv_controller s = Some old" for old
        using gone[OF s2 that] sv_step_get[OF s2(1) c1(1)] by auto
      then show ?thesis
        using ok s2(2) gone[OF s2] by (auto simp: role_after_def admits_control_def)
    qed
    have refused: "role_after s fd c minor frame (conn_put fd (close_after_flush c2) s2)"
      if "links c2 = links c1" for s2 c2
      using that c1(2) assms(4) by (simp add: role_after_def links_def close_after_flush_def)
    show ?thesis
      unfolding answer_control_hello_def wp_basic wp_bind
    proof (intro ends_mono[OF queue_step[OF assms(1) s1(1)]], goal_cases)
      case (1 y s2)
      then obtain c2 where "conn_get s2 fd = Some c2" "links c2 = links c1"
        using sv_step_get[OF 1 c1(1)] by auto
      with 1 show ?case
        using accepted[OF 1] refused by (simp add: wp)
    qed simp
  qed
  have "ends (\<lambda>_. role_after s fd c minor frame) (\<lambda>_. True)
      (sbind (parsed ''ControlHello'' (decode_control_hello (fr_payload frame))) (\<lambda>hello.
        sget (\<lambda>s. sbind (sunwrap (conn_get s fd)) (\<lambda>peer.
        answer_control_hello os fd frame hello
          (if ch_uid hello \<noteq> cn_peer_uid peer \<or> ch_daemon_pid hello \<noteq> cn_peer_pid peer
           then PermissionDenied
           else if sv_controller s \<noteq> None then Busy else Accepted)))) s1)"
    if s1: "sv_inv js op {} {} s1" "sv_step D s s1" "fd \<notin> D" for s1 D
  proof -
    obtain c1 where c1: "conn_get s1 fd = Some c1" "links c1 = links c"
      using sv_step_get[OF s1(2) assms(3) s1(3)] by blast
    have "(if ch_uid hello \<noteq> cn_peer_uid c1 \<or> ch_daemon_pid hello \<noteq> cn_peer_pid c1
           then PermissionDenied else if sv_controller s1 \<noteq> None then Busy else Accepted) = Accepted
         \<longrightarrow> sv_controller s1 = None \<and> admits_control c minor frame hello"
      if "decode_control_hello (fr_payload frame) = Inr hello" for hello
      using that True assms(5) c1(2) by (auto simp: admits_control_def links_def)
    note ok = this
    show ?thesis
    proof (cases "decode_control_hello (fr_payload frame)")
      case (Inr hello)
      from answer[OF s1 ok[OF Inr]] show ?thesis
        using Inr c1(1) by (simp add: wp)
    qed (simp add: wp)
  qed
  note rest = this
  from True have "\<not> minor \<noteq> HOLDER_PROTOCOL_BASELINE_MINOR"
    by simp
  then show ?thesis
    unfolding handle_control_hello_def if_not_P[OF \<open>\<not> _ \<noteq> _\<close>] wp_bind[of _ _ "takeover os"]
    by (rule_tac ends_mono[OF takeover_ends[OF assms(1-4)]]) (elim conjE exE, rule rest, assumption+, simp)
qed

lemma hello_role:
  assumes "os_ok os op" and "sv_inv js op {} {} s" and "conn_get s fd = Some c" and "cn_role c = Pending"
  shows "ends (\<lambda>_. role_after s fd c minor frame) (\<lambda>_. True) (process_frame os js fd minor frame s)"
  using assms(3,4) data_role[OF assms] control_role[OF assms]
  by (simp add: process_frame_def handle_hello_def wp)


section \<open>Attaching\<close>

lemma chunks_of_concat: "n \<noteq> 0 \<Longrightarrow> concat (chunks_of n bs) = bs"
proof (induction n bs rule: chunks_of.induct)
  case (1 n bs)
  then show ?case
    by (subst chunks_of.simps) simp
qed

lemma chunks_of_length: "c \<in> set (chunks_of n bs) \<Longrightarrow> c \<noteq> [] \<and> length c \<le> n"
proof (induction n bs rule: chunks_of.induct)
  case (1 n bs)
  from "1.prems" show ?case
    by (subst (asm) chunks_of.simps) (use "1.IH" in \<open>auto split: if_splits\<close>)
qed

text \<open>Handlers that only queue the frames \<open>fs\<close> for one connection, while the sessions are \<open>rt\<close>; they
  fail only when the connection has no room for the frames.\<close>

definition queues ::
    "'w os \<Rightarrow> json \<Rightarrow> ('w \<Rightarrow> raw_fd set) \<Rightarrow> raw_fd \<Rightarrow> runtime \<Rightarrow> holder_frame list \<Rightarrow> ('w server, 'a) handler \<Rightarrow> bool"
    where
  "queues os js op fd rt fs m \<longleftrightarrow>
     (\<forall>s. sv_inv js op {} {} s \<longrightarrow> sv_runtime s = rt \<longrightarrow>
        ends (\<lambda>_ s'. sv_inv js op {} {} s' \<and> sv_step {} s s' \<and> sent ((\<lambda>_. [])(fd := fs)) s s'
            \<and> sv_reactor s' = sv_reactor s)
          (\<lambda>_. \<not> (epoll_modifies os \<and> has_room s fd fs)) (m s))"

lemma queuesD:
  "queues os js op fd rt fs m \<Longrightarrow> sv_inv js op {} {} s \<Longrightarrow> sv_runtime s = rt \<Longrightarrow>
   ends (\<lambda>_ s'. sv_inv js op {} {} s' \<and> sv_step {} s s' \<and> sent ((\<lambda>_. [])(fd := fs)) s s'
       \<and> sv_reactor s' = sv_reactor s) (\<lambda>_. \<not> (epoll_modifies os \<and> has_room s fd fs)) (m s)"
  by (simp add: queues_def)

lemma queues_frame:
  assumes "os_ok os op"
  shows "queues os js op fd rt [frame] (queue_frame os fd frame)"
  unfolding queues_def
proof (intro allI impI)
  fix s :: "'a server"
  assume inv: "sv_inv js op {} {} s"
  show "ends (\<lambda>_ s'. sv_inv js op {} {} s' \<and> sv_step {} s s' \<and> sent ((\<lambda>_. [])(fd := [frame])) s s'
      \<and> sv_reactor s' = sv_reactor s) (\<lambda>_. \<not> (epoll_modifies os \<and> has_room s fd [frame])) (queue_frame os fd frame s)"
    by (rule ends_mono[OF ends_conj[OF ends_conj[OF queue_frame_ends[OF assms inv] queue_frame_sent[OF inv]]
          queue_frame_room[OF inv]]]) (simp_all add: sent_to_def)
qed

lemma queues_get:
  "(\<And>s. sv_runtime s = rt \<Longrightarrow> queues os js op fd rt fs (g s)) \<Longrightarrow> queues os js op fd rt fs (sget g)"
  by (simp add: queues_def wp)

lemma queues_nil: "queues os js op fd rt [] (sret x)"
  by (simp add: queues_def wp sv_step_refl sent_refl fun_upd_def)

lemma queues_bind:
  assumes "queues os js op fd rt fs m" and "\<And>x. queues os js op fd rt gs (f x)"
  shows "queues os js op fd rt (fs @ gs) (sbind m f)"
  unfolding queues_def wp_bind
proof (intro allI impI)
  fix s
  assume inv: "sv_inv js op {} {} s" "sv_runtime s = rt"
  show "ends (\<lambda>y s1. ends (\<lambda>_ s'. sv_inv js op {} {} s' \<and> sv_step {} s s'
      \<and> sent ((\<lambda>_. [])(fd := fs @ gs)) s s' \<and> sv_reactor s' = sv_reactor s)
      (\<lambda>_. \<not> (epoll_modifies os \<and> has_room s fd (fs @ gs))) (f y s1))
    (\<lambda>_. \<not> (epoll_modifies os \<and> has_room s fd (fs @ gs))) (m s)"
  proof (rule ends_mono[OF queuesD[OF assms(1) inv]])
    fix y s1
    assume s1: "sv_inv js op {} {} s1 \<and> sv_step {} s s1 \<and> sent ((\<lambda>_. [])(fd := fs)) s s1
      \<and> sv_reactor s1 = sv_reactor s"
    then have rt: "sv_runtime s1 = rt"
      using sv_stepD(1) inv(2) by blast
    have sent: "sent ((\<lambda>_. [])(fd := fs @ gs)) s s'" if "sent ((\<lambda>_. [])(fd := gs)) s1 s'" for s'
      using s1 by (intro sent_cong[OF sent_trans[OF _ that]]) auto
    have room: "has_room s1 fd gs" if room: "has_room s fd (fs @ gs)"
    proof (rule has_room_rest[of "(\<lambda>_. [])(fd := fs)" s])
      show "conn_get s1 fd \<noteq> None"
        using room s1 sv_step_get[of "{}" s s1 fd] by (auto simp: has_room_def)
      show "registered s1 fd" using room s1 by (simp add: has_room_def registered_def)
    qed (use s1 room in simp_all)
    show "ends (\<lambda>_ s'. sv_inv js op {} {} s' \<and> sv_step {} s s' \<and> sent ((\<lambda>_. [])(fd := fs @ gs)) s s'
        \<and> sv_reactor s' = sv_reactor s) (\<lambda>_. \<not> (epoll_modifies os \<and> has_room s fd (fs @ gs))) (f y s1)"
      using s1 sv_step_trans[of "{}" s s1 "{}"] sent room
      by (intro ends_mono[OF queuesD[OF assms(2) _ rt]]) auto
  qed (use has_room_append in blast)
qed

lemma queues_for:
  assumes "\<And>x. queues os js op fd rt [F x] (f x)"
  shows "queues os js op fd rt (map F xs) (sfor f xs)"
proof (induction xs)
  case Nil
  show ?case by (simp add: queues_nil)
next
  case (Cons x xs)
  show ?case
    using queues_bind[OF assms[of x] Cons.IH] by simp
qed

lemma queues_if:
  "queues os js op fd rt fs m \<Longrightarrow> queues os js op fd rt gs n \<Longrightarrow>
   queues os js op fd rt (if b then fs else gs) (if b then m else n)"
  by simp

text \<open>What an attached client is sent: the answer, the replayed output, the grant.\<close>

definition attach_frames :: "holder_frame \<Rightarrow> attach_request \<Rightarrow> runtime \<Rightarrow> bytes \<Rightarrow> holder_frame list" where
  "attach_frames frame q rt bs =
     (let gen = rt_generation rt; sid = ar_session_id q in
      [out_frame AttachResp (fr_request_id frame) gen
         (projr (encode_operation_response (response sid Ok '''')))]
      @ map (out_frame Output 0 gen) (chunks_of MAX_HOLDER_IO_FRAME bs)
      @ (if ar_mode q = ReadWrite then [writer_frame WriteGranted sid gen] else []))"

lemma send_response_queues:
  assumes "os_ok os op" and "is_ok (encode_operation_response resp)"
  shows "queues os js op fd rt [out_frame kind (fr_request_id frame) (rt_generation rt)
      (projr (encode_operation_response resp))] (send_response os fd frame kind resp)"
proof -
  obtain p where Inr: "encode_operation_response resp = Inr p"
    using assms(2) by (auto simp: is_ok_iff)
  have "queues os js op fd rt [out_frame kind (fr_request_id frame) (rt_generation rt) p]
      (respond os fd frame kind p)"
    unfolding respond_def
    by (rule queues_get) (simp add: generation_def queues_frame[OF assms(1)])
  then show ?thesis
    using Inr by (simp add: queues_def send_response_def wp)
qed

lemma attach_answer_encodes: "sid \<noteq> 0 \<Longrightarrow> is_ok (encode_operation_response (response sid Ok ''''))"
  using encode_operation_response_ok[of "response sid Ok ''''"]
  by (simp add: is_ok_iff operation_response_ok_def response_def str_ok_def utf8_valid_ascii ascii_def)

lemma send_attached_queues:
  assumes "os_ok os op" and "replay rt (ar_session_id q) (unat (ar_replay_bytes q)) = Some bs"
    and "ar_session_id q \<noteq> 0"
  shows "queues os js op fd rt (attach_frames frame q rt bs) (send_attached os fd frame q)"
proof -
  have outputs: "queues os js op fd rt (map (out_frame Output 0 (rt_generation rt)) chunks)
      (sfor (\<lambda>chunk. sget (\<lambda>s. queue_frame os fd (out_frame Output 0 (generation s) chunk))) chunks)" for chunks
    by (rule queues_for, rule queues_get) (simp add: generation_def queues_frame[OF assms(1)])
  have grant: "queues os js op fd rt
      (if ar_mode q = ReadWrite then [writer_frame WriteGranted (ar_session_id q) (rt_generation rt)] else [])
      (if ar_mode q = ReadWrite
       then sget (\<lambda>s. queue_frame os fd (writer_frame WriteGranted (ar_session_id q) (generation s)))
       else sret ())"
    by (intro queues_if queues_nil queues_get) (simp add: generation_def queues_frame[OF assms(1)])
  have rest: "queues os js op fd rt
      (map (out_frame Output 0 (rt_generation rt)) (chunks_of MAX_HOLDER_IO_FRAME bs)
       @ (if ar_mode q = ReadWrite then [writer_frame WriteGranted (ar_session_id q) (rt_generation rt)] else []))
      (sget (\<lambda>s.
        sbind (sunwrap (replay (sv_runtime s) (ar_session_id q) (unat (ar_replay_bytes q)))) (\<lambda>bytes.
        sbind (sfor (\<lambda>chunk. sget (\<lambda>s. queue_frame os fd (out_frame Output 0 (generation s) chunk)))
              (chunks_of MAX_HOLDER_IO_FRAME bytes)) (\<lambda>_.
        if ar_mode q = ReadWrite
        then sget (\<lambda>s. queue_frame os fd (writer_frame WriteGranted (ar_session_id q) (generation s)))
        else sret ()))))"
    using queues_bind[OF outputs grant]
    by (intro queues_get) (simp add: assms(2) queues_def wp_bind[of _ _ "sunwrap v" for v] wp_unwrap del: wp_bind)
  show ?thesis
    unfolding send_attached_def attach_frames_def Let_def
    by (rule queues_bind[OF send_response_queues[OF assms(1) attach_answer_encodes[OF assms(3)]] rest])
qed


lemma sent_put:
  assumes "conn_get s fd = Some c" and "cn_queue c' = cn_queue c" and "cn_protocol_minor c' = cn_protocol_minor c"
  shows "sent (\<lambda>_. []) s (conn_put fd c' s)"
  using assms by (simp add: sent_def)

lemma sent_detach: "sent (\<lambda>_. []) s (detach_connection fd s)"
  by (auto simp: sent_def)

text \<open>The previous writer stays when it has room to be told.\<close>

definition revoked :: "'w os \<Rightarrow> raw_fd \<Rightarrow> u32 \<Rightarrow> 'w server \<Rightarrow> 'w server \<Rightarrow> bool" where
  "revoked os fd sid s s' \<longleftrightarrow>
     (epoll_modifies os \<longrightarrow>
        (registered s fd \<longrightarrow> conn_get s' fd \<noteq> None \<longrightarrow> registered s' fd)
        \<and> (\<forall>x. hm_get (sv_writers s) sid = Some x \<longrightarrow>
             has_room s x [writer_frame WriteRevoked sid (generation s)] \<longrightarrow> conn_get s' x \<noteq> None))"

lemma claim_writer_sent:
  assumes "os_ok os op" and "sv_inv js op {} {} s" and "conn_get s fd = Some c" and "cn_role c = Data"
    and "\<And>x. hm_get (sv_writers s) x \<noteq> Some fd"
  shows "ends (\<lambda>_ s'. sent (\<lambda>x. if hm_get (sv_writers s) sid = Some x
        then [writer_frame WriteRevoked sid (generation s)] else []) s s' \<and> revoked os fd sid s s') (\<lambda>_. False) (claim_writer os fd sid s)"
proof (cases "hm_get (sv_writers s) sid")
  case None
  then show ?thesis
    using sent_same[OF sent_refl] by (simp add: claim_writer_def wp sent_def revoked_def registered_def)
next
  case (Some previous)
  have previous: "previous \<noteq> fd"
    using assms(5)[of sid] Some by auto
  let ?s = "s\<lparr>sv_writers := hm_insert sid fd (sv_writers s)\<rparr>"
  have "ends (\<lambda>_ s'. sent (\<lambda>x. if hm_get (sv_writers s) sid = Some x
        then [writer_frame WriteRevoked sid (generation s)] else []) s s' \<and> revoked os fd sid s s') (\<lambda>_. False)
      (queue_or_disconnect os previous (writer_frame WriteRevoked sid (generation s)) ?s)"
  proof (rule ends_mono[OF queue_or_disconnect_served[OF assms(1) claimed_inv[OF assms(2-4)]
          previous_writer(2)[OF assms(2) Some previous]]], goal_cases)
    case (1 y s')
    then have "sent (sent_to previous (writer_frame WriteRevoked sid (generation s))) s s'"
      using sent_same[of _ ?s s' s] served_sent by fastforce
    then have "sent (\<lambda>x. if hm_get (sv_writers s) sid = Some x
        then [writer_frame WriteRevoked sid (generation s)] else []) s s'"
      by (rule sent_cong) (simp add: sent_to_def Some)
    moreover have "revoked os fd sid s s'"
      unfolding revoked_def
    proof
      assume e: "epoll_modifies os"
      have keep: "stays (sent_to previous (writer_frame WriteRevoked sid (generation s))) ?s s'"
        using 1 e by (simp add: served_def)
      have room: "controller_room (sent_to previous (writer_frame WriteRevoked sid (generation s))) ?s"
        using previous_writer(2)[OF assms(2) Some previous, of "hm_insert sid fd (sv_writers s)"]
        by (auto simp: controller_room_def sent_to_def)
      have "registered s fd \<longrightarrow> conn_get s' fd \<noteq> None \<longrightarrow> registered s' fd"
        using keep room by (auto simp: stays_def registered_def)
      moreover have "\<forall>x. hm_get (sv_writers s) sid = Some x \<longrightarrow>
          has_room s x [writer_frame WriteRevoked sid (generation s)] \<longrightarrow> conn_get s' x \<noteq> None"
        using keep room Some unfolding stays_def
        by (auto simp: has_room_def registered_def sent_to_def)
      ultimately show "(registered s fd \<longrightarrow> conn_get s' fd \<noteq> None \<longrightarrow> registered s' fd)
          \<and> (\<forall>x. hm_get (sv_writers s) sid = Some x \<longrightarrow>
               has_room s x [writer_frame WriteRevoked sid (generation s)] \<longrightarrow> conn_get s' x \<noteq> None)" ..
    qed
    ultimately show ?case ..
  qed simp
  then show ?thesis
    using Some by (simp add: claim_writer_def wp generation_def)
qed


text \<open>The last part of \<open>attach\<close>.\<close>

lemma attached_ends:
  assumes "os_ok os op" and "sv_inv js op W {} s" and "conn_get s fd = Some c" and "cn_role c = Data"
    and "cn_attached_session c = None" and "W \<subseteq> {(ar_session_id q, fd)}"
    and "replay (sv_runtime s) (ar_session_id q) (unat (ar_replay_bytes q)) = Some bs"
    and "ar_session_id q \<noteq> 0"
  shows "ends (\<lambda>_ s'. (\<exists>c'. conn_get s' fd = Some c' \<and> cn_attached_session c' = Some (ar_session_id q))
      \<and> hm_get (sv_writers s') = hm_get (sv_writers s)
      \<and> sent ((\<lambda>_. [])(fd := attach_frames frame q (sv_runtime s) bs)) s s'
      \<and> (\<forall>x. conn_get s' x = None \<longleftrightarrow> conn_get s x = None))
    (\<lambda>_. \<not> (epoll_modifies os \<and> has_room s fd (attach_frames frame q (sv_runtime s) bs)))
    (send_attached os fd frame q (conn_put fd (c\<lparr>cn_attached_session := Some (ar_session_id q)\<rparr>) s))"
proof -
  let ?c = "c\<lparr>cn_attached_session := Some (ar_session_id q)\<rparr>"
  let ?s = "conn_put fd ?c s"
  have inv: "sv_inv js op {} {} ?s"
    by (rule attach_conn_inv[OF assms(2-6)])
  have c: "conn_get ?s fd = Some ?c"
    by simp
  show ?thesis
  proof (rule ends_mono[OF queuesD[OF send_attached_queues[OF assms(1,7,8)] inv]])
    fix s'
    assume "sv_inv js op {} {} s' \<and> sv_step {} ?s s'
      \<and> sent ((\<lambda>_. [])(fd := attach_frames frame q (sv_runtime s) bs)) ?s s' \<and> sv_reactor s' = sv_reactor ?s"
    then have s': "sv_inv js op {} {} s' \<and> sv_step {} ?s s'
      \<and> sent ((\<lambda>_. [])(fd := attach_frames frame q (sv_runtime s) bs)) ?s s'"
      by blast
    then obtain c' where "conn_get s' fd = Some c'" "links c' = links ?c"
      using sv_step_get[of "{}" ?s s', OF _ c] by auto
    moreover have "hm_get (sv_writers s') x = hm_get (sv_writers s) x" for x
      using sv_stepD(6)[of "{}" ?s s' x] s' by simp
    moreover have "sent ((\<lambda>_. [])(fd := attach_frames frame q (sv_runtime s) bs)) s s'"
      by (rule sent_cong[OF sent_trans[OF sent_put[OF assms(3), of ?c] conjunct2[OF conjunct2[OF s']]]]) simp_all
    moreover have "conn_get s' x = None \<longleftrightarrow> conn_get s x = None" for x
      using sv_stepD(5)[of "{}" ?s s' x] s' assms(3) by (cases "conn_get s' x"; cases "conn_get s x") (auto split: if_splits)
    ultimately show "(\<exists>c'. conn_get s' fd = Some c' \<and> cn_attached_session c' = Some (ar_session_id q))
      \<and> hm_get (sv_writers s') = hm_get (sv_writers s)
      \<and> sent ((\<lambda>_. [])(fd := attach_frames frame q (sv_runtime s) bs)) s s'
      \<and> (\<forall>x. conn_get s' x = None \<longleftrightarrow> conn_get s x = None)"
      by (auto simp: links_def fun_eq_iff)
  next
    fix s'
    assume "\<not> (epoll_modifies os \<and> has_room ?s fd (attach_frames frame q (sv_runtime s) bs))"
    then show "\<not> (epoll_modifies os \<and> has_room s fd (attach_frames frame q (sv_runtime s) bs))"
      using assms(3) by (auto simp: has_room_def registered_def room_def cn_queue_def)
  qed simp_all
qed


lemma attach_ends:
  assumes "os_ok os op" and "sv_inv js op {} {} s" and "conn_get s fd = Some c" and "cn_role c = Data"
    and "decode_attach_request (fr_payload frame) = Inr q"
    and "replay (sv_runtime s) (ar_session_id q) (unat (ar_replay_bytes q)) = Some bs"
  shows "ends (\<lambda>_ s'. (\<exists>c'. conn_get s' fd = Some c' \<and> cn_attached_session c' = Some (ar_session_id q))
      \<and> (if ar_mode q = ReadWrite then hm_get (sv_writers s') (ar_session_id q) = Some fd
         else \<forall>x. hm_get (sv_writers s') x \<noteq> Some fd)
      \<and> sent (\<lambda>x. if x = fd then attach_frames frame q (sv_runtime s) bs
          else if ar_mode q = ReadWrite \<and> hm_get (sv_writers s) (ar_session_id q) = Some x
          then [writer_frame WriteRevoked (ar_session_id q) (generation s)] else []) s s'
      \<and> (epoll_modifies os \<and> ar_mode q = ReadWrite \<longrightarrow>
           (\<forall>x. x \<noteq> fd \<and> hm_get (sv_writers s) (ar_session_id q) = Some x
              \<and> has_room s x [writer_frame WriteRevoked (ar_session_id q) (generation s)] \<longrightarrow> conn_get s' x \<noteq> None)))
    (\<lambda>_. \<not> (epoll_modifies os \<and> has_room s fd (attach_frames frame q (sv_runtime s) bs))) (attach os fd frame s)"
proof -
  let ?sid = "ar_session_id q"
  let ?s = "detach_connection fd s"
  let ?c = "c\<lparr>cn_attached_session := None\<rparr>"
  have inv: "sv_inv js op {} {} ?s"
    by (rule sv_inv_detach[OF assms(2)])
  have c: "conn_get ?s fd = Some ?c"
    using assms(3) by simp
  have free: "hm_get (sv_writers ?s) x \<noteq> Some fd" for x
    using writers_okD(2)[OF sv_coreD(8)[OF sv_inv_core[OF inv]] _ c, of x] by auto
  have found: "replay (sv_runtime s) ?sid 0 \<noteq> None"
    using assms(6) by (auto simp: replay_def split: option.splits)
  have sid: "?sid \<noteq> 0"
    using assms(5) by (auto simp: decode_attach_request_def elim!: rbind_Inr_elim split: if_splits)
  have others: "hm_get (sv_writers ?s) ?sid = Some x \<longleftrightarrow> hm_get (sv_writers s) ?sid = Some x" if "x \<noteq> fd" for x
    using that by (simp add: detach_writers)
  show ?thesis
  proof (cases "ar_mode q = ReadWrite")
    case True
    let ?F = "\<lambda>x. if x = fd then attach_frames frame q (sv_runtime s) bs
        else if hm_get (sv_writers s) ?sid = Some x
        then [writer_frame WriteRevoked ?sid (generation s)] else []"
    let ?told = "\<lambda>s'. epoll_modifies os \<longrightarrow> (\<forall>x. x \<noteq> fd \<and> hm_get (sv_writers s) ?sid = Some x
        \<and> has_room s x [writer_frame WriteRevoked ?sid (generation s)] \<longrightarrow> conn_get s' x \<noteq> None)"
    have role: "cn_role ?c = Data"
      using assms(4) by simp
    have rest: "ends (\<lambda>_ s'. (\<exists>c'. conn_get s' fd = Some c' \<and> cn_attached_session c' = Some ?sid)
        \<and> hm_get (sv_writers s') ?sid = Some fd \<and> sent ?F s s' \<and> ?told s') (\<lambda>_. \<not> (epoll_modifies os \<and> has_room s fd (attach_frames frame q (sv_runtime s) bs)))
        (sbind (sunwrap (conn_get s1 fd)) (\<lambda>c. sbind (sput (conn_put fd (c\<lparr>cn_attached_session := Some ?sid\<rparr>))) (\<lambda>_.
          send_attached os fd frame q)) s1)"
      if s1: "sv_inv js op {(?sid, fd)} {} s1" "sv_runtime s1 = sv_runtime ?s" "hm_get (sv_writers s1) ?sid = Some fd"
        "conn_get s1 fd = Some d" "links d = links ?c"
        "sent (\<lambda>x. if hm_get (sv_writers ?s) ?sid = Some x
           then [writer_frame WriteRevoked ?sid (generation ?s)] else []) ?s s1" "revoked os fd ?sid ?s s1" for s1 d
    proof -
      have d: "cn_role d = Data" "cn_attached_session d = None"
        using s1(5) assms(4) by (simp_all add: links_def)
      have bs: "replay (sv_runtime s1) ?sid (unat (ar_replay_bytes q)) = Some bs"
        using assms(6) s1(2) by simp
      have room: "has_room s1 fd (attach_frames frame q (sv_runtime s1) bs)"
        if "epoll_modifies os" "has_room s fd (attach_frames frame q (sv_runtime s) bs)"
      proof (rule has_room_rest[OF s1(6)])
        have "registered ?s fd" using that(2) by (simp add: has_room_def registered_def)
        then show "registered s1 fd" using s1(4,7) that(1) unfolding revoked_def by auto
        show "has_room ?s fd ((if hm_get (sv_writers ?s) ?sid = Some fd
            then [writer_frame WriteRevoked ?sid (generation ?s)] else []) @ attach_frames frame q (sv_runtime s1) bs)"
          using that(2) free s1(2) by (auto simp: has_room_def registered_def room_def cn_queue_def)
      qed (use s1(4) in simp)
      have told: "?told s1"
        using s1(7) others unfolding revoked_def
        by (auto simp: has_room_def registered_def generation_def split: if_splits)
      show ?thesis
        unfolding wp_bind wp_unwrap s1(4) option.case wp_put
      proof (rule ends_mono[OF attached_ends[OF assms(1) s1(1,4) d subset_refl bs sid]], goal_cases)
        case (1 y s')
        then have "sent ((\<lambda>_. [])(fd := attach_frames frame q (sv_runtime s1) bs)) s1 s'"
          by blast
        from sent_trans[OF sent_trans[OF sent_detach s1(6)] this] have "sent ?F s s'"
          by (rule sent_cong) (use s1(2) free others in \<open>auto simp: generation_def\<close>)
        moreover have "?told s'"
          using told 1 by simp
        ultimately show ?case
          using 1 s1(3) by simp
      qed (use room in blast)
    qed
    have "ends (\<lambda>_ s1. ends (\<lambda>_ s'. (\<exists>c'. conn_get s' fd = Some c' \<and> cn_attached_session c' = Some ?sid)
        \<and> hm_get (sv_writers s') ?sid = Some fd \<and> sent ?F s s' \<and> ?told s') (\<lambda>_. \<not> (epoll_modifies os \<and> has_room s fd (attach_frames frame q (sv_runtime s) bs)))
        (sbind (sunwrap (conn_get s1 fd)) (\<lambda>c. sbind (sput (conn_put fd (c\<lparr>cn_attached_session := Some ?sid\<rparr>))) (\<lambda>_.
          send_attached os fd frame q)) s1)) (\<lambda>_. \<not> (epoll_modifies os \<and> has_room s fd (attach_frames frame q (sv_runtime s) bs))) (claim_writer os fd ?sid ?s)"
    proof (rule ends_mono[OF ends_conj[OF claim_writer_ends[OF assms(1) inv c role free]
            claim_writer_sent[OF assms(1) inv c role free]]], goal_cases)
      case (1 y s1)
      then obtain d where d: "conn_get s1 fd = Some d" "links d = links ?c"
        by blast
      with 1 show ?case
        by (intro rest[OF _ _ _ d]) blast+
    qed simp
    then show ?thesis
      using True assms(5) found by (auto simp: attach_def wp Let_def cong: if_cong)
  next
    case False
    have bs: "replay (sv_runtime ?s) ?sid (unat (ar_replay_bytes q)) = Some bs"
      using assms(6) by simp
    have "ends (\<lambda>_ s'. (\<exists>c'. conn_get s' fd = Some c' \<and> cn_attached_session c' = Some ?sid)
        \<and> (\<forall>x. hm_get (sv_writers s') x \<noteq> Some fd)
        \<and> sent (\<lambda>x. if x = fd then attach_frames frame q (sv_runtime s) bs else []) s s')
      (\<lambda>_. \<not> (epoll_modifies os \<and> has_room s fd (attach_frames frame q (sv_runtime s) bs)))
      (send_attached os fd frame q (conn_put fd (?c\<lparr>cn_attached_session := Some ?sid\<rparr>) ?s))"
    proof (rule ends_mono[OF attached_ends[OF assms(1) inv c _ _ _ bs sid]], goal_cases)
      case (4 y s')
      then have "sent ((\<lambda>_. [])(fd := attach_frames frame q (sv_runtime ?s) bs)) ?s s'"
        by blast
      from sent_trans[OF sent_detach this]
      have "sent (\<lambda>x. if x = fd then attach_frames frame q (sv_runtime s) bs else []) s s'"
        by (rule sent_cong) simp
      then show ?case
        using 4 free by simp
    next
      case (5 s')
      then show ?case
        using assms(3) by (auto simp: has_room_def registered_def room_def cn_queue_def)
    qed (use assms(4) in simp_all)
    then show ?thesis
      using False assms(3,5) found by (auto simp: attach_def wp Let_def cong: if_cong)
  qed
qed

end
