(* ===== verification/Holder_Server_Safety.thy ===== *)
theory Holder_Server_Safety
  imports Holder_Server_Access
begin

text \<open>
  The guarantees of the running server, in terms of its tables: what holds after every round,
  which requests are refused, and what a lost controller takes with it.
\<close>

section \<open>After any number of rounds\<close>

lemma rounds_inv:
  assumes "os_ok os op" and "json_ok js" and "{listener, signals, logs} \<subseteq> op w"
    and "server_new os listener signals logs instance_id dir w = (r, s0)"
    and "run_rounds os js ess s0 = Some (Ret stop, s)"
  shows "sv_inv js op {} {} s"
  using hoareD[OF rounds_keep[OF assms(1,2)] server_new_inv[OF assms(1,3,4)], of ess] assms(5)
  by (simp add: ends_def)

lemma rounds_no_panic:
  assumes "os_ok os op" and "json_ok js" and "{listener, signals, logs} \<subseteq> op w"
    and "server_new os listener signals logs instance_id dir w = (r, s0)"
  shows "run_rounds os js ess s0 \<noteq> Some (Panic, s)"
  using hoareD[OF rounds_keep[OF assms(1,2)] server_new_inv[OF assms(1,3,4)], of ess]
  by (auto simp: ends_def)

lemma sv_inv_tables:
  assumes "sv_inv js op {} {} s"
  shows "conn_get s fd = Some c \<Longrightarrow> cn_role c = Control \<longleftrightarrow> (\<exists>ctl. sv_controller s = Some ctl \<and> ct_fd ctl = fd)"
    and "conn_get s fd = Some c \<Longrightarrow> cn_role c = Data \<Longrightarrow> sv_controller s \<noteq> None"
    and "hm_get (sv_writers s) sid = Some fd \<Longrightarrow>
      \<exists>c. conn_get s fd = Some c \<and> cn_role c = Data \<and> cn_attached_session c = Some sid"
    and "hm_get (re_tokens (sv_reactor s)) fd \<noteq> None \<Longrightarrow> fd \<in> op (sv_world s)"
proof -
  note core = sv_coreD[OF sv_inv_core[OF assms]]
  show "cn_role c = Control \<longleftrightarrow> (\<exists>ctl. sv_controller s = Some ctl \<and> ct_fd ctl = fd)"
    if "conn_get s fd = Some c"
    using core(9) that unfolding controller_ok_def by (metis option.inject)
  show "sv_controller s \<noteq> None" if "conn_get s fd = Some c" "cn_role c = Data"
    using assms that unfolding sv_inv_def by blast
  show "\<exists>c. conn_get s fd = Some c \<and> cn_role c = Data \<and> cn_attached_session c = Some sid"
    if "hm_get (sv_writers s) sid = Some fd"
    using core(8) that unfolding writers_ok_def by blast
  show "fd \<in> op (sv_world s)" if "hm_get (re_tokens (sv_reactor s)) fd \<noteq> None"
    using core(3,7) that unfolding sv_fds_ok_def by blast
qed

section \<open>Refused requests\<close>

text \<open>The requests that a peer may make in its role.\<close>

definition admitted :: "connection_role \<Rightarrow> holder_message_type list" where
  "admitted role =
     (case role of
        Pending \<Rightarrow> [ControlHello, DataHello]
      | Control \<Rightarrow> [Capability, Inventory, Create, Close, Kill, GetExitContext, RetireExited, ShutdownAll]
      | Data \<Rightarrow> [Attach, Detach, Input, Resize, Signal])"

definition refused :: "connection \<Rightarrow> u16 \<Rightarrow> holder_frame \<Rightarrow> bool" where
  "refused c minor frame \<longleftrightarrow>
     fr_message_type frame \<notin> set (admitted (cn_role c))
     \<or> cn_role c \<noteq> Pending \<and> fr_message_type frame \<noteq> Capability \<and> minor \<noteq> cn_protocol_minor c"

lemma process_refused:
  assumes "conn_get s fd = Some c" and "refused c minor frame"
  shows "\<exists>e. process_frame os js fd minor frame s = Some (Err e, s)"
proof (cases "cn_role c")
  case Pending
  then show ?thesis
    using assms by (simp add: process_frame_def handle_hello_def refused_def admitted_def handler_defs sunwrap_def)
next
  case Control
  then show ?thesis
    using assms
    by (cases "fr_message_type frame")
      (auto simp: process_frame_def handle_control_def refused_def admitted_def handler_defs sunwrap_def)
next
  case Data
  then show ?thesis
    using assms
    by (cases "fr_message_type frame")
      (auto simp: process_frame_def handle_data_def refused_def admitted_def handler_defs sunwrap_def)
qed

text \<open>The first refused request of a read ends the connection; the rest is not looked at.\<close>

lemma frames_refused:
  assumes "os_ok os op" and "sv_inv js op {} {} s" and "conn_get s fd = Some c"
    and "\<exists>e. process_frame os js fd minor frame s = Some (Err e, s)"
  shows "ends (\<lambda>all s'. \<not> all \<and> conn_get s' fd = None \<and> sv_runtime s' = sv_runtime s \<and> sv_inv js op {} {} s')
    (\<lambda>_. False) (process_frames os js fd ((minor, frame) # rest) s)"
proof -
  obtain e where e: "process_frame os js fd minor frame s = Some (Err e, s)"
    using assms(4) by blast
  have "ends (\<lambda>_ s'. conn_get s' fd = None \<and> sv_runtime s' = sv_runtime s \<and> sv_inv js op {} {} s') (\<lambda>_. False)
      (disconnect os fd s)"
    by (rule ends_mono[OF disconnect_ends[OF assms(1,2)]])
      (auto simp: gone_def dest: sv_stepD(1) sv_step_gone)
  then show ?thesis
    unfolding process_frames.simps wp_catch by (simp add: e wp)
qed

text \<open>A request that fails without an effect is answered by the disconnect and by nothing else: the
  world, too, is the one that the disconnect alone would have left.\<close>

lemma frames_only_disconnect:
  assumes "\<exists>e. process_frame os js fd minor frame s = Some (Err e, s)"
  shows "process_frames os js fd ((minor, frame) # rest) s = sbind (disconnect os fd) (\<lambda>_. sret False) s"
  using assms by (auto simp: scatch_def)

definition may_write :: "'w server \<Rightarrow> raw_fd \<Rightarrow> connection \<Rightarrow> bool" where
  "may_write s fd c \<longleftrightarrow>
     (case cn_attached_session c of
        None \<Rightarrow> False
      | Some sid \<Rightarrow> hm_get (sv_writers s) sid = Some fd \<and> is_running (sv_runtime s) sid)"

lemma process_not_writer:
  assumes "conn_get s fd = Some c" and "cn_role c = Data" and "\<not> may_write s fd c"
    and "fr_message_type frame \<in> {Input, Resize, Signal}"
  shows "\<exists>e. process_frame os js fd minor frame s = Some (Err e, s)"
  using assms
  by (cases "fr_message_type frame")
    (auto simp: process_frame_def handle_data_def handle_input_def require_writer_def may_write_def
      handler_defs sunwrap_def split: option.splits)

section \<open>Losing the controller\<close>

lemma disconnect_controller:
  assumes "os_ok os op" and "sv_inv js op {} {} s" and "sv_controller s = Some ctl" and "ct_fd ctl = fd"
  shows "ends (\<lambda>_ s'. sv_controller s' = None \<and> (\<forall>x c. conn_get s' x = Some c \<longrightarrow> cn_role c = Pending)
      \<and> (\<forall>sid. hm_get (sv_writers s') sid = None) \<and> sv_runtime s' = sv_runtime s
      \<and> (\<forall>x c. conn_get s x = Some c \<longrightarrow> cn_role c = Pending \<longrightarrow> conn_get s' x \<noteq> None))
    (\<lambda>_. False) (disconnect os fd s)"
proof (rule ends_mono[OF disconnect_ends[OF assms(1,2)]])
  fix s'
  assume "sv_inv js op {} {} s' \<and> sv_step (gone s fd) s s'"
  then have inv: "sv_inv js op {} {} s'" and step: "sv_step (gone s fd) s s'"
    by blast+
  have ctl: "is_controller s fd"
    using assms(3,4) by (simp add: is_controller_def)
  have pending: "cn_role c' = Pending" if got: "conn_get s' x = Some c'" for x c'
  proof -
    obtain c where c: "conn_get s x = Some c" "cn_role c = cn_role c'" and x: "x \<notin> gone s fd"
      using sv_step_back[OF step got] by (auto simp: links_def)
    then show ?thesis
      using sv_inv_tables(1)[OF assms(2) c(1)] assms(3,4) ctl by (cases "cn_role c'") (auto simp: gone_def)
  qed
  have "sv_controller s' = None"
  proof (rule ccontr)
    assume "sv_controller s' \<noteq> None"
    then obtain ctl' where "sv_controller s' = Some ctl'"
      by blast
    from controller_okD(2)[OF sv_coreD(9)[OF sv_inv_core[OF inv]] this] obtain c where
      "conn_get s' (ct_fd ctl') = Some c" "cn_role c = Control"
      by blast
    then show False
      using pending[of "ct_fd ctl'" c] by simp
  qed
  moreover have "hm_get (sv_writers s') sid = None" for sid
  proof (rule ccontr)
    assume "hm_get (sv_writers s') sid \<noteq> None"
    then obtain y c where "conn_get s' y = Some c" "cn_role c = Data"
      using sv_inv_tables(3)[OF inv] by blast
    then show False
      using pending[of y c] by simp
  qed
  moreover have "conn_get s' x \<noteq> None" if "conn_get s x = Some c" "cn_role c = Pending" for x c
  proof -
    have "x \<notin> gone s fd"
      using that sv_inv_tables(1)[OF assms(2) that(1)] assms(3,4) by (auto simp: gone_def)
    then show ?thesis
      using sv_step_get[OF step that(1)] by auto
  qed
  ultimately show "sv_controller s' = None \<and> (\<forall>x c. conn_get s' x = Some c \<longrightarrow> cn_role c = Pending)
      \<and> (\<forall>sid. hm_get (sv_writers s') sid = None) \<and> sv_runtime s' = sv_runtime s
      \<and> (\<forall>x c. conn_get s x = Some c \<longrightarrow> cn_role c = Pending \<longrightarrow> conn_get s' x \<noteq> None)"
    using pending sv_stepD(1)[OF step] by blast
qed simp_all

text \<open>What a client reads is what the shell wrote: the payloads of the frames it is sent.\<close>

lemma output_payloads:
  "concat (map fr_payload (filter (\<lambda>f. fr_message_type f = Output) (map (out_frame Output 0 gen) chunks)))
    = concat chunks"
  by (induction chunks) (simp_all add: out_frame_def)

lemma replay_payloads:
  "concat (map fr_payload (filter (\<lambda>f. fr_message_type f = Output) (attach_frames frame q rt bs))) = bs"
proof -
  have "(MAX_HOLDER_IO_FRAME :: nat) \<noteq> 0"
    by (simp add: MAX_HOLDER_IO_FRAME_def)
  then show ?thesis
    using chunks_of_concat[of MAX_HOLDER_IO_FRAME bs]
    by (simp add: attach_frames_def Let_def output_payloads) (simp add: out_frame_def writer_frame_def)
qed

section \<open>One request\<close>

text \<open>A request either has its effect, or its error ends the connection.\<close>

lemma one_frame:
  assumes "os_ok os op" and "sv_inv js op {} {} s" and "conn_get s fd = Some c"
    and "ends (\<lambda>_. Q) (\<lambda>_. True) (process_frame os js fd minor frame s)"
  shows "process_frames os js fd [(minor, frame)] s \<noteq> None
    \<and> ends (\<lambda>all s'. if all then Q s' else conn_get s' fd = None) (\<lambda>_. False)
        (process_frames os js fd [(minor, frame)] s)"
proof
  show "process_frames os js fd [(minor, frame)] s \<noteq> None"
    by (rule returnsD[OF returns_process_frames])
  have own: "own js op fd s"
    using assms(2,3) by (simp add: own_def)
  have gone: "ends (\<lambda>_ s'. conn_get s' fd = None) (\<lambda>_. False) (disconnect os fd s1)" for s1
    by (rule ends_mono[OF disconnect_drops]) simp_all
  show "ends (\<lambda>all s'. if all then Q s' else conn_get s' fd = None) (\<lambda>_. False)
        (process_frames os js fd [(minor, frame)] s)"
    unfolding process_frames.simps wp_catch fst_conv snd_conv
    by (rule ends_mono[OF ends_conj[OF hoareD[OF process_frame_serves[OF assms(1)] own] assms(4)]])
      (auto simp: wp gone)
qed

lemma one_frame_accepted:
  assumes "os_ok os op" and "sv_inv js op {} {} s" and "conn_get s fd = Some c"
    and "ends (\<lambda>_. Q) (\<lambda>_. \<not> accepted) (process_frame os js fd minor frame s)"
  shows "process_frames os js fd [(minor, frame)] s \<noteq> None
    \<and> ends (\<lambda>all s'. (accepted \<longrightarrow> all) \<and> (if all then Q s' else conn_get s' fd = None)) (\<lambda>_. False)
        (process_frames os js fd [(minor, frame)] s)"
proof -
  have failed: "ends (\<lambda>all s'. (accepted \<longrightarrow> all) \<and> (if all then Q s' else conn_get s' fd = None)) (\<lambda>_. False)
      (sbind (disconnect os fd) (\<lambda>_. sret False) s1)" if "\<not> accepted" for s1
    unfolding wp_bind by (rule ends_mono[OF disconnect_drops]) (simp_all add: wp_basic that)
  have own: "own js op fd s"
    using assms(2,3) by (simp add: own_def)
  show ?thesis
  proof
    show "process_frames os js fd [(minor, frame)] s \<noteq> None"
      by (rule returnsD[OF returns_process_frames])
    show "ends (\<lambda>all s'. (accepted \<longrightarrow> all) \<and> (if all then Q s' else conn_get s' fd = None)) (\<lambda>_. False)
        (process_frames os js fd [(minor, frame)] s)"
      unfolding process_frames.simps wp_catch fst_conv snd_conv
    proof (rule ends_mono[OF ends_conj[OF hoareD[OF process_frame_serves[OF assms(1)] own] assms(4)]], goal_cases)
      case (1 y s')
      then show ?case by (simp add: wp_basic)
    next
      case (2 s')
      then have "\<not> accepted" by blast
      from failed[OF this, of s'] show ?case by simp
    qed
  qed
qed

lemma one_hello:
  assumes "os_ok os op" and "sv_inv js op {} {} s" and "conn_get s fd = Some c" and "cn_role c = Pending"
  shows "process_frames os js fd [(minor, frame)] s \<noteq> None
    \<and> ends (\<lambda>all s'. if all then role_after s fd c minor frame s' else conn_get s' fd = None) (\<lambda>_. False)
        (process_frames os js fd [(minor, frame)] s)"
  by (rule one_frame[OF assms(1-3) hello_role[OF assms]])

lemma one_attach:
  assumes "os_ok os op" and "sv_inv js op {} {} s" and "conn_get s fd = Some c" and "cn_role c = Data"
    and "fr_message_type frame = Attach" and "minor = cn_protocol_minor c"
    and "decode_attach_request (fr_payload frame) = Inr q"
    and "replay (sv_runtime s) (ar_session_id q) (unat (ar_replay_bytes q)) = Some bs"
  shows "process_frames os js fd [(minor, frame)] s \<noteq> None
    \<and> ends (\<lambda>all s'. (epoll_modifies os \<and> has_room s fd (attach_frames frame q (sv_runtime s) bs) \<longrightarrow> all) \<and> (if all
        then (\<exists>c'. conn_get s' fd = Some c' \<and> cn_attached_session c' = Some (ar_session_id q))
          \<and> (if ar_mode q = ReadWrite then hm_get (sv_writers s') (ar_session_id q) = Some fd
             else \<forall>x. hm_get (sv_writers s') x \<noteq> Some fd)
          \<and> sent (\<lambda>x. if x = fd then attach_frames frame q (sv_runtime s) bs
              else if ar_mode q = ReadWrite \<and> hm_get (sv_writers s) (ar_session_id q) = Some x
              then [writer_frame WriteRevoked (ar_session_id q) (generation s)] else []) s s'
          \<and> (epoll_modifies os \<and> ar_mode q = ReadWrite \<longrightarrow>
               (\<forall>x. x \<noteq> fd \<and> hm_get (sv_writers s) (ar_session_id q) = Some x
                  \<and> has_room s x [writer_frame WriteRevoked (ar_session_id q) (generation s)] \<longrightarrow> conn_get s' x \<noteq> None))
        else conn_get s' fd = None)) (\<lambda>_. False)
        (process_frames os js fd [(minor, frame)] s)"
proof (rule one_frame_accepted[OF assms(1-3)])
  have "process_frame os js fd minor frame s = attach os fd frame s"
    using assms(3-6) by (simp add: process_frame_def handle_data_def handler_defs sunwrap_def)
  then show "ends (\<lambda>_ s'. (\<exists>c'. conn_get s' fd = Some c' \<and> cn_attached_session c' = Some (ar_session_id q))
          \<and> (if ar_mode q = ReadWrite then hm_get (sv_writers s') (ar_session_id q) = Some fd
             else \<forall>x. hm_get (sv_writers s') x \<noteq> Some fd)
          \<and> sent (\<lambda>x. if x = fd then attach_frames frame q (sv_runtime s) bs
              else if ar_mode q = ReadWrite \<and> hm_get (sv_writers s) (ar_session_id q) = Some x
              then [writer_frame WriteRevoked (ar_session_id q) (generation s)] else []) s s'
          \<and> (epoll_modifies os \<and> ar_mode q = ReadWrite \<longrightarrow>
               (\<forall>x. x \<noteq> fd \<and> hm_get (sv_writers s) (ar_session_id q) = Some x
                  \<and> has_room s x [writer_frame WriteRevoked (ar_session_id q) (generation s)] \<longrightarrow> conn_get s' x \<noteq> None)))
      (\<lambda>_. \<not> (epoll_modifies os \<and> has_room s fd (attach_frames frame q (sv_runtime s) bs)))
      (process_frame os js fd minor frame s)"
    using attach_ends[OF assms(1-4,7,8)] by simp
qed

end
