(* ===== verification/Holder_Samples.thy ===== *)
theory Holder_Samples
  imports Holder_Server_Safety
begin

text \<open>
  Concrete values for the theorems of the development: a small operating system whose world
  holds the open descriptors, the input to be read and the bytes written, with a child that has
  exited or not, and requests, frames and environments that pass every check.
\<close>

section \<open>A small operating system\<close>

record demo_world =
  dw_open :: "raw_fd list"
  dw_reads :: "bytes list"
  dw_written :: bytes
  dw_exited :: bool

definition fresh_fd :: "raw_fd list \<Rightarrow> raw_fd" where
  "fresh_fd xs = foldr max xs 0 + 1"

definition demo_os :: "demo_world os" where
  "demo_os =
     \<lparr>os_process_id = 100, os_uid = 1000, os_now_ms = (\<lambda>w. (5000, w)),
      os_read = (\<lambda>fd w. case dw_reads w of
          [] \<Rightarrow> (ReadWouldBlock, w)
        | c # cs \<Rightarrow> (ReadBytes (take MAX_HOLDER_IO_FRAME c), w\<lparr>dw_reads := cs\<rparr>)),
      os_write = (\<lambda>fd bs w. (Written (length bs), w\<lparr>dw_written := dw_written w @ bs\<rparr>)),
      os_open_pty = (\<lambda>q w. let fd = fresh_fd (dw_open w)
         in (Some (fd, 7), w\<lparr>dw_open := fd # dw_open w\<rparr>)),
      os_waitpid = (\<lambda>pid w. (if dw_exited w then WaitExited 3 else StillRunning, w)),
      os_kill = (\<lambda>pid g sig w. (True, w)),
      os_tcgetpgrp = (\<lambda>fd w. (None, w)),
      os_set_winsize = (\<lambda>fd r c w. (True, w)),
      os_state_file = (\<lambda>p w. (FileMissing, w)),
      os_remove_state = (\<lambda>p w. (True, w)),
      os_log_written = (\<lambda>w. ([], w)),
      os_epoll_ctl = (\<lambda>ctl fd t w. (True, w)),
      os_accept = (\<lambda>w. (NoPeer, w)),
      os_signal = (\<lambda>w. (None, w)),
      os_closes_within = (\<lambda>fd w. (False, w)),
      os_close = (\<lambda>fd w. w\<lparr>dw_open := filter (\<lambda>x. x \<noteq> fd) (dw_open w)\<rparr>)\<rparr>"

definition demo_fds :: "demo_world \<Rightarrow> raw_fd set" where
  "demo_fds w = set (dw_open w)"

lemma le_foldr_max: "(x :: raw_fd) \<in> set xs \<Longrightarrow> x \<le> foldr max xs 0"
  by (induction xs) auto

lemma fresh_fd_notin: "fresh_fd xs \<notin> set xs"
  using le_foldr_max[of "fresh_fd xs" xs] by (auto simp: fresh_fd_def)

lemma demo_os_ok: "os_ok demo_os demo_fds"
proof -
  have "length bs \<le> MAX_HOLDER_IO_FRAME" if "os_read demo_os fd w = (ReadBytes bs, w')" for fd bs w w'
    using that by (cases "dw_reads w") (auto simp: demo_os_def)
  then have "reads_bounded demo_os"
    by (auto simp: reads_bounded_def)
  then show ?thesis
    by (auto simp: os_ok_def fd_discipline_def writes_bounded_def demo_os_def
        demo_fds_def Let_def fresh_fd_notin split: list.splits)
qed

text \<open>A JSON codec that fails on every input.\<close>

definition no_json :: json where
  "no_json = \<lparr>js_to_vec = (\<lambda>_. Inl ''unsupported''), js_from_slice = (\<lambda>_. Inl ''unsupported''),
              js_state_from_slice = (\<lambda>_. Inl ''unsupported'')\<rparr>"

lemma no_json_ok: "json_ok no_json"
  by (simp add: json_ok_def decodes_utf8_def no_json_def)

section \<open>Values\<close>

definition demo_incarnation :: bytes where
  "demo_incarnation = replicate 16 0x11"

definition demo_state_file :: rstring where
  "demo_state_file = ascii ''/run/p/session-state/5-11111111111111111111111111111111.json''"

definition demo_environment :: shell_launch_environment where
  "demo_environment =
     \<lparr>le_saved_set = [(ascii ''EDITOR'', ascii ''vi'')], le_saved_unset = [ascii ''LANG''],
      le_connection = [(ascii ''TERM'', ascii ''xterm'')],
      le_private = [(ascii ''PERSIST_SESSION'', ascii ''5'')]\<rparr>"

definition demo_create :: create_session_request where
  "demo_create =
     \<lparr>cs_session_id = 5, cs_shell = ascii ''/bin/sh'', cs_arguments = [ascii ''-l''],
      cs_cwd = Some (ascii ''/tmp''), cs_launch_environment = demo_environment,
      cs_history_file = None, cs_ring_buffer_size = 4096, cs_log_path = Some (ascii ''/tmp/5.log''),
      cs_state_file = demo_state_file, cs_state_incarnation = demo_incarnation\<rparr>"

lemma demo_names:
  "valid_name (ascii ''EDITOR'')" "\<not> hard_denied (ascii ''EDITOR'')"
  "valid_name (ascii ''LANG'')" "\<not> hard_denied (ascii ''LANG'')"
  "valid_name (ascii ''TERM'')" "ascii ''TERM'' \<in> set CONNECTION_NAMES"
  "valid_name (ascii ''PERSIST_SESSION'')"
  "0 \<notin> set (ascii ''vi'')" "0 \<notin> set (ascii ''xterm'')" "0 \<notin> set (ascii ''5'')"
  by code_simp+

lemma demo_paths:
  "is_absolute (ascii ''/bin/sh'')" "is_absolute (ascii ''/tmp'')" "is_absolute (ascii ''/tmp/5.log'')"
  "is_absolute demo_state_file" "utf8_valid demo_state_file" "path_is_absolute demo_state_file"
  "0 \<notin> set demo_state_file" "0 \<notin> set (ascii ''-l'')" "length demo_state_file = 60"
  "utf8_valid (ascii ''/bin/sh'')" "utf8_valid (ascii ''/tmp'')" "utf8_valid (ascii ''/tmp/5.log'')"
  "utf8_valid (ascii ''-l'')"
  by code_simp+

lemmas environment_limits = MAX_SHELL_ENVIRONMENT_BYTES_def MAX_SHELL_ENVIRONMENT_VARIABLES_def
  MAX_SHELL_ENVIRONMENT_VALUE_BYTES_def MAX_SHELL_ENVIRONMENT_NAME_BYTES_def

lemma demo_environment_ok: "le_ok demo_environment" "env_utf8 demo_environment"
proof -
  have "distinct (le_names demo_environment)"
    by code_simp
  then show "le_ok demo_environment"
    by (simp add: le_ok_def check_saved_set_def check_saved_unset_def check_connection_def
        validate_pair_def le_bytes_def pair_size_def le_entry_count_def environment_limits demo_names
        demo_environment_def)
  show "env_utf8 demo_environment"
    by code_simp
qed

lemma demo_create_ok: "create_request_ok demo_create"
  using demo_environment_ok
  by (simp add: create_request_ok_def validate_create_def demo_create_def demo_paths
      optional_absolute_def longer_than_def MAX_HOLDER_PATH_def MAX_HOLDER_ARGUMENT_def
      MAX_HOLDER_ARGUMENTS_def MAX_HOLDER_RING_BUFFER_def MAX_HOLDER_ENV_VARS_def
      le_entry_count_def demo_environment_def demo_incarnation_def zero16_def)

section \<open>A session\<close>

definition demo_start :: "demo_world rstate" where
  "demo_start =
     \<lparr>rs_runtime = runtime_new (ascii ''/run/p/session-state''), rs_logs = log_worker_start,
      rs_world = \<lparr>dw_open = [3], dw_reads = [ascii ''hello''], dw_written = [], dw_exited = True\<rparr>\<rparr>"

lemma demo_start_at: "rs_at no_json demo_fds {} {3} demo_start"
  using rt_inv_new[of no_json "ascii ''/run/p/session-state''"]
  by (simp add: rs_at_def demo_start_def lw_inv_start demo_fds_def pty_fds_def runtime_new_def)

text \<open>The state after the first request to create a session.\<close>

definition demo_running :: "demo_world rstate" where
  "demo_running = (case rt_create demo_os demo_create demo_start of
     None \<Rightarrow> demo_start | Some (r, s) \<Rightarrow> s)"

lemma demo_create_returns:
  "(case rt_create demo_os demo_create demo_start of
      Some (Ret r, s) \<Rightarrow> r = (response 5 Ok '''', Some 4) | _ \<Rightarrow> False)"
  by code_simp

lemma demo_running_at: "rs_at no_json demo_fds {4} {3, 4} demo_running"
proof -
  obtain s where s: "rt_create demo_os demo_create demo_start = Some (Ret (response 5 Ok '''', Some 4), s)"
    using demo_create_returns by (auto split: option.splits prod.splits res.splits)
  have "cs_session_id demo_create \<noteq> 0" "cs_ring_buffer_size demo_create \<noteq> 0"
    "cs_ring_buffer_size demo_create \<le> MAX_HOLDER_RING_BUFFER"
    by (simp_all add: demo_create_def MAX_HOLDER_RING_BUFFER_def)
  from hoareD[OF rt_create_rs[OF demo_os_ok this] demo_start_at]
  show ?thesis
    by (simp add: s demo_running_def insert_commute)
qed

lemmas frame_limits = MAX_HOLDER_CONTROL_FRAME_def MAX_HOLDER_IO_FRAME_def HOLDER_HEADER_SIZE_def
  HOLDER_PROTOCOL_BASELINE_MINOR_def HOLDER_PROTOCOL_MINOR_def

definition demo_frame :: holder_frame where
  "demo_frame = \<lparr>fr_message_type = Input, fr_flags = 0, fr_request_id = 4, fr_generation = 2,
                 fr_payload = [104, 105]\<rparr>"

lemma demo_frame_ok: "frame_ok 2 demo_frame"
  by (simp add: frame_ok_def demo_frame_def validate_minor_def max_payload_def frame_limits)

definition demo_entry :: holder_session_entry where
  "demo_entry =
     \<lparr>he_session_id = 5, he_shell_pid = 7, he_state = Exited, he_exit_code = Some 3,
      he_created_at_ms = 1000, he_last_active_at_ms = 2000, he_ring_bytes = 5,
      he_writer_active = False, he_log_state = Healthy, he_exit_context_available = True\<rparr>"

definition demo_inventory :: inventory_response where
  "demo_inventory = \<lparr>ir_entries = [demo_entry], ir_next_cursor = Some 5\<rparr>"

lemma demo_inventory_ok: "inventory_response_ok demo_inventory"
  by (simp add: inventory_response_ok_def demo_inventory_def demo_entry_def validate_entry_def NO_CURSOR_def)

definition demo_snapshot :: environment_snapshot where
  "demo_snapshot =
     \<lparr>es_format_version = 1, es_policy_version = 1,
      es_policy_fingerprint = ascii ''0123456789abcdef'',
      es_env_set = [(ascii ''EDITOR'', ascii ''vi''), (ascii ''FOO'', ascii ''1'')],
      es_env_unset = [ascii ''LC_ALL''],
      es_capture_status = Complete\<rparr>"

text \<open>A codec that knows one snapshot.\<close>

definition demo_to_vec :: to_vec where
  "demo_to_vec s = Inr [1, 2, 3]"

definition demo_from_slice :: from_slice where
  "demo_from_slice bs = Inr demo_snapshot"

lemma demo_snapshot_ok: "snapshot_validate_hard_limits demo_to_vec demo_snapshot = Inr ()"
proof -
  have names: "valid_name (ascii ''EDITOR'')" "valid_name (ascii ''FOO'')" "valid_name (ascii ''LC_ALL'')"
    "valid_fingerprint (ascii ''0123456789abcdef'')"
    "ascii ''EDITOR'' \<noteq> ascii ''LC_ALL''" "ascii ''FOO'' \<noteq> ascii ''LC_ALL''" "0 \<notin> set (ascii ''vi'')" "0 \<notin> set (ascii ''1'')"
    "length (ascii ''vi'') = 2" "length (ascii ''1'') = 1"
    by code_simp+
  show ?thesis
    using names by (simp add: snapshot_validate_hard_limits_def snapshot_validate_def demo_snapshot_def
        demo_to_vec_def snapshot_entry_ok_def MAX_SHELL_ENVIRONMENT_BYTES_def
        MAX_SHELL_ENVIRONMENT_VARIABLES_def MAX_SHELL_ENVIRONMENT_VALUE_BYTES_def
        SHELL_ENVIRONMENT_FORMAT_VERSION_def SHELL_ENVIRONMENT_POLICY_VERSION_def)
qed

definition demo_exit_context :: exit_context_response_v2 where
  "demo_exit_context =
     \<lparr>ec2_session_id = 5, ec2_status = Ok, ec2_exit_code = Some 3,
      ec2_cwd = Some (ascii ''/tmp''), ec2_environment = Some demo_snapshot\<rparr>"

lemma demo_exit_context_ok: "exit_context_v2_ok demo_exit_context"
  using demo_paths(2,11)
  by (simp add: exit_context_v2_ok_def exit_context_ok_def demo_exit_context_def ec_legacy_def cwd_ok_def
      is_absolute_def opt_str_ok_def str_ok_def MAX_HOLDER_PATH_def)

definition demo_rules :: "rstring list" where
  "demo_rules = [ascii ''EDITOR'', ascii ''MY_*'']"

definition demo_policy :: environment_policy where
  "demo_policy = \<lparr>ep_include = sort demo_rules, ep_max_variables = 64, ep_max_bytes = 4096,
                  ep_fingerprint = fingerprint (sort demo_rules) 64 4096\<rparr>"

lemma demo_policy_new: "environment_policy_new demo_rules 64 4096 = Inr demo_policy"
proof -
  have "distinct_adj (sort demo_rules)" "validate_rules (sort demo_rules) = Inr ()"
    "length (remdups (exact_names_of (sort demo_rules))) \<le> 64"
    by code_simp+
  then show ?thesis
    by (simp add: environment_policy_new_def demo_policy_def environment_limits Let_def)
qed

section \<open>Policies and identities\<close>

lemma demo_policy_allows:
  "policy_allows demo_policy (ascii ''EDITOR'')" "\<not> policy_allows demo_policy (ascii ''FOO'')"
  "policy_allows demo_policy (ascii ''LC_ALL'')"
  by code_simp+

definition demo_filtered :: environment_snapshot where
  "demo_filtered =
     \<lparr>es_format_version = 1, es_policy_version = 1, es_policy_fingerprint = ep_fingerprint demo_policy,
      es_env_set = [(ascii ''EDITOR'', ascii ''vi'')], es_env_unset = [ascii ''LC_ALL''],
      es_capture_status = Preserved\<rparr>"

lemma demo_entries:
  "snapshot_entry_ok (ascii ''EDITOR'') (ascii ''vi'')" "snapshot_entry_ok (ascii ''LC_ALL'') []"
  "ascii ''EDITOR'' \<noteq> ascii ''LC_ALL''"
proof -
  have "valid_name (ascii ''EDITOR'')" "valid_name (ascii ''LC_ALL'')" "0 \<notin> set (ascii ''vi'')"
    by code_simp+
  then show "snapshot_entry_ok (ascii ''EDITOR'') (ascii ''vi'')" "snapshot_entry_ok (ascii ''LC_ALL'') []"
    by (simp_all add: snapshot_entry_ok_def environment_limits)
  show "ascii ''EDITOR'' \<noteq> ascii ''LC_ALL''"
    by code_simp
qed

lemma demo_fingerprint: "valid_fingerprint (ep_fingerprint demo_policy)"
  by (simp add: demo_policy_def fingerprint_valid)

lemma demo_filter: "policy_filter_snapshot demo_to_vec demo_policy demo_snapshot = Inr demo_filtered"
proof -
  have "ep_max_variables demo_policy = 64" "ep_max_bytes demo_policy = 4096"
    by (simp_all add: demo_policy_def)
  then show ?thesis
    using demo_snapshot_ok demo_policy_allows demo_fingerprint demo_entries
    by (simp add: policy_filter_snapshot_def demo_snapshot_def demo_filtered_def snapshot_validate_def
        SHELL_ENVIRONMENT_FORMAT_VERSION_def SHELL_ENVIRONMENT_POLICY_VERSION_def demo_to_vec_def)
qed

lemma demo_capture:
  "\<exists>s. snapshot_capture demo_to_vec demo_policy (Some demo_filtered) [(ascii ''EDITOR'', ascii ''vi'')] = Inr s"
proof -
  have "ep_max_variables demo_policy = 64" "ep_max_bytes demo_policy = 4096"
    by (simp_all add: demo_policy_def)
  moreover have "filter (\<lambda>name. policy_allows demo_policy name \<and> bt_get [(ascii ''EDITOR'', ascii ''vi'')] name = None)
       (sort (remdups (exact_names_of (ep_include demo_policy) @ [ascii ''EDITOR'', ascii ''LC_ALL''])))
     = [ascii ''LANG'', ascii ''LC_ALL'']"
    by code_simp
  moreover have "snapshot_entry_ok (ascii ''LANG'') []" "ascii ''EDITOR'' \<noteq> ascii ''LANG''"
    using demo_names(3) by (simp_all add: snapshot_entry_ok_def ascii_def)
  ultimately show ?thesis
    using demo_policy_allows demo_fingerprint demo_entries
    by (simp add: snapshot_capture_def demo_filtered_def snapshot_validate_def Let_def
        SHELL_ENVIRONMENT_FORMAT_VERSION_def SHELL_ENVIRONMENT_POLICY_VERSION_def demo_to_vec_def)
qed

lemma demo_identity: "\<exists>x. identity_from_parts 5 demo_incarnation demo_state_file = Inr x"
proof -
  have "path_file_name demo_state_file = Some (state_file_name 5 demo_incarnation)"
    "Option.bind (path_parent demo_state_file) components_file_name = Some (ascii ''session-state'')"
    by code_simp+
  then show ?thesis
    using demo_paths by (simp add: identity_from_parts_def demo_incarnation_def zero16_def MAX_STATE_PATH_BYTES_def)
qed

text \<open>An output that accepts at most four bytes at a time.\<close>

definition demo_put :: "bytes \<Rightarrow> bytes \<Rightarrow> write_result \<times> bytes" where
  "demo_put w bs = (Written (min 4 (length bs)), w @ take 4 bs)"

lemma demo_sink: "sink demo_put (\<lambda>w. w)"
  by (simp add: sink_def demo_put_def min_def)

definition demo_session :: session where
  "demo_session =
     session_new demo_create
       \<lparr>si_session_id = 5, si_incarnation = demo_incarnation, si_state_file = demo_state_file\<rparr>
       4 7 5000 (the (rb_new 16))"

lemma demo_session_queue: "bq_inv MAX_PENDING_INPUT (ss_queue demo_session)"
  by (simp add: demo_session_def session_new_def ss_queue_def bq_inv_def bq_pending_def)

lemma demo_os_budget: "input_budget demo_os (\<lambda>w. length (dw_reads w))"
  by (auto simp: input_budget_def demo_os_def split: list.split_asm)


section \<open>A server\<close>

text \<open>A server with a running session, its controller (10), the client that writes to the session
  (11), a client that only reads it (13), and a peer that has said nothing yet (12).\<close>

definition demo_peer :: "raw_fd \<Rightarrow> connection_role \<Rightarrow> u32 option \<Rightarrow> connection" where
  "demo_peer fd role session = (connection_new fd 42 1000)\<lparr>cn_role := role, cn_attached_session := session\<rparr>"

definition demo_server :: "demo_world server" where
  "demo_server =
     \<lparr>sv_rs = demo_running\<lparr>rs_world :=
        (rs_world demo_running)\<lparr>dw_open := [3, 4, 10, 11, 12, 13, 20, 21, 22]\<rparr>\<rparr>,
      sv_reactor = \<lparr>re_next_token = 8, re_tokens = [(20, 1), (21, 2), (22, 3), (4, 4), (10, 5), (11, 6), (13, 7)],
        re_fds = [(1, 20), (2, 21), (3, 22), (4, 4), (5, 10), (6, 11), (7, 13)]\<rparr>,
      sv_connections = [(10, demo_peer 10 Control None), (11, demo_peer 11 Data (Some 5)),
        (12, demo_peer 12 Pending None), (13, demo_peer 13 Data (Some 5))],
      sv_writers = [(5, 11)],
      sv_controller = Some \<lparr>ct_fd = 10, ct_pid = 42, ct_nonce = replicate 16 1,
        ct_protocol_minor = HOLDER_PROTOCOL_BASELINE_MINOR, ct_capabilities = 0\<rparr>,
      sv_instance_id = replicate 16 2, sv_shutdown_fd = None,
      sv_listener_fd = 20, sv_signal_fd = 21, sv_log_fd = 22\<rparr>"

lemma demo_peer_simps [simp]:
  "cn_role (demo_peer fd r a) = r" "cn_attached_session (demo_peer fd r a) = a"
  "cn_peer_pid (demo_peer fd r a) = 42" "cn_protocol_minor (demo_peer fd r a) = HOLDER_PROTOCOL_BASELINE_MINOR"
  "conn_ok fd (demo_peer fd r a) \<longleftrightarrow> (a \<noteq> None \<longrightarrow> r = Data)"
  by (simp_all add: demo_peer_def connection_new_def conn_ok_def is_ok_baseline cn_queue_def bq_inv_def
      bq_pending_def)

lemma demo_server_get:
  "conn_get demo_server fd =
    (if fd = 10 then Some (demo_peer 10 Control None) else if fd = 11 then Some (demo_peer 11 Data (Some 5))
     else if fd = 12 then Some (demo_peer 12 Pending None)
     else if fd = 13 then Some (demo_peer 13 Data (Some 5)) else None)"
  by (simp add: conn_get_def demo_server_def del: conn_get_connections)

lemma demo_server_inv: "sv_inv no_json demo_fds {} {} demo_server"
proof -
  note at = demo_running_at[unfolded rs_at_def]
  have "sv_core no_json demo_fds {} {} demo_server"
  proof (rule sv_coreI)
    show "sv_fds_ok demo_fds {} demo_server"
      using at unfolding sv_fds_ok_def demo_server_get
      by (auto simp: demo_server_def special_fds_def demo_fds_def)
    show "writers_ok {} demo_server"
      unfolding writers_ok_def demo_server_get by (simp add: demo_server_def)
    show "controller_ok demo_server"
      unfolding controller_ok_def demo_server_get by (simp add: demo_server_def is_ok_baseline)
    show "conn_ok fd c" if "conn_get demo_server fd = Some c" for fd c
      using that by (auto simp: demo_server_get split: if_splits)
  qed (use at in \<open>auto simp: demo_server_def demo_fds_def\<close>)
  then show ?thesis
    by (simp add: sv_inv_def demo_server_get) (simp add: demo_server_def)
qed

definition demo_begin :: "demo_world server" where
  "demo_begin = snd (server_new demo_os 20 21 22 (replicate 16 2) (ascii ''/run/p'')
     \<lparr>dw_open = [20, 21, 22], dw_reads = [], dw_written = [], dw_exited = False\<rparr>)"

lemma demo_begin_new:
  "server_new demo_os 20 21 22 (replicate 16 2) (ascii ''/run/p'')
     \<lparr>dw_open = [20, 21, 22], dw_reads = [], dw_written = [], dw_exited = False\<rparr> = (Inr (), demo_begin)"
proof -
  have "fst (server_new demo_os 20 21 22 (replicate 16 2) (ascii ''/run/p'')
     \<lparr>dw_open = [20, 21, 22], dw_reads = [], dw_written = [], dw_exited = False\<rparr>) = Inr ()"
    by (simp add: server_new_def reactor_add_def demo_os_def Let_def reactor_new_def)
  then show ?thesis
    by (simp add: demo_begin_def prod_eq_iff)
qed

lemma demo_begin_world: "{20, 21, 22} \<subseteq> demo_fds
  \<lparr>dw_open = [20, 21, 22], dw_reads = [], dw_written = [], dw_exited = False\<rparr>"
  by (simp add: demo_fds_def)

text \<open>Requests: a data client introduces itself, attaches to the session, and sends input.\<close>

definition demo_hello :: holder_frame where
  "demo_hello = out_frame DataHello 1 0 (encode_data_hello
     \<lparr>dh_daemon_pid = 42, dh_instance_id = replicate 16 2, dh_nonce = replicate 16 1\<rparr>)"

definition demo_attach :: attach_request where
  "demo_attach = \<lparr>ar_session_id = 5, ar_mode = ReadWrite, ar_replay_bytes = 4096\<rparr>"

definition demo_attach_frame :: holder_frame where
  "demo_attach_frame = out_frame Attach 2 0 (encode_attach_request demo_attach)"

lemma demo_attach_decoded: "decode_attach_request (fr_payload demo_attach_frame) = Inr demo_attach"
  by (simp add: demo_attach_frame_def out_frame_def attach_request_codec attach_request_ok_def demo_attach_def
      MAX_HOLDER_RING_BUFFER_def)

lemma demo_server_controller:
  "\<exists>ctl. sv_controller demo_server = Some ctl \<and> ct_fd ctl = 10"
  by (simp add: demo_server_def)

lemma demo_server_writer: "hm_get (sv_writers demo_server) 5 = Some 11"
  by (simp add: demo_server_def)

text \<open>What the clients of this server can be sent.\<close>

lemma demo_os_epoll: "epoll_modifies demo_os"
  by (simp add: epoll_modifies_def demo_os_def)

lemma demo_registered: "registered demo_server fd \<longleftrightarrow> fd \<in> {20, 21, 22, 4, 10, 11, 13}"
  by (auto simp: registered_def demo_server_def)

lemma demo_peer_room:
  "room (demo_peer fd r a) fs \<longleftrightarrow> list_all (frame_ok HOLDER_PROTOCOL_BASELINE_MINOR) fs
     \<and> sum_list (map (\<lambda>f. HOLDER_HEADER_SIZE + length (fr_payload f)) fs) \<le> MAX_PENDING_OUTPUT"
  by (simp add: room_def length_concat comp_def) (simp add: demo_peer_def connection_new_def cn_queue_def bq_pending_def)

lemma demo_peer_queue: "bq_pending (cn_queue (demo_peer fd r a)) = []"
  by (simp add: demo_peer_def connection_new_def cn_queue_def bq_pending_def)

lemma demo_replay_empty: "replay (sv_runtime demo_server) 5 4096 = Some []"
proof -
  have "replay (rs_runtime demo_running) 5 4096 = Some []"
    by code_simp
  then show ?thesis
    by (simp add: demo_server_def)
qed

definition demo_batch :: output_batch where
  "demo_batch = \<lparr>ob_session_id = 5, ob_chunks = [[104], [105]], ob_log_dropped = 0\<rparr>"

lemma demo_published:
  "published demo_server demo_batch fd = (if fd = 11 \<or> fd = 13
     then [out_frame Output 0 (generation demo_server) [104], out_frame Output 0 (generation demo_server) [105]] else [])"
  by (simp add: published_def demo_batch_def attached_to_def demo_server_get)

lemma demo_server_13: "conn_get demo_server 13 = Some (demo_peer 13 Data (Some 5))"
  by (simp add: demo_server_get)

lemma demo_controller:
  "is_controller demo_server fd \<longleftrightarrow> fd = 10"
  by (auto simp: is_controller_def demo_server_def)

lemma demo_batch_room:
  "has_room demo_server 13 (published demo_server demo_batch 13)"
  "controller_room (published demo_server demo_batch) demo_server"
  by (simp_all add: has_room_def demo_registered demo_server_get demo_peer_room demo_published frame_ok_def
      out_frame_def max_payload_def frame_limits is_ok_baseline MAX_PENDING_OUTPUT_def controller_room_def
      demo_controller validate_minor_def)

lemma demo_attach_room:
  "has_room demo_server 13 (attach_frames demo_attach_frame demo_attach (sv_runtime demo_server) [])"
proof -
  have "length (projr (encode_operation_response (response 5 Ok ''''))) \<le> 100"
    "length (encode_operation_request \<lparr>oq_session_id = 5\<rparr>) \<le> 100"
    by code_simp+
  then show ?thesis
    by (simp add: has_room_def demo_registered demo_server_get demo_peer_room attach_frames_def Let_def
        frame_ok_def out_frame_def writer_frame_def demo_attach_def chunks_of.simps
        max_payload_def frame_limits MAX_PENDING_OUTPUT_def validate_minor_def)
qed

lemma demo_token: "token_after demo_os (rs_world demo_start) [AddFd 9 False] 1 = Some 9
    \<and> token_after demo_os (rs_world demo_start) ([AddFd 9 False] @ [RemoveFd 9]) 1 = None"
  by (simp add: token_after_def reactor_run_def reactor_new_def reactor_add_def reactor_remove_def fd_for_token_def demo_os_def Let_def split: prod.splits)

end
