(* ===== verification/Field_Reader.thy ===== *)
theory Field_Reader
  imports Holder_Wire
begin

text \<open>
  Cursors over payloads that fail with errors of their own: the readers of the dashboard protocol
  (\<open>crates/persist-ipc/src/dashboard/wire.rs\<close>) and of the metric segments
  (\<open>crates/persistd/src/dashboard/format.rs\<close>) differ only in the error they return. A reader
  that returns an \<open>Option\<close> is one whose error is the unit. The locale \<open>strict_item\<close> extends the
  contract of a repeatable field by its converse: whatever is read has been written this way.
\<close>

section \<open>Integers\<close>

text \<open>\<open>take::<N>\<close>, with the errors for an overflow of the position and for a short payload.\<close>

definition cur_take :: "'e \<Rightarrow> 'e \<Rightarrow> nat \<Rightarrow> reader \<Rightarrow> 'e + bytes \<times> reader" where
  "cur_take overflow short n r =
     rbind (ok_or overflow (checked_add_usize (rd_offset r) n)) (\<lambda>stop.
       if length (rd_bytes r) < stop then Inl short
       else Inr (take n (drop (rd_offset r) (rd_bytes r)), r\<lparr>rd_offset := stop\<rparr>))"

definition cur_u8 :: "'e \<Rightarrow> reader \<Rightarrow> 'e + u8 \<times> reader" where
  "cur_u8 short r =
     (if rd_offset r < length (rd_bytes r)
      then Inr (rd_bytes r ! rd_offset r, r\<lparr>rd_offset := rd_offset r + 1\<rparr>)
      else Inl short)"

definition cur_int :: "'e \<Rightarrow> 'e \<Rightarrow> reader \<Rightarrow> 'e + 'a::len word \<times> reader" where
  "cur_int overflow short r =
     rbind (cur_take overflow short (LENGTH('a) div 8) r) (\<lambda>(bs, r). Inr (from_be_bytes bs, r))"

definition cur_finished :: "reader \<Rightarrow> bool" where
  "cur_finished r \<longleftrightarrow> rd_offset r = length (rd_bytes r)"

lemma cur_take_at:
  assumes "fits (pre @ x @ rest)" and "n = length x"
  shows "cur_take o1 s1 n (rd_at pre (x @ rest)) = Inr (x, rd_at (pre @ x) rest)"
  using assms by (simp add: cur_take_def rd_at_def fits_def checked_add_usize_def)

lemma cur_take_atD:
  assumes "cur_take o1 s1 n (rd_at pre bs) = Inr (x, r)"
  shows "\<exists>rest. bs = x @ rest \<and> length x = n \<and> r = rd_at (pre @ x) rest"
proof -
  from assms have n: "n \<le> length bs" and x: "x = take n bs"
    and r: "r = \<lparr>rd_bytes = pre @ bs, rd_offset = length pre + n\<rparr>"
    by (auto simp: cur_take_def rd_at_def checked_add_usize_def split: if_splits)
  then have "r = rd_at (pre @ x) (drop n bs)" "bs = x @ drop n bs" "length x = n"
    by (simp_all add: rd_at_def)
  then show ?thesis by blast
qed

lemma cur_u8_at [simp]: "cur_u8 s1 (rd_at pre (v # rest)) = Inr (v, rd_at (pre @ [v]) rest)"
  by (simp add: cur_u8_def rd_at_def)

lemma cur_u8_atD:
  "cur_u8 s1 (rd_at pre bs) = Inr (v, r) \<Longrightarrow> \<exists>rest. bs = v # rest \<and> r = rd_at (pre @ [v]) rest"
  by (cases bs) (auto simp: cur_u8_def rd_at_def)

lemma cur_int_at:
  assumes "fits (pre @ to_be_bytes (v :: 'a::len word) @ rest)" and "8 dvd LENGTH('a)"
  shows "cur_int o1 s1 (rd_at pre (to_be_bytes v @ rest)) = Inr (v, rd_at (pre @ to_be_bytes v) rest)"
  using assms by (simp add: cur_int_def cur_take_at from_to_be_bytes)

lemma cur_int_atD:
  assumes "cur_int o1 s1 (rd_at pre bs) = Inr (v :: 'a::len word, r)" and "8 dvd LENGTH('a)"
  shows "\<exists>rest. bs = to_be_bytes v @ rest \<and> r = rd_at (pre @ to_be_bytes v) rest"
proof -
  obtain x where x: "cur_take o1 s1 (LENGTH('a) div 8) (rd_at pre bs) = Inr (x, r)" "v = from_be_bytes x"
    using assms(1) by (auto simp: cur_int_def elim!: rbind_Inr_elim)
  from cur_take_atD[OF x(1)] x(2) assms(2) show ?thesis
    by (auto simp: to_from_be_bytes)
qed

lemma cur_finished_at [simp]: "cur_finished (rd_at pre rest) \<longleftrightarrow> rest = []"
  by (simp add: cur_finished_def rd_at_def)

text \<open>Reads of the two integer widths that follow one another in a record.\<close>

lemmas cur_at = cur_int_at cur_int_at[where rest = "[]", simplified append_Nil2]

lemmas cur_atD = cur_u8_atD cur_int_atD

section \<open>Strict items\<close>

locale strict_item = wire_item put get enc item_ok
  for put :: "bytes \<Rightarrow> 'a \<Rightarrow> 'e + bytes" and get :: "reader \<Rightarrow> 'f + 'a \<times> reader"
    and enc :: "'a \<Rightarrow> bytes" and item_ok :: "'a \<Rightarrow> bool" +
  assumes get_strict: "get (rd_at pre bs) = Inr (x, r) \<Longrightarrow>
      \<exists>rest. bs = enc x @ rest \<and> item_ok x \<and> r = rd_at (pre @ enc x) rest"
begin

lemma read_n_strict:
  assumes "read_n get n (rd_at pre bs) = Inr (xs, r)"
  shows "\<exists>rest. bs = concat (map enc xs) @ rest \<and> length xs = n \<and> list_all item_ok xs
    \<and> r = rd_at (pre @ concat (map enc xs)) rest"
  using assms
proof (induction n arbitrary: pre bs xs)
  case 0
  then show ?case by simp
next
  case (Suc n)
  from Suc.prems obtain x r1 ys where x: "get (rd_at pre bs) = Inr (x, r1)"
    and ys: "read_n get n r1 = Inr (ys, r)" and xs: "xs = x # ys"
    by (auto elim!: rbind_Inr_elim)
  from get_strict[OF x] obtain rest where rest: "bs = enc x @ rest" "item_ok x" "r1 = rd_at (pre @ enc x) rest"
    by blast
  from Suc.IH[OF ys[unfolded rest(3)]] rest xs show ?case
    by auto
qed

lemma read_n_iff:
  assumes "fits (pre @ bs)"
  shows "read_n get n (rd_at pre bs) = Inr (xs, r) \<longleftrightarrow>
    (\<exists>rest. bs = concat (map enc xs) @ rest \<and> length xs = n \<and> list_all item_ok xs
       \<and> r = rd_at (pre @ concat (map enc xs)) rest)"
  using read_n_strict[of n pre bs xs r] read_n_all[of xs pre] assms by auto

end

end
