(* ===== verification/Dashboard_Wire.thy ===== *)
theory Dashboard_Wire
  imports Field_Reader
begin

text \<open>
  The dashboard messages between the daemon and its clients
  (\<open>crates/persist-ipc/src/dashboard.rs\<close>, \<open>dashboard/codec.rs\<close> and \<open>dashboard/wire.rs\<close>). An
  encoder that refuses its message returns the empty vector, a decoder that refuses its payload
  returns \<open>None\<close>. Shown: each of the four messages is decoded from exactly its encoding.
\<close>

section \<open>Messages\<close>

definition MAX_SUMMARY_PAGE :: u16 where
  "MAX_SUMMARY_PAGE = 128"

definition MAX_TREND_POINTS :: u16 where
  "MAX_TREND_POINTS = 240"

datatype completeness = CompleteData | PartialData | StaleData | UnavailableData

datatype collection_status = CollectionComplete | CollectionPartial | CollectionUnavailable

record summary_request =
  sq_cursor :: u32
  sq_limit :: u16

record daemon_metrics =
  dm_pid :: u32
  dm_rates_available :: bool
  dm_cpu_milli_percent :: u32
  dm_rss_kib :: u64
  dm_read_bytes_per_sec :: u64
  dm_write_bytes_per_sec :: u64
  dm_session_count :: u32
  dm_runtime_count :: u32
  dm_active_writer_count :: u32
  dm_readonly_client_count :: u32

record session_metrics =
  sm_session_id :: u32
  sm_process_count :: u32
  sm_rates_available :: bool
  sm_cpu_milli_percent :: u32
  sm_rss_kib :: u64
  sm_read_bytes_per_sec :: u64
  sm_write_bytes_per_sec :: u64
  sm_foreground_pid :: "u32 option"
  sm_writer_active :: bool
  sm_collection_status :: collection_status

record summary_response =
  sr_sampled_at_ms :: u64
  sr_completeness :: completeness
  sr_daemon :: daemon_metrics
  sr_sessions :: "session_metrics list"
  sr_next_cursor :: "u32 option"

datatype trend_scope = DaemonScope | SessionScope u32

datatype trend_range = FifteenMinutes | Hour | Day

record trend_request =
  tq_scope :: trend_scope
  tq_range :: trend_range
  tq_max_points :: u16

record trend_point =
  tp_timestamp_ms :: u64
  tp_cpu_avg_milli_percent :: u32
  tp_cpu_peak_milli_percent :: u32
  tp_rss_avg_kib :: u64
  tp_rss_peak_kib :: u64
  tp_read_bytes :: u64
  tp_write_bytes :: u64
  tp_process_count_peak :: u32
  tp_session_count :: u32
  tp_runtime_count :: u32
  tp_active_writer_count :: u32
  tp_readonly_client_count :: u32

record trend_response =
  tr_sampled_at_ms :: u64
  tr_completeness :: completeness
  tr_points :: "trend_point list"

section \<open>Fields\<close>

type_synonym 'a dw_parse = "unit + 'a \<times> reader"

definition dw_take :: "nat \<Rightarrow> reader \<Rightarrow> bytes dw_parse" where
  "dw_take = cur_take () ()"

definition dw_u8 :: "reader \<Rightarrow> u8 dw_parse" where
  "dw_u8 = cur_u8 ()"

definition dw_u16 :: "reader \<Rightarrow> u16 dw_parse" where
  "dw_u16 r = rbind (dw_take 2 r) (\<lambda>(bs, r). Inr (from_be_bytes bs, r))"

definition dw_u32 :: "reader \<Rightarrow> u32 dw_parse" where
  "dw_u32 r = rbind (dw_take 4 r) (\<lambda>(bs, r). Inr (from_be_bytes bs, r))"

definition dw_u64 :: "reader \<Rightarrow> u64 dw_parse" where
  "dw_u64 r = rbind (dw_take 8 r) (\<lambda>(bs, r). Inr (from_be_bytes bs, r))"

text \<open>The \<open>Option\<close> that a decoder returns.\<close>

definition hush :: "'e + 'a \<Rightarrow> 'a option" where
  "hush r = (case r of Inl _ \<Rightarrow> None | Inr x \<Rightarrow> Some x)"

fun dw_encode_completeness :: "completeness \<Rightarrow> u8" where
  "dw_encode_completeness CompleteData = 0"
| "dw_encode_completeness PartialData = 1"
| "dw_encode_completeness StaleData = 2"
| "dw_encode_completeness UnavailableData = 3"

definition dw_decode_completeness :: "u8 \<Rightarrow> unit + completeness" where
  "dw_decode_completeness v =
     (if v = 0 then Inr CompleteData else if v = 1 then Inr PartialData
      else if v = 2 then Inr StaleData else if v = 3 then Inr UnavailableData else Inl ())"

fun encode_collection_status :: "collection_status \<Rightarrow> u8" where
  "encode_collection_status CollectionComplete = 0"
| "encode_collection_status CollectionPartial = 1"
| "encode_collection_status CollectionUnavailable = 2"

definition decode_collection_status :: "u8 \<Rightarrow> unit + collection_status" where
  "decode_collection_status v =
     (if v = 0 then Inr CollectionComplete else if v = 1 then Inr CollectionPartial
      else if v = 2 then Inr CollectionUnavailable else Inl ())"

definition dw_decode_bool :: "u8 \<Rightarrow> unit + bool" where
  "dw_decode_bool v = (if v = 0 then Inr False else if v = 1 then Inr True else Inl ())"

definition bool_byte :: "bool \<Rightarrow> u8" where
  "bool_byte b = (if b then 1 else 0)"

definition NO_VALUE :: u32 where
  "NO_VALUE = - 1"

section \<open>Requests\<close>

definition encode_summary_request :: "summary_request \<Rightarrow> bytes" where
  "encode_summary_request request =
     (if sq_cursor request = NO_VALUE \<or> sq_limit request = 0 \<or> MAX_SUMMARY_PAGE < sq_limit request
      then []
      else put_u16 (put_u32 [] (sq_cursor request)) (sq_limit request))"

definition decode_summary_request :: "bytes \<Rightarrow> summary_request option" where
  "decode_summary_request payload =
     hush (if length payload \<noteq> 6 then Inl ()
       else
         rbind (dw_u32 (reader_new payload)) (\<lambda>(cursor, r).
         rbind (dw_u16 r) (\<lambda>(limit, r).
         if cursor \<noteq> NO_VALUE \<and> 0 < limit \<and> limit \<le> MAX_SUMMARY_PAGE
         then Inr \<lparr>sq_cursor = cursor, sq_limit = limit\<rparr> else Inl ())))"

definition encode_trend_request :: "trend_request \<Rightarrow> bytes" where
  "encode_trend_request request =
     (if tq_max_points request = 0 \<or> MAX_TREND_POINTS < tq_max_points request then []
      else
        (case (case tq_scope request of
            DaemonScope \<Rightarrow> Some (0, 0)
          | SessionScope session_id \<Rightarrow> if session_id = 0 then None else Some (1, session_id)) of
           None \<Rightarrow> []
         | Some (scope, session_id) \<Rightarrow>
             let range = (case tq_range request of FifteenMinutes \<Rightarrow> 0 | Hour \<Rightarrow> 1 | Day \<Rightarrow> 2);
                 output = put_u8 [] scope;
                 output = put_u32 output session_id;
                 output = put_u8 output range
             in put_u16 output (tq_max_points request)))"

definition decode_trend_request :: "bytes \<Rightarrow> trend_request option" where
  "decode_trend_request payload =
     hush (if length payload \<noteq> 8 then Inl ()
       else
         rbind (dw_u8 (reader_new payload)) (\<lambda>(scope_tag, r).
         rbind (dw_u32 r) (\<lambda>(session_id, r).
         rbind (if scope_tag = 0 \<and> session_id = 0 then Inr DaemonScope
                else if scope_tag = 1 \<and> 0 < session_id then Inr (SessionScope session_id)
                else Inl ()) (\<lambda>scope.
         rbind (dw_u8 r) (\<lambda>(range_tag, r).
         rbind (if range_tag = 0 then Inr FifteenMinutes else if range_tag = 1 then Inr Hour
                else if range_tag = 2 then Inr Day else Inl ()) (\<lambda>range.
         rbind (dw_u16 r) (\<lambda>(max_points, r).
         if 0 < max_points \<and> max_points \<le> MAX_TREND_POINTS
         then Inr \<lparr>tq_scope = scope, tq_range = range, tq_max_points = max_points\<rparr>
         else Inl ())))))))"

section \<open>Responses\<close>

definition encode_daemon :: "bytes \<Rightarrow> daemon_metrics \<Rightarrow> bytes" where
  "encode_daemon output daemon =
     (let output = put_u32 output (dm_pid daemon);
          output = put_u8 output (bool_byte (dm_rates_available daemon));
          output = put_u32 output (dm_cpu_milli_percent daemon);
          output = put_u64 output (dm_rss_kib daemon);
          output = put_u64 output (dm_read_bytes_per_sec daemon);
          output = put_u64 output (dm_write_bytes_per_sec daemon);
          output = put_u32 output (dm_session_count daemon);
          output = put_u32 output (dm_runtime_count daemon);
          output = put_u32 output (dm_active_writer_count daemon)
      in put_u32 output (dm_readonly_client_count daemon))"

definition decode_daemon :: "reader \<Rightarrow> daemon_metrics dw_parse" where
  "decode_daemon r =
     rbind (dw_u32 r) (\<lambda>(pid, r).
     rbind (dw_u8 r) (\<lambda>(rates_tag, r).
     rbind (dw_decode_bool rates_tag) (\<lambda>rates_available.
     rbind (dw_u32 r) (\<lambda>(cpu, r).
     rbind (dw_u64 r) (\<lambda>(rss, r).
     rbind (dw_u64 r) (\<lambda>(read_rate, r).
     rbind (dw_u64 r) (\<lambda>(write_rate, r).
     rbind (dw_u32 r) (\<lambda>(session_count, r).
     rbind (dw_u32 r) (\<lambda>(runtime_count, r).
     rbind (dw_u32 r) (\<lambda>(active_writer_count, r).
     rbind (dw_u32 r) (\<lambda>(readonly_client_count, r).
     Inr (\<lparr>dm_pid = pid, dm_rates_available = rates_available, dm_cpu_milli_percent = cpu,
           dm_rss_kib = rss, dm_read_bytes_per_sec = read_rate, dm_write_bytes_per_sec = write_rate,
           dm_session_count = session_count, dm_runtime_count = runtime_count,
           dm_active_writer_count = active_writer_count,
           dm_readonly_client_count = readonly_client_count\<rparr>, r))))))))))))"

definition encode_session :: "bytes \<Rightarrow> session_metrics \<Rightarrow> bytes" where
  "encode_session output session =
     (let output = put_u32 output (sm_session_id session);
          output = put_u32 output (sm_process_count session);
          output = put_u8 output (bool_byte (sm_rates_available session));
          output = put_u32 output (sm_cpu_milli_percent session);
          output = put_u64 output (sm_rss_kib session);
          output = put_u64 output (sm_read_bytes_per_sec session);
          output = put_u64 output (sm_write_bytes_per_sec session);
          output = put_u32 output (case sm_foreground_pid session of Some pid \<Rightarrow> pid | None \<Rightarrow> 0);
          output = put_u8 output (bool_byte (sm_writer_active session))
      in put_u8 output (encode_collection_status (sm_collection_status session)))"

definition decode_session :: "reader \<Rightarrow> session_metrics dw_parse" where
  "decode_session r =
     rbind (dw_u32 r) (\<lambda>(session_id, r).
     if session_id = 0 then Inl ()
     else
       rbind (dw_u32 r) (\<lambda>(process_count, r).
       rbind (dw_u8 r) (\<lambda>(rates_tag, r).
       rbind (dw_decode_bool rates_tag) (\<lambda>rates_available.
       rbind (dw_u32 r) (\<lambda>(cpu, r).
       rbind (dw_u64 r) (\<lambda>(rss, r).
       rbind (dw_u64 r) (\<lambda>(read_rate, r).
       rbind (dw_u64 r) (\<lambda>(write_rate, r).
       rbind (dw_u32 r) (\<lambda>(pid, r).
       rbind (dw_u8 r) (\<lambda>(writer_tag, r).
       rbind (dw_decode_bool writer_tag) (\<lambda>writer_active.
       rbind (dw_u8 r) (\<lambda>(status_tag, r).
       rbind (decode_collection_status status_tag) (\<lambda>collection_status.
       Inr (\<lparr>sm_session_id = session_id, sm_process_count = process_count,
             sm_rates_available = rates_available, sm_cpu_milli_percent = cpu, sm_rss_kib = rss,
             sm_read_bytes_per_sec = read_rate, sm_write_bytes_per_sec = write_rate,
             sm_foreground_pid = (if pid = 0 then None else Some pid),
             sm_writer_active = writer_active, sm_collection_status = collection_status\<rparr>,
            r))))))))))))))"

definition encode_summary_response :: "summary_response \<Rightarrow> bytes" where
  "encode_summary_response response =
     (if unat MAX_SUMMARY_PAGE < length (sr_sessions response)
         \<or> sr_next_cursor response = Some NO_VALUE
         \<or> list_ex (\<lambda>s. sm_session_id s = 0 \<or> sm_foreground_pid s = Some 0) (sr_sessions response)
      then []
      else
        let output = put_u64 [] (sr_sampled_at_ms response);
            output = put_u8 output (dw_encode_completeness (sr_completeness response));
            output = put_u32 output (case sr_next_cursor response of Some c \<Rightarrow> c | None \<Rightarrow> NO_VALUE);
            output = encode_daemon output (sr_daemon response);
            output = put_u16 output (of_nat (length (sr_sessions response)))
        in foldl encode_session output (sr_sessions response))"

definition decode_summary_response :: "bytes \<Rightarrow> summary_response option" where
  "decode_summary_response payload =
     hush (
       rbind (dw_u64 (reader_new payload)) (\<lambda>(sampled_at_ms, r).
       rbind (dw_u8 r) (\<lambda>(completeness_tag, r).
       rbind (dw_decode_completeness completeness_tag) (\<lambda>completeness.
       rbind (dw_u32 r) (\<lambda>(cursor, r).
       rbind (decode_daemon r) (\<lambda>(daemon, r).
       rbind (dw_u16 r) (\<lambda>(count, r).
       if MAX_SUMMARY_PAGE < count then Inl ()
       else
         rbind (read_n decode_session (unat count) r) (\<lambda>(sessions, r).
         if cur_finished r
         then Inr \<lparr>sr_sampled_at_ms = sampled_at_ms, sr_completeness = completeness, sr_daemon = daemon,
                   sr_sessions = sessions,
                   sr_next_cursor = (if cursor = NO_VALUE then None else Some cursor)\<rparr>
         else Inl ()))))))))"

definition encode_trend_point :: "bytes \<Rightarrow> trend_point \<Rightarrow> bytes" where
  "encode_trend_point output point =
     (let output = put_u64 output (tp_timestamp_ms point);
          output = put_u32 output (tp_cpu_avg_milli_percent point);
          output = put_u32 output (tp_cpu_peak_milli_percent point);
          output = put_u64 output (tp_rss_avg_kib point);
          output = put_u64 output (tp_rss_peak_kib point);
          output = put_u64 output (tp_read_bytes point);
          output = put_u64 output (tp_write_bytes point);
          output = put_u32 output (tp_process_count_peak point);
          output = put_u32 output (tp_session_count point);
          output = put_u32 output (tp_runtime_count point);
          output = put_u32 output (tp_active_writer_count point)
      in put_u32 output (tp_readonly_client_count point))"

definition decode_trend_point :: "reader \<Rightarrow> trend_point dw_parse" where
  "decode_trend_point r =
     rbind (dw_u64 r) (\<lambda>(timestamp_ms, r).
     rbind (dw_u32 r) (\<lambda>(cpu_avg, r).
     rbind (dw_u32 r) (\<lambda>(cpu_peak, r).
     rbind (dw_u64 r) (\<lambda>(rss_avg, r).
     rbind (dw_u64 r) (\<lambda>(rss_peak, r).
     rbind (dw_u64 r) (\<lambda>(read_bytes, r).
     rbind (dw_u64 r) (\<lambda>(write_bytes, r).
     rbind (dw_u32 r) (\<lambda>(process_count_peak, r).
     rbind (dw_u32 r) (\<lambda>(session_count, r).
     rbind (dw_u32 r) (\<lambda>(runtime_count, r).
     rbind (dw_u32 r) (\<lambda>(active_writer_count, r).
     rbind (dw_u32 r) (\<lambda>(readonly_client_count, r).
     Inr (\<lparr>tp_timestamp_ms = timestamp_ms, tp_cpu_avg_milli_percent = cpu_avg,
           tp_cpu_peak_milli_percent = cpu_peak, tp_rss_avg_kib = rss_avg, tp_rss_peak_kib = rss_peak,
           tp_read_bytes = read_bytes, tp_write_bytes = write_bytes,
           tp_process_count_peak = process_count_peak, tp_session_count = session_count,
           tp_runtime_count = runtime_count, tp_active_writer_count = active_writer_count,
           tp_readonly_client_count = readonly_client_count\<rparr>, r)))))))))))))"

definition encode_trend_response :: "trend_response \<Rightarrow> bytes" where
  "encode_trend_response response =
     (if unat MAX_TREND_POINTS < length (tr_points response) then []
      else
        let output = put_u64 [] (tr_sampled_at_ms response);
            output = put_u8 output (dw_encode_completeness (tr_completeness response));
            output = put_u16 output (of_nat (length (tr_points response)))
        in foldl encode_trend_point output (tr_points response))"

definition decode_trend_response :: "bytes \<Rightarrow> trend_response option" where
  "decode_trend_response payload =
     hush (
       rbind (dw_u64 (reader_new payload)) (\<lambda>(sampled_at_ms, r).
       rbind (dw_u8 r) (\<lambda>(completeness_tag, r).
       rbind (dw_decode_completeness completeness_tag) (\<lambda>completeness.
       rbind (dw_u16 r) (\<lambda>(count, r).
       if MAX_TREND_POINTS < count then Inl ()
       else
         rbind (read_n decode_trend_point (unat count) r) (\<lambda>(points, r).
         if cur_finished r
         then Inr \<lparr>tr_sampled_at_ms = sampled_at_ms, tr_completeness = completeness, tr_points = points\<rparr>
         else Inl ()))))))"

section \<open>Reading at a position\<close>

lemma dw_at [simp]:
  "dw_u8 (rd_at pre (a # rest)) = Inr (a, rd_at (pre @ [a]) rest)"
  "fits (pre @ to_be_bytes b @ rest) \<Longrightarrow>
   dw_u16 (rd_at pre (to_be_bytes b @ rest)) = Inr (b, rd_at (pre @ to_be_bytes b) rest)"
  "fits (pre @ to_be_bytes c @ rest) \<Longrightarrow>
   dw_u32 (rd_at pre (to_be_bytes c @ rest)) = Inr (c, rd_at (pre @ to_be_bytes c) rest)"
  "fits (pre @ to_be_bytes d @ rest) \<Longrightarrow>
   dw_u64 (rd_at pre (to_be_bytes d @ rest)) = Inr (d, rd_at (pre @ to_be_bytes d) rest)"
  by (simp_all add: dw_u8_def dw_u16_def dw_u32_def dw_u64_def dw_take_def cur_take_at)

lemmas dw_at_end [simp] = dw_at(2-4)[where rest = "[]", simplified append_Nil2]

lemma dw_atD:
  "dw_u8 (rd_at pre bs) = Inr (a, r) \<Longrightarrow> \<exists>rest. bs = a # rest \<and> r = rd_at (pre @ [a]) rest"
  "dw_u16 (rd_at pre bs) = Inr (b, r) \<Longrightarrow>
   \<exists>rest. bs = to_be_bytes b @ rest \<and> r = rd_at (pre @ to_be_bytes b) rest"
  "dw_u32 (rd_at pre bs) = Inr (c, r) \<Longrightarrow>
   \<exists>rest. bs = to_be_bytes c @ rest \<and> r = rd_at (pre @ to_be_bytes c) rest"
  "dw_u64 (rd_at pre bs) = Inr (d, r) \<Longrightarrow>
   \<exists>rest. bs = to_be_bytes d @ rest \<and> r = rd_at (pre @ to_be_bytes d) rest"
  by (auto simp: dw_u8_def dw_u16_def dw_u32_def dw_u64_def dw_take_def to_from_be_bytes
      elim!: rbind_Inr_elim dest!: cur_u8_atD cur_take_atD)

lemma hush_Some [simp]: "hush r = Some x \<longleftrightarrow> r = Inr x"
  by (cases r) (simp_all add: hush_def)

lemma dw_codes [simp]:
  "dw_decode_completeness (dw_encode_completeness c) = Inr c"
  "decode_collection_status (encode_collection_status s) = Inr s"
  "dw_decode_bool (bool_byte b) = Inr b"
  by (cases c, simp_all add: dw_decode_completeness_def)
    (cases s, simp_all add: decode_collection_status_def dw_decode_bool_def bool_byte_def)

lemma dw_codesD:
  "dw_decode_completeness v = Inr c \<Longrightarrow> v = dw_encode_completeness c"
  "decode_collection_status v = Inr s \<Longrightarrow> v = encode_collection_status s"
  "dw_decode_bool v = Inr b \<Longrightarrow> v = bool_byte b"
  by (auto simp: dw_decode_completeness_def decode_collection_status_def dw_decode_bool_def bool_byte_def
      split: if_splits)

section \<open>Requests are read exactly\<close>

definition summary_request_ok :: "summary_request \<Rightarrow> bool" where
  "summary_request_ok q \<longleftrightarrow> sq_cursor q \<noteq> NO_VALUE \<and> 0 < sq_limit q \<and> sq_limit q \<le> MAX_SUMMARY_PAGE"

lemma summary_request_codec:
  "decode_summary_request p = Some q \<longleftrightarrow> summary_request_ok q \<and> p = encode_summary_request q"
proof
  assume "decode_summary_request p = Some q"
  then show "summary_request_ok q \<and> p = encode_summary_request q"
    by (auto simp: decode_summary_request_def encode_summary_request_def summary_request_ok_def reader_new_at
        put_defs not_less word_gt_0 split: if_splits elim!: rbind_Inr_elim dest!: dw_atD dw_codesD)
next
  assume "summary_request_ok q \<and> p = encode_summary_request q"
  then show "decode_summary_request p = Some q"
    by (auto simp: decode_summary_request_def encode_summary_request_def summary_request_ok_def reader_new_at
        put_defs fits_small leD)
qed

definition trend_request_ok :: "trend_request \<Rightarrow> bool" where
  "trend_request_ok q \<longleftrightarrow> tq_scope q \<noteq> SessionScope 0 \<and> 0 < tq_max_points q
     \<and> tq_max_points q \<le> MAX_TREND_POINTS"

lemma trend_request_codec:
  "decode_trend_request p = Some q \<longleftrightarrow> trend_request_ok q \<and> p = encode_trend_request q"
proof
  assume "decode_trend_request p = Some q"
  then show "trend_request_ok q \<and> p = encode_trend_request q"
    by (auto simp: decode_trend_request_def encode_trend_request_def trend_request_ok_def reader_new_at
        put_defs not_less word_gt_0 split: if_splits elim!: rbind_Inr_elim dest!: dw_atD dw_codesD)
next
  assume "trend_request_ok q \<and> p = encode_trend_request q"
  then show "decode_trend_request p = Some q"
    by (cases q; cases "tq_scope q"; cases "tq_range q")
      (auto simp: decode_trend_request_def encode_trend_request_def trend_request_ok_def reader_new_at
        put_defs fits_small leD word_gt_0)
qed

section \<open>Responses are read exactly\<close>

definition wire_daemon :: "daemon_metrics \<Rightarrow> bytes" where
  "wire_daemon d = to_be_bytes (dm_pid d) @ bool_byte (dm_rates_available d)
     # to_be_bytes (dm_cpu_milli_percent d) @ to_be_bytes (dm_rss_kib d)
     @ to_be_bytes (dm_read_bytes_per_sec d) @ to_be_bytes (dm_write_bytes_per_sec d)
     @ to_be_bytes (dm_session_count d) @ to_be_bytes (dm_runtime_count d)
     @ to_be_bytes (dm_active_writer_count d) @ to_be_bytes (dm_readonly_client_count d)"

definition wire_session :: "session_metrics \<Rightarrow> bytes" where
  "wire_session s = to_be_bytes (sm_session_id s) @ to_be_bytes (sm_process_count s)
     @ bool_byte (sm_rates_available s) # to_be_bytes (sm_cpu_milli_percent s)
     @ to_be_bytes (sm_rss_kib s) @ to_be_bytes (sm_read_bytes_per_sec s)
     @ to_be_bytes (sm_write_bytes_per_sec s)
     @ to_be_bytes (case sm_foreground_pid s of Some pid \<Rightarrow> pid | None \<Rightarrow> 0)
     @ [bool_byte (sm_writer_active s), encode_collection_status (sm_collection_status s)]"

definition wire_point :: "trend_point \<Rightarrow> bytes" where
  "wire_point t = to_be_bytes (tp_timestamp_ms t) @ to_be_bytes (tp_cpu_avg_milli_percent t)
     @ to_be_bytes (tp_cpu_peak_milli_percent t) @ to_be_bytes (tp_rss_avg_kib t)
     @ to_be_bytes (tp_rss_peak_kib t) @ to_be_bytes (tp_read_bytes t) @ to_be_bytes (tp_write_bytes t)
     @ to_be_bytes (tp_process_count_peak t) @ to_be_bytes (tp_session_count t)
     @ to_be_bytes (tp_runtime_count t) @ to_be_bytes (tp_active_writer_count t)
     @ to_be_bytes (tp_readonly_client_count t)"

lemma length_wire_items [simp]:
  "length (wire_daemon d) = 49" "length (wire_session s) = 43" "length (wire_point t) = 68"
  by (simp_all add: wire_daemon_def wire_session_def wire_point_def)

lemma encode_items:
  "encode_daemon out d = out @ wire_daemon d" "encode_session out s = out @ wire_session s"
  "encode_trend_point out t = out @ wire_point t"
  by (simp_all add: encode_daemon_def encode_session_def encode_trend_point_def put_defs Let_def
      wire_daemon_def wire_session_def wire_point_def)

definition session_metrics_ok :: "session_metrics \<Rightarrow> bool" where
  "session_metrics_ok s \<longleftrightarrow> sm_session_id s \<noteq> 0 \<and> sm_foreground_pid s \<noteq> Some 0"

lemma decode_daemon_at [simp]:
  "fits (pre @ wire_daemon d @ rest) \<Longrightarrow>
   decode_daemon (rd_at pre (wire_daemon d @ rest)) = Inr (d, rd_at (pre @ wire_daemon d) rest)"
  by (cases d) (simp add: decode_daemon_def wire_daemon_def)

lemma decode_daemon_atD:
  "decode_daemon (rd_at pre bs) = Inr (d, r) \<Longrightarrow>
   \<exists>rest. bs = wire_daemon d @ rest \<and> r = rd_at (pre @ wire_daemon d) rest"
  by (auto simp: decode_daemon_def wire_daemon_def elim!: rbind_Inr_elim dest!: dw_atD dw_codesD)

text \<open>Items whose encoders cannot fail.\<close>

interpretation dt: strict_item "\<lambda>out t. Inr (encode_trend_point out t)" decode_trend_point wire_point "\<lambda>_. True"
proof unfold_locales
  show "decode_trend_point (rd_at pre (wire_point x @ rest)) = Inr (x, rd_at (pre @ wire_point x) rest)"
    if "fits (pre @ wire_point x @ rest)" for x pre rest
    using that by (cases x) (simp add: decode_trend_point_def wire_point_def)
  show "\<exists>rest. bs = wire_point x @ rest \<and> True \<and> r = rd_at (pre @ wire_point x) rest"
    if "decode_trend_point (rd_at pre bs) = Inr (x, r)" for pre bs x r
    using that by (auto simp: decode_trend_point_def wire_point_def elim!: rbind_Inr_elim dest!: dw_atD dw_codesD)
qed (simp add: encode_items)

interpretation ds: strict_item "\<lambda>out s. Inr (encode_session out s)" decode_session wire_session
  session_metrics_ok
proof unfold_locales
  show "decode_session (rd_at pre (wire_session x @ rest)) = Inr (x, rd_at (pre @ wire_session x) rest)"
    if "session_metrics_ok x" "fits (pre @ wire_session x @ rest)" for x pre rest
    using that
    by (cases x) (auto simp: decode_session_def wire_session_def session_metrics_ok_def split: option.splits)
  show "\<exists>rest. bs = wire_session x @ rest \<and> session_metrics_ok x \<and> r = rd_at (pre @ wire_session x) rest"
    if "decode_session (rd_at pre bs) = Inr (x, r)" for pre bs x r
    using that by (auto simp: decode_session_def wire_session_def session_metrics_ok_def
        split: if_splits elim!: rbind_Inr_elim dest!: dw_atD dw_codesD)
qed (simp add: encode_items)

lemma foldl_append:
  assumes "\<And>out x. f out x = out @ enc x"
  shows "foldl f out xs = out @ concat (map enc xs)"
  using assms by (induction xs arbitrary: out) simp_all

lemmas foldl_encode = foldl_append[of encode_session, OF encode_items(2)]
  foldl_append[of encode_trend_point, OF encode_items(3)]

lemma length_concat_wire [simp]:
  "length (concat (map wire_session ss)) = 43 * length ss"
  "length (concat (map wire_point ts)) = 68 * length ts"
  by (simp_all add: length_concat comp_def sum_list_triv)

definition summary_response_ok :: "summary_response \<Rightarrow> bool" where
  "summary_response_ok r \<longleftrightarrow> length (sr_sessions r) \<le> 128 \<and> sr_next_cursor r \<noteq> Some NO_VALUE
     \<and> list_all session_metrics_ok (sr_sessions r)"

definition trend_response_ok :: "trend_response \<Rightarrow> bool" where
  "trend_response_ok r \<longleftrightarrow> length (tr_points r) \<le> 240"

lemma encode_summary_wire:
  "summary_response_ok r \<Longrightarrow> encode_summary_response r =
     to_be_bytes (sr_sampled_at_ms r) @ dw_encode_completeness (sr_completeness r)
     # to_be_bytes (case sr_next_cursor r of Some c \<Rightarrow> c | None \<Rightarrow> NO_VALUE)
     @ wire_daemon (sr_daemon r) @ to_be_bytes (of_nat (length (sr_sessions r)) :: u16)
     @ concat (map wire_session (sr_sessions r))"
  by (auto simp: encode_summary_response_def summary_response_ok_def session_metrics_ok_def list_ex_iff
      list_all_iff MAX_SUMMARY_PAGE_def foldl_encode encode_items put_defs Let_def)

lemma encode_trend_wire:
  "trend_response_ok r \<Longrightarrow> encode_trend_response r =
     to_be_bytes (tr_sampled_at_ms r) @ dw_encode_completeness (tr_completeness r)
     # to_be_bytes (of_nat (length (tr_points r)) :: u16) @ concat (map wire_point (tr_points r))"
  by (simp add: encode_trend_response_def trend_response_ok_def MAX_TREND_POINTS_def foldl_encode
      encode_items put_defs Let_def)

lemma summary_response_codec:
  "decode_summary_response p = Some r \<longleftrightarrow> summary_response_ok r \<and> p = encode_summary_response r"
proof
  assume "decode_summary_response p = Some r"
  then obtain count where
    p: "p = to_be_bytes (sr_sampled_at_ms r) @ dw_encode_completeness (sr_completeness r)
     # to_be_bytes (case sr_next_cursor r of Some c \<Rightarrow> c | None \<Rightarrow> NO_VALUE)
     @ wire_daemon (sr_daemon r) @ to_be_bytes count @ concat (map wire_session (sr_sessions r))"
    and count: "\<not> MAX_SUMMARY_PAGE < count" "length (sr_sessions r) = unat count"
    and ok: "sr_next_cursor r \<noteq> Some NO_VALUE" "list_all session_metrics_ok (sr_sessions r)"
    by (auto simp: decode_summary_response_def reader_new_at split: if_splits elim!: rbind_Inr_elim
        dest!: dw_atD decode_daemon_atD dw_codesD ds.read_n_strict)
  have "unat count \<le> 128"
    using count by (simp add: MAX_SUMMARY_PAGE_def word_less_nat_alt)
  with count ok have "summary_response_ok r"
    by (simp add: summary_response_ok_def)
  then show "summary_response_ok r \<and> p = encode_summary_response r"
    using p count by (simp add: encode_summary_wire)
next
  assume ok: "summary_response_ok r \<and> p = encode_summary_response r"
  then have n: "length (sr_sessions r) \<le> 128"
    by (simp add: summary_response_ok_def)
  have count: "\<not> MAX_SUMMARY_PAGE < (of_nat (length (sr_sessions r)) :: u16)"
    using n by (simp add: MAX_SUMMARY_PAGE_def word_less_nat_alt)
  have "fits p"
    using ok n by (intro fits_small) (simp add: encode_summary_wire)
  then show "decode_summary_response p = Some r"
    using ok n count ds.read_n_all[of "sr_sessions r" _ "[]"]
    by (cases r; cases "sr_next_cursor r")
      (auto simp: decode_summary_response_def encode_summary_wire reader_new_at summary_response_ok_def)
qed

lemma trend_response_codec:
  "decode_trend_response p = Some r \<longleftrightarrow> trend_response_ok r \<and> p = encode_trend_response r"
proof
  assume "decode_trend_response p = Some r"
  then obtain count where
    p: "p = to_be_bytes (tr_sampled_at_ms r) @ dw_encode_completeness (tr_completeness r)
     # to_be_bytes count @ concat (map wire_point (tr_points r))"
    and count: "\<not> MAX_TREND_POINTS < count" "length (tr_points r) = unat count"
    by (auto simp: decode_trend_response_def reader_new_at split: if_splits elim!: rbind_Inr_elim
        dest!: dw_atD dw_codesD dt.read_n_strict)
  have "unat count \<le> 240"
    using count by (simp add: MAX_TREND_POINTS_def word_less_nat_alt)
  with count have "trend_response_ok r"
    by (simp add: trend_response_ok_def)
  then show "trend_response_ok r \<and> p = encode_trend_response r"
    using p count by (simp add: encode_trend_wire)
next
  assume ok: "trend_response_ok r \<and> p = encode_trend_response r"
  then have n: "length (tr_points r) \<le> 240"
    by (simp add: trend_response_ok_def)
  have count: "\<not> MAX_TREND_POINTS < (of_nat (length (tr_points r)) :: u16)"
    using n by (simp add: MAX_TREND_POINTS_def word_less_nat_alt)
  have "fits p"
    using ok n by (intro fits_small) (simp add: encode_trend_wire)
  then show "decode_trend_response p = Some r"
    using ok n count dt.read_n_all[of "tr_points r" _ "[]"]
    by (cases r) (auto simp: decode_trend_response_def encode_trend_wire reader_new_at list_all_iff)
qed

end
