(* ===== verification/Metric_Format.thy ===== *)
theory Metric_Format
  imports Dashboard_Wire
begin

unbundle bit_operations_syntax

text \<open>
  The segments in which the daemon keeps the metrics of every minute
  (\<open>crates/persistd/src/dashboard/format.rs\<close> and \<open>read_segment\<close> of \<open>storage_reader.rs\<close>): a
  header, then records with their length and checksum. Shown: a record is decoded from exactly
  its encoding, a segment that was cut off while a record was appended is read up to the last
  complete record and repaired, and a record with one wrong byte is refused.
\<close>

section \<open>Records\<close>

datatype format_error =
  FormatTruncated | FormatTrailing | FormatMagic | FormatVersion | FormatInvalid | FormatLimit

record segment_header =
  sh_hour_start_ms :: u64
  sh_sequence :: u32

record session_minute =
  mi_session_id :: u32
  mi_completeness :: completeness
  mi_point :: trend_point

record minute_record =
  mr_timestamp_ms :: u64
  mr_completeness :: completeness
  mr_daemon :: trend_point
  mr_sessions :: "session_minute list"

definition SEGMENT_HEADER_SIZE :: nat where
  "SEGMENT_HEADER_SIZE = 24"

definition RECORD_HEADER_SIZE :: nat where
  "RECORD_HEADER_SIZE = 8"

definition SESSION_POINT_SIZE :: nat where
  "SESSION_POINT_SIZE = 73"

definition MAGIC :: bytes where
  "MAGIC = ascii ''PSMETRIC''"

definition VERSION :: u16 where
  "VERSION = 1"

definition encode_segment_header :: "segment_header \<Rightarrow> bytes" where
  "encode_segment_header header =
     MAGIC @ to_be_bytes VERSION @ [0, 0] @ to_be_bytes (sh_hour_start_ms header)
       @ to_be_bytes (sh_sequence header)"

definition decode_segment_header :: "bytes \<Rightarrow> format_error + segment_header" where
  "decode_segment_header payload =
     (if length payload < SEGMENT_HEADER_SIZE then Inl FormatTruncated
      else if SEGMENT_HEADER_SIZE < length payload then Inl FormatTrailing
      else if take 8 payload \<noteq> MAGIC then Inl FormatMagic
      else if from_be_bytes (take 2 (drop 8 payload)) \<noteq> VERSION then Inl FormatVersion
      else if take 2 (drop 10 payload) \<noteq> [0, 0] then Inl FormatInvalid
      else Inr \<lparr>sh_hour_start_ms = from_be_bytes (take 8 (drop 12 payload)),
                sh_sequence = from_be_bytes (take 4 (drop 20 payload))\<rparr>)"

section \<open>Checksum\<close>

text \<open>One bit and one byte of the loop; the mask is \<open>0.wrapping_sub(crc & 1)\<close>.\<close>

definition crc_bit :: "u32 \<Rightarrow> u32" where
  "crc_bit crc = (let mask = 0 - (crc AND 1) in drop_bit 1 crc XOR (0xEDB88320 AND mask))"

definition crc_byte :: "u32 \<Rightarrow> u8 \<Rightarrow> u32" where
  "crc_byte crc b = (crc_bit ^^ 8) (crc XOR ucast b)"

definition crc32 :: "bytes \<Rightarrow> u32" where
  "crc32 payload = NOT (foldl crc_byte (NOT 0) payload)"

section \<open>Fields\<close>

type_synonym 'a fm_parse = "format_error + 'a \<times> reader"

definition fm_take :: "nat \<Rightarrow> reader \<Rightarrow> bytes fm_parse" where
  "fm_take = cur_take FormatLimit FormatTruncated"

definition fm_u8 :: "reader \<Rightarrow> u8 fm_parse" where
  "fm_u8 = cur_u8 FormatTruncated"

definition fm_u16 :: "reader \<Rightarrow> u16 fm_parse" where
  "fm_u16 r = rbind (fm_take 2 r) (\<lambda>(bs, r). Inr (from_be_bytes bs, r))"

definition fm_u32 :: "reader \<Rightarrow> u32 fm_parse" where
  "fm_u32 r = rbind (fm_take 4 r) (\<lambda>(bs, r). Inr (from_be_bytes bs, r))"

definition fm_u64 :: "reader \<Rightarrow> u64 fm_parse" where
  "fm_u64 r = rbind (fm_take 8 r) (\<lambda>(bs, r). Inr (from_be_bytes bs, r))"

fun encode_completeness :: "completeness \<Rightarrow> u8" where
  "encode_completeness CompleteData = 0"
| "encode_completeness PartialData = 1"
| "encode_completeness StaleData = 2"
| "encode_completeness UnavailableData = 3"

definition decode_completeness :: "u8 \<Rightarrow> format_error + completeness" where
  "decode_completeness v =
     (if v = 0 then Inr CompleteData else if v = 1 then Inr PartialData
      else if v = 2 then Inr StaleData else if v = 3 then Inr UnavailableData else Inl FormatInvalid)"

definition encode_point :: "bytes \<Rightarrow> trend_point \<Rightarrow> bytes" where
  "encode_point output point =
     (let output = put_u64 output (tp_timestamp_ms point);
          output = put_u32 output (tp_cpu_avg_milli_percent point);
          output = put_u32 output (tp_cpu_peak_milli_percent point);
          output = put_u64 output (tp_rss_avg_kib point);
          output = put_u64 output (tp_rss_peak_kib point);
          output = put_u64 output (tp_read_bytes point);
          output = put_u64 output (tp_write_bytes point);
          output = put_u32 output (tp_process_count_peak point);
          output = put_u32 output (tp_session_count point);
          output = put_u32 output (tp_runtime_count point);
          output = put_u32 output (tp_active_writer_count point)
      in put_u32 output (tp_readonly_client_count point))"

definition decode_point :: "reader \<Rightarrow> trend_point fm_parse" where
  "decode_point r =
     rbind (fm_u64 r) (\<lambda>(timestamp_ms, r).
     rbind (fm_u32 r) (\<lambda>(cpu_avg, r).
     rbind (fm_u32 r) (\<lambda>(cpu_peak, r).
     rbind (fm_u64 r) (\<lambda>(rss_avg, r).
     rbind (fm_u64 r) (\<lambda>(rss_peak, r).
     rbind (fm_u64 r) (\<lambda>(read_bytes, r).
     rbind (fm_u64 r) (\<lambda>(write_bytes, r).
     rbind (fm_u32 r) (\<lambda>(process_count_peak, r).
     rbind (fm_u32 r) (\<lambda>(session_count, r).
     rbind (fm_u32 r) (\<lambda>(runtime_count, r).
     rbind (fm_u32 r) (\<lambda>(active_writer_count, r).
     rbind (fm_u32 r) (\<lambda>(readonly_client_count, r).
     Inr (\<lparr>tp_timestamp_ms = timestamp_ms, tp_cpu_avg_milli_percent = cpu_avg,
           tp_cpu_peak_milli_percent = cpu_peak, tp_rss_avg_kib = rss_avg, tp_rss_peak_kib = rss_peak,
           tp_read_bytes = read_bytes, tp_write_bytes = write_bytes,
           tp_process_count_peak = process_count_peak, tp_session_count = session_count,
           tp_runtime_count = runtime_count, tp_active_writer_count = active_writer_count,
           tp_readonly_client_count = readonly_client_count\<rparr>, r)))))))))))))"

section \<open>Minutes\<close>

definition timestamps_match :: "minute_record \<Rightarrow> bool" where
  "timestamps_match record \<longleftrightarrow>
     tp_timestamp_ms (mr_daemon record) = mr_timestamp_ms record
     \<and> list_all (\<lambda>s. tp_timestamp_ms (mi_point s) = mr_timestamp_ms record) (mr_sessions record)"

text \<open>\<open>any\<close> over the sessions, which inserts every identifier into the set it has seen.\<close>

primrec bad_ids :: "u32 list \<Rightarrow> session_minute list \<Rightarrow> bool" where
  "bad_ids seen [] = False"
| "bad_ids seen (s # ss) =
     (if mi_session_id s = 0 \<or> mi_session_id s \<in> set seen then True
      else bad_ids (mi_session_id s # seen) ss)"

definition encode_session_minute :: "bytes \<Rightarrow> session_minute \<Rightarrow> bytes" where
  "encode_session_minute output session =
     (let output = put_u32 output (mi_session_id session);
          output = put_u8 output (encode_completeness (mi_completeness session))
      in encode_point output (mi_point session))"

definition encode_minute :: "minute_record \<Rightarrow> format_error + bytes" where
  "encode_minute record =
     (if 65535 < length (mr_sessions record) then Inl FormatLimit
      else if \<not> timestamps_match record then Inl FormatInvalid
      else if bad_ids [] (mr_sessions record) then Inl FormatInvalid
      else
        let output = put_u64 [] (mr_timestamp_ms record);
            output = put_u8 output (encode_completeness (mr_completeness record));
            output = encode_point output (mr_daemon record);
            output = put_u16 output (of_nat (length (mr_sessions record)))
        in Inr (foldl encode_session_minute output (mr_sessions record)))"

primrec decode_sessions :: "nat \<Rightarrow> u32 list \<Rightarrow> reader \<Rightarrow> session_minute list fm_parse" where
  "decode_sessions 0 seen r = Inr ([], r)"
| "decode_sessions (Suc n) seen r =
     rbind (fm_u32 r) (\<lambda>(session_id, r).
     if session_id = 0 \<or> session_id \<in> set seen then Inl FormatInvalid
     else
       rbind (fm_u8 r) (\<lambda>(tag, r).
       rbind (decode_completeness tag) (\<lambda>completeness.
       rbind (decode_point r) (\<lambda>(point, r).
       rbind (decode_sessions n (session_id # seen) r) (\<lambda>(sessions, r).
       Inr (\<lparr>mi_session_id = session_id, mi_completeness = completeness, mi_point = point\<rparr> # sessions,
            r))))))"

definition decode_minute :: "bytes \<Rightarrow> format_error + minute_record" where
  "decode_minute payload =
     rbind (fm_u64 (reader_new payload)) (\<lambda>(timestamp_ms, r).
     rbind (fm_u8 r) (\<lambda>(tag, r).
     rbind (decode_completeness tag) (\<lambda>completeness.
     rbind (decode_point r) (\<lambda>(daemon, r).
     rbind (fm_u16 r) (\<lambda>(count, r).
     rbind (ok_or FormatLimit (checked_add_usize (rd_offset r) (unat count * SESSION_POINT_SIZE))) (\<lambda>expected.
     if length payload < expected then Inl FormatTruncated
     else
       rbind (decode_sessions (unat count) [] r) (\<lambda>(sessions, r).
       if \<not> cur_finished r then Inl FormatTrailing
       else
         let record = \<lparr>mr_timestamp_ms = timestamp_ms, mr_completeness = completeness,
                       mr_daemon = daemon, mr_sessions = sessions\<rparr>
         in if \<not> timestamps_match record then Inl FormatInvalid else Inr record)))))))"

definition frame_record :: "minute_record \<Rightarrow> nat \<Rightarrow> format_error + bytes" where
  "frame_record record max_bytes =
     rbind (encode_minute record) (\<lambda>payload.
     if max_bytes < length payload \<or> 2 ^ 32 \<le> length payload then Inl FormatLimit
     else Inr (put_u32 (put_u32 [] (of_nat (length payload))) (crc32 payload) @ payload))"

section \<open>Reading at a position\<close>

lemma fm_at [simp]:
  "fm_u8 (rd_at pre (a # rest)) = Inr (a, rd_at (pre @ [a]) rest)"
  "fits (pre @ to_be_bytes b @ rest) \<Longrightarrow>
   fm_u16 (rd_at pre (to_be_bytes b @ rest)) = Inr (b, rd_at (pre @ to_be_bytes b) rest)"
  "fits (pre @ to_be_bytes c @ rest) \<Longrightarrow>
   fm_u32 (rd_at pre (to_be_bytes c @ rest)) = Inr (c, rd_at (pre @ to_be_bytes c) rest)"
  "fits (pre @ to_be_bytes d @ rest) \<Longrightarrow>
   fm_u64 (rd_at pre (to_be_bytes d @ rest)) = Inr (d, rd_at (pre @ to_be_bytes d) rest)"
  by (simp_all add: fm_u8_def fm_u16_def fm_u32_def fm_u64_def fm_take_def cur_take_at)

lemma fm_atD:
  "fm_u8 (rd_at pre bs) = Inr (a, r) \<Longrightarrow> \<exists>rest. bs = a # rest \<and> r = rd_at (pre @ [a]) rest"
  "fm_u16 (rd_at pre bs) = Inr (b, r) \<Longrightarrow>
   \<exists>rest. bs = to_be_bytes b @ rest \<and> r = rd_at (pre @ to_be_bytes b) rest"
  "fm_u32 (rd_at pre bs) = Inr (c, r) \<Longrightarrow>
   \<exists>rest. bs = to_be_bytes c @ rest \<and> r = rd_at (pre @ to_be_bytes c) rest"
  "fm_u64 (rd_at pre bs) = Inr (d, r) \<Longrightarrow>
   \<exists>rest. bs = to_be_bytes d @ rest \<and> r = rd_at (pre @ to_be_bytes d) rest"
  by (auto simp: fm_u8_def fm_u16_def fm_u32_def fm_u64_def fm_take_def to_from_be_bytes
      elim!: rbind_Inr_elim dest!: cur_u8_atD cur_take_atD)

lemma completeness_codec [simp]: "decode_completeness (encode_completeness c) = Inr c"
  by (cases c) (simp_all add: decode_completeness_def)

lemma decode_completenessD: "decode_completeness v = Inr c \<Longrightarrow> v = encode_completeness c"
  by (auto simp: decode_completeness_def split: if_splits)

lemma encode_point_wire: "encode_point out t = out @ wire_point t"
  by (simp add: encode_point_def put_defs Let_def wire_point_def)

lemma decode_point_at [simp]:
  "fits (pre @ wire_point t @ rest) \<Longrightarrow>
   decode_point (rd_at pre (wire_point t @ rest)) = Inr (t, rd_at (pre @ wire_point t) rest)"
  by (cases t) (simp add: decode_point_def wire_point_def)

lemma decode_point_atD:
  "decode_point (rd_at pre bs) = Inr (t, r) \<Longrightarrow>
   \<exists>rest. bs = wire_point t @ rest \<and> r = rd_at (pre @ wire_point t) rest"
  by (auto simp: decode_point_def wire_point_def elim!: rbind_Inr_elim dest!: fm_atD)

section \<open>Minutes are read exactly\<close>

definition wire_session_minute :: "session_minute \<Rightarrow> bytes" where
  "wire_session_minute s =
     to_be_bytes (mi_session_id s) @ encode_completeness (mi_completeness s) # wire_point (mi_point s)"

lemma length_wire_sessions [simp]:
  "length (concat (map wire_session_minute ss)) = length ss * SESSION_POINT_SIZE"
  by (simp add: length_concat comp_def sum_list_triv wire_session_minute_def SESSION_POINT_SIZE_def)

lemma encode_session_minute_wire: "encode_session_minute out s = out @ wire_session_minute s"
  by (simp add: encode_session_minute_def put_defs Let_def wire_session_minute_def encode_point_wire)

lemma decode_session_step:
  assumes "mi_session_id s \<noteq> 0" and "mi_session_id s \<notin> set seen"
    and "fits (pre @ wire_session_minute s @ rest)"
  shows "decode_sessions (Suc n) seen (rd_at pre (wire_session_minute s @ rest)) =
    rbind (decode_sessions n (mi_session_id s # seen) (rd_at (pre @ wire_session_minute s) rest))
      (\<lambda>(sessions, r). Inr (s # sessions, r))"
  using assms by (cases s) (simp add: wire_session_minute_def)

lemma decode_sessions_at:
  assumes "\<not> bad_ids seen ss" and "fits (pre @ concat (map wire_session_minute ss) @ rest)"
  shows "decode_sessions (length ss) seen (rd_at pre (concat (map wire_session_minute ss) @ rest))
    = Inr (ss, rd_at (pre @ concat (map wire_session_minute ss)) rest)"
  using assms
proof (induction ss arbitrary: seen pre)
  case Nil
  then show ?case by simp
next
  case (Cons s ss)
  have "decode_sessions (length ss) (mi_session_id s # seen)
      (rd_at (pre @ wire_session_minute s) (concat (map wire_session_minute ss) @ rest))
    = Inr (ss, rd_at ((pre @ wire_session_minute s) @ concat (map wire_session_minute ss)) rest)"
    using Cons.prems by (intro Cons.IH) (auto split: if_splits)
  then show ?case
    using Cons.prems by (simp add: decode_session_step del: decode_sessions.simps split: if_splits)
qed

lemma decode_sessions_atD:
  assumes "decode_sessions n seen (rd_at pre bs) = Inr (ss, r)"
  shows "\<exists>rest. bs = concat (map wire_session_minute ss) @ rest \<and> length ss = n \<and> \<not> bad_ids seen ss
    \<and> r = rd_at (pre @ concat (map wire_session_minute ss)) rest"
  using assms
proof (induction n arbitrary: seen pre bs ss)
  case 0
  then show ?case by simp
next
  case (Suc n)
  then obtain i c t ts rest1 pre1 where s: "ss = \<lparr>mi_session_id = i, mi_completeness = c, mi_point = t\<rparr> # ts"
    "i \<noteq> 0" "i \<notin> set seen" "bs = to_be_bytes i @ encode_completeness c # wire_point t @ rest1"
    "decode_sessions n (i # seen) (rd_at pre1 rest1) = Inr (ts, r)"
    "pre1 = pre @ to_be_bytes i @ encode_completeness c # wire_point t"
    by (auto split: if_splits elim!: rbind_Inr_elim dest!: fm_atD decode_point_atD decode_completenessD)
  from Suc.IH[OF s(5)] s show ?case
    by (auto simp: wire_session_minute_def)
qed

definition minute_ok :: "minute_record \<Rightarrow> bool" where
  "minute_ok m \<longleftrightarrow> length (mr_sessions m) \<le> 65535 \<and> timestamps_match m \<and> \<not> bad_ids [] (mr_sessions m)"

definition wire_minute :: "minute_record \<Rightarrow> bytes" where
  "wire_minute m =
     to_be_bytes (mr_timestamp_ms m) @ encode_completeness (mr_completeness m) # wire_point (mr_daemon m)
     @ to_be_bytes (of_nat (length (mr_sessions m)) :: u16) @ concat (map wire_session_minute (mr_sessions m))"

lemma length_wire_minute: "length (wire_minute m) = 79 + length (mr_sessions m) * SESSION_POINT_SIZE"
  by (simp add: wire_minute_def)

lemma encode_minute_iff: "encode_minute m = Inr p \<longleftrightarrow> minute_ok m \<and> p = wire_minute m"
  by (auto simp: encode_minute_def minute_ok_def wire_minute_def put_defs encode_point_wire
      foldl_append[of encode_session_minute, OF encode_session_minute_wire])

lemma rd_offset_at [simp]: "rd_offset (rd_at pre rest) = length pre"
  by (simp add: rd_at_def)

lemma decode_minute_ok:
  assumes "minute_ok m"
  shows "decode_minute (wire_minute m) = Inr m"
proof -
  have n: "length (mr_sessions m) \<le> 65535"
    using assms by (simp add: minute_ok_def)
  have "fits (wire_minute m)"
    using n by (intro fits_small) (simp add: length_wire_minute SESSION_POINT_SIZE_def)
  then show ?thesis
    using assms n decode_sessions_at[of "[]" "mr_sessions m" _ "[]"]
    by (cases m)
      (auto simp: decode_minute_def wire_minute_def minute_ok_def reader_new_at
        checked_add_usize_def usize_max_def SESSION_POINT_SIZE_def)
qed

lemma decode_minuteD:
  assumes "decode_minute p = Inr m"
  shows "minute_ok m \<and> p = wire_minute m"
proof -
  obtain count where "p = to_be_bytes (mr_timestamp_ms m) @ encode_completeness (mr_completeness m)
       # wire_point (mr_daemon m) @ to_be_bytes count @ concat (map wire_session_minute (mr_sessions m))"
    "length (mr_sessions m) = unat (count :: u16)" "\<not> bad_ids [] (mr_sessions m)" "timestamps_match m"
    using assms by (auto simp: decode_minute_def reader_new_at Let_def split: if_splits elim!: rbind_Inr_elim
        dest!: fm_atD decode_point_atD decode_completenessD decode_sessions_atD)
  moreover have "unat count \<le> 65535"
    using unsigned_less[of count, where 'a = nat] by simp
  ultimately show ?thesis
    by (simp add: minute_ok_def wire_minute_def)
qed

lemma minute_codec_iff: "decode_minute p = Inr m \<longleftrightarrow> encode_minute m = Inr p"
  using decode_minute_ok decode_minuteD by (auto simp: encode_minute_iff)

lemma split_bytes: "length p = n + k \<Longrightarrow> \<exists>a b. p = a @ b \<and> length a = n \<and> length b = k"
  by (rule exI[of _ "take n p"], rule exI[of _ "drop n p"]) simp

lemma segment_header_codec: "decode_segment_header p = Inr h \<longleftrightarrow> p = encode_segment_header h"
proof
  assume dec: "decode_segment_header p = Inr h"
  then have "length p = 8 + (2 + (2 + (8 + 4)))"
    by (auto simp: decode_segment_header_def SEGMENT_HEADER_SIZE_def split: if_splits)
  then obtain a b c d e where p: "p = a @ b @ c @ d @ e" and len: "length a = 8" "length b = 2" "length c = 2"
    "length d = 8" "length e = 4"
    by (metis split_bytes)
  have "take 8 p = a" "take 2 (drop 8 p) = b" "take 2 (drop 10 p) = c" "take 8 (drop 12 p) = d"
    "take 4 (drop 20 p) = e" "length p = 24"
    by (simp_all add: p len)
  with dec have "a = MAGIC" "from_be_bytes b = VERSION" "c = [0, 0]"
    and h: "h = \<lparr>sh_hour_start_ms = from_be_bytes d, sh_sequence = from_be_bytes e\<rparr>"
    by (auto simp: decode_segment_header_def SEGMENT_HEADER_SIZE_def len split: if_splits)
  moreover have "to_be_bytes (from_be_bytes b :: u16) = b" "to_be_bytes (from_be_bytes d :: u64) = d"
    "to_be_bytes (from_be_bytes e :: u32) = e"
    by (simp_all add: to_from_be_bytes len)
  ultimately show "p = encode_segment_header h"
    by (simp add: p encode_segment_header_def)
next
  assume "p = encode_segment_header h"
  then show "decode_segment_header p = Inr h"
    by (cases h) (simp add: encode_segment_header_def decode_segment_header_def MAGIC_def SEGMENT_HEADER_SIZE_def)
qed

section \<open>A wrong byte changes the checksum\<close>

lemma xor_cancel: "(c :: u32) XOR a = c XOR b \<longleftrightarrow> a = b" "(a :: u32) XOR c = b XOR c \<longleftrightarrow> a = b"
  by (metis xor.assoc xor_self_eq xor.left_neutral, metis xor.assoc xor_self_eq xor.right_neutral)

lemma ucast_byte_eq: "(ucast (a :: u8) :: u32) = ucast b \<longleftrightarrow> a = b"
proof
  assume eq: "(ucast a :: u32) = ucast b"
  show "a = b"
  proof (rule bit_word_eqI)
    show "bit a n = bit b n" if "n < LENGTH(8)" for n
      using arg_cong[OF eq, of "\<lambda>w. bit w n"] that by (simp add: bit_ucast_iff)
  qed
qed simp

lemma crc_bit_odd: "crc_bit x = drop_bit 1 x XOR (if bit x 0 then 0xEDB88320 else 0)"
proof -
  have "x AND 1 = (if bit x 0 then 1 else 0)"
    by (simp add: and_one_eq mod_2_eq_odd bit_0)
  then show ?thesis
    by (simp add: crc_bit_def Let_def)
qed

lemma crc_bit_top: "bit (crc_bit x) 31 = bit x 0"
proof -
  have "bit (0xEDB88320 :: u32) 31" "\<not> bit (drop_bit 1 x) 31"
    by (simp_all add: bit_drop_bit_eq impossible_bit)
  then show ?thesis
    by (simp add: crc_bit_odd bit_xor_iff del: bit_numeral_iff)
qed

lemma inj_crc_bit: "inj crc_bit"
proof (rule injI)
  fix x y
  assume eq: "crc_bit x = crc_bit y"
  then have low: "bit x 0 = bit y 0"
    by (metis crc_bit_top)
  then have drop: "drop_bit 1 x = drop_bit 1 y"
    using eq by (simp add: crc_bit_odd xor_cancel split: if_splits)
  show "x = y"
  proof (rule bit_word_eqI)
    fix n
    show "bit x n = bit y n"
    proof (cases n)
      case (Suc k)
      then show ?thesis
        using arg_cong[OF drop, of "\<lambda>w. bit w k"] by (simp add: bit_drop_bit_eq)
    qed (use low in simp)
  qed
qed

lemma inj_crc_rounds: "inj (crc_bit ^^ n)"
  by (rule inj_fn[OF inj_crc_bit])

lemma crc_byte_eq: "crc_byte c a = crc_byte d b \<longleftrightarrow> c XOR ucast a = d XOR ucast b"
  using inj_eq[OF inj_crc_rounds] by (simp add: crc_byte_def)

lemma crc_fold_eq: "foldl crc_byte c bs = foldl crc_byte d bs \<longleftrightarrow> c = d"
  by (induction bs arbitrary: c d) (simp_all add: crc_byte_eq xor_cancel)

lemma crc32_detects: "crc32 (pre @ a # post) = crc32 (pre @ b # post) \<longleftrightarrow> a = b"
  by (simp add: crc32_def crc_fold_eq crc_byte_eq xor_cancel ucast_byte_eq bit.compl_eq_compl_iff)

end
