(* ===== verification/Metric_Segment.thy ===== *)
theory Metric_Segment
  imports Metric_Format
begin

text \<open>
  Reading a metric segment (\<open>read_segment\<close> of
  \<open>crates/persistd/src/dashboard/storage_reader.rs\<close>). The function takes the contents of the file
  and returns the result with the contents it leaves, since a cut off tail is removed from the
  file. Opening the file and the calls on it are not modelled.
\<close>

section \<open>Model\<close>

record storage_limits =
  sl_max_segments :: nat
  sl_max_total_bytes :: nat
  sl_max_segment_bytes :: nat
  sl_max_record_bytes :: nat
  sl_max_directory_entries :: nat

type_synonym segment_result = "(string + minute_record list \<times> bool) \<times> bytes"

definition hour_of :: "u64 \<Rightarrow> u64" where
  "hour_of timestamp_ms = timestamp_ms div 3600000 * 3600000"

text \<open>The loop over the records; a record takes at least its header, so the offset grows.\<close>

function read_records ::
    "storage_limits \<Rightarrow> u64 \<Rightarrow> bytes \<Rightarrow> nat \<Rightarrow> minute_record list \<Rightarrow> segment_result" where
  "read_records limits hour contents offset records =
     (if length contents \<le> offset then (Inr (records, False), contents)
      else
        let remaining = length contents - offset in
        if remaining < RECORD_HEADER_SIZE then (Inr (records, True), take offset contents)
        else
          let record_header = take RECORD_HEADER_SIZE (drop offset contents);
              payload_len = unat (from_be_bytes (take 4 record_header) :: u32);
              expected_crc = from_be_bytes (take 4 (drop 4 record_header))
          in if sl_max_record_bytes limits < payload_len
             then (Inl ''metric record exceeds size limit'', contents)
             else
               let framed_len = RECORD_HEADER_SIZE + payload_len
               in if remaining < framed_len then (Inr (records, True), take offset contents)
                  else
                    let payload = take payload_len (drop (offset + RECORD_HEADER_SIZE) contents)
                    in if crc32 payload \<noteq> expected_crc
                       then (Inl ''metric record checksum mismatch'', contents)
                       else
                         (case decode_minute payload of
                            Inl _ \<Rightarrow> (Inl ''invalid metric record payload'', contents)
                          | Inr record \<Rightarrow>
                              if hour_of (mr_timestamp_ms record) \<noteq> hour
                              then (Inl ''metric record is in the wrong hour segment'', contents)
                              else read_records limits hour contents (offset + framed_len)
                                     (records @ [record])))"
  by pat_completeness auto
termination
  by (relation "measure (\<lambda>(_, _, contents, offset, _). length contents - offset)")
    (auto simp: RECORD_HEADER_SIZE_def)

declare read_records.simps [simp del]

definition read_segment :: "storage_limits \<Rightarrow> bytes \<Rightarrow> segment_result" where
  "read_segment limits contents =
     (if sl_max_segment_bytes limits < length contents
      then (Inl ''metric segment exceeds size limit'', contents)
      else if length contents < SEGMENT_HEADER_SIZE
      then (Inl ''failed to fill whole buffer'', contents)
      else
        (case decode_segment_header (take SEGMENT_HEADER_SIZE contents) of
           Inl _ \<Rightarrow> (Inl ''invalid metric segment header'', contents)
         | Inr segment \<Rightarrow>
             read_records limits (sh_hour_start_ms segment) contents SEGMENT_HEADER_SIZE []))"

section \<open>Framed records\<close>

definition framed :: "minute_record \<Rightarrow> bytes" where
  "framed m = to_be_bytes (of_nat (length (wire_minute m)) :: u32) @ to_be_bytes (crc32 (wire_minute m))
     @ wire_minute m"

text \<open>Records that a segment of an hour may hold.\<close>

definition storable :: "storage_limits \<Rightarrow> u64 \<Rightarrow> minute_record \<Rightarrow> bool" where
  "storable limits hour m \<longleftrightarrow> minute_ok m \<and> length (wire_minute m) \<le> sl_max_record_bytes limits
     \<and> hour_of (mr_timestamp_ms m) = hour"

lemma length_wire_minute_u32: "minute_ok m \<Longrightarrow> length (wire_minute m) < 2 ^ 32"
  by (simp add: minute_ok_def length_wire_minute SESSION_POINT_SIZE_def)

lemma frame_record_iff:
  "frame_record m limit = Inr bs \<longleftrightarrow> minute_ok m \<and> length (wire_minute m) \<le> limit \<and> bs = framed m"
  using length_wire_minute_u32[of m]
  by (auto simp: frame_record_def rbind_eq_Inr encode_minute_iff framed_def put_defs not_less)

lemma length_framed: "length (framed m) = RECORD_HEADER_SIZE + length (wire_minute m)"
  by (simp add: framed_def RECORD_HEADER_SIZE_def)

lemma framed_parts:
  assumes "minute_ok m"
  shows "take 4 (framed m) = to_be_bytes (of_nat (length (wire_minute m)) :: u32)"
    and "unat (of_nat (length (wire_minute m)) :: u32) = length (wire_minute m)"
  using length_wire_minute_u32[OF assms] by (simp_all add: framed_def)

lemma read_records_end:
  "offset = length contents \<Longrightarrow> read_records limits hour contents offset records = (Inr (records, False), contents)"
  by (subst read_records.simps) simp

lemma read_records_step:
  assumes "contents = pre @ to_be_bytes (of_nat (length payload) :: u32) @ to_be_bytes crc @ payload @ post"
    and "length payload < 2 ^ 32" and "length payload \<le> sl_max_record_bytes limits"
  shows "read_records limits hour contents (length pre) records =
    (if crc32 payload \<noteq> crc then (Inl ''metric record checksum mismatch'', contents)
     else (case decode_minute payload of
        Inl _ \<Rightarrow> (Inl ''invalid metric record payload'', contents)
      | Inr record \<Rightarrow>
          if hour_of (mr_timestamp_ms record) \<noteq> hour
          then (Inl ''metric record is in the wrong hour segment'', contents)
          else read_records limits hour contents (length pre + (RECORD_HEADER_SIZE + length payload))
                 (records @ [record])))"
proof -
  have parts: "take RECORD_HEADER_SIZE (drop (length pre) contents) =
      to_be_bytes (of_nat (length payload) :: u32) @ to_be_bytes crc"
    "take (length payload) (drop (length pre + RECORD_HEADER_SIZE) contents) = payload"
    "length contents - length pre = RECORD_HEADER_SIZE + length payload + length post"
    "\<not> length contents \<le> length pre"
    by (simp_all add: assms(1) RECORD_HEADER_SIZE_def)
  have "unat (of_nat (length payload) :: u32) = length payload"
    using assms(2) by simp
  then show ?thesis
    using assms(3) by (subst read_records.simps) (simp add: parts Let_def not_less cong: if_cong sum.case_cong)
qed

lemma read_records_framed:
  assumes "storable limits hour m"
  shows "read_records limits hour (pre @ framed m @ post) (length pre) records =
    read_records limits hour (pre @ framed m @ post) (length pre + length (framed m)) (records @ [m])"
proof -
  have ok: "minute_ok m" "length (wire_minute m) \<le> sl_max_record_bytes limits" "hour_of (mr_timestamp_ms m) = hour"
    using assms by (simp_all add: storable_def)
  have c: "pre @ framed m @ post = pre @ to_be_bytes (of_nat (length (wire_minute m)) :: u32)
      @ to_be_bytes (crc32 (wire_minute m)) @ wire_minute m @ post"
    by (simp add: framed_def)
  show ?thesis
    using read_records_step[OF c length_wire_minute_u32[OF ok(1)] ok(2), of hour records]
    by (simp add: decode_minute_ok[OF ok(1)] ok(3) length_framed)
qed

lemma read_records_all:
  assumes "list_all (storable limits hour) ms"
  shows "read_records limits hour (pre @ concat (map framed ms) @ post) (length pre) records =
    read_records limits hour (pre @ concat (map framed ms) @ post)
      (length pre + length (concat (map framed ms))) (records @ ms)"
  using assms
proof (induction ms arbitrary: pre records)
  case Nil
  then show ?case by simp
next
  case (Cons m ms)
  have "read_records limits hour (pre @ concat (map framed (m # ms)) @ post) (length pre) records =
    read_records limits hour ((pre @ framed m) @ concat (map framed ms) @ post) (length (pre @ framed m)) (records @ [m])"
    using read_records_framed[of limits hour m pre] Cons.prems by simp
  also have "\<dots> = read_records limits hour ((pre @ framed m) @ concat (map framed ms) @ post)
      (length (pre @ framed m) + length (concat (map framed ms))) ((records @ [m]) @ ms)"
    using Cons.prems by (intro Cons.IH) simp
  finally show ?case
    by (simp add: add.assoc)
qed

text \<open>A tail that is the beginning of a record, without its end.\<close>

definition cut_record :: "storage_limits \<Rightarrow> bytes \<Rightarrow> bool" where
  "cut_record limits tail \<longleftrightarrow> tail \<noteq> [] \<and> (\<exists>m rest. minute_ok m
     \<and> length (wire_minute m) \<le> sl_max_record_bytes limits \<and> framed m = tail @ rest \<and> rest \<noteq> [])"

lemma read_records_cut:
  assumes "cut_record limits tail"
  shows "read_records limits hour (pre @ tail) (length pre) records = (Inr (records, True), pre)"
proof -
  obtain m rest where m: "minute_ok m" "length (wire_minute m) \<le> sl_max_record_bytes limits"
    "framed m = tail @ rest" "rest \<noteq> []" and ne: "tail \<noteq> []"
    using assms by (auto simp: cut_record_def)
  have short: "length tail < RECORD_HEADER_SIZE + length (wire_minute m)"
    using arg_cong[OF m(3), of length] m(4) by (simp add: length_framed)
  have head: "take 4 tail = to_be_bytes (of_nat (length (wire_minute m)) :: u32)" if "4 \<le> length tail"
    using arg_cong[OF m(3), of "take 4"] that framed_parts(1)[OF m(1)] by simp
  show ?thesis
    using ne short m(2) head framed_parts(2)[OF m(1)]
    by (subst read_records.simps) (auto simp: Let_def RECORD_HEADER_SIZE_def not_less)
qed

lemma read_segment_header:
  assumes "contents = encode_segment_header h @ body" and "length contents \<le> sl_max_segment_bytes limits"
  shows "read_segment limits contents = read_records limits (sh_hour_start_ms h) contents SEGMENT_HEADER_SIZE []"
proof -
  have len: "length (encode_segment_header h) = SEGMENT_HEADER_SIZE"
    by (simp add: encode_segment_header_def SEGMENT_HEADER_SIZE_def MAGIC_def)
  have "take SEGMENT_HEADER_SIZE contents = encode_segment_header h"
    using len by (simp add: assms(1))
  moreover have "decode_segment_header (encode_segment_header h) = Inr h"
    by (simp add: segment_header_codec)
  moreover have "SEGMENT_HEADER_SIZE \<le> length contents"
    by (simp add: assms(1) len)
  ultimately show ?thesis
    using assms(2) by (simp add: read_segment_def)
qed

lemma length_segment_header [simp]: "length (encode_segment_header h) = SEGMENT_HEADER_SIZE"
  by (simp add: encode_segment_header_def SEGMENT_HEADER_SIZE_def MAGIC_def)

text \<open>What is read of a segment, whole or cut off.\<close>

lemma read_segment_recovers:
  assumes "list_all (storable limits (sh_hour_start_ms h)) ms" and "tail = [] \<or> cut_record limits tail"
    and "SEGMENT_HEADER_SIZE + length (concat (map framed ms)) + length tail \<le> sl_max_segment_bytes limits"
  shows "read_segment limits (encode_segment_header h @ concat (map framed ms) @ tail) =
    (Inr (ms, tail \<noteq> []), encode_segment_header h @ concat (map framed ms))"
proof -
  let ?pre = "encode_segment_header h @ concat (map framed ms)"
  have "read_segment limits (encode_segment_header h @ concat (map framed ms) @ tail) =
      read_records limits (sh_hour_start_ms h) (?pre @ tail) (length ?pre) ms"
    using read_records_all[OF assms(1), of "encode_segment_header h" tail "[]"] assms(3)
    by (subst read_segment_header[OF refl]) simp_all
  also have "\<dots> = (Inr (ms, tail \<noteq> []), ?pre)"
    using assms(2) read_records_cut[of limits tail _ ?pre] by (auto simp: read_records_end)
  finally show ?thesis .
qed

lemma read_segment_checksum:
  assumes "list_all (storable limits (sh_hour_start_ms h)) ms"
    and "contents = encode_segment_header h @ concat (map framed ms)
      @ to_be_bytes (of_nat (length payload) :: u32) @ to_be_bytes crc @ payload @ post"
    and "length payload < 2 ^ 32" and "length payload \<le> sl_max_record_bytes limits"
    and "crc32 payload \<noteq> crc" and "length contents \<le> sl_max_segment_bytes limits"
  shows "read_segment limits contents = (Inl ''metric record checksum mismatch'', contents)"
proof -
  let ?pre = "encode_segment_header h @ concat (map framed ms)"
  let ?rest = "to_be_bytes (of_nat (length payload) :: u32) @ to_be_bytes crc @ payload @ post"
  have "read_records limits (sh_hour_start_ms h) (?pre @ ?rest) (length ?pre) ms =
      (Inl ''metric record checksum mismatch'', ?pre @ ?rest)"
    using read_records_step[of "?pre @ ?rest" ?pre payload crc post] assms(3-5) by simp
  then show ?thesis
    using read_records_all[OF assms(1), of "encode_segment_header h" ?rest "[]"] assms(2,6)
    by (subst read_segment_header[OF assms(2)]) simp_all
qed

text \<open>One wrong byte behind the length of a record: in the stored checksum or in the payload.\<close>

lemma read_segment_corrupt:
  assumes "list_all (storable limits (sh_hour_start_ms h)) ms" and "storable limits (sh_hour_start_ms h) m"
    and "to_be_bytes (crc32 (wire_minute m)) @ wire_minute m = x @ a # y" and "a \<noteq> b"
    and "contents = encode_segment_header h @ concat (map framed ms)
      @ to_be_bytes (of_nat (length (wire_minute m)) :: u32) @ (x @ b # y) @ post"
    and "length contents \<le> sl_max_segment_bytes limits"
  shows "read_segment limits contents = (Inl ''metric record checksum mismatch'', contents)"
proof -
  let ?wire = "wire_minute m"
  have ok: "length ?wire < 2 ^ 32" "length ?wire \<le> sl_max_record_bytes limits"
    using assms(2) length_wire_minute_u32[of m] by (simp_all add: storable_def)
  have "\<exists>crc payload. x @ b # y = to_be_bytes (crc :: u32) @ payload \<and> length payload = length ?wire
      \<and> crc32 payload \<noteq> crc"
  proof (cases "length x < 4")
    case True
    define d where "d = take 4 (x @ b # y)"
    have parts: "take 4 (x @ a # y) = to_be_bytes (crc32 ?wire)" "drop 4 (x @ a # y) = ?wire"
      by (simp_all flip: assms(3))
    have len: "length d = 4"
      using arg_cong[OF assms(3), of length] by (simp add: d_def)
    have drop: "drop 4 (x @ b # y) = ?wire"
      using True parts(2) by (cases "4 - length x") auto
    have "to_be_bytes (from_be_bytes d :: u32) = d"
      using len by (intro to_from_be_bytes) simp
    moreover have "d \<noteq> take 4 (x @ a # y)"
      using True assms(4) by (cases "4 - length x") (auto simp: d_def)
    ultimately have "from_be_bytes d \<noteq> crc32 ?wire"
      using parts(1) by metis
    then show ?thesis
      using \<open>to_be_bytes (from_be_bytes d :: u32) = d\<close> drop append_take_drop_id[of 4 "x @ b # y"]
      by (intro exI[of _ "from_be_bytes d"] exI[of _ ?wire]) (simp add: d_def)
  next
    case False
    define u where "u = drop 4 x"
    have "to_be_bytes (crc32 ?wire) = take 4 x" "?wire = u @ a # y"
      using False arg_cong[OF assms(3), of "take 4"] arg_cong[OF assms(3), of "drop 4"] by (simp_all add: u_def)
    then have x: "x = to_be_bytes (crc32 ?wire) @ u" and wire: "?wire = u @ a # y"
      by (simp_all add: u_def)
    have "crc32 (u @ b # y) \<noteq> crc32 ?wire"
      using wire assms(4) by (simp add: crc32_detects)
    then show ?thesis
      using x wire by (intro exI[of _ "crc32 ?wire"] exI[of _ "u @ b # y"]) simp
  qed
  then obtain crc payload where p: "x @ b # y = to_be_bytes (crc :: u32) @ payload" "length payload = length ?wire"
      "crc32 payload \<noteq> crc"
    by blast
  show ?thesis
    by (rule read_segment_checksum[OF assms(1), of _ payload crc post]) (use ok p assms(5,6) in simp_all)
qed

text \<open>The length of a record is not covered by its checksum. A length that points behind the end of
  the file makes the rest of the file look like a record that was cut off.\<close>

lemma read_segment_long:
  assumes "list_all (storable limits (sh_hour_start_ms h)) ms"
    and "length body + 4 < RECORD_HEADER_SIZE + unat (len :: u32)" and "4 \<le> length body"
    and "unat len \<le> sl_max_record_bytes limits"
    and "length (encode_segment_header h @ concat (map framed ms) @ to_be_bytes len @ body) \<le> sl_max_segment_bytes limits"
  shows "read_segment limits (encode_segment_header h @ concat (map framed ms) @ to_be_bytes len @ body) =
    (Inr (ms, True), encode_segment_header h @ concat (map framed ms))"
proof -
  let ?pre = "encode_segment_header h @ concat (map framed ms)" and ?tail = "to_be_bytes len @ body"
  have "read_segment limits (encode_segment_header h @ concat (map framed ms) @ ?tail) =
      read_records limits (sh_hour_start_ms h) (?pre @ ?tail) (length ?pre) ms"
    using read_records_all[OF assms(1), of "encode_segment_header h" ?tail "[]"] assms(5)
    by (subst read_segment_header[OF refl]) simp_all
  also have "\<dots> = (Inr (ms, True), ?pre)"
    using assms(2-4) by (subst read_records.simps) (auto simp: Let_def RECORD_HEADER_SIZE_def)
  finally show ?thesis .
qed

section \<open>What is accepted is a segment\<close>

lemma read_records_sound:
  assumes "read_records limits hour contents offset records = (Inr (ms, repaired), contents')"
    and "offset \<le> length contents"
  shows "\<exists>new tail. ms = records @ new \<and> list_all (storable limits hour) new
    \<and> contents' = take offset contents @ concat (map framed new)
    \<and> contents = contents' @ tail \<and> (repaired \<longleftrightarrow> tail \<noteq> [])"
  using assms
proof (induction "length contents - offset" arbitrary: offset records rule: less_induct)
  case less
  let ?rest = "drop offset contents"
  let ?len = "unat (from_be_bytes (take 4 (take RECORD_HEADER_SIZE ?rest)) :: u32)"
  let ?payload = "take ?len (drop (offset + RECORD_HEADER_SIZE) contents)"
  show ?case
  proof (cases "length contents \<le> offset")
    case True
    then show ?thesis
      using less.prems by (subst (asm) read_records.simps) (auto intro!: exI[of _ "[]"])
  next
    case more: False
    show ?thesis
    proof (cases "length contents - offset < RECORD_HEADER_SIZE + ?len \<or> length contents - offset < RECORD_HEADER_SIZE")
      case True
      then have "ms = records \<and> repaired \<and> contents' = take offset contents"
        using less.prems(1) more by (subst (asm) read_records.simps) (auto simp: Let_def split: if_splits)
      then show ?thesis
        using more by (intro exI[of _ "[]"] exI[of _ ?rest]) simp
    next
      case False
      then obtain m where m: "decode_minute ?payload = Inr m" "hour_of (mr_timestamp_ms m) = hour"
        and small: "?len \<le> sl_max_record_bytes limits"
        and crc: "crc32 ?payload = from_be_bytes (take 4 (drop 4 (take RECORD_HEADER_SIZE ?rest)))"
        and rest: "read_records limits hour contents (offset + (RECORD_HEADER_SIZE + ?len)) (records @ [m])
          = (Inr (ms, repaired), contents')"
        using less.prems(1) more
        by (subst (asm) read_records.simps) (auto simp: Let_def not_less split: if_splits sum.splits)
      have payload: "?payload = wire_minute m" "minute_ok m"
        using decode_minuteD[OF m(1)] by simp_all
      have le: "offset + (RECORD_HEADER_SIZE + ?len) \<le> length contents"
        using False more by auto
      then have len: "length (wire_minute m) = ?len"
        unfolding payload(1)[symmetric] length_take length_drop by linarith
      have head: "take 8 ?rest = to_be_bytes (of_nat (length (wire_minute m)) :: u32) @ to_be_bytes (crc32 (wire_minute m))"
      proof -
        have eight: "8 \<le> length ?rest"
          using le by (simp add: RECORD_HEADER_SIZE_def)
        have "take 8 ?rest = take 4 (take 8 ?rest) @ take 4 (drop 4 (take 8 ?rest))"
          using eight by (simp add: take_add[of 4 4, simplified] min_def)
        moreover have "take 4 (take 8 ?rest) = to_be_bytes (of_nat (length (wire_minute m)) :: u32)"
          using eight unfolding len by (simp add: RECORD_HEADER_SIZE_def to_from_be_bytes)
        moreover have "take 4 (drop 4 (take 8 ?rest)) = to_be_bytes (crc32 (wire_minute m))"
          using eight crc unfolding payload(1) by (simp add: RECORD_HEADER_SIZE_def to_from_be_bytes)
        ultimately show ?thesis
          by (simp only:)
      qed
      have frame: "take (RECORD_HEADER_SIZE + ?len) ?rest = framed m"
        using payload(1) head by (simp add: take_add RECORD_HEADER_SIZE_def framed_def add.commute)
      have storable: "storable limits hour m"
        using payload(2) m(2) small len by (simp add: storable_def)
      have shorter: "length contents - (offset + (RECORD_HEADER_SIZE + ?len)) < length contents - offset"
        using more by (simp add: RECORD_HEADER_SIZE_def)
      obtain new tail where new: "ms = (records @ [m]) @ new" "list_all (storable limits hour) new"
        "contents' = take (offset + (RECORD_HEADER_SIZE + ?len)) contents @ concat (map framed new)"
        "contents = contents' @ tail" "repaired \<longleftrightarrow> tail \<noteq> []"
        using less.hyps[OF shorter rest le] by blast
      have cut: "take (offset + (RECORD_HEADER_SIZE + ?len)) contents = take offset contents @ framed m"
        by (subst take_add) (simp only: frame)
      have "contents' = take offset contents @ concat (map framed (m # new))"
        by (rule trans[OF new(3)]) (simp only: cut list.map concat.simps append_assoc)
      moreover have "ms = records @ m # new" and "list_all (storable limits hour) (m # new)"
        using new(1,2) storable by simp_all
      ultimately show ?thesis
        using new(4,5) by blast
    qed
  qed
qed

lemma read_segment_sound:
  assumes "read_segment limits contents = (Inr (ms, repaired), contents')"
  obtains h tail where "list_all (storable limits (sh_hour_start_ms h)) ms"
    and "contents' = encode_segment_header h @ concat (map framed ms)"
    and "contents = contents' @ tail" and "repaired \<longleftrightarrow> tail \<noteq> []"
    and "length contents \<le> sl_max_segment_bytes limits"
proof -
  obtain h where h: "decode_segment_header (take SEGMENT_HEADER_SIZE contents) = Inr h"
    and fits: "SEGMENT_HEADER_SIZE \<le> length contents" "length contents \<le> sl_max_segment_bytes limits"
    and rest: "read_records limits (sh_hour_start_ms h) contents SEGMENT_HEADER_SIZE []
      = (Inr (ms, repaired), contents')"
    using assms by (auto simp: read_segment_def not_less split: if_splits sum.splits)
  have "take SEGMENT_HEADER_SIZE contents = encode_segment_header h"
    using h by (simp add: segment_header_codec)
  then show thesis
    using read_records_sound[OF rest fits(1)] fits(2) that[of h] by auto
qed

lemma read_segment_kept:
  assumes "read_segment limits contents = (Inr (ms, repaired), contents')"
  shows "read_segment limits contents' = (Inr (ms, False), contents')"
proof -
  obtain h tail where "list_all (storable limits (sh_hour_start_ms h)) ms"
    and c: "contents' = encode_segment_header h @ concat (map framed ms)" "contents = contents' @ tail"
    and "length contents \<le> sl_max_segment_bytes limits"
    using read_segment_sound[OF assms] by metis
  then show ?thesis
    using read_segment_recovers[of limits h ms "[]"] by simp
qed

lemma read_records_failed:
  "read_records limits hour contents offset records = (Inl e, contents') \<Longrightarrow> contents' = contents"
proof -
  define P where "P = (\<lambda>r :: segment_result. \<forall>e c. r = (Inl e, c) \<longrightarrow> c = contents)"
  have P: "P (Inl e, contents)" "P (Inr x, c)" for e x c
    by (simp_all add: P_def)
  have "P (read_records limits hour contents offset records)"
  proof (induction "length contents - offset" arbitrary: offset records rule: less_induct)
    case less
    then have "P (read_records limits hour contents (offset + (RECORD_HEADER_SIZE + n)) rs)"
      if "\<not> length contents \<le> offset" for n rs
      using that by (simp add: RECORD_HEADER_SIZE_def)
    then show ?case
      by (subst read_records.simps) (simp add: P Let_def split: sum.split)
  qed
  then show "read_records limits hour contents offset records = (Inl e, contents') \<Longrightarrow> contents' = contents"
    by (simp add: P_def)
qed

lemma read_segment_failed:
  "read_segment limits contents = (Inl e, contents') \<Longrightarrow> contents' = contents"
  by (auto simp: read_segment_def split: if_splits sum.splits dest!: read_records_failed)

end
