(* ===== verification/Metric_Storage.thy ===== *)
theory Metric_Storage
  imports Metric_Segment Shell_State
begin

text \<open>
  The metric segments of the daemon on disk (\<open>crates/persistd/src/dashboard/storage.rs\<close>, with the
  names of \<open>storage_reader.rs\<close>). The directory is a map from file names to contents, whose files
  are private to the daemon; the check of their owner and mode and the calls on files that were
  opened are not modelled, except that writing a record may stop after some of its bytes (the disk
  is full). Shown: what was appended is read back, the limits hold after every append, segments
  are only ever removed as a whole and never the current one; and that a record appended after
  one that was cut off makes the segment unreadable.
\<close>

section \<open>Names\<close>

type_synonym directory = "(rstring, bytes) hashmap"

definition SEGMENT_PREFIX :: bytes where
  "SEGMENT_PREFIX = ascii ''segment-''"

definition SEGMENT_SUFFIX :: bytes where
  "SEGMENT_SUFFIX = ascii ''.pmt''"

definition starts_with :: "bytes \<Rightarrow> bytes \<Rightarrow> bool" where
  "starts_with p s \<longleftrightarrow> take (length p) s = p"

definition ends_with :: "bytes \<Rightarrow> bytes \<Rightarrow> bool" where
  "ends_with p s \<longleftrightarrow> length p \<le> length s \<and> drop (length s - length p) s = p"

text \<open>\<open>str::parse\<close> for unsigned integers: decimal digits after an optional plus sign.\<close>

definition is_digit :: "u8 \<Rightarrow> bool" where
  "is_digit b \<longleftrightarrow> 48 \<le> b \<and> b \<le> 57"

definition parse_uint :: "nat \<Rightarrow> rstring \<Rightarrow> nat option" where
  "parse_uint limit s =
     (let digits = (case s of [] \<Rightarrow> [] | c # cs \<Rightarrow> if c = 43 \<and> cs \<noteq> [] then cs else s)
      in if digits = [] \<or> \<not> list_all is_digit digits \<or> limit < read_nat digits then None
         else Some (read_nat digits))"

definition parse_segment_name :: "rstring \<Rightarrow> (u64 \<times> u32) option" where
  "parse_segment_name name =
     (if utf8_valid name \<and> starts_with SEGMENT_PREFIX name
         \<and> ends_with SEGMENT_SUFFIX (drop (length SEGMENT_PREFIX) name)
      then
        (let value = take (length name - length SEGMENT_PREFIX - length SEGMENT_SUFFIX)
               (drop (length SEGMENT_PREFIX) name);
             hour = takeWhile (\<lambda>b. b \<noteq> 45) value;
             rest = dropWhile (\<lambda>b. b \<noteq> 45) value
         in if rest = [] then None
            else
              (case (parse_uint (2 ^ 64 - 1) hour, parse_uint (2 ^ 32 - 1) (tl rest)) of
                 (Some h, Some n) \<Rightarrow> Some (of_nat h, of_nat n)
               | _ \<Rightarrow> None))
      else None)"

definition zero_padded :: "nat \<Rightarrow> nat \<Rightarrow> rstring" where
  "zero_padded width n = replicate (width - length (show_nat n)) 48 @ show_nat n"

definition segment_name :: "u64 \<Rightarrow> u32 \<Rightarrow> rstring" where
  "segment_name hour_start_ms sequence =
     SEGMENT_PREFIX @ zero_padded 20 (unat hour_start_ms) @ 45 # zero_padded 10 (unat sequence) @ SEGMENT_SUFFIX"

definition segment_paths :: "directory \<Rightarrow> rstring list" where
  "segment_paths fs =
     sort (filter (\<lambda>name. utf8_valid name \<and> starts_with SEGMENT_PREFIX name \<and> ends_with SEGMENT_SUFFIX name)
       (hm_keys fs))"

definition next_sequence :: "rstring list \<Rightarrow> u64 \<Rightarrow> u32" where
  "next_sequence paths hour_start_ms =
     (let sequences = map snd (filter (\<lambda>(hour, _). hour = hour_start_ms) (List.map_filter parse_segment_name paths))
      in if sequences = [] then 0
         else let m = foldr max sequences 0 in if m = - 1 then m else m + 1)"

section \<open>Storage\<close>

record current_segment =
  cs_hour_start_ms :: u64
  cs_path :: rstring
  cs_bytes :: nat

record storage =
  so_limits :: storage_limits
  so_current :: "current_segment option"
  so_last_timestamp_ms :: "u64 option"

record load_report =
  lr_records :: "minute_record list"
  lr_skipped_segments :: nat
  lr_repaired_tails :: nat

definition validate_limits :: "storage_limits \<Rightarrow> string + unit" where
  "validate_limits limits =
     (if sl_max_segments limits = 0
         \<or> sl_max_total_bytes limits < SEGMENT_HEADER_SIZE
         \<or> sl_max_segment_bytes limits < SEGMENT_HEADER_SIZE
         \<or> sl_max_record_bytes limits = 0
         \<or> sl_max_directory_entries limits < sl_max_segments limits
      then Inl ''invalid metric storage limits'' else Inr ())"

definition storage_open :: "storage_limits \<Rightarrow> directory \<Rightarrow> string + storage" where
  "storage_open limits fs =
     rbind (validate_limits limits) (\<lambda>_.
     if sl_max_directory_entries limits < length fs
     then Inl ''metrics directory has too many entries''
     else Inr \<lparr>so_limits = limits, so_current = None, so_last_timestamp_ms = None\<rparr>)"

text \<open>Reading a segment may cut its tail off.\<close>

definition read_path ::
    "storage_limits \<Rightarrow> rstring \<Rightarrow> directory \<Rightarrow> (string + minute_record list \<times> bool) \<times> directory" where
  "read_path limits path fs =
     (case hm_get fs path of
        None \<Rightarrow> (Inl ''No such file or directory'', fs)
      | Some contents \<Rightarrow>
          (case read_segment limits contents of
             (r, contents') \<Rightarrow> (r, if contents' = contents then fs else hm_insert path contents' fs)))"

primrec resume_from ::
    "storage_limits \<Rightarrow> u64 \<Rightarrow> u64 \<Rightarrow> nat \<Rightarrow> rstring list \<Rightarrow> directory
      \<Rightarrow> (current_segment \<times> u64 option) option \<times> directory" where
  "resume_from limits hour_start_ms timestamp_ms append_bytes [] fs = (None, fs)"
| "resume_from limits hour_start_ms timestamp_ms append_bytes (path # paths) fs =
     (if map_option fst (parse_segment_name path) \<noteq> Some hour_start_ms
      then resume_from limits hour_start_ms timestamp_ms append_bytes paths fs
      else
        (case read_path limits path fs of
           (Inl _, fs) \<Rightarrow> resume_from limits hour_start_ms timestamp_ms append_bytes paths fs
         | (Inr (records, _), fs) \<Rightarrow>
             let last_timestamp = (if records = [] then None else Some (mr_timestamp_ms (last records)))
             in if (case last_timestamp of None \<Rightarrow> False | Some t \<Rightarrow> timestamp_ms < t) then (None, fs)
                else
                  (case hm_get fs path of
                     None \<Rightarrow> (None, fs)
                   | Some contents \<Rightarrow>
                       if sl_max_segment_bytes limits < length contents + append_bytes then (None, fs)
                       else (Some (\<lparr>cs_hour_start_ms = hour_start_ms, cs_path = path,
                                     cs_bytes = length contents\<rparr>, last_timestamp), fs))))"

definition resume_segment ::
    "storage_limits \<Rightarrow> u64 \<Rightarrow> u64 \<Rightarrow> nat \<Rightarrow> directory \<Rightarrow> (current_segment \<times> u64 option) option \<times> directory" where
  "resume_segment limits hour_start_ms timestamp_ms append_bytes fs =
     resume_from limits hour_start_ms timestamp_ms append_bytes (rev (segment_paths fs)) fs"

definition create_segment :: "storage_limits \<Rightarrow> u64 \<Rightarrow> directory \<Rightarrow> (string + current_segment) \<times> directory" where
  "create_segment limits hour_start_ms fs =
     (if sl_max_directory_entries limits \<le> length fs
      then (Inl ''metrics directory entry limit reached'', fs)
      else
        let sequence = next_sequence (segment_paths fs) hour_start_ms;
            path = segment_name hour_start_ms sequence
        in if hm_get fs path \<noteq> None then (Inl ''File exists'', fs)
           else (Inr \<lparr>cs_hour_start_ms = hour_start_ms, cs_path = path, cs_bytes = SEGMENT_HEADER_SIZE\<rparr>,
                 hm_insert path (encode_segment_header
                   \<lparr>sh_hour_start_ms = hour_start_ms, sh_sequence = sequence\<rparr>) fs))"

definition total_bytes :: "directory \<Rightarrow> rstring list \<Rightarrow> nat" where
  "total_bytes fs paths =
     foldl (\<lambda>n path. min (2 ^ 64 - 1) (n + (case hm_get fs path of None \<Rightarrow> 0 | Some c \<Rightarrow> length c))) 0 paths"

text \<open>The loop removes one file in every round.\<close>

lemma delete_shorter:
  assumes "x \<in> set (segment_paths fs)"
  shows "length (hm_remove x fs) < length fs"
proof -
  have "x \<in> fst ` set fs"
    using assms by (auto simp: segment_paths_def)
  then obtain v where "(x, v) \<in> set fs"
    by auto
  then show ?thesis
    unfolding AList.delete_eq by (rule length_filter_less) simp
qed

function rotate :: "storage_limits \<Rightarrow> current_segment option \<Rightarrow> directory \<Rightarrow> (string + unit) \<times> directory" where
  "rotate limits current fs =
     (let paths = segment_paths fs;
          amount = total_bytes fs paths
      in if length paths \<le> sl_max_segments limits \<and> amount \<le> sl_max_total_bytes limits
         then (Inr (), fs)
         else
           (case find (\<lambda>path. map_option cs_path current \<noteq> Some path) paths of
              None \<Rightarrow> (Inl ''active metric segment exceeds total limit'', fs)
            | Some oldest \<Rightarrow> rotate limits current (hm_remove oldest fs)))"
  by pat_completeness auto
termination
  by (relation "measure (\<lambda>(_, _, fs). length fs)") (auto simp: find_Some_iff intro!: delete_shorter)

declare rotate.simps [simp del]

text \<open>\<open>write_all\<close>: all bytes, or an error after the first \<open>n\<close> of them. The file is open for
  appending.\<close>

definition write_all_to :: "nat option \<Rightarrow> rstring \<Rightarrow> bytes \<Rightarrow> directory \<Rightarrow> (string + unit) \<times> directory" where
  "write_all_to fault path data fs =
     (let old = (case hm_get fs path of None \<Rightarrow> [] | Some c \<Rightarrow> c)
      in case fault of
           None \<Rightarrow> (Inr (), hm_insert path (old @ data) fs)
         | Some n \<Rightarrow> (Inl ''No space left on device'', hm_insert path (old @ take n data) fs))"

text \<open>\<open>append\<close> from the point where the segment is known.\<close>

definition append_to_current ::
    "nat option \<Rightarrow> minute_record \<Rightarrow> bytes \<Rightarrow> current_segment \<Rightarrow> storage \<Rightarrow> directory
      \<Rightarrow> (string + unit) \<times> storage \<times> directory" where
  "append_to_current fault record framed_bytes current st fs =
     (case write_all_to fault (cs_path current) framed_bytes fs of
        (Inl e, fs) \<Rightarrow> (Inl e, st\<lparr>so_current := Some current\<rparr>, fs)
      | (Inr _, fs) \<Rightarrow>
          let current = current\<lparr>cs_bytes := cs_bytes current + length framed_bytes\<rparr>;
              st = st\<lparr>so_current := Some current, so_last_timestamp_ms := Some (mr_timestamp_ms record)\<rparr>
          in (case rotate (so_limits st) (so_current st) fs of (r, fs) \<Rightarrow> (r, st, fs)))"

definition needs_new :: "storage \<Rightarrow> u64 \<Rightarrow> minute_record \<Rightarrow> nat \<Rightarrow> bool" where
  "needs_new st hour_start_ms record framed_len \<longleftrightarrow>
     (case so_current st of
        None \<Rightarrow> True
      | Some current \<Rightarrow>
          cs_hour_start_ms current \<noteq> hour_start_ms
          \<or> sl_max_segment_bytes (so_limits st) < cs_bytes current + framed_len
          \<or> (case so_last_timestamp_ms st of None \<Rightarrow> False | Some t \<Rightarrow> mr_timestamp_ms record < t))"

definition storage_append ::
    "nat option \<Rightarrow> minute_record \<Rightarrow> storage \<Rightarrow> directory \<Rightarrow> (string + unit) \<times> storage \<times> directory" where
  "storage_append fault record st fs =
     (case frame_record record (sl_max_record_bytes (so_limits st)) of
        Inl _ \<Rightarrow> (Inl ''metric record exceeds format limits'', st, fs)
      | Inr framed_bytes \<Rightarrow>
          if sl_max_segment_bytes (so_limits st) < length framed_bytes + SEGMENT_HEADER_SIZE
             \<or> sl_max_total_bytes (so_limits st) < length framed_bytes + SEGMENT_HEADER_SIZE
          then (Inl ''metric record exceeds storage limits'', st, fs)
          else
            let hour_start_ms = hour_of (mr_timestamp_ms record);
                (st, fs) =
                  (if so_current st = None
                   then
                     (case resume_segment (so_limits st) hour_start_ms (mr_timestamp_ms record)
                             (length framed_bytes) fs of
                        (None, fs) \<Rightarrow> (st, fs)
                      | (Some (current, last_timestamp), fs) \<Rightarrow>
                          (st\<lparr>so_current := Some current, so_last_timestamp_ms := last_timestamp\<rparr>, fs))
                   else (st, fs));
                (r, fs) =
                  (if needs_new st hour_start_ms record (length framed_bytes)
                   then create_segment (so_limits st) hour_start_ms fs
                   else (Inr (the (so_current st)), fs))
            in (case r of
                  Inl e \<Rightarrow> (Inl e, st, fs)
                | Inr current \<Rightarrow> append_to_current fault record framed_bytes current st fs))"

primrec load_paths :: "storage_limits \<Rightarrow> rstring list \<Rightarrow> load_report \<Rightarrow> directory \<Rightarrow> load_report \<times> directory" where
  "load_paths limits [] report fs = (report, fs)"
| "load_paths limits (path # paths) report fs =
     (case read_path limits path fs of
        (Inr (records, repaired), fs) \<Rightarrow>
          load_paths limits paths
            (report\<lparr>lr_records := lr_records report @ records,
                    lr_repaired_tails := lr_repaired_tails report + (if repaired then 1 else 0)\<rparr>) fs
      | (Inl _, fs) \<Rightarrow>
          load_paths limits paths
            (report\<lparr>lr_skipped_segments := lr_skipped_segments report + 1\<rparr>) fs)"

definition storage_load :: "storage_limits \<Rightarrow> directory \<Rightarrow> load_report \<times> directory" where
  "storage_load limits fs =
     (case load_paths limits (segment_paths fs)
             \<lparr>lr_records = [], lr_skipped_segments = 0, lr_repaired_tails = 0\<rparr> fs of
        (report, fs) \<Rightarrow>
          (report\<lparr>lr_records := sort_key (\<lambda>r. unat (mr_timestamp_ms r)) (lr_records report)\<rparr>, fs))"

end
