(* ===== verification/Metric_Model.thy ===== *)
theory Metric_Model
  imports Dashboard_Wire
begin

text \<open>
  Samples of the dashboard and their aggregation into trend points
  (\<open>crates/persistd/src/dashboard/model.rs\<close> and \<open>aggregate.rs\<close>). The sums that the code keeps
  in a \<open>u128\<close> are natural numbers, with the saturation written out where the code saturates; a
  division by zero and an index out of range are the value \<open>None\<close>. Shown: rates are available
  exactly when every counter went forward over a positive time, and the loop over mutable
  buckets computes the same points as grouping the samples by the interval they fall into.
\<close>

section \<open>Samples\<close>

record raw_counters =
  rc_user_ticks :: u64
  rc_system_ticks :: u64
  rc_rss_kib :: u64
  rc_read_bytes :: u64
  rc_write_bytes :: u64
  rc_process_count :: u32

record raw_daemon_sample =
  rd_pid :: u32
  rd_counters :: raw_counters
  rd_session_count :: u32
  rd_runtime_count :: u32
  rd_active_writer_count :: u32
  rd_readonly_client_count :: u32

record raw_session_sample =
  rss_session_id :: u32
  rss_counters :: raw_counters
  rss_foreground_pid :: "u32 option"
  rss_writer_active :: bool
  rss_collection_status :: collection_status

record raw_sample =
  rw_sampled_at_ms :: u64
  rw_monotonic_ms :: u64
  rw_clock_ticks_per_second :: u64
  rw_completeness :: completeness
  rw_daemon :: raw_daemon_sample
  rw_sessions :: "raw_session_sample list"

record derived_daemon =
  dd_metrics :: daemon_metrics
  dd_process_count :: u32
  dd_read_bytes_delta :: u64
  dd_write_bytes_delta :: u64

record derived_session =
  dse_metrics :: session_metrics
  dse_read_bytes_delta :: u64
  dse_write_bytes_delta :: u64

record derived_sample =
  da_sampled_at_ms :: u64
  da_monotonic_ms :: u64
  da_completeness :: completeness
  da_daemon :: derived_daemon
  da_sessions :: "derived_session list"

record rates =
  ra_available :: bool
  ra_cpu_milli_percent :: u32
  ra_read_bytes_per_sec :: u64
  ra_write_bytes_per_sec :: u64
  ra_read_bytes_delta :: u64
  ra_write_bytes_delta :: u64

definition rates_default :: rates where
  "rates_default = \<lparr>ra_available = False, ra_cpu_milli_percent = 0, ra_read_bytes_per_sec = 0,
     ra_write_bytes_per_sec = 0, ra_read_bytes_delta = 0, ra_write_bytes_delta = 0\<rparr>"

section \<open>Rates\<close>

definition checked_sub_u64 :: "u64 \<Rightarrow> u64 \<Rightarrow> u64 option" where
  "checked_sub_u64 a b = (if b \<le> a then Some (a - b) else None)"

definition saturating_sub_u64 :: "u64 \<Rightarrow> u64 \<Rightarrow> u64" where
  "saturating_sub_u64 a b = (if b \<le> a then a - b else 0)"

definition U128_MAX :: nat where
  "U128_MAX = 2 ^ 128 - 1"

definition bytes_per_second :: "u64 \<Rightarrow> u64 \<Rightarrow> u64" where
  "bytes_per_second bs elapsed_ms =
     of_nat (min (min U128_MAX (unat bs * 1000) div unat elapsed_ms) (2 ^ 64 - 1))"

definition calculate_rates :: "raw_counters \<Rightarrow> raw_counters \<Rightarrow> u64 \<Rightarrow> u64 \<Rightarrow> rates option" where
  "calculate_rates previous current elapsed_ms ticks_per_second =
     (if elapsed_ms = 0 \<or> ticks_per_second = 0 then None
      else
        Option.bind (checked_sub_u64 (rc_user_ticks current) (rc_user_ticks previous)) (\<lambda>user_delta.
        Option.bind (checked_sub_u64 (rc_system_ticks current) (rc_system_ticks previous)) (\<lambda>system_delta.
        Option.bind (checked_sub_u64 (rc_read_bytes current) (rc_read_bytes previous)) (\<lambda>read_delta.
        Option.bind (checked_sub_u64 (rc_write_bytes current) (rc_write_bytes previous)) (\<lambda>write_delta.
        let tick_delta = unat user_delta + unat system_delta;
            cpu_denominator = unat ticks_per_second * unat elapsed_ms;
            cpu = min U128_MAX (min U128_MAX (tick_delta * 100000) * 1000) div cpu_denominator
        in Some \<lparr>ra_available = True, ra_cpu_milli_percent = of_nat (min cpu (2 ^ 32 - 1)),
                 ra_read_bytes_per_sec = bytes_per_second read_delta elapsed_ms,
                 ra_write_bytes_per_sec = bytes_per_second write_delta elapsed_ms,
                 ra_read_bytes_delta = read_delta, ra_write_bytes_delta = write_delta\<rparr>)))))"

definition derived_daemon_of :: "raw_daemon_sample \<Rightarrow> rates \<Rightarrow> derived_daemon" where
  "derived_daemon_of raw rates =
     \<lparr>dd_metrics = \<lparr>dm_pid = rd_pid raw, dm_rates_available = ra_available rates,
        dm_cpu_milli_percent = ra_cpu_milli_percent rates, dm_rss_kib = rc_rss_kib (rd_counters raw),
        dm_read_bytes_per_sec = ra_read_bytes_per_sec rates,
        dm_write_bytes_per_sec = ra_write_bytes_per_sec rates,
        dm_session_count = rd_session_count raw, dm_runtime_count = rd_runtime_count raw,
        dm_active_writer_count = rd_active_writer_count raw,
        dm_readonly_client_count = rd_readonly_client_count raw\<rparr>,
      dd_process_count = rc_process_count (rd_counters raw),
      dd_read_bytes_delta = ra_read_bytes_delta rates, dd_write_bytes_delta = ra_write_bytes_delta rates\<rparr>"

definition derived_session_of :: "raw_session_sample \<Rightarrow> rates \<Rightarrow> derived_session" where
  "derived_session_of raw rates =
     \<lparr>dse_metrics = \<lparr>sm_session_id = rss_session_id raw,
        sm_process_count = rc_process_count (rss_counters raw), sm_rates_available = ra_available rates,
        sm_cpu_milli_percent = ra_cpu_milli_percent rates, sm_rss_kib = rc_rss_kib (rss_counters raw),
        sm_read_bytes_per_sec = ra_read_bytes_per_sec rates,
        sm_write_bytes_per_sec = ra_write_bytes_per_sec rates,
        sm_foreground_pid = rss_foreground_pid raw, sm_writer_active = rss_writer_active raw,
        sm_collection_status = rss_collection_status raw\<rparr>,
      dse_read_bytes_delta = ra_read_bytes_delta rates, dse_write_bytes_delta = ra_write_bytes_delta rates\<rparr>"

text \<open>\<open>collect\<close> into a \<open>HashMap\<close>: a later entry replaces an earlier one.\<close>

definition hm_collect :: "('k \<times> 'v) list \<Rightarrow> ('k, 'v) hashmap" where
  "hm_collect xs = foldl (\<lambda>m (k, v). hm_insert k v m) [] xs"

definition unwrap_rates :: "rates option \<Rightarrow> rates" where
  "unwrap_rates r = (case r of None \<Rightarrow> rates_default | Some r \<Rightarrow> r)"

definition derive_sample :: "raw_sample option \<Rightarrow> raw_sample \<Rightarrow> derived_sample" where
  "derive_sample previous current =
     (let elapsed_ms =
            (case Option.bind previous (\<lambda>s. checked_sub_u64 (rw_monotonic_ms current) (rw_monotonic_ms s)) of
               None \<Rightarrow> None | Some e \<Rightarrow> if 0 < e then Some e else None);
          previous_sessions =
            (case previous of
               None \<Rightarrow> []
             | Some s \<Rightarrow> hm_collect (map (\<lambda>x. (rss_session_id x, rss_counters x)) (rw_sessions s)));
          daemon_rates = unwrap_rates
            (Option.bind previous (\<lambda>s. Option.bind elapsed_ms (\<lambda>elapsed.
               calculate_rates (rd_counters (rw_daemon s)) (rd_counters (rw_daemon current)) elapsed
                 (rw_clock_ticks_per_second current))));
          sessions = map (\<lambda>session.
            derived_session_of session (unwrap_rates
              (Option.bind (hm_get previous_sessions (rss_session_id session)) (\<lambda>prior.
               Option.bind elapsed_ms (\<lambda>elapsed.
                 calculate_rates prior (rss_counters session) elapsed
                   (rw_clock_ticks_per_second current)))))) (rw_sessions current)
      in \<lparr>da_sampled_at_ms = rw_sampled_at_ms current, da_monotonic_ms = rw_monotonic_ms current,
          da_completeness = rw_completeness current,
          da_daemon = derived_daemon_of (rw_daemon current) daemon_rates, da_sessions = sessions\<rparr>)"

section \<open>Accumulating\<close>

record metric =
  me_complete :: bool
  me_rates_available :: bool
  me_cpu_milli_percent :: u32
  me_rss_kib :: u64
  me_read_bytes_delta :: u64
  me_write_bytes_delta :: u64
  me_process_count :: u32
  me_session_count :: u32
  me_runtime_count :: u32
  me_active_writer_count :: u32
  me_readonly_client_count :: u32

record trend_accumulator =
  ac_timestamp_ms :: u64
  ac_cpu_sum :: nat
  ac_cpu_count :: u64
  ac_cpu_peak :: u32
  ac_rss_sum :: nat
  ac_rss_count :: u64
  ac_rss_peak :: u64
  ac_read_bytes :: nat
  ac_write_bytes :: nat
  ac_process_count_peak :: u32
  ac_session_count :: u32
  ac_runtime_count :: u32
  ac_active_writer_count :: u32
  ac_readonly_client_count :: u32

record trend_series =
  ts_completeness :: completeness
  ts_points :: "trend_point list"

definition session_metric :: "derived_session list \<Rightarrow> u32 \<Rightarrow> metric option" where
  "session_metric sessions session_id =
     map_option (\<lambda>s.
       \<lparr>me_complete = (sm_collection_status (dse_metrics s) = CollectionComplete),
        me_rates_available = sm_rates_available (dse_metrics s),
        me_cpu_milli_percent = sm_cpu_milli_percent (dse_metrics s),
        me_rss_kib = sm_rss_kib (dse_metrics s), me_read_bytes_delta = dse_read_bytes_delta s,
        me_write_bytes_delta = dse_write_bytes_delta s,
        me_process_count = sm_process_count (dse_metrics s), me_session_count = 0,
        me_runtime_count = 0, me_active_writer_count = 0, me_readonly_client_count = 0\<rparr>)
       (find (\<lambda>s. sm_session_id (dse_metrics s) = session_id) sessions)"

definition metric_for :: "derived_sample \<Rightarrow> trend_scope \<Rightarrow> metric option" where
  "metric_for sample scope =
     (case scope of
        DaemonScope \<Rightarrow>
          let d = da_daemon sample; m = dd_metrics d
          in Some \<lparr>me_complete = True, me_rates_available = dm_rates_available m,
                   me_cpu_milli_percent = dm_cpu_milli_percent m, me_rss_kib = dm_rss_kib m,
                   me_read_bytes_delta = dd_read_bytes_delta d,
                   me_write_bytes_delta = dd_write_bytes_delta d,
                   me_process_count = dd_process_count d, me_session_count = dm_session_count m,
                   me_runtime_count = dm_runtime_count m,
                   me_active_writer_count = dm_active_writer_count m,
                   me_readonly_client_count = dm_readonly_client_count m\<rparr>
      | SessionScope session_id \<Rightarrow> session_metric (da_sessions sample) session_id)"

definition acc_default :: trend_accumulator where
  "acc_default =
     \<lparr>ac_timestamp_ms = 0, ac_cpu_sum = 0, ac_cpu_count = 0, ac_cpu_peak = 0, ac_rss_sum = 0,
      ac_rss_count = 0, ac_rss_peak = 0, ac_read_bytes = 0, ac_write_bytes = 0,
      ac_process_count_peak = 0, ac_session_count = 0, ac_runtime_count = 0,
      ac_active_writer_count = 0, ac_readonly_client_count = 0\<rparr>"

definition acc_add :: "u64 \<Rightarrow> metric \<Rightarrow> trend_accumulator \<Rightarrow> trend_accumulator" where
  "acc_add timestamp_ms m a =
     (let a = a\<lparr>ac_timestamp_ms := timestamp_ms\<rparr>;
          a = (if me_rates_available m
               then a\<lparr>ac_cpu_sum := ac_cpu_sum a + unat (me_cpu_milli_percent m),
                      ac_cpu_count := ac_cpu_count a + 1,
                      ac_cpu_peak := max (ac_cpu_peak a) (me_cpu_milli_percent m),
                      ac_read_bytes := min U128_MAX (ac_read_bytes a + unat (me_read_bytes_delta m)),
                      ac_write_bytes := min U128_MAX (ac_write_bytes a + unat (me_write_bytes_delta m))\<rparr>
               else a)
      in a\<lparr>ac_rss_sum := ac_rss_sum a + unat (me_rss_kib m),
           ac_rss_count := ac_rss_count a + 1,
           ac_rss_peak := max (ac_rss_peak a) (me_rss_kib m),
           ac_process_count_peak := max (ac_process_count_peak a) (me_process_count m),
           ac_session_count := max (ac_session_count a) (me_session_count m),
           ac_runtime_count := max (ac_runtime_count a) (me_runtime_count m),
           ac_active_writer_count := max (ac_active_writer_count a) (me_active_writer_count m),
           ac_readonly_client_count := max (ac_readonly_client_count a) (me_readonly_client_count m)\<rparr>)"

definition average_u32 :: "nat \<Rightarrow> u64 \<Rightarrow> u32" where
  "average_u32 amount count = (if count = 0 then 0 else of_nat (min (amount div unat count) (2 ^ 32 - 1)))"

definition saturating_u64 :: "nat \<Rightarrow> u64" where
  "saturating_u64 value = of_nat (min value (2 ^ 64 - 1))"

definition average_u64 :: "nat \<Rightarrow> u64 \<Rightarrow> u64" where
  "average_u64 amount count = (if count = 0 then 0 else saturating_u64 (amount div unat count))"

definition acc_finish :: "trend_accumulator \<Rightarrow> trend_point" where
  "acc_finish a =
     \<lparr>tp_timestamp_ms = ac_timestamp_ms a,
      tp_cpu_avg_milli_percent = average_u32 (ac_cpu_sum a) (ac_cpu_count a),
      tp_cpu_peak_milli_percent = ac_cpu_peak a,
      tp_rss_avg_kib = average_u64 (ac_rss_sum a) (ac_rss_count a), tp_rss_peak_kib = ac_rss_peak a,
      tp_read_bytes = saturating_u64 (ac_read_bytes a), tp_write_bytes = saturating_u64 (ac_write_bytes a),
      tp_process_count_peak = ac_process_count_peak a, tp_session_count = ac_session_count a,
      tp_runtime_count = ac_runtime_count a, tp_active_writer_count = ac_active_writer_count a,
      tp_readonly_client_count = ac_readonly_client_count a\<rparr>"

section \<open>Aggregating\<close>

text \<open>\<open>div_ceil\<close> panics for a divisor of zero.\<close>

definition div_ceil :: "u64 \<Rightarrow> u64 \<Rightarrow> u64 option" where
  "div_ceil a b = (if b = 0 then None else Some (a div b + (if a mod b = 0 then 0 else 1)))"

definition bucket_add ::
    "u64 \<Rightarrow> metric \<Rightarrow> trend_accumulator option list \<Rightarrow> nat \<Rightarrow> trend_accumulator option list option" where
  "bucket_add timestamp_ms m buckets index =
     (if index < length buckets
      then Some (buckets[index := Some (acc_add timestamp_ms m
             (case buckets ! index of None \<Rightarrow> acc_default | Some a \<Rightarrow> a))])
      else None)"

primrec aggregate_loop ::
    "(derived_sample \<Rightarrow> u64) \<Rightarrow> trend_scope \<Rightarrow> u64 \<Rightarrow> u64 \<Rightarrow> u16 \<Rightarrow> derived_sample list
      \<Rightarrow> trend_accumulator option list \<times> completeness \<Rightarrow> (trend_accumulator option list \<times> completeness) option" where
  "aggregate_loop timestamp scope start_ms width max_points [] st = Some st"
| "aggregate_loop timestamp scope start_ms width max_points (sample # samples) st =
     (case metric_for sample scope of
        None \<Rightarrow> aggregate_loop timestamp scope start_ms width max_points samples st
      | Some m \<Rightarrow>
          (case st of (buckets, completeness) \<Rightarrow>
             let completeness =
                   (if da_completeness sample \<noteq> CompleteData \<or> \<not> me_complete m \<or> \<not> me_rates_available m
                    then PartialData else completeness);
                 elapsed = saturating_sub_u64 (saturating_sub_u64 (timestamp sample) start_ms) 1;
                 index = unat (min (elapsed div width) (ucast (max_points - 1)))
             in (case bucket_add (da_sampled_at_ms sample) m buckets index of
                   None \<Rightarrow> None
                 | Some buckets \<Rightarrow>
                     aggregate_loop timestamp scope start_ms width max_points samples
                       (buckets, completeness))))"

definition aggregate_by ::
    "(derived_sample \<Rightarrow> u64) \<Rightarrow> derived_sample list \<Rightarrow> trend_scope \<Rightarrow> u64 \<Rightarrow> u64 \<Rightarrow> u16
      \<Rightarrow> trend_series option" where
  "aggregate_by timestamp frames scope start_ms end_ms max_points =
     (case div_ceil (saturating_sub_u64 end_ms start_ms) (ucast max_points) of
        None \<Rightarrow> None
      | Some width \<Rightarrow>
          (case aggregate_loop timestamp scope start_ms (max width 1) max_points
                  (filter (\<lambda>s. start_ms < timestamp s \<and> timestamp s \<le> end_ms) frames)
                  (replicate (unat max_points) None, CompleteData) of
             None \<Rightarrow> None
           | Some (buckets, completeness) \<Rightarrow>
               let points = map acc_finish (List.map_filter id buckets)
               in Some \<lparr>ts_completeness = (if points = [] then UnavailableData else completeness),
                        ts_points = points\<rparr>))"

definition aggregate ::
    "derived_sample list \<Rightarrow> trend_scope \<Rightarrow> u64 \<Rightarrow> u64 \<Rightarrow> u16 \<Rightarrow> trend_series option" where
  "aggregate = aggregate_by da_monotonic_ms"

definition aggregate_wall ::
    "derived_sample list \<Rightarrow> trend_scope \<Rightarrow> u64 \<Rightarrow> u64 \<Rightarrow> u16 \<Rightarrow> trend_series option" where
  "aggregate_wall = aggregate_by da_sampled_at_ms"

definition series_unavailable :: trend_series where
  "series_unavailable = \<lparr>ts_completeness = UnavailableData, ts_points = []\<rparr>"

section \<open>The interval of a sample\<close>

lemma unat_saturating_sub: "unat (saturating_sub_u64 a b) = unat a - unat b"
  by (auto simp: saturating_sub_u64_def unat_sub word_le_nat_alt)

lemma unat_plus_one: "unat (x :: u64) + 1 < 2 ^ 64 \<Longrightarrow> unat (x + 1) = unat x + 1"
  by (simp add: unat_word_ariths)

lemma unat_ucast_u16: "unat (ucast (m :: u16) :: u64) = unat m"
  using unsigned_less[of m, where 'a = nat] by (simp add: unsigned_ucast_eq take_bit_nat_eq_self)

lemma div_ceil_covers:
  assumes "div_ceil a b = Some q"
  shows "unat a \<le> unat q * unat b"
proof -
  have b: "0 < unat b" and q: "q = a div b + (if a mod b = 0 then 0 else 1)"
    using assms by (auto simp: div_ceil_def unat_gt_0 split: if_splits)
  show ?thesis
  proof (cases "a mod b = 0")
    case True
    then have "unat a mod unat b = 0"
      by (metis unat_mod unat_0)
    then show ?thesis
      using True q by (auto simp: unat_div mult.commute)
  next
    case False
    then have m: "unat a mod unat b \<noteq> 0"
      by (metis unat_mod unat_eq_zero)
    then have "unat b \<noteq> 1"
      by auto
    with b have "2 \<le> unat b"
      by simp
    then have "unat a div unat b \<le> unat a div 2"
      by (rule div_le_mono2[rotated]) simp
    moreover have "unat a div 2 + 1 < 2 ^ 64"
      using unsigned_less[of a, where 'a = nat] by simp
    ultimately have "unat (a div b) + 1 < 2 ^ 64"
      unfolding unat_div by linarith
    then have "unat q = unat a div unat b + 1"
      using False q unat_plus_one[of "a div b"] by (simp only: if_False unat_div)
    moreover have "unat a < (unat a div unat b + 1) * unat b"
      using b by (metis Suc_eq_plus1 dividend_less_times_div mult.commute mult_Suc_right add.commute)
    ultimately show ?thesis
      by simp
  qed
qed

text \<open>The interval in which a sample at \<open>t\<close> falls.\<close>

definition slot :: "u64 \<Rightarrow> u64 \<Rightarrow> u64 \<Rightarrow> nat" where
  "slot start_ms width t = (unat t - unat start_ms - 1) div unat width"

lemma slot_in_range:
  assumes "div_ceil (saturating_sub_u64 end_ms start_ms) (ucast (max_points :: u16)) = Some q"
    and "start_ms < t" and "t \<le> end_ms"
  shows "slot start_ms (max q 1) t < unat max_points"
    and "unat (min (saturating_sub_u64 (saturating_sub_u64 t start_ms) 1 div max q 1) (ucast (max_points - 1)))
      = slot start_ms (max q 1) t"
proof -
  have cover: "unat end_ms - unat start_ms \<le> unat q * unat max_points"
    using div_ceil_covers[OF assms(1)] by (simp add: unat_saturating_sub unat_ucast_u16)
  have t: "unat start_ms < unat t" "unat t \<le> unat end_ms"
    using assms(2,3) by (simp_all add: word_less_nat_alt word_le_nat_alt)
  then have "unat q \<noteq> 0"
    using cover by (cases "unat q") simp_all
  then have q: "max q 1 = q"
    by (metis max.absorb1 unat_0 word_le_nat_alt unat_1 le_numeral_extra(4) not_gr_zero Suc_leI One_nat_def)
  have "unat t - unat start_ms - 1 < unat q * unat max_points"
    using cover t by linarith
  then show less: "slot start_ms (max q 1) t < unat max_points"
    by (simp add: slot_def q less_mult_imp_div_less mult.commute)
  have "unat (max_points - 1) = unat max_points - 1"
    using less by (intro unat_minus_one) (auto simp: unat_gt_0)
  then have low: "slot start_ms (max q 1) t \<le> unat (max_points - 1)"
    using less by linarith
  have e: "unat (saturating_sub_u64 (saturating_sub_u64 t start_ms) 1 div max q 1) = slot start_ms (max q 1) t"
    unfolding unat_div unat_saturating_sub slot_def by simp
  have "saturating_sub_u64 (saturating_sub_u64 t start_ms) 1 div max q 1 \<le> ucast (max_points - 1)"
    unfolding word_le_nat_alt e unat_ucast_u16 by (rule low)
  then show "unat (min (saturating_sub_u64 (saturating_sub_u64 t start_ms) 1 div max q 1) (ucast (max_points - 1)))
      = slot start_ms (max q 1) t"
    by (simp only: min_absorb1 e)
qed

section \<open>Grouping by interval\<close>

text \<open>The reference: the metrics of the samples that fall into one interval, in their order, and the
  point they give.\<close>

definition slot_metrics ::
    "(derived_sample \<Rightarrow> u64) \<Rightarrow> trend_scope \<Rightarrow> u64 \<Rightarrow> u64 \<Rightarrow> nat \<Rightarrow> derived_sample list \<Rightarrow> (u64 \<times> metric) list"
    where
  "slot_metrics timestamp scope start_ms width i samples =
     List.map_filter (\<lambda>s. if slot start_ms width (timestamp s) = i
       then map_option (Pair (da_sampled_at_ms s)) (metric_for s scope) else None) samples"

definition bucket_of :: "(u64 \<times> metric) list \<Rightarrow> trend_accumulator option" where
  "bucket_of xs = (if xs = [] then None else Some (fold (\<lambda>(t, m). acc_add t m) xs acc_default))"

definition partial_sample :: "trend_scope \<Rightarrow> derived_sample \<Rightarrow> bool" where
  "partial_sample scope s \<longleftrightarrow>
     (case metric_for s scope of
        None \<Rightarrow> False
      | Some m \<Rightarrow> da_completeness s \<noteq> CompleteData \<or> \<not> me_complete m \<or> \<not> me_rates_available m)"

lemma map_filter_snoc:
  "List.map_filter f (xs @ [x]) = List.map_filter f xs @ (case f x of None \<Rightarrow> [] | Some y \<Rightarrow> [y])"
  by (simp add: List.map_filter_def split: option.split)

lemma slot_metrics_snoc:
  "slot_metrics timestamp scope start_ms width i (xs @ [s]) = slot_metrics timestamp scope start_ms width i xs
    @ (if slot start_ms width (timestamp s) = i
       then (case metric_for s scope of None \<Rightarrow> [] | Some m \<Rightarrow> [(da_sampled_at_ms s, m)]) else [])"
  by (simp add: slot_metrics_def map_filter_snoc split: option.split)

lemma bucket_of_snoc:
  "bucket_of (xs @ [(t, m)]) = Some (acc_add t m (case bucket_of xs of None \<Rightarrow> acc_default | Some a \<Rightarrow> a))"
  by (simp add: bucket_of_def)

lemma aggregate_loop_groups:
  fixes max_points :: u16
  assumes "\<And>s. s \<in> set rest \<Longrightarrow> slot start_ms width (timestamp s) < n
      \<and> unat (min (saturating_sub_u64 (saturating_sub_u64 (timestamp s) start_ms) 1 div width)
          (ucast (max_points - 1))) = slot start_ms width (timestamp s)"
  shows "aggregate_loop timestamp scope start_ms width max_points rest
      (map (\<lambda>i. bucket_of (slot_metrics timestamp scope start_ms width i seen)) [0..<n], c) =
    Some (map (\<lambda>i. bucket_of (slot_metrics timestamp scope start_ms width i (seen @ rest))) [0..<n],
      if list_ex (partial_sample scope) rest then PartialData else c)"
  using assms
proof (induction rest arbitrary: seen c)
  case Nil
  then show ?case by simp
next
  case (Cons s rest)
  let ?slot = "slot start_ms width (timestamp s)"
  let ?group = "\<lambda>i. slot_metrics timestamp scope start_ms width i"
  have IH: "aggregate_loop timestamp scope start_ms width max_points rest
      (map (\<lambda>i. bucket_of (?group i (seen @ [s]))) [0..<n], c') =
    Some (map (\<lambda>i. bucket_of (?group i (seen @ s # rest))) [0..<n],
      if list_ex (partial_sample scope) rest then PartialData else c')" for c'
    using Cons.IH[of "seen @ [s]" c'] Cons.prems by simp
  show ?case
  proof (cases "metric_for s scope")
    case None
    then have "(\<lambda>i. bucket_of (?group i (seen @ [s]))) = (\<lambda>i. bucket_of (?group i seen))"
      by (simp add: slot_metrics_snoc fun_eq_iff)
    then show ?thesis
      using IH[of c] None by (simp add: partial_sample_def[of scope s])
  next
    case (Some m)
    have "(map (\<lambda>i. bucket_of (?group i seen)) [0..<n])[?slot := Some (acc_add (da_sampled_at_ms s) m
        (case bucket_of (?group ?slot seen) of None \<Rightarrow> acc_default | Some a \<Rightarrow> a))] =
      map (\<lambda>i. bucket_of (?group i (seen @ [s]))) [0..<n]"
      using Some by (intro nth_equalityI) (auto simp: nth_list_update slot_metrics_snoc bucket_of_snoc)
    moreover have "?slot < n"
      using Cons.prems[of s] by simp
    ultimately show ?thesis
      using Cons.prems[of s] Some IH
      by (simp add: bucket_add_def Let_def partial_sample_def[of scope s] split del: if_split) auto
  qed
qed

text \<open>The samples of the window, the width of an interval, and the points.\<close>

definition window :: "(derived_sample \<Rightarrow> u64) \<Rightarrow> u64 \<Rightarrow> u64 \<Rightarrow> derived_sample list \<Rightarrow> derived_sample list" where
  "window timestamp start_ms end_ms frames = filter (\<lambda>s. start_ms < timestamp s \<and> timestamp s \<le> end_ms) frames"

definition slot_points ::
    "(derived_sample \<Rightarrow> u64) \<Rightarrow> trend_scope \<Rightarrow> u64 \<Rightarrow> u64 \<Rightarrow> nat \<Rightarrow> derived_sample list \<Rightarrow> trend_point list" where
  "slot_points timestamp scope start_ms width n samples =
     map (\<lambda>xs. acc_finish (fold (\<lambda>(t, m). acc_add t m) xs acc_default))
       (filter (\<lambda>xs. xs \<noteq> []) (map (\<lambda>i. slot_metrics timestamp scope start_ms width i samples) [0..<n]))"

lemma points_of_buckets:
  "map acc_finish (List.map_filter id (map (\<lambda>i. bucket_of (g i)) is)) =
   map (\<lambda>xs. acc_finish (fold (\<lambda>(t, m). acc_add t m) xs acc_default)) (filter (\<lambda>xs. xs \<noteq> []) (map g is))"
  by (induction "is") (simp_all add: List.map_filter_def bucket_of_def)

lemma aggregate_by_groups:
  assumes "max_points \<noteq> 0"
  shows "\<exists>width. 0 < width \<and> unat end_ms - unat start_ms \<le> unat width * unat max_points
    \<and> aggregate_by timestamp frames scope start_ms end_ms max_points =
      (let samples = window timestamp start_ms end_ms frames;
           points = slot_points timestamp scope start_ms width (unat max_points) samples
       in Some \<lparr>ts_completeness = (if points = [] then UnavailableData
             else if list_ex (partial_sample scope) samples then PartialData else CompleteData),
           ts_points = points\<rparr>)"
proof -
  have "(ucast max_points :: u64) \<noteq> 0"
    using assms unat_ucast_u16[of max_points] by (metis unat_0 unat_eq_zero)
  then obtain q where q: "div_ceil (saturating_sub_u64 end_ms start_ms) (ucast max_points) = Some q"
    by (simp add: div_ceil_def)
  let ?w = "max q 1"
  let ?samples = "window timestamp start_ms end_ms frames"
  have "unat end_ms - unat start_ms \<le> unat q * unat max_points"
    using div_ceil_covers[OF q] by (simp add: unat_saturating_sub unat_ucast_u16)
  moreover have "unat q \<le> unat ?w"
    by (simp add: word_le_nat_alt[symmetric])
  ultimately have cover: "unat end_ms - unat start_ms \<le> unat ?w * unat max_points"
    using mult_le_mono1 order_trans by blast
  have pos: "0 < ?w"
    by (rule less_le_trans[of 0 1]) simp_all
  have init: "replicate (unat max_points) None =
      map (\<lambda>i. bucket_of (slot_metrics timestamp scope start_ms ?w i [])) [0..<unat max_points]"
    by (simp add: slot_metrics_def List.map_filter_def bucket_of_def map_replicate_const)
  have loop: "aggregate_loop timestamp scope start_ms ?w max_points ?samples (replicate (unat max_points) None, CompleteData) =
    Some (map (\<lambda>i. bucket_of (slot_metrics timestamp scope start_ms ?w i ?samples)) [0..<unat max_points],
      if list_ex (partial_sample scope) ?samples then PartialData else CompleteData)"
    unfolding init
    using aggregate_loop_groups[of ?samples start_ms ?w timestamp "unat max_points" max_points scope "[]" CompleteData]
      slot_in_range[OF q] by (simp add: window_def)
  show ?thesis
    using cover pos q loop
    by (intro exI[of _ ?w]) (simp add: aggregate_by_def window_def[symmetric] points_of_buckets slot_points_def Let_def
        del: map_is_Nil_conv Nil_is_map_conv list.map_disc_iff)
qed

section \<open>What a point says\<close>

abbreviation acc_all :: "(u64 \<times> metric) list \<Rightarrow> trend_accumulator" where
  "acc_all xs \<equiv> fold (\<lambda>(t, m). acc_add t m) xs acc_default"

lemma acc_add_fields:
  "ac_rss_count (acc_add t m a) = ac_rss_count a + 1"
  "ac_rss_sum (acc_add t m a) = ac_rss_sum a + unat (me_rss_kib m)"
  "ac_rss_peak (acc_add t m a) = max (ac_rss_peak a) (me_rss_kib m)"
  "ac_cpu_count (acc_add t m a) = (if me_rates_available m then ac_cpu_count a + 1 else ac_cpu_count a)"
  "ac_cpu_sum (acc_add t m a) =
    (if me_rates_available m then ac_cpu_sum a + unat (me_cpu_milli_percent m) else ac_cpu_sum a)"
  "ac_cpu_peak (acc_add t m a) =
    (if me_rates_available m then max (ac_cpu_peak a) (me_cpu_milli_percent m) else ac_cpu_peak a)"
  by (simp_all add: acc_add_def Let_def)

lemma acc_all_counts:
  assumes "length xs < 2 ^ 64"
  shows "unat (ac_rss_count (acc_all xs)) = length xs
    \<and> ac_rss_sum (acc_all xs) = (\<Sum>(t, m) \<leftarrow> xs. unat (me_rss_kib m))
    \<and> ac_rss_sum (acc_all xs) \<le> length xs * unat (ac_rss_peak (acc_all xs))
    \<and> ac_cpu_sum (acc_all xs) \<le> unat (ac_cpu_count (acc_all xs)) * unat (ac_cpu_peak (acc_all xs))
    \<and> unat (ac_cpu_count (acc_all xs)) \<le> length xs"
  using assms
proof (induction xs rule: rev_induct)
  case Nil
  then show ?case by (simp add: acc_default_def)
next
  case (snoc x xs)
  let ?a = "acc_all xs"
  obtain t m where x: "x = (t, m)"
    by (cases x)
  have IH: "unat (ac_rss_count ?a) = length xs" "ac_rss_sum ?a = (\<Sum>(t, m) \<leftarrow> xs. unat (me_rss_kib m))"
    "ac_rss_sum ?a \<le> length xs * unat (ac_rss_peak ?a)"
    "ac_cpu_sum ?a \<le> unat (ac_cpu_count ?a) * unat (ac_cpu_peak ?a)" "unat (ac_cpu_count ?a) \<le> length xs"
    using snoc by simp_all
  have peak: "unat (max a b) = max (unat a) (unat b)" for a b :: "'b::len word"
    by (simp add: max_def word_le_nat_alt)
  have grow: "n * p + v \<le> Suc n * max p v" for n p v :: nat
  proof -
    have "n * p \<le> n * max p v"
      by (rule mult_le_mono2) simp
    then have "v + n * p \<le> max p v + n * max p v"
      by (rule add_mono[rotated]) simp
    then show ?thesis
      by (simp only: mult_Suc add.commute)
  qed
  have count: "unat (ac_rss_count ?a + 1) = length xs + 1" "unat (ac_cpu_count ?a + 1) = unat (ac_cpu_count ?a) + 1"
    using IH(1,5) snoc.prems by (simp_all add: unat_plus_one)
  have "ac_rss_sum ?a + unat (me_rss_kib m) \<le> Suc (length xs) * max (unat (ac_rss_peak ?a)) (unat (me_rss_kib m))"
    using IH(3) grow(1)[of "length xs" "unat (ac_rss_peak ?a)" "unat (me_rss_kib m)"] by linarith
  moreover have "ac_cpu_sum ?a + unat (me_cpu_milli_percent m)
      \<le> Suc (unat (ac_cpu_count ?a)) * max (unat (ac_cpu_peak ?a)) (unat (me_cpu_milli_percent m))"
    using IH(4) grow(1)[of "unat (ac_cpu_count ?a)" "unat (ac_cpu_peak ?a)" "unat (me_cpu_milli_percent m)"]
    by linarith
  moreover have "acc_all (xs @ [x]) = acc_add t m ?a"
    by (simp add: x)
  ultimately show ?case
    using IH count
    by (cases "me_rates_available m")
      (simp_all only: acc_add_fields peak x map_append sum_list_append length_append list.map list.size
        sum_list.Cons sum_list.Nil prod.case if_True if_False add_0_right Suc_eq_plus1, simp_all)
qed

text \<open>An average lies below the peak, and bytes are not lost unless they exceed 64 bits.\<close>

lemma average_le:
  assumes "amount \<le> unat count * unat (peak :: u64)"
  shows "average_u64 amount count \<le> peak"
proof (cases "count = 0")
  case False
  then have "amount div unat count \<le> unat peak"
    using div_le_mono[OF assms, of "unat count"] by (simp add: unat_gt_0)
  then show ?thesis
    using False unsigned_less[of peak, where 'a = nat]
    by (simp add: average_u64_def saturating_u64_def word_le_nat_alt unat_of_nat min_def)
qed (simp add: average_u64_def)

lemma average_u32_le:
  assumes "amount \<le> unat count * unat (peak :: u32)"
  shows "average_u32 amount count \<le> peak"
proof (cases "count = 0")
  case False
  then have "amount div unat count \<le> unat peak"
    using div_le_mono[OF assms, of "unat count"] by (simp add: unat_gt_0)
  then show ?thesis
    using False unsigned_less[of peak, where 'a = nat]
    by (simp add: average_u32_def word_le_nat_alt unat_of_nat min_def)
qed (simp add: average_u32_def)

lemma finish_bounds:
  assumes "length xs < 2 ^ 64"
  shows "tp_rss_avg_kib (acc_finish (acc_all xs)) \<le> tp_rss_peak_kib (acc_finish (acc_all xs))"
    and "tp_cpu_avg_milli_percent (acc_finish (acc_all xs)) \<le> tp_cpu_peak_milli_percent (acc_finish (acc_all xs))"
  using acc_all_counts[OF assms] by (simp_all add: acc_finish_def average_le average_u32_le)

lemma length_slot_metrics: "length (slot_metrics timestamp scope start_ms width i samples) \<le> length samples"
  by (simp add: slot_metrics_def List.map_filter_def)

lemma slot_points_length: "length (slot_points timestamp scope start_ms width n samples) \<le> n"
  using length_filter_le[of "\<lambda>xs. xs \<noteq> []" "map (\<lambda>i. slot_metrics timestamp scope start_ms width i samples) [0..<n]"]
  by (simp add: slot_points_def)

lemma aggregate_bounds:
  assumes "aggregate frames scope start_ms end_ms max_points = Some series" and "length frames < 2 ^ 64"
    and "p \<in> set (ts_points series)"
  shows "tp_rss_avg_kib p \<le> tp_rss_peak_kib p
    \<and> tp_cpu_avg_milli_percent p \<le> tp_cpu_peak_milli_percent p"
proof -
  have "(ucast max_points :: u64) \<noteq> 0"
    using assms(1) by (auto simp: aggregate_def aggregate_by_def div_ceil_def)
  then have "max_points \<noteq> 0"
    by auto
  from aggregate_by_groups[OF this, of end_ms start_ms da_monotonic_ms frames scope]
  obtain width where "ts_points series = slot_points da_monotonic_ms scope start_ms width (unat max_points)
      (window da_monotonic_ms start_ms end_ms frames)"
    using assms(1) by (auto simp: aggregate_def Let_def)
  moreover have "length (slot_metrics da_monotonic_ms scope start_ms width i
      (window da_monotonic_ms start_ms end_ms frames)) < 2 ^ 64" for i
    using length_slot_metrics[of da_monotonic_ms scope start_ms width i "window da_monotonic_ms start_ms end_ms frames"]
      assms(2) by (simp add: window_def) (meson le_less_trans length_filter_le)
  ultimately show ?thesis
    using assms(3) finish_bounds
    by (auto simp: slot_points_def)
qed

end
