(* ===== verification/Metric_History.thy ===== *)
theory Metric_History
  imports Metric_Model
begin

text \<open>
  The samples of the last hour that the daemon keeps in memory
  (\<open>crates/persistd/src/dashboard/history.rs\<close>). What the compiler chooses, the sizes of the types and
  the capacity a \<open>VecDeque\<close> gets, is the parameter \<open>layout\<close>. A subtraction that could underflow, an
  addition that could overflow and the assertion of the constructor are branches \<open>None\<close>. Shown:
  none of them is taken, the accounted memory is what the samples take and stays within the limit,
  and the history is always the newest part of what was pushed.
\<close>

section \<open>Model\<close>

record layout =
  ly_history :: nat
  ly_box :: nat
  ly_sample :: nat
  ly_session :: nat
  ly_capacity :: "nat \<Rightarrow> nat"

record history =
  bh_frames :: "derived_sample list"
  bh_memory_bytes :: nat
  bh_base_bytes :: nat
  bh_max_bytes :: nat
  bh_max_age_ms :: u64
  bh_max_frames :: nat

text \<open>The capacity of the sessions of a stored sample is their number.\<close>

definition sample_bytes :: "layout \<Rightarrow> derived_sample \<Rightarrow> nat" where
  "sample_bytes ly sample = ly_sample ly + length (da_sessions sample) * ly_session ly"

definition with_limits :: "layout \<Rightarrow> nat \<Rightarrow> u64 \<Rightarrow> nat \<Rightarrow> history option" where
  "with_limits ly max_bytes max_age_ms max_frames =
     (let max_frames = max max_frames 1;
          base_bytes = ly_history ly + ly_capacity ly max_frames * ly_box ly
      in if base_bytes + ly_sample ly \<le> max_bytes
         then Some \<lparr>bh_frames = [], bh_memory_bytes = base_bytes, bh_base_bytes = base_bytes,
                    bh_max_bytes = max_bytes, bh_max_age_ms = max_age_ms, bh_max_frames = max_frames\<rparr>
         else None)"

definition pop_front :: "layout \<Rightarrow> history \<Rightarrow> (bool \<times> history) option" where
  "pop_front ly h =
     (case bh_frames h of
        [] \<Rightarrow> Some (False, h)
      | sample # rest \<Rightarrow>
          if bh_memory_bytes h < sample_bytes ly sample then None
          else Some (True, h\<lparr>bh_frames := rest,
                             bh_memory_bytes := bh_memory_bytes h - sample_bytes ly sample\<rparr>))"

definition limit_sample :: "layout \<Rightarrow> history \<Rightarrow> derived_sample \<Rightarrow> derived_sample" where
  "limit_sample ly h sample =
     (let sample = sample\<lparr>da_sessions := sort_key (\<lambda>s. sm_session_id (dse_metrics s)) (da_sessions sample)\<rparr>;
          available = bh_max_bytes h - bh_base_bytes h - ly_sample ly;
          max_sessions = available div ly_session ly
      in if max_sessions < length (da_sessions sample)
         then sample\<lparr>da_sessions := take max_sessions (da_sessions sample), da_completeness := PartialData\<rparr>
         else sample)"

lemma pop_front_shorter: "pop_front ly h = Some (True, h') \<Longrightarrow> length (bh_frames h') < length (bh_frames h)"
  by (auto simp: pop_front_def split: list.splits if_splits)

function evict :: "layout \<Rightarrow> nat \<Rightarrow> history \<Rightarrow> history option" where
  "evict ly sample_size h =
     (if bh_max_frames h \<le> length (bh_frames h)
         \<or> bh_max_bytes h < min usize_max (bh_memory_bytes h + sample_size)
      then
        (case pop_front ly h of
           None \<Rightarrow> None
         | Some (popped, h') \<Rightarrow> if popped then evict ly sample_size h' else Some h')
      else Some h)"
  by pat_completeness auto
termination
  by (relation "measure (\<lambda>(_, _, h). length (bh_frames h))") (auto dest: pop_front_shorter)

declare evict.simps [simp del]

function expire :: "layout \<Rightarrow> u64 \<Rightarrow> history \<Rightarrow> history option" where
  "expire ly newest h =
     (case bh_frames h of
        [] \<Rightarrow> Some h
      | oldest # _ \<Rightarrow>
          if bh_max_age_ms h < saturating_sub_u64 newest (da_monotonic_ms oldest)
          then
            (case pop_front ly h of
               None \<Rightarrow> None
             | Some (popped, h') \<Rightarrow> if popped then expire ly newest h' else Some h')
          else Some h)"
  by pat_completeness auto
termination
  by (relation "measure (\<lambda>(_, _, h). length (bh_frames h))") (auto dest: pop_front_shorter)

declare expire.simps [simp del]

definition history_push :: "layout \<Rightarrow> derived_sample \<Rightarrow> history \<Rightarrow> history option" where
  "history_push ly sample h =
     (let sample = limit_sample ly h sample;
          sample_size = sample_bytes ly sample
      in case evict ly sample_size h of
           None \<Rightarrow> None
         | Some h \<Rightarrow>
             let newest = da_monotonic_ms sample
             in case checked_add_usize (bh_memory_bytes h) sample_size of
                  None \<Rightarrow> None
                | Some memory \<Rightarrow>
                    expire ly newest (h\<lparr>bh_memory_bytes := memory, bh_frames := bh_frames h @ [sample]\<rparr>))"

definition history_len :: "history \<Rightarrow> nat" where
  "history_len h = length (bh_frames h)"

definition history_latest :: "history \<Rightarrow> derived_sample option" where
  "history_latest h = (if bh_frames h = [] then None else Some (last (bh_frames h)))"

definition oldest_monotonic_ms :: "history \<Rightarrow> u64 option" where
  "oldest_monotonic_ms h = (case bh_frames h of [] \<Rightarrow> None | s # _ \<Rightarrow> Some (da_monotonic_ms s))"

definition trend :: "history \<Rightarrow> trend_scope \<Rightarrow> u64 \<Rightarrow> u64 \<Rightarrow> u16 \<Rightarrow> trend_series option" where
  "trend h scope now_ms window_ms max_points =
     (if window_ms = 0 \<or> max_points = 0 \<or> MAX_TREND_POINTS < max_points then Some series_unavailable
      else aggregate (bh_frames h) scope (saturating_sub_u64 now_ms window_ms) now_ms max_points)"

definition minute_series :: "history \<Rightarrow> trend_scope \<Rightarrow> u64 \<Rightarrow> trend_series option" where
  "minute_series h scope start_ms =
     aggregate_wall (bh_frames h) scope start_ms (saturating_add_u64 start_ms 60000) 1"

definition minute_point :: "history \<Rightarrow> trend_scope \<Rightarrow> u64 \<Rightarrow> trend_point option option" where
  "minute_point h scope start_ms =
     map_option (\<lambda>series. case ts_points series of [] \<Rightarrow> None | p # _ \<Rightarrow> Some p) (minute_series h scope start_ms)"

definition session_ids_wall :: "history \<Rightarrow> u64 \<Rightarrow> u64 \<Rightarrow> u32 list" where
  "session_ids_wall h start_ms end_ms =
     remdups_adj (sort (concat (map (\<lambda>s. map (\<lambda>x. sm_session_id (dse_metrics x)) (da_sessions s))
       (filter (\<lambda>s. start_ms < da_sampled_at_ms s \<and> da_sampled_at_ms s \<le> end_ms) (bh_frames h)))))"

section \<open>Invariant\<close>

definition frames_bytes :: "layout \<Rightarrow> derived_sample list \<Rightarrow> nat" where
  "frames_bytes ly frames = sum_list (map (sample_bytes ly) frames)"

text \<open>The memory that is accounted for, without the limits that a push restores.\<close>

definition accounted :: "layout \<Rightarrow> history \<Rightarrow> bool" where
  "accounted ly h \<longleftrightarrow> bh_memory_bytes h = bh_base_bytes h + frames_bytes ly (bh_frames h)"

definition history_inv :: "layout \<Rightarrow> history \<Rightarrow> bool" where
  "history_inv ly h \<longleftrightarrow> accounted ly h \<and> bh_memory_bytes h \<le> bh_max_bytes h
     \<and> length (bh_frames h) \<le> bh_max_frames h \<and> 0 < bh_max_frames h
     \<and> bh_base_bytes h + ly_sample ly \<le> bh_max_bytes h \<and> bh_max_bytes h < usize_max"

definition same_limits :: "history \<Rightarrow> history \<Rightarrow> bool" where
  "same_limits h h' \<longleftrightarrow> bh_base_bytes h' = bh_base_bytes h \<and> bh_max_bytes h' = bh_max_bytes h
     \<and> bh_max_age_ms h' = bh_max_age_ms h \<and> bh_max_frames h' = bh_max_frames h"

lemma history_new_inv:
  "with_limits ly max_bytes max_age max_frames = Some h \<Longrightarrow> max_bytes < usize_max \<Longrightarrow>
   history_inv ly h \<and> bh_frames h = []"
  by (auto simp: with_limits_def history_inv_def accounted_def frames_bytes_def Let_def split: if_splits)

lemma pop_front_accounted:
  assumes "accounted ly h" and "bh_frames h = f # rest"
  shows "\<exists>h'. pop_front ly h = Some (True, h') \<and> accounted ly h' \<and> same_limits h h' \<and> bh_frames h' = rest"
  using assms by (simp add: pop_front_def accounted_def frames_bytes_def same_limits_def)

lemma same_limits_trans: "same_limits h h1 \<Longrightarrow> same_limits h1 h2 \<Longrightarrow> same_limits h h2"
  by (simp add: same_limits_def)

text \<open>Eviction stops with room for the sample, or with nothing left.\<close>

lemma evict_ends:
  assumes "accounted ly h"
  shows "\<exists>h' k. evict ly n h = Some h' \<and> accounted ly h' \<and> same_limits h h'
    \<and> bh_frames h' = drop k (bh_frames h) \<and> k \<le> length (bh_frames h)
    \<and> (bh_frames h' = []
       \<or> length (bh_frames h') < bh_max_frames h \<and> min usize_max (bh_memory_bytes h' + n) \<le> bh_max_bytes h)"
  using assms
proof (induction "length (bh_frames h)" arbitrary: h rule: less_induct)
  case less
  show ?case
  proof (cases "bh_max_frames h \<le> length (bh_frames h) \<or> bh_max_bytes h < min usize_max (bh_memory_bytes h + n)")
    case False
    then show ?thesis
      using less.prems by (subst evict.simps, intro exI[of _ h] exI[of _ 0]) (auto simp: same_limits_def)
  next
    case True
    show ?thesis
    proof (cases "bh_frames h")
      case Nil
      then show ?thesis
        using less.prems True
        by (subst evict.simps, intro exI[of _ h] exI[of _ 0]) (auto simp: pop_front_def same_limits_def)
    next
      case (Cons f rest)
      obtain h1 where h1: "pop_front ly h = Some (True, h1)" "accounted ly h1" "same_limits h h1" "bh_frames h1 = rest"
        using pop_front_accounted[OF less.prems Cons] by blast
      have "length (bh_frames h1) < length (bh_frames h)"
        by (simp add: h1(4) Cons)
      from less.hyps[OF this h1(2)] obtain h' k where "evict ly n h1 = Some h'" "accounted ly h'" "same_limits h1 h'"
        "bh_frames h' = drop k (bh_frames h1)" "k \<le> length (bh_frames h1)"
        "bh_frames h' = [] \<or> length (bh_frames h') < bh_max_frames h1
           \<and> min usize_max (bh_memory_bytes h' + n) \<le> bh_max_bytes h1"
        by blast
      then show ?thesis
        using h1 Cons True same_limits_trans[OF h1(3)]
        by (subst evict.simps, intro exI[of _ h'] exI[of _ "Suc k"]) (auto simp: same_limits_def)
    qed
  qed
qed

lemma expire_ends:
  assumes "accounted ly h"
  shows "\<exists>h' k. expire ly newest h = Some h' \<and> accounted ly h' \<and> same_limits h h'
    \<and> bh_frames h' = drop k (bh_frames h) \<and> k \<le> length (bh_frames h)
    \<and> (\<forall>i < k. bh_max_age_ms h < saturating_sub_u64 newest (da_monotonic_ms (bh_frames h ! i)))
    \<and> (\<forall>f rest. bh_frames h' = f # rest \<longrightarrow> saturating_sub_u64 newest (da_monotonic_ms f) \<le> bh_max_age_ms h)"
  using assms
proof (induction "length (bh_frames h)" arbitrary: h rule: less_induct)
  case less
  show ?case
  proof (cases "bh_frames h")
    case Nil
    then show ?thesis
      using less.prems by (subst expire.simps, intro exI[of _ h] exI[of _ 0]) (auto simp: same_limits_def)
  next
    case (Cons f rest)
    show ?thesis
    proof (cases "bh_max_age_ms h < saturating_sub_u64 newest (da_monotonic_ms f)")
      case False
      then show ?thesis
        using less.prems Cons
        by (subst expire.simps, intro exI[of _ h] exI[of _ 0]) (auto simp: same_limits_def not_less)
    next
      case True
      obtain h1 where h1: "pop_front ly h = Some (True, h1)" "accounted ly h1" "same_limits h h1" "bh_frames h1 = rest"
        using pop_front_accounted[OF less.prems Cons] by blast
      have "length (bh_frames h1) < length (bh_frames h)"
        by (simp add: h1(4) Cons)
      from less.hyps[OF this h1(2)] obtain h' k where h': "expire ly newest h1 = Some h'" "accounted ly h'" "same_limits h1 h'"
        "bh_frames h' = drop k (bh_frames h1)" "k \<le> length (bh_frames h1)"
        "\<forall>i < k. bh_max_age_ms h1 < saturating_sub_u64 newest (da_monotonic_ms (bh_frames h1 ! i))"
        "\<forall>f rest. bh_frames h' = f # rest \<longrightarrow> saturating_sub_u64 newest (da_monotonic_ms f) \<le> bh_max_age_ms h1"
        by blast
      have "bh_max_age_ms h < saturating_sub_u64 newest (da_monotonic_ms (bh_frames h ! i))" if "i < Suc k" for i
        using h'(6) h1 Cons True that by (cases i) (auto simp: same_limits_def)
      then show ?thesis
        using h1 h' Cons True same_limits_trans[OF h1(3) h'(3)]
        by (subst expire.simps, intro exI[of _ h'] exI[of _ "Suc k"]) (auto simp: same_limits_def)
    qed
  qed
qed

lemma limited_sample_fits:
  assumes "bh_base_bytes h + ly_sample ly \<le> bh_max_bytes h"
  shows "bh_base_bytes h + sample_bytes ly (limit_sample ly h s) \<le> bh_max_bytes h"
proof -
  let ?room = "bh_max_bytes h - bh_base_bytes h - ly_sample ly"
  have "length (da_sessions (limit_sample ly h s)) \<le> ?room div ly_session ly"
    by (simp add: limit_sample_def Let_def)
  then have "length (da_sessions (limit_sample ly h s)) * ly_session ly \<le> ?room div ly_session ly * ly_session ly"
    by (rule mult_le_mono1)
  also have "\<dots> \<le> ?room"
    by simp
  finally show ?thesis
    using assms by (simp add: sample_bytes_def)
qed

lemma history_push_ok:
  assumes "history_inv ly h"
  shows "\<exists>h' k. history_push ly s h = Some h' \<and> history_inv ly h' \<and> k \<le> length (bh_frames h)
    \<and> bh_frames h' = drop k (bh_frames h) @ [limit_sample ly h s] \<and> same_limits h h'
    \<and> (\<forall>f rest. bh_frames h' = f # rest \<longrightarrow>
         saturating_sub_u64 (da_monotonic_ms s) (da_monotonic_ms f) \<le> bh_max_age_ms h)"
proof -
  let ?s = "limit_sample ly h s"
  have inv: "accounted ly h" "0 < bh_max_frames h" "bh_base_bytes h + ly_sample ly \<le> bh_max_bytes h"
    "bh_max_bytes h < usize_max"
    using assms by (simp_all add: history_inv_def)
  have time: "da_monotonic_ms ?s = da_monotonic_ms s"
    by (simp add: limit_sample_def Let_def)
  obtain h1 k1 where h1: "evict ly (sample_bytes ly ?s) h = Some h1" "accounted ly h1" "same_limits h h1"
    "bh_frames h1 = drop k1 (bh_frames h)" "k1 \<le> length (bh_frames h)"
    and full: "bh_frames h1 = [] \<or> length (bh_frames h1) < bh_max_frames h
       \<and> min usize_max (bh_memory_bytes h1 + sample_bytes ly ?s) \<le> bh_max_bytes h"
    using evict_ends[OF inv(1)] by blast
  have room: "bh_memory_bytes h1 + sample_bytes ly ?s \<le> bh_max_bytes h"
  proof (cases "bh_frames h1 = []")
    case True
    then have "bh_memory_bytes h1 = bh_base_bytes h"
      using h1(2,3) by (simp add: accounted_def frames_bytes_def same_limits_def)
    then show ?thesis
      using limited_sample_fits[OF inv(3), of s] by simp
  next
    case False
    then show ?thesis
      using full inv(4) by (auto simp: min_def split: if_splits)
  qed
  let ?h2 = "h1\<lparr>bh_memory_bytes := bh_memory_bytes h1 + sample_bytes ly ?s, bh_frames := bh_frames h1 @ [?s]\<rparr>"
  have "accounted ly ?h2"
    using h1(2) by (simp add: accounted_def frames_bytes_def)
  from expire_ends[OF this, of "da_monotonic_ms s"] obtain h' k where h':
    "expire ly (da_monotonic_ms s) ?h2 = Some h'" "accounted ly h'" "same_limits ?h2 h'"
    "bh_frames h' = drop k (bh_frames h1 @ [?s])" "k \<le> Suc (length (bh_frames h1))"
    "\<forall>i < k. bh_max_age_ms h1 < saturating_sub_u64 (da_monotonic_ms s) (da_monotonic_ms ((bh_frames h1 @ [?s]) ! i))"
    "\<forall>f rest. bh_frames h' = f # rest \<longrightarrow> saturating_sub_u64 (da_monotonic_ms s) (da_monotonic_ms f) \<le> bh_max_age_ms h1"
    by auto
  have "k \<noteq> Suc (length (bh_frames h1))"
    using h'(6) time by (auto simp: saturating_sub_u64_def dest: spec[of _ "length (bh_frames h1)"])
  then have k: "k \<le> length (bh_frames h1)"
    using h'(5) by simp
  have frames: "bh_frames h' = drop (k + k1) (bh_frames h) @ [?s]"
    using h'(4) h1(4) k by simp
  have same: "same_limits h h'"
    using h1(3) h'(3) by (simp add: same_limits_def)
  have "frames_bytes ly (drop k (bh_frames h1 @ [?s])) \<le> frames_bytes ly (bh_frames h1 @ [?s])"
    by (metis append_take_drop_id frames_bytes_def le_add2 map_append sum_list_append)
  then have memory: "bh_memory_bytes h' \<le> bh_max_bytes h"
    using room h'(2,4) h1(2) same h1(3)
    by (simp add: accounted_def same_limits_def frames_bytes_def)
  have "length (bh_frames h1) < bh_max_frames h"
    using full inv(2) by auto
  then have len: "length (bh_frames h') \<le> bh_max_frames h"
    using h'(4) by simp
  have inv': "history_inv ly h'"
    using memory len inv(2-4) h'(2) same by (simp add: history_inv_def same_limits_def)
  have push: "history_push ly s h = Some h'"
    using h1(1) h'(1) room inv(4) time by (simp add: history_push_def Let_def checked_add_usize_def)
  have "k + k1 \<le> length (bh_frames h)"
    using k h1(4,5) by simp
  then show ?thesis
    using push inv' frames same h'(7) h1(3) by (intro exI[of _ h'] exI[of _ "k + k1"]) (simp add: same_limits_def)
qed

section \<open>Any number of samples\<close>

primrec history_push_all :: "layout \<Rightarrow> derived_sample list \<Rightarrow> history \<Rightarrow> history option" where
  "history_push_all ly [] h = Some h"
| "history_push_all ly (s # ss) h = Option.bind (history_push ly s h) (history_push_all ly ss)"

lemma limit_sample_same: "same_limits h h' \<Longrightarrow> limit_sample ly h' s = limit_sample ly h s"
  by (simp add: limit_sample_def same_limits_def)

lemma history_push_all_ok:
  assumes "history_inv ly h"
  shows "\<exists>h' k. history_push_all ly ss h = Some h' \<and> history_inv ly h' \<and> same_limits h h'
    \<and> bh_frames h' = drop k (bh_frames h @ map (limit_sample ly h) ss)
    \<and> k \<le> length (bh_frames h) + (length ss - 1)"
  using assms
proof (induction ss arbitrary: h)
  case Nil
  then show ?case
    by (intro exI[of _ h] exI[of _ 0]) (simp add: same_limits_def)
next
  case (Cons s ss)
  obtain h1 k1 where h1: "history_push ly s h = Some h1" "history_inv ly h1" "k1 \<le> length (bh_frames h)"
    "bh_frames h1 = drop k1 (bh_frames h) @ [limit_sample ly h s]" "same_limits h h1"
    using history_push_ok[OF Cons.prems, of s] by blast
  obtain h' k where h': "history_push_all ly ss h1 = Some h'" "history_inv ly h'" "same_limits h1 h'"
    "bh_frames h' = drop k (bh_frames h1 @ map (limit_sample ly h1) ss)"
    "k \<le> length (bh_frames h1) + (length ss - 1)"
    using Cons.IH[OF h1(2)] by blast
  have "limit_sample ly h1 = limit_sample ly h"
    using limit_sample_same[OF h1(5)] by (simp add: fun_eq_iff)
  then have frames: "bh_frames h' = drop (k + k1) (bh_frames h @ map (limit_sample ly h) (s # ss))"
    using h'(4) h1(3,4) by simp
  show ?case
  proof (cases "ss = []")
    case True
    then show ?thesis
      using h1 h' same_limits_trans[OF h1(5) h'(3)]
      by (intro exI[of _ h1] exI[of _ k1]) simp
  next
    case False
    then have "k + k1 \<le> length (bh_frames h) + length ss"
      using h'(5) h1(3,4) by (cases ss) auto
    then show ?thesis
      using frames h1(1) h' same_limits_trans[OF h1(5) h'(3)]
      by (intro exI[of _ h'] exI[of _ "k + k1"]) simp
  qed
qed

end
