(* ===== verification/Metric_Samples.thy ===== *)
theory Metric_Samples
  imports Metric_Segment Metric_History
begin

text \<open>
  Concrete values of the metric components: a minute with one session, limits of the storage, a
  cut off tail, samples of the dashboard and a history. The witnesses of the properties use them.
\<close>

section \<open>Segments\<close>

definition demo_point :: trend_point where
  "demo_point = \<lparr>tp_timestamp_ms = 60000, tp_cpu_avg_milli_percent = 250, tp_cpu_peak_milli_percent = 900,
     tp_rss_avg_kib = 2048, tp_rss_peak_kib = 2100, tp_read_bytes = 10, tp_write_bytes = 20,
     tp_process_count_peak = 2, tp_session_count = 1, tp_runtime_count = 1, tp_active_writer_count = 1,
     tp_readonly_client_count = 0\<rparr>"

definition demo_minute :: minute_record where
  "demo_minute = \<lparr>mr_timestamp_ms = 60000, mr_completeness = CompleteData, mr_daemon = demo_point,
     mr_sessions = [\<lparr>mi_session_id = 7, mi_completeness = PartialData, mi_point = demo_point\<rparr>]\<rparr>"

definition demo_limits :: storage_limits where
  "demo_limits = \<lparr>sl_max_segments = 2, sl_max_total_bytes = 1000, sl_max_segment_bytes = 500,
     sl_max_record_bytes = 200, sl_max_directory_entries = 4\<rparr>"

definition demo_header :: segment_header where
  "demo_header = \<lparr>sh_hour_start_ms = 0, sh_sequence = 0\<rparr>"

lemma demo_minute_ok: "minute_ok demo_minute"
  by (simp add: minute_ok_def demo_minute_def demo_point_def timestamps_match_def)

lemma length_demo_minute [simp]: "length (wire_minute demo_minute) = 152"
  by (simp add: length_wire_minute demo_minute_def SESSION_POINT_SIZE_def)

lemma be_nat_numeral: "be_nat (numeral n) k = be_nat (pred_numeral n) (k div 256) @ [of_nat k]"
  by (simp only: numeral_eq_Suc[of n] be_nat.simps)

lemma demo_minute_head: "wire_minute demo_minute = [] @ 0 # tl (wire_minute demo_minute)"
  by (simp add: wire_minute_def demo_minute_def to_be_bytes_def be_nat_numeral)

lemma demo_storable: "storable demo_limits (sh_hour_start_ms demo_header) demo_minute"
  by (simp add: storable_def demo_minute_ok) (simp add: demo_limits_def demo_header_def demo_minute_def hour_of_def)

lemma demo_cut: "cut_record demo_limits [0, 0, 0, 152]"
  unfolding cut_record_def
  by (intro conjI exI[of _ demo_minute] exI[of _ "drop 4 (framed demo_minute)"])
    (simp_all add: demo_minute_ok, simp_all add: demo_limits_def framed_def to_be_bytes_def be_nat_numeral)

section \<open>Samples\<close>

definition demo_daemon :: derived_daemon where
  "demo_daemon = \<lparr>dd_metrics = \<lparr>dm_pid = 1, dm_rates_available = True, dm_cpu_milli_percent = 100,
       dm_rss_kib = 2000, dm_read_bytes_per_sec = 5, dm_write_bytes_per_sec = 6, dm_session_count = 0,
       dm_runtime_count = 0, dm_active_writer_count = 0, dm_readonly_client_count = 0\<rparr>,
     dd_process_count = 1, dd_read_bytes_delta = 10, dd_write_bytes_delta = 12\<rparr>"

definition demo_sample :: "u64 \<Rightarrow> derived_sample" where
  "demo_sample t = \<lparr>da_sampled_at_ms = t, da_monotonic_ms = t, da_completeness = CompleteData,
     da_daemon = demo_daemon, da_sessions = []\<rparr>"

definition demo_layout :: layout where
  "demo_layout = \<lparr>ly_history = 64, ly_box = 8, ly_sample = 100, ly_session = 80, ly_capacity = (\<lambda>n. n)\<rparr>"

definition demo_history :: history where
  "demo_history = \<lparr>bh_frames = [], bh_memory_bytes = 80, bh_base_bytes = 80, bh_max_bytes = 400,
     bh_max_age_ms = 60000, bh_max_frames = 2\<rparr>"

lemma demo_history_new: "with_limits demo_layout 400 60000 2 = Some demo_history"
  by (simp add: with_limits_def demo_layout_def demo_history_def)

end
