(* ===== verification/Metric_Storage_Inv.thy ===== *)
theory Metric_Storage_Inv
  imports Metric_Storage Metric_Samples
begin

text \<open>
  What the metric storage promises. The records of a directory are seen as a map from segments to
  their records; appending a record extends one segment of it, repairing does not change it, and
  rotating removes whole segments.
\<close>

section \<open>Names of segments\<close>

lemma show_nat_digits: "list_all is_digit (show_nat n) \<and> show_nat n \<noteq> []"
proof (induction n rule: show_nat.induct)
  case (1 n)
  have digit: "is_digit (of_nat (48 + d))" if "d < 10" for d
    using unat_digit[OF that] that by (simp add: is_digit_def word_le_nat_alt del: of_nat_add)
  show ?case
    using 1 digit[of n] digit[of "n mod 10"] by (subst show_nat.simps, subst show_nat.simps) (simp del: of_nat_add)
qed

lemma zero_padded_digits: "list_all is_digit (zero_padded w n)" "zero_padded w n \<noteq> []"
  using show_nat_digits[of n] by (auto simp: zero_padded_def list_all_iff is_digit_def)

lemma read_zero_padded [simp]: "read_nat (zero_padded w n) = n"
proof -
  have "read_nat (replicate k 48 @ s) = read_nat s" for k and s :: rstring
    unfolding read_nat_def by (induction k) simp_all
  then show ?thesis
    by (simp add: zero_padded_def read_show_nat)
qed

lemma digit_not: "is_digit b \<Longrightarrow> b \<noteq> 43 \<and> b \<noteq> 45 \<and> b < 0x80"
  by (auto simp: is_digit_def word_le_nat_alt word_less_nat_alt)

lemma parse_zero_padded [simp]: "parse_uint limit (zero_padded w n) = (if n \<le> limit then Some n else None)"
proof -
  obtain c cs where p: "zero_padded w n = c # cs"
    using zero_padded_digits(2) by (cases "zero_padded w n") auto
  then have "c \<noteq> 43"
    using zero_padded_digits(1)[of w n] digit_not[of c] by simp
  then show ?thesis
    using zero_padded_digits(1)[of w n] read_zero_padded[of w n] by (simp add: parse_uint_def p not_le)
qed

lemma ascii_bytes: "list_all (\<lambda>b. b < 0x80) SEGMENT_PREFIX" "list_all (\<lambda>b. b < 0x80) SEGMENT_SUFFIX"
  by (simp_all add: SEGMENT_PREFIX_def SEGMENT_SUFFIX_def ascii_def)

definition segment_file :: "rstring \<Rightarrow> bool" where
  "segment_file name \<longleftrightarrow> utf8_valid name \<and> starts_with SEGMENT_PREFIX name \<and> ends_with SEGMENT_SUFFIX name"

lemma segment_name_file: "segment_file (segment_name h n)"
proof -
  have "list_all (\<lambda>b. b < 0x80) (zero_padded w k)" for w k
    using zero_padded_digits(1)[of w k] by (auto simp: list_all_iff dest: digit_not)
  then show ?thesis
    using ascii_bytes
    by (auto simp: segment_file_def segment_name_def starts_with_def ends_with_def intro!: utf8_valid_ascii)
qed

lemma parse_segment_name_name: "parse_segment_name (segment_name h n) = Some (h, n)"
proof -
  let ?h = "zero_padded 20 (unat h)" and ?n = "zero_padded 10 (unat n)"
  have none: "x \<noteq> 45" if "x \<in> set ?h" for x
    using zero_padded_digits(1)[of 20 "unat h"] that digit_not[of x] by (auto simp: list_all_iff)
  have tw: "takeWhile (\<lambda>b. b \<noteq> 45) (?h @ 45 # ?n) = ?h" "dropWhile (\<lambda>b. b \<noteq> 45) (?h @ 45 # ?n) = 45 # ?n"
    using none by (auto simp: takeWhile_append dropWhile_append)
  have middle: "take (length (segment_name h n) - length SEGMENT_PREFIX - length SEGMENT_SUFFIX)
      (drop (length SEGMENT_PREFIX) (segment_name h n)) = ?h @ 45 # ?n"
    by (simp add: segment_name_def)
  have limits: "unat h \<le> 2 ^ 64 - 1" "unat n \<le> 2 ^ 32 - 1"
    using unsigned_less[of h, where 'a = nat] unsigned_less[of n, where 'a = nat] by simp_all
  have "utf8_valid (segment_name h n) \<and> starts_with SEGMENT_PREFIX (segment_name h n)
      \<and> ends_with SEGMENT_SUFFIX (drop (length SEGMENT_PREFIX) (segment_name h n))"
    using segment_name_file[of h n] by (simp add: segment_file_def) (simp add: segment_name_def ends_with_def)
  then show ?thesis
    unfolding parse_segment_name_def middle Let_def tw using limits by simp
qed

lemma segment_paths_mem: "name \<in> set (segment_paths fs) \<longleftrightarrow> segment_file name \<and> hm_get fs name \<noteq> None"
  by (auto simp: segment_paths_def segment_file_def map_of_eq_None_iff)

section \<open>The records of a directory\<close>

definition segment_records :: "storage_limits \<Rightarrow> directory \<Rightarrow> rstring \<Rightarrow> minute_record list option" where
  "segment_records limits fs name =
     (case hm_get fs name of
        None \<Rightarrow> None
      | Some c \<Rightarrow> (case fst (read_segment limits c) of Inl _ \<Rightarrow> None | Inr (ms, _) \<Rightarrow> Some ms))"

text \<open>The names and records of two directories agree; tails may have been cut off.\<close>

definition repaired :: "storage_limits \<Rightarrow> directory \<Rightarrow> directory \<Rightarrow> bool" where
  "repaired limits fs fs' \<longleftrightarrow> hm_keys fs' = hm_keys fs
     \<and> (\<forall>q. segment_records limits fs' q = segment_records limits fs q)
     \<and> (\<forall>q c. hm_get fs q = Some c \<longrightarrow> (\<exists>c'. hm_get fs' q = Some c' \<and> (c' = c \<or> snd (read_segment limits c) = c')))"

text \<open>The hour in the name of a segment is that of its header.\<close>

definition headers_match :: "directory \<Rightarrow> bool" where
  "headers_match fs \<longleftrightarrow> (\<forall>name c h n header. hm_get fs name = Some c \<longrightarrow> parse_segment_name name = Some (h, n)
     \<longrightarrow> decode_segment_header (take SEGMENT_HEADER_SIZE c) = Inr header \<longrightarrow> sh_hour_start_ms header = h)"

definition current_ok :: "storage_limits \<Rightarrow> directory \<Rightarrow> current_segment \<Rightarrow> minute_record list \<Rightarrow> bool" where
  "current_ok limits fs cur ms \<longleftrightarrow> segment_file (cs_path cur)
     \<and> (\<exists>h. sh_hour_start_ms h = cs_hour_start_ms cur
        \<and> hm_get fs (cs_path cur) = Some (encode_segment_header h @ concat (map framed ms)))
     \<and> list_all (storable limits (cs_hour_start_ms cur)) ms
     \<and> cs_bytes cur = SEGMENT_HEADER_SIZE + length (concat (map framed ms))
     \<and> cs_bytes cur \<le> sl_max_segment_bytes limits"

definition storage_inv :: "storage \<Rightarrow> directory \<Rightarrow> bool" where
  "storage_inv st fs \<longleftrightarrow> hm_wf fs \<and> headers_match fs
     \<and> (\<forall>cur. so_current st = Some cur \<longrightarrow> (\<exists>ms. current_ok (so_limits st) fs cur ms))"

lemma repaired_refl [simp]: "repaired limits fs fs"
  by (simp add: repaired_def)

lemma repaired_none: "repaired limits fs fs' \<Longrightarrow> hm_get fs' q = None \<longleftrightarrow> hm_get fs q = None"
  by (simp add: repaired_def map_of_eq_None_iff flip: set_map)

lemma repaired_wf: "repaired limits fs fs' \<Longrightarrow> hm_wf fs \<Longrightarrow> hm_wf fs'"
  by (simp add: repaired_def)

lemma read_segment_settles: "snd (read_segment limits (snd (read_segment limits c))) = snd (read_segment limits c)"
proof (cases "read_segment limits c")
  case (Pair r c')
  then show ?thesis
    using read_segment_failed[of limits c _ c'] read_segment_kept[of limits c _ _ c']
    by (cases r) (auto split: prod.splits)
qed

lemma repaired_trans:
  assumes "repaired limits fs fs'" and "repaired limits fs' fs''"
  shows "repaired limits fs fs''"
proof -
  have "\<exists>c''. hm_get fs'' q = Some c'' \<and> (c'' = c \<or> snd (read_segment limits c) = c'')"
    if "hm_get fs q = Some c" for q c
  proof -
    obtain c' where c': "hm_get fs' q = Some c'" "c' = c \<or> c' = snd (read_segment limits c)"
      using assms(1) \<open>hm_get fs q = Some c\<close> unfolding repaired_def by blast
    obtain c'' where "hm_get fs'' q = Some c''" "c'' = c' \<or> c'' = snd (read_segment limits c')"
      using assms(2) c'(1) unfolding repaired_def by blast
    then show ?thesis
      using c'(2) read_segment_settles[of limits c] by auto
  qed
  then show ?thesis
    using assms by (simp add: repaired_def)
qed

lemma read_path_repairs:
  assumes "read_path limits path fs = (r, fs')"
  shows "repaired limits fs fs'"
    and "r = Inr (ms, b) \<Longrightarrow> \<exists>c. hm_get fs path = Some c \<and> read_segment limits c = (Inr (ms, b), the (hm_get fs' path))
      \<and> hm_get fs' path \<noteq> None"
proof -
  show "r = Inr (ms, b) \<Longrightarrow> \<exists>c. hm_get fs path = Some c \<and> read_segment limits c = (Inr (ms, b), the (hm_get fs' path))
      \<and> hm_get fs' path \<noteq> None"
    using assms by (auto simp: read_path_def split: option.splits prod.splits if_splits)
  show "repaired limits fs fs'"
  proof (cases "hm_get fs path")
    case None
    then show ?thesis
      using assms by (simp add: read_path_def)
  next
    case (Some c)
    obtain r' c' where c': "read_segment limits c = (r', c')"
      by (cases "read_segment limits c")
    show ?thesis
    proof (cases "c' = c")
      case True
      then show ?thesis
        using assms Some c' by (simp add: read_path_def)
    next
      case False
      then obtain ms b where r': "r' = Inr (ms, b)"
        using read_segment_failed c' by (cases r') auto
      have "fs' = hm_insert path c' fs"
        using assms Some c' False by (simp add: read_path_def)
      moreover have "path \<in> set (hm_keys fs)"
        using map_of_SomeD[OF Some] by force
      ultimately show ?thesis
        using Some c' read_segment_kept[OF c'[unfolded r']]
        by (auto simp: repaired_def segment_records_def update_keys r')
    qed
  qed
qed

lemma repaired_headers:
  assumes "repaired limits fs fs'" and "headers_match fs"
  shows "headers_match fs'"
proof -
  have "take SEGMENT_HEADER_SIZE (snd (read_segment limits c)) = take SEGMENT_HEADER_SIZE c" for c
  proof (cases "read_segment limits c")
    case (Pair r c')
    show ?thesis
    proof (cases r)
      case (Inl e)
      then show ?thesis
        using read_segment_failed[of limits c e c'] Pair by simp
    next
      case (Inr x)
      then obtain ms b where "r = Inr (ms, b)"
        by (cases x) auto
      then obtain h tail where "c' = encode_segment_header h @ concat (map framed ms)" "c = c' @ tail"
        using read_segment_sound Pair by metis
      then show ?thesis
        using Pair by simp
    qed
  qed
  then have "\<exists>c0. hm_get fs q = Some c0 \<and> take SEGMENT_HEADER_SIZE c = take SEGMENT_HEADER_SIZE c0"
    if "hm_get fs' q = Some c" for q c
    using that assms(1) repaired_none[OF assms(1), of q] unfolding repaired_def
    by (metis not_None_eq option.inject)
  then show ?thesis
    using assms(2) unfolding headers_match_def by metis
qed

lemma current_of_records:
  assumes "read_segment limits c = (Inr (ms, b), c')" and "hm_get fs path = Some c'"
    and "segment_file path" and "parse_segment_name path = Some (hour, n)" and "headers_match fs"
  shows "current_ok limits fs \<lparr>cs_hour_start_ms = hour, cs_path = path, cs_bytes = length c'\<rparr> ms"
proof -
  obtain h tail where h: "list_all (storable limits (sh_hour_start_ms h)) ms"
    "c' = encode_segment_header h @ concat (map framed ms)" "c = c' @ tail" "length c \<le> sl_max_segment_bytes limits"
    using read_segment_sound[OF assms(1)] by metis
  have "decode_segment_header (take SEGMENT_HEADER_SIZE c') = Inr h"
    using h(2) by (simp add: segment_header_codec)
  then have "sh_hour_start_ms h = hour"
    using assms(2,4,5) unfolding headers_match_def by blast
  then show ?thesis
    using h assms(2,3) by (auto simp: current_ok_def)
qed

lemma resume_ok:
  assumes "resume_from limits hour t n paths fs = (r, fs')" and "headers_match fs"
    and "\<forall>p \<in> set paths. segment_file p"
  shows "repaired limits fs fs' \<and> (\<forall>cur last. r = Some (cur, last) \<longrightarrow> cs_hour_start_ms cur = hour
    \<and> cs_bytes cur + n \<le> sl_max_segment_bytes limits \<and> (\<exists>ms. current_ok limits fs' cur ms))"
  using assms
proof (induction paths arbitrary: fs)
  case Nil
  then show ?case by simp
next
  case (Cons p ps)
  show ?case
  proof (cases "map_option fst (parse_segment_name p) = Some hour")
    case False
    then show ?thesis
      using Cons by simp
  next
    case True
    obtain x fs1 where x: "read_path limits p fs = (x, fs1)"
      by (cases "read_path limits p fs")
    note rep = read_path_repairs(1)[OF x]
    show ?thesis
    proof (cases x)
      case (Inl e)
      then have "resume_from limits hour t n ps fs1 = (r, fs')"
        using Cons.prems(1) True x by simp
      then show ?thesis
        using Cons.IH[of fs1] Cons.prems(3) repaired_headers[OF rep Cons.prems(2)]
          repaired_trans[OF rep] by auto
    next
      case (Inr y)
      then obtain ms b where y: "x = Inr (ms, b)"
        by (cases y) auto
      obtain c where c: "read_segment limits c = (Inr (ms, b), the (hm_get fs1 p))" "hm_get fs1 p \<noteq> None"
        using read_path_repairs(2)[OF x y] by blast
      then obtain c' where c': "hm_get fs1 p = Some c'"
        by auto
      obtain k where "parse_segment_name p = Some (hour, k)"
        using True by auto
      then have "current_ok limits fs1 \<lparr>cs_hour_start_ms = hour, cs_path = p, cs_bytes = length c'\<rparr> ms"
        using current_of_records[of limits c ms b c' fs1 p hour k] c(1) c' Cons.prems(3)
          repaired_headers[OF rep Cons.prems(2)] by simp
      then show ?thesis
        using Cons.prems(1) True x y c' rep by (auto simp: Let_def not_less split: if_splits option.splits)
    qed
  qed
qed

section \<open>Creating and rotating\<close>

lemma create_ok:
  assumes "create_segment limits hour fs = (Inr cur, fs')" and "headers_match fs"
    and "SEGMENT_HEADER_SIZE \<le> sl_max_segment_bytes limits"
  shows "current_ok limits fs' cur [] \<and> cs_hour_start_ms cur = hour \<and> hm_get fs (cs_path cur) = None
    \<and> (\<exists>c. fs' = hm_insert (cs_path cur) c fs) \<and> headers_match fs' \<and> cs_bytes cur = SEGMENT_HEADER_SIZE"
proof -
  let ?n = "next_sequence (segment_paths fs) hour"
  let ?path = "segment_name hour ?n" and ?h = "\<lparr>sh_hour_start_ms = hour, sh_sequence = ?n\<rparr>"
  have new: "hm_get fs ?path = None" "fs' = hm_insert ?path (encode_segment_header ?h) fs"
    "cur = \<lparr>cs_hour_start_ms = hour, cs_path = ?path, cs_bytes = SEGMENT_HEADER_SIZE\<rparr>"
    using assms(1) by (auto simp: create_segment_def Let_def split: if_splits)
  have "headers_match fs'"
    using assms(2) parse_segment_name_name[of hour ?n] segment_header_codec[of "encode_segment_header ?h" ?h]
    unfolding headers_match_def new(2) by (auto split: if_splits)
  moreover have "current_ok limits fs' cur []"
    using assms(3) segment_name_file[of hour ?n] new(2,3)
    by (auto simp: current_ok_def intro: exI[of _ ?h])
  ultimately show ?thesis
    using new by auto
qed

lemma create_failed: "create_segment limits hour fs = (Inl e, fs') \<Longrightarrow> fs' = fs"
  by (auto simp: create_segment_def Let_def split: if_splits)

lemma headers_match_remove: "headers_match fs \<Longrightarrow> headers_match (hm_remove q fs)"
  by (simp add: headers_match_def)

lemma rotate_ok:
  assumes "rotate limits cur fs = (r, fs')" and "hm_wf fs" and "headers_match fs"
  shows "hm_wf fs' \<and> headers_match fs'
    \<and> (\<forall>q. hm_get fs' q = hm_get fs q \<or> hm_get fs' q = None \<and> map_option cs_path cur \<noteq> Some q)
    \<and> (r = Inr () \<longrightarrow> length (segment_paths fs') \<le> sl_max_segments limits
        \<and> total_bytes fs' (segment_paths fs') \<le> sl_max_total_bytes limits)"
  using assms
proof (induction limits cur fs rule: rotate.induct)
  case (1 limits cur fs)
  let ?paths = "segment_paths fs"
  show ?case
  proof (cases "length ?paths \<le> sl_max_segments limits \<and> total_bytes fs ?paths \<le> sl_max_total_bytes limits")
    case True
    then show ?thesis
      using "1.prems" by (subst (asm) rotate.simps) (simp add: Let_def)
  next
    case over: False
    show ?thesis
    proof (cases "find (\<lambda>path. map_option cs_path cur \<noteq> Some path) ?paths")
      case None
      then show ?thesis
        using "1.prems" over by (subst (asm) rotate.simps) (auto simp: Let_def)
    next
      case (Some oldest)
      then have other: "map_option cs_path cur \<noteq> Some oldest"
        by (auto simp: find_Some_iff)
      have "rotate limits cur (hm_remove oldest fs) = (r, fs')"
        using "1.prems"(1) over Some by (subst (asm) rotate.simps) (auto simp: Let_def)
      note IH = "1.IH"[OF refl refl over Some this hm_wf_remove[OF "1.prems"(2)] headers_match_remove[OF "1.prems"(3)]]
      then have "hm_get fs' q = hm_get fs q \<or> hm_get fs' q = None \<and> map_option cs_path cur \<noteq> Some q" for q
        using other hm_get_remove[of oldest fs q] by (metis (full_types))
      then show ?thesis
        using IH by blast
    qed
  qed
qed

section \<open>Appending\<close>

lemma append_current_ok:
  assumes "current_ok limits fs cur ms" and "storable limits (cs_hour_start_ms cur) m"
    and "cs_bytes cur + length (framed m) \<le> sl_max_segment_bytes limits" and "headers_match fs"
    and "write_all_to None (cs_path cur) (framed m) fs = (r, fs')"
  shows "current_ok limits fs' (cur\<lparr>cs_bytes := cs_bytes cur + length (framed m)\<rparr>) (ms @ [m])
    \<and> headers_match fs' \<and> (\<exists>c. fs' = hm_insert (cs_path cur) c fs)"
proof -
  obtain h where h: "sh_hour_start_ms h = cs_hour_start_ms cur"
    "hm_get fs (cs_path cur) = Some (encode_segment_header h @ concat (map framed ms))"
    using assms(1) by (auto simp: current_ok_def)
  have fs': "fs' = hm_insert (cs_path cur) (encode_segment_header h @ concat (map framed (ms @ [m]))) fs"
    using assms(5) h(2) by (simp add: write_all_to_def)
  have "headers_match fs'"
    using assms(4) h(2) unfolding headers_match_def fs' by (auto split: if_splits)
  then show ?thesis
    using assms(1-3) h(1) fs' by (auto simp: current_ok_def)
qed

lemma current_records:
  assumes "current_ok limits fs cur ms"
  shows "segment_records limits fs (cs_path cur) = Some ms"
proof -
  obtain h where h: "sh_hour_start_ms h = cs_hour_start_ms cur"
    "hm_get fs (cs_path cur) = Some (encode_segment_header h @ concat (map framed ms))"
    using assms by (auto simp: current_ok_def)
  then show ?thesis
    using assms read_segment_recovers[of limits h ms "[]"] by (simp add: segment_records_def current_ok_def)
qed

section \<open>One record is added\<close>

text \<open>What appending promises: one segment gets the record at its end, or is created with it, and
  every other segment keeps its records or is gone.\<close>

definition record_added :: "storage_limits \<Rightarrow> minute_record \<Rightarrow> directory \<Rightarrow> directory \<Rightarrow> bool" where
  "record_added limits m fs fs' \<longleftrightarrow> (\<exists>p old. segment_file p
     \<and> (segment_records limits fs p = Some old \<or> hm_get fs p = None \<and> old = [])
     \<and> segment_records limits fs' p = Some (old @ [m])
     \<and> (\<forall>q. q \<noteq> p \<longrightarrow> hm_get fs' q = None \<or> segment_records limits fs' q = segment_records limits fs q))"

lemma segment_records_cong: "hm_get fs' q = hm_get fs q \<Longrightarrow> segment_records limits fs' q = segment_records limits fs q"
  by (simp add: segment_records_def)

lemma append_to_current_ok:
  assumes "current_ok (so_limits st) fs cur ms" and "storable (so_limits st) (cs_hour_start_ms cur) m"
    and "cs_bytes cur + length (framed m) \<le> sl_max_segment_bytes (so_limits st)" and "hm_wf fs" and "headers_match fs"
    and "append_to_current None m (framed m) cur st fs = (r, st', fs')"
  shows "storage_inv st' fs' \<and> so_limits st' = so_limits st
    \<and> segment_records (so_limits st) fs' (cs_path cur) = Some (ms @ [m])
    \<and> (\<forall>q. q \<noteq> cs_path cur \<longrightarrow> hm_get fs' q = None \<or> segment_records (so_limits st) fs' q = segment_records (so_limits st) fs q)
    \<and> (r = Inr () \<longrightarrow> length (segment_paths fs') \<le> sl_max_segments (so_limits st)
        \<and> total_bytes fs' (segment_paths fs') \<le> sl_max_total_bytes (so_limits st))"
proof -
  let ?cur = "cur\<lparr>cs_bytes := cs_bytes cur + length (framed m)\<rparr>"
  obtain w fs1 where w: "write_all_to None (cs_path cur) (framed m) fs = (w, fs1)"
    by (cases "write_all_to None (cs_path cur) (framed m) fs")
  note grown = append_current_ok[OF assms(1-3,5) w]
  have w': "w = Inr ()"
    using w by (simp add: write_all_to_def Let_def)
  obtain c where fs1: "fs1 = hm_insert (cs_path cur) c fs"
    using grown by blast
  then have wf1: "hm_wf fs1" and other: "\<And>q. q \<noteq> cs_path cur \<Longrightarrow> hm_get fs1 q = hm_get fs q"
    using assms(4) by simp_all
  have st': "st' = st\<lparr>so_current := Some ?cur, so_last_timestamp_ms := Some (mr_timestamp_ms m)\<rparr>"
    and rot: "rotate (so_limits st) (Some ?cur) fs1 = (r, fs')"
    using assms(6) w w' by (auto simp: append_to_current_def Let_def split: prod.splits)
  note end_state = rotate_ok[OF rot wf1 conjunct1[OF conjunct2[OF grown]]]
  have same: "hm_get fs' (cs_path cur) = hm_get fs1 (cs_path cur)"
    using end_state by force
  then have cur_ok: "current_ok (so_limits st) fs' ?cur (ms @ [m])"
    using grown by (simp add: current_ok_def)
  have "storage_inv st' fs'"
    using end_state cur_ok by (auto simp: storage_inv_def st')
  moreover have "segment_records (so_limits st) fs' (cs_path cur) = Some (ms @ [m])"
    using current_records[OF cur_ok] by simp
  moreover have "hm_get fs' q = None \<or> segment_records (so_limits st) fs' q = segment_records (so_limits st) fs q"
    if "q \<noteq> cs_path cur" for q
    using end_state other[OF that] segment_records_cong[of fs' q fs] by metis
  ultimately show ?thesis
    using end_state by (simp add: st')
qed

lemma resume_step:
  assumes "storage_inv st fs"
    and "(if so_current st = None
          then (case resume_segment (so_limits st) hour t n fs of
                 (None, fs) \<Rightarrow> (st, fs)
               | (Some (current, last_timestamp), fs) \<Rightarrow>
                   (st\<lparr>so_current := Some current, so_last_timestamp_ms := last_timestamp\<rparr>, fs))
          else (st, fs)) = (st1, fs1)"
  shows "storage_inv st1 fs1 \<and> so_limits st1 = so_limits st \<and> repaired (so_limits st) fs fs1"
proof (cases "so_current st = None")
  case False
  then show ?thesis
    using assms by auto
next
  case True
  obtain x fs2 where x: "resume_segment (so_limits st) hour t n fs = (x, fs2)"
    by (cases "resume_segment (so_limits st) hour t n fs")
  have "repaired (so_limits st) fs fs2 \<and> (\<forall>cur last. x = Some (cur, last) \<longrightarrow> cs_hour_start_ms cur = hour
      \<and> cs_bytes cur + n \<le> sl_max_segment_bytes (so_limits st) \<and> (\<exists>ms. current_ok (so_limits st) fs2 cur ms))"
    using x assms(1) segment_paths_mem by (intro resume_ok) (auto simp: resume_segment_def storage_inv_def)
  moreover from this have "hm_wf fs2 \<and> headers_match fs2"
    using assms(1) repaired_headers repaired_wf unfolding storage_inv_def by blast
  ultimately show ?thesis
    using assms(2) x True by (cases x) (auto simp: storage_inv_def)
qed

lemma segment_step:
  assumes "storage_inv st fs" and "storable (so_limits st) hour m"
    and "SEGMENT_HEADER_SIZE + length (framed m) \<le> sl_max_segment_bytes (so_limits st)"
    and "(if needs_new st hour m (length (framed m)) then create_segment (so_limits st) hour fs
          else (Inr (the (so_current st)), fs)) = (Inr cur, fs1)"
  shows "\<exists>ms. current_ok (so_limits st) fs1 cur ms \<and> cs_hour_start_ms cur = hour
    \<and> cs_bytes cur + length (framed m) \<le> sl_max_segment_bytes (so_limits st) \<and> hm_wf fs1 \<and> headers_match fs1
    \<and> (segment_records (so_limits st) fs (cs_path cur) = Some ms \<or> hm_get fs (cs_path cur) = None \<and> ms = [])
    \<and> (\<forall>q. q \<noteq> cs_path cur \<longrightarrow> hm_get fs1 q = hm_get fs q)"
proof (cases "needs_new st hour m (length (framed m))")
  case True
  then have "create_segment (so_limits st) hour fs = (Inr cur, fs1)"
    using assms(4) by simp
  then show ?thesis
    using create_ok[of "so_limits st" hour fs cur fs1] assms(1,3)
    by (intro exI[of _ "[]"]) (auto simp: storage_inv_def)
next
  case False
  then have cur: "so_current st = Some cur" "fs1 = fs" "cs_hour_start_ms cur = hour"
    "cs_bytes cur + length (framed m) \<le> sl_max_segment_bytes (so_limits st)"
    using assms(4) by (auto simp: needs_new_def not_less split: option.splits if_splits)
  obtain ms where "current_ok (so_limits st) fs cur ms"
    using assms(1) cur(1) by (auto simp: storage_inv_def)
  then show ?thesis
    using cur assms(1) current_records by (intro exI[of _ ms]) (auto simp: storage_inv_def)
qed

lemma storage_append_ok:
  assumes "storage_inv st fs" and "storage_append None m st fs = (Inr (), st', fs')"
  shows "storage_inv st' fs' \<and> so_limits st' = so_limits st \<and> record_added (so_limits st) m fs fs'
    \<and> length (segment_paths fs') \<le> sl_max_segments (so_limits st)
    \<and> total_bytes fs' (segment_paths fs') \<le> sl_max_total_bytes (so_limits st)"
proof -
  let ?limits = "so_limits st" and ?hour = "hour_of (mr_timestamp_ms m)" and ?n = "length (framed m)"
  have frame: "frame_record m (sl_max_record_bytes ?limits) = Inr (framed m)" "storable ?limits ?hour m"
    and small: "SEGMENT_HEADER_SIZE + ?n \<le> sl_max_segment_bytes ?limits"
    using assms(2)
    by (auto simp: storage_append_def frame_record_iff storable_def not_less split: sum.splits if_splits)
  obtain st1 fs1 where one: "(if so_current st = None
          then (case resume_segment ?limits ?hour (mr_timestamp_ms m) ?n fs of
                 (None, fs) \<Rightarrow> (st, fs)
               | (Some (current, last_timestamp), fs) \<Rightarrow>
                   (st\<lparr>so_current := Some current, so_last_timestamp_ms := last_timestamp\<rparr>, fs))
          else (st, fs)) = (st1, fs1)"
    by (rule prod.exhaust)
  note resumed = resume_step[OF assms(1) one]
  obtain x fs2 where two: "(if needs_new st1 ?hour m ?n then create_segment (so_limits st1) ?hour fs1
      else (Inr (the (so_current st1)), fs1)) = (x, fs2)"
    by (rule prod.exhaust)
  have run: "(case x of Inl e \<Rightarrow> (Inl e, st1, fs2)
      | Inr current \<Rightarrow> append_to_current None m (framed m) current st1 fs2) = (Inr (), st', fs')"
    using assms(2) frame(1) one two
    by (simp add: storage_append_def Let_def split: if_splits)
  obtain cur where cur: "x = Inr cur"
    using run by (cases x) auto
  obtain ms where ms: "current_ok ?limits fs2 cur ms" "cs_hour_start_ms cur = ?hour"
    "cs_bytes cur + ?n \<le> sl_max_segment_bytes ?limits" "hm_wf fs2" "headers_match fs2"
    "segment_records ?limits fs1 (cs_path cur) = Some ms \<or> hm_get fs1 (cs_path cur) = None \<and> ms = []"
    "\<And>q. q \<noteq> cs_path cur \<Longrightarrow> hm_get fs2 q = hm_get fs1 q"
    using segment_step[of st1 fs1 ?hour m cur fs2] resumed frame(2) small two cur by auto
  have app: "append_to_current None m (framed m) cur st1 fs2 = (Inr (), st', fs')"
    using run cur by simp
  have limits: "so_limits st1 = ?limits"
    using resumed by blast
  note done_state = append_to_current_ok[of st1, unfolded limits, OF ms(1) _ ms(3-5) app, unfolded ms(2), OF frame(2)]
  have "segment_records ?limits fs1 q = segment_records ?limits fs q" "hm_get fs1 q = None \<longleftrightarrow> hm_get fs q = None" for q
    using resumed repaired_none[of ?limits fs fs1 q] by (auto simp: repaired_def)
  moreover have "segment_file (cs_path cur)"
    using ms(1) by (simp add: current_ok_def)
  ultimately have "record_added ?limits m fs fs'"
    using done_state ms(6) segment_records_cong[OF ms(7)] unfolding record_added_def
    by (intro exI[of _ "cs_path cur"] exI[of _ ms]) simp
  then show ?thesis
    using done_state by simp
qed

section \<open>Loading\<close>

abbreviation records_of :: "storage_limits \<Rightarrow> directory \<Rightarrow> rstring \<Rightarrow> minute_record list" where
  "records_of limits fs p \<equiv> (case segment_records limits fs p of None \<Rightarrow> [] | Some ms \<Rightarrow> ms)"

lemma read_path_result:
  assumes "read_path limits p fs = (r, fs')"
  shows "records_of limits fs p = (case r of Inl _ \<Rightarrow> [] | Inr (ms, _) \<Rightarrow> ms)"
  using assms by (auto simp: read_path_def segment_records_def split: option.splits prod.splits sum.splits)

lemma load_paths_records:
  assumes "load_paths limits paths report fs = (report', fs')"
  shows "repaired limits fs fs' \<and> lr_records report' = lr_records report @ concat (map (records_of limits fs) paths)"
  using assms
proof (induction paths arbitrary: report fs)
  case Nil
  then show ?case by simp
next
  case (Cons p ps)
  obtain r fs1 where r: "read_path limits p fs = (r, fs1)"
    by (cases "read_path limits p fs")
  note rep = read_path_repairs(1)[OF r]
  then have "records_of limits fs1 = records_of limits fs"
    by (simp add: repaired_def fun_eq_iff)
  then show ?case
    using Cons.prems r read_path_result[OF r] Cons.IH[of _ fs1] repaired_trans[OF rep]
    by (cases r) (auto split: prod.splits)
qed

lemma storage_load_records:
  "repaired limits fs (snd (storage_load limits fs)) \<and> lr_records (fst (storage_load limits fs)) =
    sort_key (\<lambda>r. unat (mr_timestamp_ms r)) (concat (map (records_of limits fs) (segment_paths fs)))"
  using load_paths_records[of limits "segment_paths fs" _ fs]
  by (auto simp: storage_load_def split: prod.splits)

lemma record_added_loaded:
  assumes "record_added limits m fs fs'"
  shows "m \<in> set (lr_records (fst (storage_load limits fs')))"
proof -
  obtain p old where p: "segment_file p" "segment_records limits fs' p = Some (old @ [m])"
    using assms by (auto simp: record_added_def)
  then have "p \<in> set (segment_paths fs')"
    by (auto simp: segment_paths_mem segment_records_def split: option.splits)
  then show ?thesis
    using p(2) conjunct2[OF storage_load_records, of limits fs'] by force
qed

section \<open>A record that was cut off\<close>

lemma four_bytes: "length (xs :: bytes) = 4 \<Longrightarrow> \<exists>a b c d. xs = [a, b, c, d]"
  by (auto simp: length_Suc_conv numeral_eq_Suc)

lemma rotate_succeeds:
  assumes "hm_wf fs" and "0 < sl_max_segments limits" and "hm_get fs (cs_path cur) = Some c"
    and "length c \<le> sl_max_total_bytes limits"
  shows "fst (rotate limits (Some cur) fs) = Inr ()"
  using assms
proof (induction limits "Some cur" fs rule: rotate.induct)
  case (1 limits fs)
  let ?paths = "segment_paths fs"
  show ?case
  proof (cases "length ?paths \<le> sl_max_segments limits \<and> total_bytes fs ?paths \<le> sl_max_total_bytes limits")
    case True
    then show ?thesis by (subst rotate.simps) (simp add: Let_def)
  next
    case over: False
    show ?thesis
    proof (cases "find (\<lambda>path. map_option cs_path (Some cur) \<noteq> Some path) ?paths")
      case None
      have "distinct ?paths" using "1.prems"(1) by (simp add: segment_paths_def)
      moreover have "set ?paths \<subseteq> {cs_path cur}" using None by (auto simp: find_None_iff)
      ultimately have "?paths = [] \<or> ?paths = [cs_path cur]"
        by (cases ?paths; cases "tl ?paths") auto
      then have False
        using over "1.prems"(2-4) by (auto simp: total_bytes_def)
      then show ?thesis ..
    next
      case (Some oldest)
      then have other: "oldest \<noteq> cs_path cur" by (auto simp: find_Some_iff)
      have "fst (rotate limits (Some cur) (hm_remove oldest fs)) = Inr ()"
        using "1.hyps"[OF refl refl over Some] "1.prems" other by simp
      then show ?thesis
        using over Some by (subst rotate.simps) (auto simp: Let_def)
    qed
  qed
qed

lemma read_after_cut_record:
  assumes "list_all (storable limits (sh_hour_start_ms h)) ms" and "minute_ok m" and "length (mr_sessions m) \<le> 275"
  shows "\<exists>e. fst (read_segment limits (encode_segment_header h @ concat (map framed ms) @ 0 # framed m)) = Inl e"
proof -
  let ?tail = "0 # framed m" and ?n = "length (wire_minute m)"
  let ?contents = "encode_segment_header h @ concat (map framed ms) @ ?tail"
  have n: "?n < 79 * 256"
    using assms(3) by (simp add: length_wire_minute SESSION_POINT_SIZE_def)
  obtain u1 u2 u3 u4 where len: "to_be_bytes (of_nat ?n :: u32) = [u1, u2, u3, u4]"
    using four_bytes[of "to_be_bytes (of_nat ?n :: u32)"] by auto
  obtain c3 c2 c1 c0 where crc: "to_be_bytes (crc32 (wire_minute m)) = [c3, c2, c1, c0]"
    using four_bytes[of "to_be_bytes (crc32 (wire_minute m))"] by auto
  have short: "to_be_bytes (of_nat (?n div 256) :: u32) = [0, u1, u2, u3]"
    using len n by (simp add: to_be_bytes_def be_nat_numeral div_mult2_eq[symmetric] unat_of_nat)
  let ?crc = "from_be_bytes [u4, c3, c2, c1] :: u32"
  have bytes: "to_be_bytes ?crc = [u4, c3, c2, c1]"
    by (rule to_from_be_bytes) simp
  let ?payload = "take (?n div 256) (c0 # wire_minute m)" and ?post = "drop (?n div 256) (c0 # wire_minute m)"
  have plen: "length ?payload = ?n div 256" by simp
  have tail: "?tail = to_be_bytes (of_nat (length ?payload) :: u32) @ to_be_bytes ?crc @ ?payload @ ?post"
    unfolding plen short bytes append_take_drop_id by (simp add: framed_def len crc)
  let ?pre = "encode_segment_header h @ concat (map framed ms)"
  have c: "?pre @ ?tail = ?pre @ to_be_bytes (of_nat (length ?payload) :: u32) @ to_be_bytes ?crc @ ?payload @ ?post"
    by (simp only: tail)
  have bad: "\<exists>e. decode_minute ?payload = Inl e"
  proof (cases "decode_minute ?payload")
    case (Inr m')
    from decode_minuteD[OF this] have "length ?payload = length (wire_minute m')" by simp
    moreover have "79 \<le> length (wire_minute m')"
      by (simp add: length_wire_minute)
    ultimately show ?thesis using n plen by linarith
  qed simp
  show ?thesis
  proof (cases "length ?contents \<le> sl_max_segment_bytes limits")
    case False
    then show ?thesis
      by (simp add: read_segment_def)
  next
    case True
    have "read_segment limits ?contents = read_records limits (sh_hour_start_ms h) (?pre @ ?tail) (length ?pre) ms"
      using read_records_all[OF assms(1), of "encode_segment_header h" ?tail "[]"] True
      by (subst read_segment_header[OF refl]) simp_all
    moreover have "\<exists>e. fst (read_records limits (sh_hour_start_ms h) (?pre @ ?tail) (length ?pre) ms) = Inl e"
    proof (cases "length ?payload \<le> sl_max_record_bytes limits")
      case True
      then show ?thesis
        using read_records_step[OF c, of limits "sh_hour_start_ms h" ms] bad n plen by (auto split: sum.splits)
    next
      case False
      have "take RECORD_HEADER_SIZE (drop (length ?pre) (?pre @ ?tail)) =
          to_be_bytes (of_nat (length ?payload) :: u32) @ to_be_bytes ?crc"
        by (simp only: c) (simp add: RECORD_HEADER_SIZE_def del: length_take)
      with False n plen show ?thesis
        by (subst read_records.simps) (simp add: Let_def length_framed RECORD_HEADER_SIZE_def)
    qed
    ultimately show ?thesis by simp
  qed
qed

lemma framed_head: "minute_ok m \<Longrightarrow> take 1 (framed m) = [0]"
proof -
  assume "minute_ok m"
  then have "length (wire_minute m) < 2 ^ 24"
    by (simp add: minute_ok_def length_wire_minute SESSION_POINT_SIZE_def)
  then have "to_be_bytes (of_nat (length (wire_minute m)) :: u32) =
      0 # be_nat 3 (length (wire_minute m))"
    by (simp add: to_be_bytes_def be_nat_numeral div_mult2_eq[symmetric])
  then show ?thesis
    by (simp add: framed_def)
qed

lemma failed_append_loses:
  assumes "storage_inv st fs" and "so_current st = Some cur"
    and "storage_append (Some 1) m st fs = (r, st1, fs1)" and "fs1 \<noteq> fs"
    and "\<not> needs_new st (hour_of (mr_timestamp_ms m)) m (length (framed m))"
    and "\<not> needs_new st1 (hour_of (mr_timestamp_ms m2)) m2 (length (framed m2))"
    and "storable (so_limits st) (hour_of (mr_timestamp_ms m2)) m2" and "length (mr_sessions m2) \<le> 275"
    and "0 < sl_max_segments (so_limits st)"
    and "cs_bytes cur + 1 + length (framed m2) \<le> sl_max_total_bytes (so_limits st)"
  shows "\<exists>st2 fs2. storage_append None m2 st1 fs1 = (Inr (), st2, fs2) \<and> map_option cs_path (so_current st2) = Some (cs_path cur)
    \<and> segment_records (so_limits st) fs (cs_path cur) \<noteq> None
    \<and> hm_get fs2 (cs_path cur) \<noteq> None \<and> segment_records (so_limits st) fs2 (cs_path cur) = None"
proof -
  let ?limits = "so_limits st"
  obtain ms where ms: "current_ok ?limits fs cur ms"
    using assms(1,2) by (auto simp: storage_inv_def)
  then obtain h where h: "sh_hour_start_ms h = cs_hour_start_ms cur"
    "hm_get fs (cs_path cur) = Some (encode_segment_header h @ concat (map framed ms))"
    by (auto simp: current_ok_def)
  let ?old = "encode_segment_header h @ concat (map framed ms)"
  let ?fs = "hm_insert (cs_path cur) (?old @ 0 # framed m2) (hm_insert (cs_path cur) (?old @ [0]) fs)"
  let ?cur = "cur\<lparr>cs_bytes := cs_bytes cur + length (framed m2)\<rparr>"
  have one: "st1 = st\<lparr>so_current := Some cur\<rparr>" "fs1 = hm_insert (cs_path cur) (?old @ [0]) fs"
    using assms(2-5) framed_head[of m] h(2)
    by (auto simp: storage_append_def frame_record_iff append_to_current_def write_all_to_def Let_def
        split: sum.splits if_splits)
  have m2: "minute_ok m2" "frame_record m2 (sl_max_record_bytes ?limits) = Inr (framed m2)"
    using assms(7) by (simp_all add: storable_def frame_record_iff)
  have size: "cs_bytes cur = length ?old" "length ?old + length (framed m2) \<le> sl_max_segment_bytes ?limits"
    using ms h(2) assms(6) by (auto simp: current_ok_def needs_new_def one(1))
  then have total: "length (framed m2) + SEGMENT_HEADER_SIZE \<le> sl_max_segment_bytes ?limits"
    by simp
  have wf: "hm_wf ?fs" "headers_match ?fs"
    using assms(1) h(2) unfolding storage_inv_def headers_match_def by (auto split: if_splits)
  have fits: "length (?old @ 0 # framed m2) \<le> sl_max_total_bytes ?limits"
    using size(1) assms(10) by simp
  obtain fs2 where rot: "rotate ?limits (Some ?cur) ?fs = (Inr (), fs2)"
    using rotate_succeeds[OF wf(1) assms(9), of ?cur "?old @ 0 # framed m2"] fits
    by (cases "rotate ?limits (Some ?cur) ?fs") auto
  have run: "storage_append None m2 st1 fs1 =
      (Inr (), st1\<lparr>so_current := Some ?cur, so_last_timestamp_ms := Some (mr_timestamp_ms m2)\<rparr>, fs2)"
    using assms(6) total fits rot m2(2)
    by (simp add: storage_append_def one append_to_current_def write_all_to_def Let_def)
  from rotate_ok[OF rot wf] have kept: "hm_get fs2 (cs_path cur) = Some (?old @ 0 # framed m2)"
    by force
  obtain e where "fst (read_segment ?limits (?old @ 0 # framed m2)) = Inl e"
    using read_after_cut_record[OF _ m2(1) assms(8), of ?limits h ms] ms h(1) by (auto simp: current_ok_def)
  then show ?thesis
    using run kept current_records[OF ms] by (simp add: segment_records_def)
qed

section \<open>A concrete run\<close>

definition demo_path :: rstring where
  "demo_path = segment_name 0 0"

definition demo_contents :: bytes where
  "demo_contents = encode_segment_header demo_header @ framed demo_minute"

definition demo_store :: storage where
  "demo_store = \<lparr>so_limits = demo_limits,
     so_current = Some \<lparr>cs_hour_start_ms = 0, cs_path = demo_path, cs_bytes = 184\<rparr>,
     so_last_timestamp_ms = Some 60000\<rparr>"

lemma demo_framed: "frame_record demo_minute 200 = Inr (framed demo_minute)" "length (framed demo_minute) = 160"
  by (simp_all add: frame_record_iff demo_minute_ok length_framed RECORD_HEADER_SIZE_def)

lemma demo_rotate:
  assumes "length c \<le> 500"
  shows "rotate demo_limits cur [(demo_path, c)] = (Inr (), [(demo_path, c)])"
proof -
  have "segment_paths [(demo_path, c)] = [demo_path]"
    using segment_name_file[of 0 0] by (simp add: segment_paths_def segment_file_def demo_path_def)
  then show ?thesis
    using assms by (subst rotate.simps) (simp add: total_bytes_def demo_limits_def)
qed

lemma length_demo_contents [simp]: "length demo_contents = 184"
  by (simp add: demo_contents_def demo_framed SEGMENT_HEADER_SIZE_def)

lemma demo_hour: "hour_of (mr_timestamp_ms demo_minute) = 0"
  by (simp add: hour_of_def demo_minute_def)

lemma demo_limit_values:
  "sl_max_record_bytes demo_limits = 200" "sl_max_segment_bytes demo_limits = 500"
  "sl_max_total_bytes demo_limits = 1000" "sl_max_directory_entries demo_limits = 4"
  by (simp_all add: demo_limits_def)

lemma demo_new_segment:
  "create_segment demo_limits 0 [] = (Inr \<lparr>cs_hour_start_ms = 0, cs_path = demo_path, cs_bytes = 24\<rparr>,
     [(demo_path, encode_segment_header demo_header)])"
  by (simp add: create_segment_def demo_limit_values segment_paths_def next_sequence_def Let_def demo_path_def
      demo_header_def SEGMENT_HEADER_SIZE_def List.map_filter_def)

lemma demo_first_append:
  "storage_append None demo_minute \<lparr>so_limits = demo_limits, so_current = None, so_last_timestamp_ms = None\<rparr> [] =
    (Inr (), demo_store, [(demo_path, demo_contents)])"
  by (simp add: storage_append_def demo_limit_values demo_framed demo_hour demo_new_segment needs_new_def Let_def
      resume_segment_def segment_paths_def append_to_current_def write_all_to_def demo_contents_def[symmetric]
      demo_rotate SEGMENT_HEADER_SIZE_def)
    (simp add: demo_store_def demo_minute_def)

lemma demo_empty_inv: "storage_inv \<lparr>so_limits = demo_limits, so_current = None, so_last_timestamp_ms = None\<rparr> []"
  by (simp add: storage_inv_def headers_match_def)

lemma demo_store_inv: "storage_inv demo_store [(demo_path, demo_contents)]"
  using storage_append_ok[OF demo_empty_inv demo_first_append] by blast

lemma demo_store_fields:
  "so_limits demo_store = demo_limits" "so_last_timestamp_ms demo_store = Some 60000"
  "so_current demo_store = Some \<lparr>cs_hour_start_ms = 0, cs_path = demo_path, cs_bytes = 184\<rparr>"
  by (simp_all add: demo_store_def)

lemma demo_store_current:
  "demo_store\<lparr>so_current := Some \<lparr>cs_hour_start_ms = 0, cs_path = demo_path, cs_bytes = 184\<rparr>\<rparr> = demo_store"
  by (simp add: demo_store_def)

lemma demo_needs_new: "\<not> needs_new demo_store 0 demo_minute 160"
  by (simp add: needs_new_def demo_store_fields demo_limit_values) (simp add: demo_minute_def)

lemma demo_failed_append:
  "storage_append (Some 1) demo_minute demo_store [(demo_path, demo_contents)] =
    (Inl ''No space left on device'', demo_store, [(demo_path, demo_contents @ [0])])"
  by (simp add: storage_append_def demo_store_fields demo_limit_values demo_framed demo_hour demo_needs_new
      SEGMENT_HEADER_SIZE_def append_to_current_def write_all_to_def framed_head[OF demo_minute_ok, simplified] demo_store_current)

lemma demo_second_append:
  "\<exists>st. storage_append None demo_minute demo_store [(demo_path, demo_contents @ [0])] =
    (Inr (), st, [(demo_path, demo_contents @ 0 # framed demo_minute)])"
  by (simp add: storage_append_def demo_store_fields demo_limit_values demo_framed demo_hour demo_needs_new
      SEGMENT_HEADER_SIZE_def append_to_current_def write_all_to_def Let_def demo_rotate)

end
