(* ===== verification/Public_Frame.thy ===== *)
theory Public_Frame
  imports Holder_Wire
begin

text \<open>
  Frames between the command line and the daemon (\<open>crates/persist-ipc/src/protocol.rs\<close>): the message
  types, the blocking reader and writer, and the accumulator of non-blocking connections. The
  constructors of the message types have the prefix \<open>Msg\<close>, since the protocol of the holder uses the
  same names. A blocking socket is the list of what its reads still return: some bytes or an error;
  when nothing is left it is closed. Shown: frames are read back however the socket splits them,
  the accumulator takes exactly the frames it was fed, and it never recovers from a frame that it
  refuses.
\<close>

section \<open>Message types\<close>

definition MAX_CONTROL_FRAME :: nat where
  "MAX_CONTROL_FRAME = 1024 * 1024"

definition MAX_IO_FRAME :: nat where
  "MAX_IO_FRAME = 64 * 1024"

definition HEADER_SIZE :: nat where
  "HEADER_SIZE = 12"

datatype message_type =
    MsgHello | MsgHelloAck | MsgError | MsgNewSession | MsgNewSessionResp | MsgListSessions |
    MsgListSessionsResp | MsgAttach | MsgAttachResp | MsgDetach | MsgRename | MsgRenameResp |
    MsgDetachSignal | MsgDetachSignalResp | MsgSignal | MsgSignalResp | MsgNoteSet |
    MsgNoteSetResp | MsgNoteGet | MsgNoteGetResp | MsgTagAdd | MsgTagAddResp | MsgTagRemove |
    MsgTagRemoveResp | MsgTagList | MsgTagListResp | MsgListSessionsByTag | MsgPinSet |
    MsgPinSetResp | MsgAttachReadOnly | MsgWriteRequest | MsgWriteGranted | MsgWriteRevoked |
    MsgLockSet | MsgLockSetResp | MsgProcessTree | MsgProcessTreeResp | MsgProcessStats |
    MsgProcessStatsResp | MsgSessionSnapshot | MsgSessionSnapshotResp | MsgMetrics |
    MsgMetricsResp | MsgDashboardSummary | MsgDashboardSummaryResp | MsgDashboardTrend |
    MsgDashboardTrendResp | MsgClose | MsgCloseResp | MsgKill | MsgKillResp | MsgPing | MsgPong |
    MsgStdin | MsgStdout | MsgResize | MsgSessionExited

fun msg_as_u16 :: "message_type \<Rightarrow> u16" where
  "msg_as_u16 MsgHello = 0x0001"
| "msg_as_u16 MsgHelloAck = 0x0002"
| "msg_as_u16 MsgError = 0x0003"
| "msg_as_u16 MsgNewSession = 0x0010"
| "msg_as_u16 MsgNewSessionResp = 0x0011"
| "msg_as_u16 MsgListSessions = 0x0012"
| "msg_as_u16 MsgListSessionsResp = 0x0013"
| "msg_as_u16 MsgAttach = 0x0014"
| "msg_as_u16 MsgAttachResp = 0x0015"
| "msg_as_u16 MsgDetach = 0x0016"
| "msg_as_u16 MsgRename = 0x0017"
| "msg_as_u16 MsgRenameResp = 0x0018"
| "msg_as_u16 MsgDetachSignal = 0x0019"
| "msg_as_u16 MsgDetachSignalResp = 0x001A"
| "msg_as_u16 MsgSignal = 0x001B"
| "msg_as_u16 MsgSignalResp = 0x001C"
| "msg_as_u16 MsgNoteSet = 0x001D"
| "msg_as_u16 MsgNoteSetResp = 0x001E"
| "msg_as_u16 MsgNoteGet = 0x001F"
| "msg_as_u16 MsgNoteGetResp = 0x0020"
| "msg_as_u16 MsgTagAdd = 0x0021"
| "msg_as_u16 MsgTagAddResp = 0x0022"
| "msg_as_u16 MsgTagRemove = 0x0023"
| "msg_as_u16 MsgTagRemoveResp = 0x0024"
| "msg_as_u16 MsgTagList = 0x0025"
| "msg_as_u16 MsgTagListResp = 0x0026"
| "msg_as_u16 MsgListSessionsByTag = 0x0027"
| "msg_as_u16 MsgPinSet = 0x0028"
| "msg_as_u16 MsgPinSetResp = 0x0029"
| "msg_as_u16 MsgAttachReadOnly = 0x002A"
| "msg_as_u16 MsgWriteRequest = 0x002B"
| "msg_as_u16 MsgWriteGranted = 0x002C"
| "msg_as_u16 MsgWriteRevoked = 0x002D"
| "msg_as_u16 MsgLockSet = 0x002E"
| "msg_as_u16 MsgLockSetResp = 0x002F"
| "msg_as_u16 MsgProcessTree = 0x0030"
| "msg_as_u16 MsgProcessTreeResp = 0x0031"
| "msg_as_u16 MsgProcessStats = 0x0032"
| "msg_as_u16 MsgProcessStatsResp = 0x0033"
| "msg_as_u16 MsgSessionSnapshot = 0x0034"
| "msg_as_u16 MsgSessionSnapshotResp = 0x0035"
| "msg_as_u16 MsgMetrics = 0x0036"
| "msg_as_u16 MsgMetricsResp = 0x0037"
| "msg_as_u16 MsgDashboardSummary = 0x0038"
| "msg_as_u16 MsgDashboardSummaryResp = 0x0039"
| "msg_as_u16 MsgDashboardTrend = 0x003A"
| "msg_as_u16 MsgDashboardTrendResp = 0x003B"
| "msg_as_u16 MsgClose = 0x0302"
| "msg_as_u16 MsgCloseResp = 0x0304"
| "msg_as_u16 MsgKill = 0x0303"
| "msg_as_u16 MsgKillResp = 0x0305"
| "msg_as_u16 MsgPing = 0x0300"
| "msg_as_u16 MsgPong = 0x0301"
| "msg_as_u16 MsgStdin = 0x0100"
| "msg_as_u16 MsgStdout = 0x0101"
| "msg_as_u16 MsgResize = 0x0102"
| "msg_as_u16 MsgSessionExited = 0x0103"

definition msg_types :: "(u16 \<times> message_type) list" where
  "msg_types =
    [(0x0001, MsgHello), (0x0002, MsgHelloAck), (0x0003, MsgError), (0x0010, MsgNewSession),
     (0x0011, MsgNewSessionResp), (0x0012, MsgListSessions), (0x0013, MsgListSessionsResp),
     (0x0014, MsgAttach), (0x0015, MsgAttachResp), (0x0016, MsgDetach), (0x0017, MsgRename),
     (0x0018, MsgRenameResp), (0x0019, MsgDetachSignal), (0x001A, MsgDetachSignalResp),
     (0x001B, MsgSignal), (0x001C, MsgSignalResp), (0x001D, MsgNoteSet), (0x001E, MsgNoteSetResp),
     (0x001F, MsgNoteGet), (0x0020, MsgNoteGetResp), (0x0021, MsgTagAdd), (0x0022, MsgTagAddResp),
     (0x0023, MsgTagRemove), (0x0024, MsgTagRemoveResp), (0x0025, MsgTagList),
     (0x0026, MsgTagListResp), (0x0027, MsgListSessionsByTag), (0x0028, MsgPinSet),
     (0x0029, MsgPinSetResp), (0x002A, MsgAttachReadOnly), (0x002B, MsgWriteRequest),
     (0x002C, MsgWriteGranted), (0x002D, MsgWriteRevoked), (0x002E, MsgLockSet),
     (0x002F, MsgLockSetResp), (0x0030, MsgProcessTree), (0x0031, MsgProcessTreeResp),
     (0x0032, MsgProcessStats), (0x0033, MsgProcessStatsResp), (0x0034, MsgSessionSnapshot),
     (0x0035, MsgSessionSnapshotResp), (0x0036, MsgMetrics), (0x0037, MsgMetricsResp),
     (0x0038, MsgDashboardSummary), (0x0039, MsgDashboardSummaryResp), (0x003A, MsgDashboardTrend),
     (0x003B, MsgDashboardTrendResp), (0x0100, MsgStdin), (0x0101, MsgStdout), (0x0102, MsgResize),
     (0x0103, MsgSessionExited), (0x0300, MsgPing), (0x0301, MsgPong), (0x0302, MsgClose),
     (0x0303, MsgKill), (0x0304, MsgCloseResp), (0x0305, MsgKillResp)]"

definition msg_from_u16 :: "u16 \<Rightarrow> message_type option" where
  "msg_from_u16 value = map_of msg_types value"

definition is_io_message :: "message_type \<Rightarrow> bool" where
  "is_io_message t \<longleftrightarrow> t \<in> {MsgStdin, MsgStdout, MsgResize}"

section \<open>Frames\<close>

record frame =
  pf_msg_type :: message_type
  pf_flags :: u16
  pf_request_id :: u32
  pf_payload :: bytes

text \<open>What \<open>write_frame\<close> hands to \<open>write_all\<close>, header and payload. The cast of the length to 32 bits
  wraps.\<close>

definition write_frame :: "frame \<Rightarrow> bytes" where
  "write_frame f =
     (let header = to_be_bytes (of_nat (length (pf_payload f)) :: u32) @ to_be_bytes (msg_as_u16 (pf_msg_type f))
            @ to_be_bytes (pf_flags f) @ to_be_bytes (pf_request_id f)
      in if pf_payload f = [] then header else header @ pf_payload f)"

type_synonym socket = "(string + bytes) list"

definition socket_read :: "nat \<Rightarrow> socket \<Rightarrow> (string + bytes) \<times> socket" where
  "socket_read n s =
     (case s of
        [] \<Rightarrow> (Inr [], [])
      | Inl e # s \<Rightarrow> (Inl e, s)
      | Inr c # s \<Rightarrow> if length c \<le> n then (Inr c, s) else (Inr (take n c), Inr (drop n c) # s))"

text \<open>The loop of \<open>read_n\<close>; \<open>n\<close> bytes are missing.\<close>

lemma socket_read_at_most: "socket_read n s = (Inr c, s') \<Longrightarrow> length c \<le> n"
  by (auto simp: socket_read_def split: list.splits sum.splits if_splits)

function stream_read_n :: "nat \<Rightarrow> bytes \<Rightarrow> socket \<Rightarrow> (string + bytes) \<times> socket" where
  "stream_read_n n buf s =
     (if n = 0 then (Inr buf, s)
      else
        (case socket_read n s of
           (Inl e, s) \<Rightarrow> (Inl e, s)
         | (Inr c, s) \<Rightarrow>
             if c = [] then (Inl ''socket closed before frame complete'', s)
             else stream_read_n (n - length c) (buf @ c) s))"
  by pat_completeness auto
termination
  by (relation "measure (\<lambda>(n, _, _). n)") (auto dest: socket_read_at_most)

declare stream_read_n.simps [simp del]

definition read_frame :: "socket \<Rightarrow> (persist_error + frame) \<times> socket" where
  "read_frame s =
     (case stream_read_n HEADER_SIZE [] s of
        (Inl e, s) \<Rightarrow> (Inl (IoError ''read frame header''), s)
      | (Inr header_buf, s) \<Rightarrow>
          let payload_len = unat (from_be_bytes (take 4 header_buf) :: u32);
              raw_type = from_be_bytes (take 2 (drop 4 header_buf));
              flags = from_be_bytes (take 2 (drop 6 header_buf));
              request_id = from_be_bytes (take 4 (drop 8 header_buf))
          in if MAX_CONTROL_FRAME < payload_len then (Inl (InvalidArgument ''frame payload too large''), s)
             else
               (case msg_from_u16 raw_type of
                  None \<Rightarrow> (Inl (InvalidArgument ''unknown message type''), s)
                | Some msg_type \<Rightarrow>
                    if 0 < payload_len
                    then
                      (case stream_read_n payload_len [] s of
                         (Inl e, s) \<Rightarrow> (Inl (IoError ''read frame payload''), s)
                       | (Inr payload, s) \<Rightarrow>
                           (Inr \<lparr>pf_msg_type = msg_type, pf_flags = flags, pf_request_id = request_id,
                                 pf_payload = payload\<rparr>, s))
                    else (Inr \<lparr>pf_msg_type = msg_type, pf_flags = flags, pf_request_id = request_id,
                               pf_payload = []\<rparr>, s)))"

section \<open>Accumulator\<close>

definition frames_new :: bytes where
  "frames_new = []"

definition frames_feed :: "bytes \<Rightarrow> bytes \<Rightarrow> bytes" where
  "frames_feed buf data = buf @ data"

definition try_read :: "bytes \<Rightarrow> (persist_error + frame option) \<times> bytes" where
  "try_read buf =
     (if length buf < HEADER_SIZE then (Inr None, buf)
      else
        let payload_len = unat (from_be_bytes (take 4 buf) :: u32);
            frame_len = HEADER_SIZE + payload_len
        in if length buf < frame_len then (Inr None, buf)
           else
             let raw_type = from_be_bytes (take 2 (drop 4 buf));
                 flags = from_be_bytes (take 2 (drop 6 buf));
                 request_id = from_be_bytes (take 4 (drop 8 buf))
             in (case msg_from_u16 raw_type of
                   None \<Rightarrow> (Inl (InvalidArgument ''unknown message type''), buf)
                 | Some msg_type \<Rightarrow>
                     let limit = (if is_io_message msg_type then MAX_IO_FRAME else MAX_CONTROL_FRAME)
                     in if limit < payload_len then (Inl (InvalidArgument ''frame payload too large''), buf)
                        else
                          let payload = (if 0 < payload_len then take payload_len (drop HEADER_SIZE buf) else [])
                          in (Inr (Some \<lparr>pf_msg_type = msg_type, pf_flags = flags, pf_request_id = request_id,
                                         pf_payload = payload\<rparr>), drop frame_len buf)))"

text \<open>The loops \<open>while let Ok(Some(frame)) = acc.try_read()\<close> of the daemon: the frames that are taken, and
  what stays in the buffer. An error ends the loop like a missing frame.\<close>

lemma try_read_shrinks: "try_read buf = (Inr (Some f), rest) \<Longrightarrow> length rest < length buf"
  by (auto simp: try_read_def Let_def HEADER_SIZE_def split: if_splits option.splits)

function take_frames :: "bytes \<Rightarrow> frame list \<times> bytes" where
  "take_frames buf =
     (case try_read buf of
        (Inr (Some f), rest) \<Rightarrow> (case take_frames rest of (fs, rest) \<Rightarrow> (f # fs, rest))
      | (_, rest) \<Rightarrow> ([], rest))"
  by pat_completeness auto
termination
  by (relation "measure length") (auto dest: try_read_shrinks[OF sym])

declare take_frames.simps [simp del]

section \<open>Frames on the wire\<close>

lemma msg_from_as [simp]: "msg_from_u16 (msg_as_u16 t) = Some t"
  by (cases t) (simp_all add: msg_from_u16_def msg_types_def)

definition payload_limit :: "frame \<Rightarrow> nat" where
  "payload_limit f = (if is_io_message (pf_msg_type f) then MAX_IO_FRAME else MAX_CONTROL_FRAME)"

lemma payload_limit_le: "payload_limit f \<le> MAX_CONTROL_FRAME" "MAX_CONTROL_FRAME < 2 ^ 32"
  by (simp_all add: payload_limit_def MAX_IO_FRAME_def MAX_CONTROL_FRAME_def)

lemma write_frame_bytes:
  "write_frame f = to_be_bytes (of_nat (length (pf_payload f)) :: u32) @ to_be_bytes (msg_as_u16 (pf_msg_type f))
     @ to_be_bytes (pf_flags f) @ to_be_bytes (pf_request_id f) @ pf_payload f"
  by (simp add: write_frame_def Let_def)

lemma length_write_frame: "length (write_frame f) = HEADER_SIZE + length (pf_payload f)"
  by (simp add: write_frame_bytes HEADER_SIZE_def)

text \<open>The fields of a header, whatever follows it.\<close>

lemma header_fields:
  assumes "length (pf_payload f) \<le> MAX_CONTROL_FRAME"
  shows "unat (from_be_bytes (take 4 (write_frame f @ rest)) :: u32) = length (pf_payload f)"
    and "from_be_bytes (take 2 (drop 4 (write_frame f @ rest))) = msg_as_u16 (pf_msg_type f)"
    and "from_be_bytes (take 2 (drop 6 (write_frame f @ rest))) = pf_flags f"
    and "from_be_bytes (take 4 (drop 8 (write_frame f @ rest))) = pf_request_id f"
    and "drop HEADER_SIZE (write_frame f @ rest) = pf_payload f @ rest"
  using assms payload_limit_le(2)
  by (simp_all add: write_frame_bytes from_to_be_bytes HEADER_SIZE_def)

lemma try_read_frame:
  assumes "length (pf_payload f) \<le> payload_limit f"
  shows "try_read (write_frame f @ rest) = (Inr (Some f), rest)"
proof -
  have small: "length (pf_payload f) \<le> MAX_CONTROL_FRAME"
    using assms payload_limit_le(1) by (rule order_trans)
  have skip: "drop (HEADER_SIZE + length (pf_payload f)) (write_frame f @ rest) = rest"
    by (simp flip: length_write_frame)
  show ?thesis
    using assms unfolding try_read_def Let_def header_fields[OF small] msg_from_as skip
    by (simp add: length_write_frame payload_limit_def[symmetric])
qed

lemma try_read_part:
  assumes "write_frame f = part @ q" and "q \<noteq> []" and "length (pf_payload f) \<le> MAX_CONTROL_FRAME"
  shows "try_read part = (Inr None, part)"
proof -
  have len: "length part + length q = HEADER_SIZE + length (pf_payload f)"
    using arg_cong[OF assms(1), of length] by (simp add: length_write_frame)
  have "unat (from_be_bytes (take 4 part) :: u32) = length (pf_payload f)" if "HEADER_SIZE \<le> length part"
    using header_fields(1)[OF assms(3), of "[]"] assms(1) that by (simp add: HEADER_SIZE_def)
  moreover have "length part < HEADER_SIZE + length (pf_payload f)"
    using len assms(2) by (cases q) auto
  ultimately show ?thesis
    by (cases "length part < HEADER_SIZE") (simp_all add: try_read_def Let_def)
qed

lemma take_frames_all:
  assumes "list_all (\<lambda>f. length (pf_payload f) \<le> payload_limit f) fs"
    and "fst (try_read part) = Inr None \<or> (\<exists>e. fst (try_read part) = Inl e)"
  shows "take_frames (concat (map write_frame fs) @ part) = (fs, snd (try_read part))"
  using assms(1)
proof (induction fs)
  case Nil
  then show ?case
    using assms(2) by (cases "try_read part") (auto simp: take_frames.simps)
next
  case (Cons f fs)
  have "try_read (write_frame f @ concat (map write_frame fs) @ part) = (Inr (Some f), concat (map write_frame fs) @ part)"
    using Cons.prems by (intro try_read_frame) simp
  then show ?case
    using Cons by (subst take_frames.simps) simp
qed

text \<open>A frame that was refused stays at the front of the buffer.\<close>

lemma try_read_refused:
  assumes "try_read buf = (Inl e, buf')"
  shows "buf' = buf \<and> try_read (buf @ data) = (Inl e, buf @ data)"
proof -
  let ?n = "unat (from_be_bytes (take 4 buf) :: u32)"
  have len: "HEADER_SIZE \<le> length buf" "HEADER_SIZE + ?n \<le> length buf"
    using assms by (auto simp: try_read_def Let_def not_less split: if_splits option.splits)
  then have same: "take 4 (buf @ data) = take 4 buf" "take 2 (drop 4 (buf @ data)) = take 2 (drop 4 buf)"
    by (simp_all add: HEADER_SIZE_def)
  have long: "\<not> length (buf @ data) < HEADER_SIZE" "\<not> length buf < HEADER_SIZE"
    "\<not> length (buf @ data) < HEADER_SIZE + ?n" "\<not> length buf < HEADER_SIZE + ?n"
    using len by simp_all
  show ?thesis
    using assms unfolding try_read_def Let_def same if_not_P[OF long(1)] if_not_P[OF long(2)]
      if_not_P[OF long(3)] if_not_P[OF long(4)]
    by (auto split: option.splits if_splits)
qed

primrec feed_all :: "bytes \<Rightarrow> bytes list \<Rightarrow> frame list \<times> bytes" where
  "feed_all buf [] = ([], buf)"
| "feed_all buf (d # ds) =
     (case take_frames (frames_feed buf d) of
        (fs, buf) \<Rightarrow> (case feed_all buf ds of (gs, buf) \<Rightarrow> (fs @ gs, buf)))"

text \<open>Bytes that arrive in pieces give the frames of the whole.\<close>

lemma try_read_more:
  assumes "try_read buf = (Inr (Some f), rest)"
  shows "try_read (buf @ data) = (Inr (Some f), rest @ data)"
proof -
  let ?n = "unat (from_be_bytes (take 4 buf) :: u32)"
  have len: "HEADER_SIZE \<le> length buf" "HEADER_SIZE + ?n \<le> length buf"
    using assms by (auto simp: try_read_def Let_def not_less split: if_splits option.splits)
  then have same: "take 4 (buf @ data) = take 4 buf" "take 2 (drop 4 (buf @ data)) = take 2 (drop 4 buf)"
    "take 2 (drop 6 (buf @ data)) = take 2 (drop 6 buf)" "take 4 (drop 8 (buf @ data)) = take 4 (drop 8 buf)"
    "take ?n (drop HEADER_SIZE (buf @ data)) = take ?n (drop HEADER_SIZE buf)"
    "drop (HEADER_SIZE + ?n) (buf @ data) = drop (HEADER_SIZE + ?n) buf @ data"
    by (simp_all add: HEADER_SIZE_def)
  have long: "\<not> length (buf @ data) < HEADER_SIZE" "\<not> length buf < HEADER_SIZE"
    "\<not> length (buf @ data) < HEADER_SIZE + ?n" "\<not> length buf < HEADER_SIZE + ?n"
    using len by simp_all
  show ?thesis
    using assms unfolding try_read_def Let_def same if_not_P[OF long(1)] if_not_P[OF long(2)]
      if_not_P[OF long(3)] if_not_P[OF long(4)]
    by (auto split: option.splits if_splits)
qed

lemma take_frames_more:
  "take_frames (buf @ data) =
    (case take_frames buf of (fs, rest) \<Rightarrow> (case take_frames (rest @ data) of (gs, rest) \<Rightarrow> (fs @ gs, rest)))"
proof (induction buf rule: take_frames.induct)
  case (1 buf)
  obtain r rest where r: "try_read buf = (r, rest)"
    by (cases "try_read buf")
  show ?case
  proof (cases "\<exists>f. r = Inr (Some f)")
    case True
    then obtain f where f: "try_read buf = (Inr (Some f), rest)"
      using r by auto
    show ?thesis
      using "1.IH"[OF f[symmetric] refl refl] f try_read_more[OF f, of data]
      by (subst (1 2) take_frames.simps) (simp split: prod.splits)
  next
    case False
    then have stop: "take_frames buf = ([], rest)"
      using r by (auto simp: take_frames.simps[of buf] split: sum.splits option.splits)
    have "rest = buf"
      using r False by (auto simp: try_read_def Let_def split: if_splits option.splits)
    then show ?thesis
      by (simp add: stop split: prod.splits)
  qed
qed

lemma take_frames_rest: "take_frames (snd (take_frames buf)) = ([], snd (take_frames buf))"
proof (induction buf rule: take_frames.induct)
  case (1 buf)
  obtain r rest where r: "try_read buf = (r, rest)"
    by (cases "try_read buf")
  show ?case
  proof (cases "\<exists>f. r = Inr (Some f)")
    case True
    then obtain f where f: "try_read buf = (Inr (Some f), rest)"
      using r by auto
    then show ?thesis
      using "1.IH"[OF f[symmetric] refl refl] by (cases "take_frames rest") (simp add: take_frames.simps[of buf])
  next
    case False
    then have stop: "take_frames buf = ([], rest)"
      using r by (auto simp: take_frames.simps[of buf] split: sum.splits option.splits)
    have "rest = buf"
      using r False by (auto simp: try_read_def Let_def split: if_splits option.splits)
    then show ?thesis
      using stop by simp
  qed
qed

lemma feed_all_whole:
  assumes "take_frames buf = ([], buf)"
  shows "feed_all buf pieces = take_frames (buf @ concat pieces)"
  using assms
proof (induction pieces arbitrary: buf)
  case Nil
  then show ?case by simp
next
  case (Cons d ds)
  obtain fs rest where one: "take_frames (buf @ d) = (fs, rest)"
    by (cases "take_frames (buf @ d)")
  have "take_frames rest = ([], rest)"
    using take_frames_rest[of "buf @ d"] one by simp
  from Cons.IH[OF this] show ?case
    using one take_frames_more[of "buf @ d" "concat ds"] by (simp add: frames_feed_def split: prod.splits)
qed

lemma take_frames_empty: "take_frames [] = ([], [])"
  by (simp add: take_frames.simps try_read_def HEADER_SIZE_def)

section \<open>Blocking sockets\<close>

text \<open>A socket whose reads succeed, and the bytes they return.\<close>

definition flowing :: "socket \<Rightarrow> bool" where
  "flowing s \<longleftrightarrow> list_all (\<lambda>x. case x of Inl _ \<Rightarrow> False | Inr c \<Rightarrow> c \<noteq> []) s"

definition socket_bytes :: "socket \<Rightarrow> bytes" where
  "socket_bytes s = concat (map (\<lambda>x. case x of Inl _ \<Rightarrow> [] | Inr c \<Rightarrow> c) s)"

lemma socket_read_flowing:
  assumes "flowing s" and "socket_bytes s \<noteq> []" and "0 < n"
  obtains c s' where "socket_read n s = (Inr c, s')" and "c \<noteq> []" and "length c \<le> n" and "flowing s'"
    and "socket_bytes s = c @ socket_bytes s'"
proof (cases s)
  case Nil
  then show ?thesis
    using assms(2) by (simp add: socket_bytes_def)
next
  case (Cons x s1)
  then obtain c where x: "x = Inr c" "c \<noteq> []" and s1: "flowing s1"
    using assms(1) by (auto simp: flowing_def split: sum.splits)
  show ?thesis
  proof (cases "length c \<le> n")
    case True
    then show ?thesis
      using that[of c s1] x s1 Cons by (simp add: socket_read_def socket_bytes_def)
  next
    case False
    then show ?thesis
      using that[of "take n c" "Inr (drop n c) # s1"] x s1 Cons assms(3)
      by (simp add: socket_read_def socket_bytes_def flowing_def)
  qed
qed

lemma stream_read_n_ok:
  assumes "flowing s" and "n \<le> length (socket_bytes s)"
  shows "\<exists>s'. stream_read_n n buf s = (Inr (buf @ take n (socket_bytes s)), s') \<and> flowing s'
    \<and> socket_bytes s' = drop n (socket_bytes s)"
  using assms
proof (induction n arbitrary: buf s rule: less_induct)
  case (less n)
  show ?case
  proof (cases "n = 0")
    case True
    then show ?thesis
      using less.prems by (subst stream_read_n.simps) simp
  next
    case False
    then obtain c s1 where c: "socket_read n s = (Inr c, s1)" "c \<noteq> []" "length c \<le> n" "flowing s1"
      "socket_bytes s = c @ socket_bytes s1"
      using less.prems socket_read_flowing[of s n] by (metis length_0_conv le_zero_eq neq0_conv)
    have "n - length c < n"
      using c(2) False by simp
    from less.IH[OF this c(4), of "buf @ c"] show ?thesis
      using less.prems c False by (subst stream_read_n.simps) auto
  qed
qed

lemma read_frame_ok:
  assumes "flowing s" and "socket_bytes s = write_frame f @ rest" and "length (pf_payload f) \<le> MAX_CONTROL_FRAME"
  shows "\<exists>s'. read_frame s = (Inr f, s') \<and> flowing s' \<and> socket_bytes s' = rest"
proof -
  have "HEADER_SIZE \<le> length (socket_bytes s)"
    by (simp add: assms(2) length_write_frame)
  from stream_read_n_ok[OF assms(1) this, of "[]"] obtain s1 where
    s1: "stream_read_n HEADER_SIZE [] s = (Inr (take HEADER_SIZE (write_frame f @ rest)), s1)" "flowing s1"
    "socket_bytes s1 = pf_payload f @ rest"
    using header_fields(5)[OF assms(3), of rest] by (auto simp: assms(2))
  define header where "header = take HEADER_SIZE (write_frame f @ rest)"
  have head: "take 4 header = take 4 (write_frame f @ rest)" "take 2 (drop 4 header) = take 2 (drop 4 (write_frame f @ rest))"
    "take 2 (drop 6 header) = take 2 (drop 6 (write_frame f @ rest))"
    "take 4 (drop 8 header) = take 4 (drop 8 (write_frame f @ rest))"
    by (simp_all add: header_def HEADER_SIZE_def drop_take del: take_append drop_append)
  note fields = header_fields[OF assms(3), of rest, folded head]
  note first = s1(1)[folded header_def]
  show ?thesis
  proof (cases "pf_payload f = []")
    case True
    then show ?thesis
      using s1(2,3) assms(3) by (simp add: read_frame_def Let_def first fields)
  next
    case False
    have "length (pf_payload f) \<le> length (socket_bytes s1)"
      by (simp add: s1(3))
    from stream_read_n_ok[OF s1(2) this, of "[]"] obtain s2 where
      "stream_read_n (length (pf_payload f)) [] s1 = (Inr (pf_payload f), s2)" "flowing s2" "socket_bytes s2 = rest"
      by (auto simp: s1(3))
    then show ?thesis
      using assms(3) False by (simp add: read_frame_def Let_def first fields)
  qed
qed

section \<open>Streams of a peer\<close>

definition frame_fits :: "frame \<Rightarrow> bool" where
  "frame_fits f \<longleftrightarrow> length (pf_payload f) \<le> payload_limit f"

lemma pieces_taken:
  assumes "list_all frame_fits fs" and "part = [] \<or> (\<exists>f q. frame_fits f \<and> write_frame f = part @ q \<and> q \<noteq> [])"
    and "concat pieces = concat (map write_frame fs) @ part"
  shows "feed_all frames_new pieces = (fs, part)"
proof -
  have "try_read part = (Inr None, part)"
    using assms(2) try_read_part order_trans[OF _ payload_limit_le(1)] unfolding frame_fits_def
    by (auto simp: try_read_def[of "[]"] HEADER_SIZE_def)
  then show ?thesis
    using assms take_frames_all[of fs part] feed_all_whole[of "[]" pieces] take_frames_empty
    by (simp add: frames_new_def frame_fits_def[abs_def])
qed

lemma pieces_refused:
  assumes "list_all frame_fits fs" and "try_read bad = (Inl e, bad)"
    and "concat pieces = concat (map write_frame fs) @ bad @ later"
  shows "feed_all frames_new pieces = (fs, bad @ later)"
  using assms take_frames_all[of fs "bad @ later"] feed_all_whole[of "[]" pieces] take_frames_empty
    try_read_refused[OF assms(2), of later]
  by (simp add: frames_new_def frame_fits_def[abs_def])

end
