(* ===== verification/Public_Payload.thy ===== *)
theory Public_Payload
  imports Public_Frame "HOL-Library.List_Lexorder"
begin

unbundle bit_operations_syntax

text \<open>
  The payloads of the messages between the command line and the daemon
  (\<open>crates/persist-ipc/src/protocol.rs\<close>). A decoder indexes the payload after it has compared its
  length, so that no index is out of range. \<open>String::from_utf8_lossy\<close> is written out: every maximal
  invalid part becomes one replacement character. Shown: every message whose strings are valid and
  have at most 65535 bytes is decoded from its encoding, whatever is behind it where the decoder
  does not look; an attach request is accepted only with an environment of the admitted variables.
\<close>

section \<open>Text\<close>

definition utf8_second :: "u8 \<Rightarrow> u8 \<Rightarrow> bool" where
  "utf8_second a b \<longleftrightarrow> utf8_cont b \<and> (a = 0xE0 \<longrightarrow> 0xA0 \<le> b) \<and> (a = 0xED \<longrightarrow> b \<le> 0x9F)
     \<and> (a = 0xF0 \<longrightarrow> 0x90 \<le> b) \<and> (a = 0xF4 \<longrightarrow> b \<le> 0x8F)"

text \<open>How many continuation bytes of a character follow its first byte, and whether it is whole.\<close>

definition utf8_tail :: "u8 \<Rightarrow> bytes \<Rightarrow> nat \<times> bool" where
  "utf8_tail a r =
     (let wanted = (if a < 0x80 then 0 else if 0xC2 \<le> a \<and> a \<le> 0xDF then 1
                    else if 0xE0 \<le> a \<and> a \<le> 0xEF then 2 else if 0xF0 \<le> a \<and> a \<le> 0xF4 then 3 else 4);
          found = (if wanted = 4 then 0
                   else case r of
                     [] \<Rightarrow> 0
                   | b # r' \<Rightarrow> if utf8_second a b then 1 + length (takeWhile utf8_cont (take (wanted - 1) r')) else 0)
      in (min wanted found, wanted \<le> found))"

definition REPLACEMENT :: bytes where
  "REPLACEMENT = [0xEF, 0xBF, 0xBD]"

function utf8_lossy :: "bytes \<Rightarrow> rstring" where
  "utf8_lossy [] = []"
| "utf8_lossy (a # r) =
     (case utf8_tail a r of
        (n, whole) \<Rightarrow> (if whole then a # take n r else REPLACEMENT) @ utf8_lossy (drop n r))"
  by pat_completeness auto
termination
  by (relation "measure length") auto

text \<open>\<open>char::is_control\<close> on the bytes of a string: the controls below 32, 127, and 128 to 159.\<close>

fun has_control :: "rstring \<Rightarrow> bool" where
  "has_control [] = False"
| "has_control (a # r) \<longleftrightarrow> a < 0x20 \<or> a = 0x7F
     \<or> a = 0xC2 \<and> (case r of [] \<Rightarrow> False | b # _ \<Rightarrow> 0x80 \<le> b \<and> b \<le> 0x9F) \<or> has_control r"

section \<open>Fields\<close>

definition at_u16 :: "bytes \<Rightarrow> nat \<Rightarrow> u16" where
  "at_u16 data i = from_be_bytes (take 2 (drop i data))"

definition at_u32 :: "bytes \<Rightarrow> nat \<Rightarrow> u32" where
  "at_u32 data i = from_be_bytes (take 4 (drop i data))"

definition at_i32 :: "bytes \<Rightarrow> nat \<Rightarrow> i32" where
  "at_i32 data i = from_be_bytes (take 4 (drop i data))"

definition at_u64 :: "bytes \<Rightarrow> nat \<Rightarrow> u64" where
  "at_u64 data i = from_be_bytes (take 8 (drop i data))"

definition encode_str16 :: "bytes \<Rightarrow> rstring \<Rightarrow> bytes" where
  "encode_str16 buf s =
     (let len = (of_nat (min (length s) 65535) :: u16)
      in buf @ to_be_bytes len @ take (unat len) s)"

definition decode_str16 :: "bytes \<Rightarrow> nat \<Rightarrow> (rstring \<times> nat) option" where
  "decode_str16 data offset =
     (if length data < offset + 2 then None
      else
        let len = unat (at_u16 data offset)
        in if length data < offset + 2 + len then None
           else Some (utf8_lossy (take len (drop (offset + 2) data)), offset + 2 + len))"

text \<open>A string behind its length at the end of a payload that may be shorter than announced.\<close>

definition optional_text :: "bytes \<Rightarrow> nat \<Rightarrow> nat \<Rightarrow> rstring" where
  "optional_text data start len =
     (if 0 < len \<and> start + len \<le> length data then utf8_lossy (take len (drop start data)) else [])"

section \<open>Hello\<close>

datatype public_hello_status = PublicAccepted | PublicVersionMismatch | PublicPermissionDenied

record hello_payload =
  he_protocol_major :: u16
  he_protocol_minor :: u16
  he_uid :: u32
  he_pid :: u32

record hello_ack_payload =
  ha_protocol_major :: u16
  ha_protocol_minor :: u16
  ha_pid :: u32
  ha_status :: public_hello_status

definition encode_hello :: "hello_payload \<Rightarrow> bytes" where
  "encode_hello hello =
     to_be_bytes (ucast (he_protocol_major hello) :: u32) @ to_be_bytes (ucast (he_protocol_minor hello) :: u32)
     @ to_be_bytes (he_uid hello) @ to_be_bytes (he_pid hello)"

definition decode_hello :: "bytes \<Rightarrow> hello_payload option" where
  "decode_hello payload =
     (if length payload < 16 then None
      else Some \<lparr>he_protocol_major = ucast (at_u32 payload 0), he_protocol_minor = ucast (at_u32 payload 4),
                 he_uid = at_u32 payload 8, he_pid = at_u32 payload 12\<rparr>)"

fun public_hello_status_as_u16 :: "public_hello_status \<Rightarrow> u16" where
  "public_hello_status_as_u16 PublicAccepted = 0"
| "public_hello_status_as_u16 PublicVersionMismatch = 1"
| "public_hello_status_as_u16 PublicPermissionDenied = 2"

definition encode_hello_ack :: "hello_ack_payload \<Rightarrow> bytes" where
  "encode_hello_ack ack =
     to_be_bytes (ucast (ha_protocol_major ack) :: u32) @ to_be_bytes (ucast (ha_protocol_minor ack) :: u32)
     @ to_be_bytes (ha_pid ack) @ to_be_bytes (public_hello_status_as_u16 (ha_status ack))"

definition decode_hello_ack :: "bytes \<Rightarrow> hello_ack_payload option" where
  "decode_hello_ack payload =
     (if length payload < 14 then None
      else
        let status = at_u16 payload 12;
            ack = (\<lambda>s. Some \<lparr>ha_protocol_major = ucast (at_u32 payload 0),
                    ha_protocol_minor = ucast (at_u32 payload 4), ha_pid = at_u32 payload 8, ha_status = s\<rparr>)
        in if status = 0 then ack PublicAccepted
           else if status = 1 then ack PublicVersionMismatch
           else if status = 2 then ack PublicPermissionDenied
           else None)"

section \<open>Sessions\<close>

record new_session_resp =
  ns_session_id :: u32
  ns_name :: rstring

definition encode_new_session_resp :: "new_session_resp \<Rightarrow> bytes" where
  "encode_new_session_resp p = encode_str16 (to_be_bytes (ns_session_id p)) (ns_name p)"

definition decode_new_session_resp :: "bytes \<Rightarrow> new_session_resp option" where
  "decode_new_session_resp data =
     (if length data < 6 then None
      else map_option (\<lambda>(name, _). \<lparr>ns_session_id = at_u32 data 0, ns_name = name\<rparr>) (decode_str16 data 4))"

text \<open>Payloads that consist of the identifier of a session.\<close>

definition encode_attach :: "u32 \<Rightarrow> bytes" where
  "encode_attach session_id = to_be_bytes session_id"

definition encode_writer_control :: "u32 \<Rightarrow> bytes" where
  "encode_writer_control session_id = to_be_bytes session_id"

definition decode_writer_control :: "bytes \<Rightarrow> u32 option" where
  "decode_writer_control data = (if length data \<noteq> 4 then None else Some (from_be_bytes data))"

definition encode_detach :: "u32 \<Rightarrow> bytes" where
  "encode_detach session_id = to_be_bytes session_id"

definition decode_detach :: "bytes \<Rightarrow> u32 option" where
  "decode_detach data = (if length data < 4 then None else Some (at_u32 data 0))"

section \<open>Attaching with an environment\<close>

definition ATTACH_CONTEXT_VERSION :: u8 where
  "ATTACH_CONTEXT_VERSION = 1"

definition MAX_CONNECTION_ENV_VARIABLES :: nat where
  "MAX_CONNECTION_ENV_VARIABLES = 8"

definition MAX_CONNECTION_ENV_NAME :: nat where
  "MAX_CONNECTION_ENV_NAME = 32"

definition MAX_CONNECTION_ENV_VALUE :: nat where
  "MAX_CONNECTION_ENV_VALUE = 4096"

definition CONNECTION_ENV_ALLOWLIST :: "rstring list" where
  "CONNECTION_ENV_ALLOWLIST = map ascii
     [''COLORTERM'', ''DISPLAY'', ''SSH_AUTH_SOCK'', ''SSH_CLIENT'', ''SSH_CONNECTION'', ''SSH_TTY'', ''TERM'',
      ''WAYLAND_DISPLAY'']"

type_synonym connection_environment = "(rstring, rstring) btreemap"

definition valid_connection_variable :: "rstring \<Rightarrow> rstring \<Rightarrow> bool" where
  "valid_connection_variable name val \<longleftrightarrow>
     name \<in> set CONNECTION_ENV_ALLOWLIST \<and> name \<noteq> [] \<and> length name \<le> MAX_CONNECTION_ENV_NAME
     \<and> val \<noteq> [] \<and> length val \<le> MAX_CONNECTION_ENV_VALUE \<and> \<not> has_control val"

primrec env_from_pairs :: "(rstring \<times> rstring) list \<Rightarrow> connection_environment \<Rightarrow> connection_environment option" where
  "env_from_pairs [] variables = Some variables"
| "env_from_pairs (p # ps) variables =
     (if MAX_CONNECTION_ENV_VARIABLES \<le> length variables \<or> \<not> valid_connection_variable (fst p) (snd p)
         \<or> bt_get variables (fst p) \<noteq> None
      then None else env_from_pairs ps (bt_insert (fst p) (snd p) variables))"

definition from_pairs :: "(rstring \<times> rstring) list \<Rightarrow> connection_environment option" where
  "from_pairs pairs = env_from_pairs pairs []"

record decoded_attach =
  at_session_id :: u32
  at_connection_env :: connection_environment

definition encode_variable :: "bytes \<Rightarrow> rstring \<times> rstring \<Rightarrow> bytes" where
  "encode_variable output p =
     output @ (of_nat (length (fst p)) :: u8) # fst p @ to_be_bytes (of_nat (length (snd p)) :: u16) @ snd p"

definition encode_attach_with_context :: "u32 \<Rightarrow> connection_environment \<Rightarrow> bytes" where
  "encode_attach_with_context session_id context =
     foldl encode_variable (to_be_bytes session_id @ [ATTACH_CONTEXT_VERSION, of_nat (length context)]) context"

text \<open>\<open>data.get(from..from + n)?\<close>\<close>

definition get_range :: "bytes \<Rightarrow> nat \<Rightarrow> nat \<Rightarrow> bytes option" where
  "get_range data i n =
     Option.bind (checked_add_usize i n) (\<lambda>stop. if length data < stop then None else Some (take n (drop i data)))"

definition get_text :: "bytes \<Rightarrow> nat \<Rightarrow> nat \<Rightarrow> rstring option" where
  "get_text data i n = Option.bind (get_range data i n) (\<lambda>s. if utf8_valid s then Some s else None)"

primrec decode_variables :: "nat \<Rightarrow> bytes \<Rightarrow> nat \<Rightarrow> ((rstring \<times> rstring) list \<times> nat) option" where
  "decode_variables 0 data offset = Some ([], offset)"
| "decode_variables (Suc n) data offset =
     (if length data \<le> offset then None
      else
        let name_len = unat (data ! offset); offset = offset + 1
        in Option.bind (get_text data offset name_len) (\<lambda>name.
           let offset = offset + name_len
           in Option.bind (get_range data offset 2) (\<lambda>bs.
              let value_len = unat (from_be_bytes bs :: u16); offset = offset + 2
              in Option.bind (get_text data offset value_len) (\<lambda>val.
                 map_option (\<lambda>(pairs, stop). ((name, val) # pairs, stop))
                   (decode_variables n data (offset + value_len))))))"

definition decode_attach :: "bytes \<Rightarrow> decoded_attach option" where
  "decode_attach data =
     (if length data < 4 then None
      else
        let session_id = at_u32 data 0
        in if length data = 4 then Some \<lparr>at_session_id = session_id, at_connection_env = []\<rparr>
           else if length data < 6 \<or> data ! 4 \<noteq> ATTACH_CONTEXT_VERSION then None
           else
             let count = unat (data ! 5)
             in if MAX_CONNECTION_ENV_VARIABLES < count then None
                else
                  Option.bind (decode_variables count data 6) (\<lambda>(pairs, offset).
                  if offset \<noteq> length data then None
                  else map_option (\<lambda>env. \<lparr>at_session_id = session_id, at_connection_env = env\<rparr>)
                         (from_pairs pairs)))"

section \<open>Answers and small requests\<close>

record op_resp =
  or_ok :: bool
  or_error_msg :: rstring

definition bool_u8 :: "bool \<Rightarrow> u8" where
  "bool_u8 b = (if b then 1 else 0)"

definition encode_op_resp :: "op_resp \<Rightarrow> bytes" where
  "encode_op_resp p =
     (let len = (of_nat (min (length (or_error_msg p)) 65535) :: u16)
      in [bool_u8 (or_ok p)] @ to_be_bytes len @ take (unat len) (or_error_msg p))"

definition decode_op_resp :: "bytes \<Rightarrow> op_resp option" where
  "decode_op_resp data =
     (if length data < 3 then None
      else Some \<lparr>or_ok = (data ! 0 \<noteq> 0), or_error_msg = optional_text data 3 (unat (at_u16 data 1))\<rparr>)"

record attach_resp =
  ar_ok :: bool
  ar_error_msg :: rstring

definition encode_attach_resp :: "attach_resp \<Rightarrow> bytes" where
  "encode_attach_resp p =
     (let len = (of_nat (min (length (ar_error_msg p)) 65535) :: u16)
      in [bool_u8 (ar_ok p)] @ to_be_bytes len @ take (unat len) (ar_error_msg p))"

definition decode_attach_resp :: "bytes \<Rightarrow> attach_resp option" where
  "decode_attach_resp data =
     (if length data < 3 then None
      else Some \<lparr>ar_ok = (data ! 0 \<noteq> 0), ar_error_msg = optional_text data 3 (unat (at_u16 data 1))\<rparr>)"

record rename_payload =
  rn_session_id :: u32
  rn_name :: rstring

definition encode_rename :: "rename_payload \<Rightarrow> bytes" where
  "encode_rename p =
     (let name_len = (of_nat (min (length (rn_name p)) 65535) :: u16)
      in to_be_bytes (rn_session_id p) @ to_be_bytes name_len @ take (unat name_len) (rn_name p))"

definition decode_rename :: "bytes \<Rightarrow> rename_payload option" where
  "decode_rename data =
     (if length data < 6 then None
      else Some \<lparr>rn_session_id = at_u32 data 0, rn_name = optional_text data 6 (unat (at_u16 data 4))\<rparr>)"

record note_payload =
  np_session_id :: u32
  np_note :: rstring

definition encode_note :: "note_payload \<Rightarrow> bytes" where
  "encode_note p =
     (let note_len = (of_nat (min (length (np_note p)) 65535) :: u16)
      in to_be_bytes (np_session_id p) @ to_be_bytes note_len @ take (unat note_len) (np_note p))"

definition decode_note :: "bytes \<Rightarrow> note_payload option" where
  "decode_note data =
     (if length data < 6 then None
      else Some \<lparr>np_session_id = at_u32 data 0, np_note = optional_text data 6 (unat (at_u16 data 4))\<rparr>)"

definition encode_note_get_resp :: "rstring \<Rightarrow> bytes" where
  "encode_note_get_resp note =
     (let len = (of_nat (min (length note) 65535) :: u16) in to_be_bytes len @ take (unat len) note)"

definition decode_note_get_resp :: "bytes \<Rightarrow> rstring option" where
  "decode_note_get_resp data =
     (if length data < 2 then None
      else
        let len = unat (at_u16 data 0)
        in if length data < 2 + len then None else Some (utf8_lossy (take len (drop 2 data))))"

record tag_payload =
  ta_session_id :: u32
  ta_tag :: rstring

definition encode_tag :: "tag_payload \<Rightarrow> bytes" where
  "encode_tag p =
     (let tag_len = (of_nat (min (length (ta_tag p)) 65535) :: u16)
      in to_be_bytes (ta_session_id p) @ to_be_bytes tag_len @ take (unat tag_len) (ta_tag p))"

definition decode_tag :: "bytes \<Rightarrow> tag_payload option" where
  "decode_tag data =
     (if length data < 6 then None
      else Some \<lparr>ta_session_id = at_u32 data 0, ta_tag = optional_text data 6 (unat (at_u16 data 4))\<rparr>)"

record lock_payload =
  lp_session_id :: u32
  lp_locked :: bool

definition encode_lock :: "lock_payload \<Rightarrow> bytes" where
  "encode_lock p = to_be_bytes (lp_session_id p) @ [bool_u8 (lp_locked p)]"

definition decode_lock :: "bytes \<Rightarrow> lock_payload option" where
  "decode_lock data =
     (if length data \<noteq> 5 then None
      else Some \<lparr>lp_session_id = at_u32 data 0, lp_locked = (data ! 4 \<noteq> 0)\<rparr>)"

record pin_payload =
  pn_session_id :: u32
  pn_pinned :: bool

definition encode_pin :: "pin_payload \<Rightarrow> bytes" where
  "encode_pin p = to_be_bytes (pn_session_id p) @ [bool_u8 (pn_pinned p)]"

definition decode_pin :: "bytes \<Rightarrow> pin_payload option" where
  "decode_pin data =
     (if length data < 5 then None
      else Some \<lparr>pn_session_id = at_u32 data 0, pn_pinned = (data ! 4 \<noteq> 0)\<rparr>)"

record resize_payload =
  ws_rows :: u16
  ws_cols :: u16

definition encode_resize :: "resize_payload \<Rightarrow> bytes" where
  "encode_resize p = to_be_bytes (ws_rows p) @ to_be_bytes (ws_cols p)"

definition decode_resize :: "bytes \<Rightarrow> resize_payload option" where
  "decode_resize data =
     (if length data < 4 then None else Some \<lparr>ws_rows = at_u16 data 0, ws_cols = at_u16 data 2\<rparr>)"

record signal_payload =
  sp_session_id :: u32
  sp_signal :: u32

definition encode_signal :: "signal_payload \<Rightarrow> bytes" where
  "encode_signal p = to_be_bytes (sp_session_id p) @ to_be_bytes (sp_signal p)"

definition decode_signal :: "bytes \<Rightarrow> signal_payload option" where
  "decode_signal data =
     (if length data < 8 then None else Some \<lparr>sp_session_id = at_u32 data 0, sp_signal = at_u32 data 4\<rparr>)"

record session_exited_payload =
  sx_session_id :: u32
  sx_exit_code :: i32

definition encode_session_exited :: "session_exited_payload \<Rightarrow> bytes" where
  "encode_session_exited p = to_be_bytes (sx_session_id p) @ to_be_bytes (sx_exit_code p)"

definition decode_session_exited :: "bytes \<Rightarrow> session_exited_payload option" where
  "decode_session_exited data =
     (if length data < 8 then None else Some \<lparr>sx_session_id = at_u32 data 0, sx_exit_code = at_i32 data 4\<rparr>)"

section \<open>Lists\<close>

text \<open>The count is cut to 16 bits, the elements are all written.\<close>

definition encode_tag_entry :: "bytes \<Rightarrow> rstring \<Rightarrow> bytes" where
  "encode_tag_entry buf tag =
     (let tag_len = (of_nat (min (length tag) 65535) :: u16) in buf @ to_be_bytes tag_len @ take (unat tag_len) tag)"

definition encode_tag_list_resp :: "rstring list \<Rightarrow> bytes" where
  "encode_tag_list_resp tags =
     foldl encode_tag_entry (to_be_bytes (of_nat (min (length tags) 65535) :: u16)) tags"

primrec decode_tags :: "nat \<Rightarrow> bytes \<Rightarrow> nat \<Rightarrow> rstring list option" where
  "decode_tags 0 data offset = Some []"
| "decode_tags (Suc n) data offset =
     (if length data < offset + 2 then None
      else
        let tag_len = unat (at_u16 data offset); offset = offset + 2
        in if length data < offset + tag_len then None
           else
             let tag = utf8_lossy (take tag_len (drop offset data))
             in map_option (\<lambda>tags. tag # tags) (decode_tags n data (offset + tag_len)))"

definition decode_tag_list_resp :: "bytes \<Rightarrow> rstring list option" where
  "decode_tag_list_resp data =
     (if length data < 2 then None else decode_tags (unat (at_u16 data 0)) data 2)"

record process_stats_resp =
  ps_pid :: "u32 option"
  ps_user_ticks :: u64
  ps_system_ticks :: u64
  ps_rss_kib :: u64
  ps_read_bytes :: u64
  ps_write_bytes :: u64

definition encode_process_stats_resp :: "process_stats_resp \<Rightarrow> bytes" where
  "encode_process_stats_resp p =
     [bool_u8 (ps_pid p \<noteq> None)] @ to_be_bytes (case ps_pid p of None \<Rightarrow> 0 | Some pid \<Rightarrow> pid)
     @ to_be_bytes (ps_user_ticks p) @ to_be_bytes (ps_system_ticks p) @ to_be_bytes (ps_rss_kib p)
     @ to_be_bytes (ps_read_bytes p) @ to_be_bytes (ps_write_bytes p)"

definition decode_process_stats_resp :: "bytes \<Rightarrow> process_stats_resp option" where
  "decode_process_stats_resp data =
     (if length data \<noteq> 45 then None
      else Some \<lparr>ps_pid = (if data ! 0 \<noteq> 0 then Some (at_u32 data 1) else None),
                 ps_user_ticks = at_u64 data 5, ps_system_ticks = at_u64 data 13, ps_rss_kib = at_u64 data 21,
                 ps_read_bytes = at_u64 data 29, ps_write_bytes = at_u64 data 37\<rparr>)"

record process_tree_node =
  pt_pid :: u32
  pt_parent_pid :: u32
  pt_depth :: u8
  pt_name :: rstring
  pt_command :: rstring

definition encode_node :: "bytes \<Rightarrow> process_tree_node \<Rightarrow> bytes" where
  "encode_node buf node =
     encode_str16 (encode_str16 (buf @ to_be_bytes (pt_pid node) @ to_be_bytes (pt_parent_pid node) @ [pt_depth node])
       (pt_name node)) (pt_command node)"

definition encode_process_tree_resp :: "process_tree_node list \<Rightarrow> bytes" where
  "encode_process_tree_resp nodes =
     (let nodes = take (min (length nodes) 65535) nodes
      in foldl encode_node (to_be_bytes (of_nat (length nodes) :: u16)) nodes)"

primrec decode_nodes :: "nat \<Rightarrow> bytes \<Rightarrow> nat \<Rightarrow> process_tree_node list option" where
  "decode_nodes 0 data offset = Some []"
| "decode_nodes (Suc n) data offset =
     (if length data < offset + 9 then None
      else
        let pid = at_u32 data offset; parent_pid = at_u32 data (offset + 4); depth = data ! (offset + 8);
            offset = offset + 9
        in Option.bind (decode_str16 data offset) (\<lambda>(name, offset).
           Option.bind (decode_str16 data offset) (\<lambda>(command, offset).
           map_option (\<lambda>nodes. \<lparr>pt_pid = pid, pt_parent_pid = parent_pid, pt_depth = depth, pt_name = name,
               pt_command = command\<rparr> # nodes) (decode_nodes n data offset))))"

definition decode_process_tree_resp :: "bytes \<Rightarrow> process_tree_node list option" where
  "decode_process_tree_resp data =
     (if length data < 2 then None else decode_nodes (unat (at_u16 data 0)) data 2)"

section \<open>The list of sessions\<close>

record listed_session =
  sn_session_id :: u32
  sn_name :: rstring
  sn_status :: rstring
  sn_exit_code :: "i32 option"
  sn_closed_at :: "rstring option"
  sn_has_note :: bool
  sn_has_tags :: bool
  sn_is_pinned :: bool
  sn_is_locked :: bool
  sn_idle :: rstring
  sn_foreground_pid :: "u32 option"
  sn_foreground_name :: rstring
  sn_foreground_cmd :: rstring

definition entry_flags :: "listed_session \<Rightarrow> u8" where
  "entry_flags entry =
     (let flags = (0 :: u8);
          flags = (if sn_exit_code entry \<noteq> None then flags OR 0x01 else flags);
          flags = (if sn_closed_at entry \<noteq> None then flags OR 0x02 else flags);
          flags = (if sn_has_note entry then flags OR 0x04 else flags);
          flags = (if sn_has_tags entry then flags OR 0x08 else flags);
          flags = (if sn_is_pinned entry then flags OR 0x10 else flags);
          flags = (if sn_is_locked entry then flags OR 0x40 else flags);
          flags = (if sn_idle entry \<noteq> [] then flags OR 0x20 else flags)
      in if sn_foreground_pid entry \<noteq> None then flags OR 0x80 else flags)"

definition encode_listed :: "bytes \<Rightarrow> listed_session \<Rightarrow> bytes" where
  "encode_listed buf entry =
     (let buf = buf @ to_be_bytes (sn_session_id entry);
          buf = encode_str16 buf (sn_name entry);
          buf = encode_str16 buf (sn_status entry);
          buf = buf @ [entry_flags entry];
          buf = (case sn_exit_code entry of None \<Rightarrow> buf | Some code \<Rightarrow> buf @ to_be_bytes code);
          buf = (case sn_closed_at entry of None \<Rightarrow> buf | Some closed \<Rightarrow> encode_str16 buf closed);
          buf = (if sn_idle entry \<noteq> [] then encode_str16 buf (sn_idle entry) else buf)
      in (case sn_foreground_pid entry of
            None \<Rightarrow> buf
          | Some pid \<Rightarrow> encode_str16 (encode_str16 (buf @ to_be_bytes pid) (sn_foreground_name entry))
                          (sn_foreground_cmd entry)))"

definition encode_list_sessions_resp :: "listed_session list \<Rightarrow> bytes" where
  "encode_list_sessions_resp sessions =
     foldl encode_listed (to_be_bytes (of_nat (min (length sessions) 65535) :: u16)) sessions"

definition decode_exit_code :: "u8 \<Rightarrow> bytes \<Rightarrow> nat \<Rightarrow> (i32 option \<times> nat) option" where
  "decode_exit_code flags data offset =
     (if flags AND 0x01 \<noteq> 0
      then (if length data < offset + 4 then None else Some (Some (at_i32 data offset), offset + 4))
      else Some (None, offset))"

definition decode_closed_at :: "u8 \<Rightarrow> bytes \<Rightarrow> nat \<Rightarrow> (rstring option \<times> nat) option" where
  "decode_closed_at flags data offset =
     (if flags AND 0x02 \<noteq> 0 then map_option (\<lambda>(s, i). (Some s, i)) (decode_str16 data offset)
      else Some (None, offset))"

definition decode_idle :: "u8 \<Rightarrow> bytes \<Rightarrow> nat \<Rightarrow> (rstring \<times> nat) option" where
  "decode_idle flags data offset =
     (if flags AND 0x20 \<noteq> 0 then decode_str16 data offset else Some ([], offset))"

definition decode_foreground :: "u8 \<Rightarrow> bytes \<Rightarrow> nat \<Rightarrow> (u32 option \<times> rstring \<times> rstring \<times> nat) option" where
  "decode_foreground flags data offset =
     (if flags AND 0x80 \<noteq> 0
      then
        (if length data < offset + 4 then None
         else
           Option.bind (decode_str16 data (offset + 4)) (\<lambda>(name, i).
           map_option (\<lambda>(cmd, i). (Some (at_u32 data offset), name, cmd, i)) (decode_str16 data i)))
      else Some (None, [], [], offset))"

definition decode_listed :: "bytes \<Rightarrow> nat \<Rightarrow> (listed_session \<times> nat) option" where
  "decode_listed data offset =
     (if length data < offset + 4 then None
      else
        Option.bind (decode_str16 data (offset + 4)) (\<lambda>(name, i).
        Option.bind (decode_str16 data i) (\<lambda>(status, i).
        if length data \<le> i then None
        else
          let flags = data ! i
          in Option.bind (decode_exit_code flags data (i + 1)) (\<lambda>(exit_code, i).
             Option.bind (decode_closed_at flags data i) (\<lambda>(closed_at, i).
             Option.bind (decode_idle flags data i) (\<lambda>(idle, i).
             map_option (\<lambda>(foreground_pid, foreground_name, foreground_cmd, i).
               (\<lparr>sn_session_id = at_u32 data offset, sn_name = name, sn_status = status, sn_exit_code = exit_code,
                 sn_closed_at = closed_at, sn_has_note = (flags AND 0x04 \<noteq> 0), sn_has_tags = (flags AND 0x08 \<noteq> 0),
                 sn_is_pinned = (flags AND 0x10 \<noteq> 0), sn_is_locked = (flags AND 0x40 \<noteq> 0), sn_idle = idle,
                 sn_foreground_pid = foreground_pid, sn_foreground_name = foreground_name,
                 sn_foreground_cmd = foreground_cmd\<rparr>, i)) (decode_foreground flags data i)))))))"

primrec decode_entries :: "nat \<Rightarrow> bytes \<Rightarrow> nat \<Rightarrow> listed_session list option" where
  "decode_entries 0 data offset = Some []"
| "decode_entries (Suc n) data offset =
     Option.bind (decode_listed data offset) (\<lambda>(entry, offset).
       map_option (\<lambda>entries. entry # entries) (decode_entries n data offset))"

definition decode_list_sessions_resp :: "bytes \<Rightarrow> listed_session list option" where
  "decode_list_sessions_resp data =
     (if length data < 2 then None else decode_entries (unat (at_u16 data 0)) data 2)"

end
