(* ===== verification/Public_Payload_Codec.thy ===== *)
theory Public_Payload_Codec
  imports Public_Payload
begin

unbundle bit_operations_syntax

text \<open>
  Every public message is decoded from its encoding. Decoders that read at an offset are shown to
  read the encoding at any place of the data and to continue behind it; the locale \<open>at_item\<close> states
  this of one element and lifts it to the counted lists of the protocol.
\<close>

section \<open>Text\<close>

lemma utf8_valid_step:
  assumes "utf8_valid (a # r)"
  shows "\<exists>n. utf8_tail a r = (n, True) \<and> utf8_valid (drop n r)"
proof -
  have low: "0xE0 \<le> a \<Longrightarrow> \<not> a \<le> 0xDF" "0xF0 \<le> a \<Longrightarrow> \<not> a \<le> 0xEF" "0xF0 \<le> a \<Longrightarrow> \<not> a \<le> 0xDF"
    "a \<le> 0xEF \<Longrightarrow> a \<noteq> 0xF0" "a \<le> 0xEF \<Longrightarrow> a \<noteq> 0xF4" "0xF0 \<le> a \<Longrightarrow> a \<noteq> 0xE0" "0xF0 \<le> a \<Longrightarrow> a \<noteq> 0xED"
    by (auto simp: word_le_nat_alt)
  consider (one) "a < 0x80" | (two) b r' where "\<not> a < 0x80" "0xC2 \<le> a" "a \<le> 0xDF" "r = b # r'" "utf8_cont b" "utf8_valid r'"
    | (three) b c r' where "\<not> a < 0x80" "\<not> a \<le> 0xDF" "0xE0 \<le> a" "a \<le> 0xEF" "r = b # c # r'" "utf8_second a b"
        "utf8_cont c" "utf8_valid r'"
    | (four) b c d r' where "\<not> a < 0x80" "\<not> a \<le> 0xDF" "\<not> a \<le> 0xEF" "0xF0 \<le> a" "a \<le> 0xF4" "r = b # c # d # r'"
        "utf8_second a b" "utf8_cont c" "utf8_cont d" "utf8_valid r'"
    using assms low unfolding utf8_valid.simps
    by (auto simp: utf8_second_def split: if_split_asm list.split_asm)
  then show ?thesis
  proof cases
    case one
    then show ?thesis
      using assms by (intro exI[of _ 0]) (simp add: utf8_tail_def)
  next
    case two
    then have "utf8_second a b"
      by (auto simp: utf8_second_def word_le_nat_alt)
    then show ?thesis
      using two by (intro exI[of _ 1]) (simp add: utf8_tail_def)
  next
    case three
    then show ?thesis
      by (intro exI[of _ 2]) (simp add: utf8_tail_def)
  next
    case four
    then show ?thesis
      by (intro exI[of _ 3]) (simp add: utf8_tail_def)
  qed
qed

lemma utf8_lossy_valid: "utf8_valid s \<Longrightarrow> utf8_lossy s = s"
proof (induction s rule: length_induct)
  case (1 s)
  show ?case
  proof (cases s)
    case Nil
    then show ?thesis by simp
  next
    case (Cons a r)
    then obtain n where "utf8_tail a r = (n, True)" "utf8_valid (drop n r)"
      using utf8_valid_step "1.prems" by blast
    then show ?thesis
      using "1.IH" Cons by simp
  qed
qed

definition str_fits :: "rstring \<Rightarrow> bool" where
  "str_fits s \<longleftrightarrow> length s \<le> 65535 \<and> utf8_valid s"

lemma str_fitsD: "str_fits s \<Longrightarrow> length s \<le> 65535" "str_fits s \<Longrightarrow> utf8_lossy s = s"
  by (simp_all add: str_fits_def utf8_lossy_valid)

lemma str_fits_Nil [simp]: "str_fits []"
  by (simp add: str_fits_def)

lemma encode_str16_ok: "str_fits s \<Longrightarrow> encode_str16 buf s = buf @ wire_string s"
  by (simp add: encode_str16_def wire_string_def str_fits_def min_absorb1)

lemma at_word [simp]:
  "at_u16 (pre @ to_be_bytes a @ rest) (length pre) = a"
  "at_u32 (pre @ to_be_bytes b @ rest) (length pre) = b"
  "at_i32 (pre @ to_be_bytes c @ rest) (length pre) = c"
  "at_u64 (pre @ to_be_bytes d @ rest) (length pre) = d"
  by (simp_all add: at_u16_def at_u32_def at_i32_def at_u64_def from_to_be_bytes)

lemma decode_str16_at:
  assumes "str_fits s"
  shows "decode_str16 (pre @ wire_string s @ rest) (length pre) = Some (s, length (pre @ wire_string s))"
proof -
  have "at_u16 (pre @ wire_string s @ rest) (length pre) = of_nat (length s)"
    by (simp add: wire_string_def)
  moreover have "take (length s) (drop (length pre + 2) (pre @ wire_string s @ rest)) = s"
    by (simp add: wire_string_def)
  ultimately show ?thesis
    using str_fitsD[OF assms] by (simp add: decode_str16_def Let_def)
qed

lemma optional_text_at: "str_fits s \<Longrightarrow> optional_text (pre @ s @ rest) (length pre) (length s) = s"
  by (simp add: optional_text_def str_fitsD)

section \<open>Counted lists\<close>

primrec get_all :: "(bytes \<Rightarrow> nat \<Rightarrow> ('a \<times> nat) option) \<Rightarrow> nat \<Rightarrow> bytes \<Rightarrow> nat \<Rightarrow> 'a list option" where
  "get_all get 0 data offset = Some []"
| "get_all get (Suc n) data offset =
     Option.bind (get data offset) (\<lambda>(x, offset). map_option (\<lambda>xs. x # xs) (get_all get n data offset))"

locale at_item =
  fixes put :: "bytes \<Rightarrow> 'a \<Rightarrow> bytes" and get :: "bytes \<Rightarrow> nat \<Rightarrow> ('a \<times> nat) option"
    and enc :: "'a \<Rightarrow> bytes" and item_fits :: "'a \<Rightarrow> bool"
  assumes put_at: "item_fits x \<Longrightarrow> put buf x = buf @ enc x"
    and get_at: "item_fits x \<Longrightarrow> get (pre @ enc x @ rest) (length pre) = Some (x, length (pre @ enc x))"
begin

lemma put_all: "list_all item_fits xs \<Longrightarrow> foldl put buf xs = buf @ concat (map enc xs)"
  by (induction xs arbitrary: buf) (simp_all add: put_at)

lemma get_all_at:
  "list_all item_fits xs \<Longrightarrow> get_all get (length xs) (pre @ concat (map enc xs) @ rest) (length pre) = Some xs"
proof (induction xs arbitrary: pre)
  case Nil
  then show ?case by simp
next
  case (Cons x xs)
  then show ?case
    using Cons.IH[of "pre @ enc x"] get_at[of x pre "concat (map enc xs) @ rest"] by simp
qed

lemma list_codec:
  assumes "list_all item_fits xs" and "length xs \<le> 65535"
  shows "get_all get (unat (at_u16 (foldl put (to_be_bytes (of_nat (length xs) :: u16)) xs) 0))
    (foldl put (to_be_bytes (of_nat (length xs) :: u16)) xs) 2 = Some xs"
proof -
  have "at_u16 (to_be_bytes (of_nat (length xs) :: u16) @ concat (map enc xs)) 0 = of_nat (length xs)"
    using at_word(1)[of "[]"] by simp
  then show ?thesis
    using get_all_at[OF assms(1), of "to_be_bytes (of_nat (length xs) :: u16)" "[]"] assms
    by (simp add: put_all)
qed

end

section \<open>Fixed fields\<close>

lemma ucast_u16_u32: "(ucast (ucast (x :: u16) :: u32) :: u16) = x"
  by (rule bit_word_eqI) (simp add: bit_ucast_iff)

lemma hello_codec: "decode_hello (encode_hello h @ rest) = Some h"
  by (cases h) (simp add: decode_hello_def encode_hello_def at_u32_def from_to_be_bytes ucast_u16_u32)

lemma hello_ack_codec: "decode_hello_ack (encode_hello_ack h @ rest) = Some h"
  by (cases h, cases "ha_status h")
    (simp_all add: decode_hello_ack_def encode_hello_ack_def at_u32_def at_u16_def from_to_be_bytes ucast_u16_u32 Let_def)

lemma writer_control_codec: "decode_writer_control p = Some sid \<longleftrightarrow> p = encode_writer_control sid"
  by (auto simp: decode_writer_control_def encode_writer_control_def from_to_be_bytes to_from_be_bytes)

lemma detach_codec: "decode_detach (encode_detach sid @ rest) = Some sid"
  by (simp add: decode_detach_def encode_detach_def at_u32_def from_to_be_bytes)

lemma lock_codec: "decode_lock (encode_lock p) = Some p"
  by (cases p) (simp add: decode_lock_def encode_lock_def at_u32_def from_to_be_bytes bool_u8_def nth_append)

lemma pin_codec: "decode_pin (encode_pin p @ rest) = Some p"
  by (cases p) (simp add: decode_pin_def encode_pin_def at_u32_def from_to_be_bytes bool_u8_def nth_append)

lemma resize_codec: "decode_resize (encode_resize p @ rest) = Some p"
  by (cases p) (simp add: decode_resize_def encode_resize_def at_u16_def from_to_be_bytes)

lemma signal_codec: "decode_signal (encode_signal p @ rest) = Some p"
  by (cases p) (simp add: decode_signal_def encode_signal_def at_u32_def from_to_be_bytes)

lemma session_exited_codec: "decode_session_exited (encode_session_exited p @ rest) = Some p"
  by (cases p) (simp add: decode_session_exited_def encode_session_exited_def at_u32_def at_i32_def from_to_be_bytes)

lemma process_stats_codec: "decode_process_stats_resp (encode_process_stats_resp p) = Some p"
  by (cases p) (auto simp: decode_process_stats_resp_def encode_process_stats_resp_def at_u32_def at_u64_def
      from_to_be_bytes bool_u8_def split: option.split)

section \<open>One string\<close>

lemma text_field:
  assumes "str_fits s"
  shows "unat (of_nat (min (length s) 65535) :: u16) = length s"
    and "optional_text (pre @ s) (length pre) (length s) = s"
  using assms optional_text_at[OF assms, of pre "[]"] by (simp_all add: str_fits_def min_absorb1)

lemma new_session_resp_codec:
  "str_fits (ns_name p) \<Longrightarrow> decode_new_session_resp (encode_new_session_resp p) = Some p"
  using decode_str16_at[of "ns_name p" "to_be_bytes (ns_session_id p)" "[]"] at_word(2)[of "[]"]
  by (cases p) (simp add: decode_new_session_resp_def encode_new_session_resp_def encode_str16_ok)

lemma op_resp_codec: "str_fits (or_error_msg p) \<Longrightarrow> decode_op_resp (encode_op_resp p) = Some p"
  using text_field(2)[of "or_error_msg p" "bool_u8 (or_ok p) # to_be_bytes (of_nat (length (or_error_msg p)) :: u16)"]
  by (cases p) (simp add: decode_op_resp_def encode_op_resp_def text_field(1) Let_def at_u16_def from_to_be_bytes
      str_fitsD(1) bool_u8_def)

lemma attach_resp_codec: "str_fits (ar_error_msg p) \<Longrightarrow> decode_attach_resp (encode_attach_resp p) = Some p"
  using text_field(2)[of "ar_error_msg p" "bool_u8 (ar_ok p) # to_be_bytes (of_nat (length (ar_error_msg p)) :: u16)"]
  by (cases p) (simp add: decode_attach_resp_def encode_attach_resp_def text_field(1) Let_def at_u16_def
      from_to_be_bytes str_fitsD(1) bool_u8_def)

lemma rename_codec: "str_fits (rn_name p) \<Longrightarrow> decode_rename (encode_rename p) = Some p"
  using text_field(2)[of "rn_name p" "to_be_bytes (rn_session_id p) @ to_be_bytes (of_nat (length (rn_name p)) :: u16)"]
  by (cases p) (simp add: decode_rename_def encode_rename_def text_field(1) Let_def at_u16_def at_u32_def
      from_to_be_bytes str_fitsD(1))

lemma note_codec: "str_fits (np_note p) \<Longrightarrow> decode_note (encode_note p) = Some p"
  using text_field(2)[of "np_note p" "to_be_bytes (np_session_id p) @ to_be_bytes (of_nat (length (np_note p)) :: u16)"]
  by (cases p) (simp add: decode_note_def encode_note_def text_field(1) Let_def at_u16_def at_u32_def
      from_to_be_bytes str_fitsD(1))

lemma tag_codec: "str_fits (ta_tag p) \<Longrightarrow> decode_tag (encode_tag p) = Some p"
  using text_field(2)[of "ta_tag p" "to_be_bytes (ta_session_id p) @ to_be_bytes (of_nat (length (ta_tag p)) :: u16)"]
  by (cases p) (simp add: decode_tag_def encode_tag_def text_field(1) Let_def at_u16_def at_u32_def
      from_to_be_bytes str_fitsD(1))

lemma note_get_resp_codec: "str_fits s \<Longrightarrow> decode_note_get_resp (encode_note_get_resp s) = Some s"
  by (simp add: decode_note_get_resp_def encode_note_get_resp_def text_field(1) Let_def at_u16_def from_to_be_bytes
      str_fitsD)

section \<open>Tags and processes\<close>

interpretation tags: at_item encode_str16 decode_str16 wire_string str_fits
  by unfold_locales (simp_all add: encode_str16_ok decode_str16_at)

lemma decode_tags_all: "decode_tags n data i = get_all decode_str16 n data i"
  by (induction n arbitrary: i) (simp_all add: decode_str16_def Let_def)

lemma tag_list_codec:
  assumes "list_all str_fits tags" and "length tags \<le> 65535"
  shows "decode_tag_list_resp (encode_tag_list_resp tags) = Some tags"
proof -
  have "encode_tag_entry = encode_str16"
    by (simp add: fun_eq_iff encode_tag_entry_def encode_str16_def)
  then show ?thesis
    using tags.list_codec[OF assms] tags.put_all[OF assms(1)] assms(2)
    by (simp add: decode_tag_list_resp_def encode_tag_list_resp_def decode_tags_all min_absorb1)
qed

definition decode_node :: "bytes \<Rightarrow> nat \<Rightarrow> (process_tree_node \<times> nat) option" where
  "decode_node data offset =
     (if length data < offset + 9 then None
      else
        Option.bind (decode_str16 data (offset + 9)) (\<lambda>(name, i).
        Option.bind (decode_str16 data i) (\<lambda>(command, i).
        Some (\<lparr>pt_pid = at_u32 data offset, pt_parent_pid = at_u32 data (offset + 4), pt_depth = data ! (offset + 8),
               pt_name = name, pt_command = command\<rparr>, i))))"

definition wire_node :: "process_tree_node \<Rightarrow> bytes" where
  "wire_node n = to_be_bytes (pt_pid n) @ to_be_bytes (pt_parent_pid n) @ [pt_depth n] @ wire_string (pt_name n)
     @ wire_string (pt_command n)"

definition node_fits :: "process_tree_node \<Rightarrow> bool" where
  "node_fits n \<longleftrightarrow> str_fits (pt_name n) \<and> str_fits (pt_command n)"

lemma decode_nodes_all: "decode_nodes n data i = get_all decode_node n data i"
  by (induction n arbitrary: i)
    (simp_all add: decode_node_def Let_def Option.bind_assoc bind_map_option split_def comp_def cong: option.case_cong)

lemma decode_node_at:
  assumes "node_fits n"
  shows "decode_node (pre @ wire_node n @ rest) (length pre) = Some (n, length (pre @ wire_node n))"
proof -
  let ?data = "pre @ wire_node n @ rest"
  let ?head = "pre @ to_be_bytes (pt_pid n) @ to_be_bytes (pt_parent_pid n) @ [pt_depth n]"
  have data: "?data = ?head @ wire_string (pt_name n) @ wire_string (pt_command n) @ rest"
    by (simp add: wire_node_def)
  have fields: "at_u32 ?data (length pre) = pt_pid n" "at_u32 ?data (length pre + 4) = pt_parent_pid n"
    "?data ! (length pre + 8) = pt_depth n"
    using at_word(2)[of pre "pt_pid n"] at_word(2)[of "pre @ to_be_bytes (pt_pid n)" "pt_parent_pid n"]
    by (simp_all add: wire_node_def nth_append)
  have "decode_str16 ?data (length pre + 9) = Some (pt_name n, length (?head @ wire_string (pt_name n)))"
    using decode_str16_at[of "pt_name n" ?head "wire_string (pt_command n) @ rest"] assms
    unfolding data by (simp add: node_fits_def)
  moreover have "decode_str16 ?data (length (?head @ wire_string (pt_name n))) =
      Some (pt_command n, length ((?head @ wire_string (pt_name n)) @ wire_string (pt_command n)))"
    using decode_str16_at[of "pt_command n" "?head @ wire_string (pt_name n)" rest] assms
    unfolding data by (simp add: node_fits_def)
  moreover have "\<not> length ?data < length pre + 9"
    by (simp add: wire_node_def)
  ultimately show ?thesis
    unfolding decode_node_def using fields by (simp add: wire_node_def)
qed

interpretation nodes: at_item encode_node decode_node wire_node node_fits
proof
  show "encode_node buf x = buf @ wire_node x" if "node_fits x" for buf x
    using that by (simp add: encode_node_def encode_str16_ok node_fits_def wire_node_def)
qed (rule decode_node_at)

lemma process_tree_codec:
  assumes "list_all node_fits ns" and "length ns \<le> 65535"
  shows "decode_process_tree_resp (encode_process_tree_resp ns) = Some ns"
  using nodes.list_codec[OF assms] nodes.put_all[OF assms(1)] assms(2)
  by (simp add: decode_process_tree_resp_def encode_process_tree_resp_def decode_nodes_all min_absorb1)

section \<open>Sessions\<close>

lemma flag_step:
  "((if c then x OR m else x) AND k) = (if c then (x AND k) OR (m AND k) else x AND k)" for x m k :: u8
  by (simp add: bit.conj_disj_distrib2)

lemma entry_flag:
  "entry_flags e AND 0x01 \<noteq> 0 \<longleftrightarrow> sn_exit_code e \<noteq> None" "entry_flags e AND 0x02 \<noteq> 0 \<longleftrightarrow> sn_closed_at e \<noteq> None"
  "entry_flags e AND 0x04 \<noteq> 0 \<longleftrightarrow> sn_has_note e" "entry_flags e AND 0x08 \<noteq> 0 \<longleftrightarrow> sn_has_tags e"
  "entry_flags e AND 0x10 \<noteq> 0 \<longleftrightarrow> sn_is_pinned e" "entry_flags e AND 0x40 \<noteq> 0 \<longleftrightarrow> sn_is_locked e"
  "entry_flags e AND 0x20 \<noteq> 0 \<longleftrightarrow> sn_idle e \<noteq> []" "entry_flags e AND 0x80 \<noteq> 0 \<longleftrightarrow> sn_foreground_pid e \<noteq> None"
  unfolding entry_flags_def Let_def flag_step by simp_all

definition wire_opt :: "('a \<Rightarrow> bytes) \<Rightarrow> 'a option \<Rightarrow> bytes" where
  "wire_opt enc x = (case x of None \<Rightarrow> [] | Some v \<Rightarrow> enc v)"

definition wire_idle :: "rstring \<Rightarrow> bytes" where
  "wire_idle s = (if s = [] then [] else wire_string s)"

definition wire_foreground :: "listed_session \<Rightarrow> bytes" where
  "wire_foreground e = (case sn_foreground_pid e of
     None \<Rightarrow> []
   | Some pid \<Rightarrow> to_be_bytes pid @ wire_string (sn_foreground_name e) @ wire_string (sn_foreground_cmd e))"

definition wire_listed :: "listed_session \<Rightarrow> bytes" where
  "wire_listed e = to_be_bytes (sn_session_id e) @ wire_string (sn_name e) @ wire_string (sn_status e)
     @ [entry_flags e] @ wire_opt to_be_bytes (sn_exit_code e) @ wire_opt wire_string (sn_closed_at e)
     @ wire_idle (sn_idle e) @ wire_foreground e"

text \<open>Without a foreground process its name and command are not sent.\<close>

definition entry_fits :: "listed_session \<Rightarrow> bool" where
  "entry_fits e \<longleftrightarrow> str_fits (sn_name e) \<and> str_fits (sn_status e) \<and> pred_option str_fits (sn_closed_at e)
     \<and> str_fits (sn_idle e) \<and> str_fits (sn_foreground_name e) \<and> str_fits (sn_foreground_cmd e)
     \<and> (sn_foreground_pid e = None \<longrightarrow> sn_foreground_name e = [] \<and> sn_foreground_cmd e = [])"

lemma encode_listed_ok: "entry_fits e \<Longrightarrow> encode_listed buf e = buf @ wire_listed e"
  by (auto simp: encode_listed_def wire_listed_def entry_fits_def encode_str16_ok wire_opt_def wire_idle_def
      wire_foreground_def Let_def split: option.split)

lemma decode_exit_code_at:
  "decode_exit_code (entry_flags e) (pre @ wire_opt to_be_bytes (sn_exit_code e) @ rest) (length pre) =
    Some (sn_exit_code e, length (pre @ wire_opt to_be_bytes (sn_exit_code e)))"
  unfolding decode_exit_code_def entry_flag by (auto simp: wire_opt_def split: option.split)

lemma decode_closed_at_at:
  "pred_option str_fits (sn_closed_at e) \<Longrightarrow>
   decode_closed_at (entry_flags e) (pre @ wire_opt wire_string (sn_closed_at e) @ rest) (length pre) =
    Some (sn_closed_at e, length (pre @ wire_opt wire_string (sn_closed_at e)))"
  unfolding decode_closed_at_def entry_flag
  by (auto simp: wire_opt_def decode_str16_at split: option.split)

lemma decode_idle_at:
  "str_fits (sn_idle e) \<Longrightarrow>
   decode_idle (entry_flags e) (pre @ wire_idle (sn_idle e) @ rest) (length pre) =
    Some (sn_idle e, length (pre @ wire_idle (sn_idle e)))"
  unfolding decode_idle_def entry_flag by (auto simp: wire_idle_def decode_str16_at)

lemma decode_foreground_at:
  assumes "entry_fits e"
  shows "decode_foreground (entry_flags e) (pre @ wire_foreground e @ rest) (length pre) =
    Some (sn_foreground_pid e, sn_foreground_name e, sn_foreground_cmd e, length (pre @ wire_foreground e))"
proof (cases "sn_foreground_pid e")
  case None
  then show ?thesis
    using assms unfolding decode_foreground_def entry_flag by (simp add: wire_foreground_def entry_fits_def)
next
  case (Some pid)
  let ?name = "sn_foreground_name e" and ?cmd = "sn_foreground_cmd e"
  have ok: "str_fits ?name" "str_fits ?cmd"
    using assms by (simp_all add: entry_fits_def)
  show ?thesis
    using Some decode_str16_at[OF ok(1), of "pre @ to_be_bytes pid" "wire_string ?cmd @ rest"]
      decode_str16_at[OF ok(2), of "pre @ to_be_bytes pid @ wire_string ?name" rest]
    unfolding decode_foreground_def entry_flag by (simp add: wire_foreground_def add.assoc)
qed

lemma decode_listed_at:
  assumes "entry_fits e"
  shows "decode_listed (pre @ wire_listed e @ rest) (length pre) = Some (e, length (pre @ wire_listed e))"
proof -
  let ?data = "pre @ wire_listed e @ rest"
  define p1 where "p1 = pre @ to_be_bytes (sn_session_id e)"
  define p2 where "p2 = p1 @ wire_string (sn_name e)"
  define p3 where "p3 = p2 @ wire_string (sn_status e)"
  define p4 where "p4 = p3 @ [entry_flags e]"
  define p5 where "p5 = p4 @ wire_opt to_be_bytes (sn_exit_code e)"
  define p6 where "p6 = p5 @ wire_opt wire_string (sn_closed_at e)"
  define p7 where "p7 = p6 @ wire_idle (sn_idle e)"
  note ps = p1_def p2_def p3_def p4_def p5_def p6_def p7_def
  have ok: "str_fits (sn_name e)" "str_fits (sn_status e)" "pred_option str_fits (sn_closed_at e)" "str_fits (sn_idle e)"
    using assms by (simp_all add: entry_fits_def)
  have at: "decode_str16 ?data (length p1) = Some (sn_name e, length p2)"
    "decode_str16 ?data (length p2) = Some (sn_status e, length p3)"
    "decode_exit_code (entry_flags e) ?data (length p4) = Some (sn_exit_code e, length p5)"
    "decode_closed_at (entry_flags e) ?data (length p5) = Some (sn_closed_at e, length p6)"
    "decode_idle (entry_flags e) ?data (length p6) = Some (sn_idle e, length p7)"
    "decode_foreground (entry_flags e) ?data (length p7) =
      Some (sn_foreground_pid e, sn_foreground_name e, sn_foreground_cmd e, length (pre @ wire_listed e))"
    using decode_str16_at[OF ok(1), of p1] decode_str16_at[OF ok(2), of p2] decode_exit_code_at[of e p4]
      decode_closed_at_at[OF ok(3), of p5] decode_idle_at[OF ok(4), of p6] decode_foreground_at[OF assms, of p7]
    unfolding wire_listed_def ps by simp_all
  have fields: "at_u32 ?data (length pre) = sn_session_id e" "?data ! length p3 = entry_flags e"
    "\<not> length ?data < length p1" "\<not> length ?data \<le> length p3" "length p3 + 1 = length p4" "length pre + 4 = length p1"
    by (simp_all add: wire_listed_def ps nth_append)
  show ?thesis
    unfolding decode_listed_def fields(1) if_not_P[OF fields(3)] fields(6) at(1,2) Option.bind.bind_lunit prod.case
      if_not_P[OF fields(4)] Let_def fields(2,5) at(3-6) option.map(2) entry_flag
    by simp
qed

interpretation entries: at_item encode_listed decode_listed wire_listed entry_fits
  by (unfold_locales) (rule encode_listed_ok decode_listed_at, assumption)+

lemma decode_entries_all: "decode_entries n data i = get_all decode_listed n data i"
  by (induction n arbitrary: i) simp_all

lemma list_sessions_codec:
  assumes "list_all entry_fits es" and "length es \<le> 65535"
  shows "decode_list_sessions_resp (encode_list_sessions_resp es) = Some es"
  using entries.list_codec[OF assms] entries.put_all[OF assms(1)] assms(2)
  by (simp add: decode_list_sessions_resp_def encode_list_sessions_resp_def decode_entries_all min_absorb1)

section \<open>Attaching\<close>

text \<open>What a daemon accepts as the environment of a connection: at most eight admitted variables,
  each once, with a value that is short and free of control characters.\<close>

definition env_fits :: "connection_environment \<Rightarrow> bool" where
  "env_fits env \<longleftrightarrow> bt_wf env \<and> length env \<le> MAX_CONNECTION_ENV_VARIABLES
     \<and> list_all (\<lambda>(name, val). valid_connection_variable name val) env"

lemma length_bt_insert: "bt_get m k = None \<Longrightarrow> length (bt_insert k v m) = length m + 1"
  by (induction k v m rule: bt_insert.induct) (auto split: if_splits)

lemma set_bt_insert: "bt_get m k = None \<Longrightarrow> set (bt_insert k v m) = insert (k, v) (set m)"
  by (induction k v m rule: bt_insert.induct) (auto split: if_splits)

lemma env_from_pairs_fits:
  "env_fits acc \<Longrightarrow> env_from_pairs ps acc = Some env \<Longrightarrow> env_fits env"
proof (induction ps arbitrary: acc)
  case Nil
  then show ?case by simp
next
  case (Cons p ps)
  then have new: "length acc < MAX_CONNECTION_ENV_VARIABLES" "valid_connection_variable (fst p) (snd p)"
    "bt_get acc (fst p) = None" "env_from_pairs ps (bt_insert (fst p) (snd p) acc) = Some env"
    by (auto split: if_splits)
  then have "env_fits (bt_insert (fst p) (snd p) acc)"
    using Cons.prems(1) by (auto simp: env_fits_def length_bt_insert set_bt_insert list_all_iff)
  then show ?case
    using Cons.IH new(4) by blast
qed

lemma bt_insert_last: "\<forall>x \<in> set m. fst x < k \<Longrightarrow> bt_insert k v m = m @ [(k, v)]"
  by (induction k v m rule: bt_insert.induct) (auto dest: less_not_sym)

lemma env_from_pairs_sorted:
  "env_fits (acc @ ps) \<Longrightarrow> env_from_pairs ps acc = Some (acc @ ps)"
proof (induction ps arbitrary: acc)
  case Nil
  then show ?case by simp
next
  case (Cons p ps)
  obtain name val where p: "p = (name, val)"
    by (cases p)
  have below: "\<forall>x \<in> set acc. fst x < name"
    using Cons.prems by (auto simp: env_fits_def bt_wf_def sorted_wrt_append p)
  then have "bt_get acc name = None"
    by (auto simp: map_of_eq_None_iff)
  then show ?case
    using Cons.IH[of "acc @ [p]"] Cons.prems bt_insert_last[OF below] by (simp add: env_fits_def p)
qed

definition wire_variable :: "rstring \<times> rstring \<Rightarrow> bytes" where
  "wire_variable p = (of_nat (length (fst p)) :: u8) # fst p @ to_be_bytes (of_nat (length (snd p)) :: u16) @ snd p"

lemma encode_variables: "foldl encode_variable buf ps = buf @ concat (map wire_variable ps)"
  by (induction ps arbitrary: buf) (simp_all add: encode_variable_def wire_variable_def)

definition variable_fits :: "rstring \<times> rstring \<Rightarrow> bool" where
  "variable_fits p \<longleftrightarrow> length (fst p) \<le> 255 \<and> length (snd p) \<le> 65535 \<and> utf8_valid (fst p) \<and> utf8_valid (snd p)"

lemma get_range_at:
  "fits (pre @ x @ rest) \<Longrightarrow> get_range (pre @ x @ rest) (length pre) (length x) = Some x"
  by (simp add: get_range_def checked_add_usize_def fits_def)

lemma decode_variable_step:
  assumes "variable_fits p" and "fits (pre @ wire_variable p @ rest)"
  shows "decode_variables (Suc n) (pre @ wire_variable p @ rest) (length pre) =
    map_option (\<lambda>(pairs, stop). (p # pairs, stop))
      (decode_variables n (pre @ wire_variable p @ rest) (length (pre @ wire_variable p)))"
proof -
  let ?data = "pre @ wire_variable p @ rest"
  let ?name = "fst p" and ?val = "snd p"
  let ?len = "to_be_bytes (of_nat (length ?val) :: u16)"
  have lens: "unat (of_nat (length ?name) :: u8) = length ?name" "unat (of_nat (length ?val) :: u16) = length ?val"
    using assms(1) by (simp_all add: variable_fits_def unat_of_nat)
  define p1 where "p1 = pre @ [of_nat (length ?name)]"
  define p2 where "p2 = p1 @ ?name"
  define p3 where "p3 = p2 @ ?len"
  have data: "?data = p1 @ ?name @ ?len @ ?val @ rest" "?data = p2 @ ?len @ ?val @ rest" "?data = p3 @ ?val @ rest"
    by (simp_all add: wire_variable_def p1_def p2_def p3_def)
  have ranges: "get_range ?data (length p1) (length ?name) = Some ?name"
    "get_range ?data (length p2) 2 = Some ?len" "get_range ?data (length p3) (length ?val) = Some ?val"
    using get_range_at[of p1 ?name "?len @ ?val @ rest"] get_range_at[of p2 ?len "?val @ rest"]
      get_range_at[of p3 ?val rest] assms(2) unfolding data[symmetric] by (simp_all flip: data)
  have at: "?data ! length pre = of_nat (length ?name)" "\<not> length ?data \<le> length pre" "length pre + 1 = length p1"
    "length p1 + length ?name = length p2" "length p2 + 2 = length p3" "length p3 + length ?val = length (pre @ wire_variable p)"
    by (simp_all add: wire_variable_def p1_def p2_def p3_def)
  have utf8: "utf8_valid ?name" "utf8_valid ?val"
    using assms(1) by (simp_all add: variable_fits_def)
  show ?thesis
    unfolding decode_variables.simps if_not_P[OF at(2)] Let_def at(1) lens at(3) get_text_def ranges(1) Option.bind.bind_lunit
      if_P[OF utf8(1)] at(4) ranges(2) from_to_be_bytes at(5)
    by (simp add: from_to_be_bytes lens ranges at utf8)
qed

lemma decode_variables_at:
  assumes "list_all variable_fits ps" and "fits (pre @ concat (map wire_variable ps) @ rest)"
  shows "decode_variables (length ps) (pre @ concat (map wire_variable ps) @ rest) (length pre) =
    Some (ps, length (pre @ concat (map wire_variable ps)))"
  using assms
proof (induction ps arbitrary: pre)
  case Nil
  then show ?case by simp
next
  case (Cons p ps)
  have "decode_variables (Suc (length ps)) (pre @ wire_variable p @ (concat (map wire_variable ps) @ rest)) (length pre) =
    map_option (\<lambda>(pairs, stop). (p # pairs, stop))
      (decode_variables (length ps) (pre @ wire_variable p @ (concat (map wire_variable ps) @ rest))
        (length (pre @ wire_variable p)))"
    using Cons.prems by (intro decode_variable_step) simp_all
  then show ?case
    using Cons.IH[of "pre @ wire_variable p"] Cons.prems by (simp del: decode_variables.simps)
qed

lemma allowed_name: "name \<in> set CONNECTION_ENV_ALLOWLIST \<Longrightarrow> utf8_valid name"
  by (auto simp: CONNECTION_ENV_ALLOWLIST_def ascii_def intro!: utf8_valid_ascii)

lemma env_variable_fits:
  assumes "env_fits env" and "list_all (\<lambda>p. utf8_valid (snd p)) env"
  shows "list_all variable_fits env" and "length (concat (map wire_variable env)) \<le> 8 * 4131"
proof -
  have each: "length (fst p) \<le> 32 \<and> length (snd p) \<le> 4096 \<and> utf8_valid (fst p)" if "p \<in> set env" for p
    using assms(1) that allowed_name[of "fst p"]
    by (auto simp: env_fits_def list_all_iff valid_connection_variable_def MAX_CONNECTION_ENV_NAME_def
        MAX_CONNECTION_ENV_VALUE_def)
  then show "list_all variable_fits env"
    using assms(2) by (fastforce simp: list_all_iff variable_fits_def)
  have "length (concat (map wire_variable ps)) \<le> length ps * 4131" if "set ps \<subseteq> set env" for ps
    using that
  proof (induction ps)
    case Nil
    then show ?case by simp
  next
    case (Cons p ps)
    then show ?case
      using each[of p] by (simp add: wire_variable_def)
  qed
  from this[of env] show "length (concat (map wire_variable env)) \<le> 8 * 4131"
    using assms(1) by (auto simp: env_fits_def MAX_CONNECTION_ENV_VARIABLES_def)
qed

lemma attach_context_codec:
  assumes "env_fits env" and "list_all (\<lambda>p. utf8_valid (snd p)) env"
  shows "decode_attach (encode_attach_with_context sid env) = Some \<lparr>at_session_id = sid, at_connection_env = env\<rparr>"
proof -
  let ?pre = "to_be_bytes sid @ [ATTACH_CONTEXT_VERSION, of_nat (length env)]"
  let ?data = "?pre @ concat (map wire_variable env)"
  have count: "unat (of_nat (length env) :: u8) = length env" "length env \<le> 8"
    using assms(1) by (simp_all add: env_fits_def MAX_CONNECTION_ENV_VARIABLES_def unat_of_nat)
  have "fits ?data"
    using env_variable_fits(2)[OF assms] by (intro fits_small) simp
  then have variables: "decode_variables (length env) ?data 6 = Some (env, length ?data)"
    using decode_variables_at[OF env_variable_fits(1)[OF assms], of ?pre "[]"] by simp
  moreover define data where "data = ?data"
  moreover have "encode_attach_with_context sid env = data"
    by (simp add: encode_attach_with_context_def encode_variables data_def)
  moreover have "from_pairs env = Some env"
    using env_from_pairs_sorted[of "[]" env] assms(1) by (simp add: from_pairs_def)
  moreover have "at_u32 data 0 = sid" "data ! 4 = ATTACH_CONTEXT_VERSION" "data ! 5 = of_nat (length env)"
    using at_word(2)[of "[]" sid] by (simp_all add: nth_append data_def)
  moreover have "\<not> length data < 4" "length data \<noteq> 4" "\<not> length data < 6"
    by (simp_all add: data_def)
  ultimately show ?thesis
    using count by (simp add: decode_attach_def Let_def MAX_CONNECTION_ENV_VARIABLES_def del: append.append_Cons)
qed

lemma attach_codec: "decode_attach (encode_attach sid) = Some \<lparr>at_session_id = sid, at_connection_env = []\<rparr>"
  by (simp add: decode_attach_def encode_attach_def at_u32_def from_to_be_bytes)

lemma decode_attach_env: "decode_attach data = Some d \<Longrightarrow> env_fits (at_connection_env d)"
  using env_from_pairs_fits[of "[]"]
  by (auto simp: decode_attach_def Let_def from_pairs_def env_fits_def bt_wf_def split: if_splits
      Option.bind_splits prod.splits)

section \<open>Values\<close>

lemma demo_unknown_type: "try_read (replicate 12 0) = (Inl (InvalidArgument ''unknown message type''), replicate 12 0)"
proof -
  have "nat_be (replicate n 0) = 0" for n
    unfolding nat_be_def by (induction n) simp_all
  then show ?thesis
    by (simp add: try_read_def HEADER_SIZE_def from_be_bytes_def msg_from_u16_def msg_types_def)
qed

definition demo_listed :: listed_session where
  "demo_listed = \<lparr>sn_session_id = 3, sn_name = ascii ''build'', sn_status = ascii ''running'', sn_exit_code = Some 1,
     sn_closed_at = None, sn_has_note = True, sn_has_tags = False, sn_is_pinned = True, sn_is_locked = False,
     sn_idle = ascii ''5m'', sn_foreground_pid = Some 42, sn_foreground_name = ascii ''make'',
     sn_foreground_cmd = ascii ''make all''\<rparr>"

lemma demo_listed_fits: "entry_fits demo_listed"
  by (simp add: demo_listed_def entry_fits_def str_fits_def ascii_def)

lemma demo_env_fits: "env_fits [(ascii ''TERM'', ascii ''xterm'')]"
  by (simp add: env_fits_def bt_wf_def valid_connection_variable_def CONNECTION_ENV_ALLOWLIST_def
      MAX_CONNECTION_ENV_VARIABLES_def MAX_CONNECTION_ENV_NAME_def MAX_CONNECTION_ENV_VALUE_def ascii_def)

lemma demo_env_utf8: "list_all (\<lambda>p. utf8_valid (snd p)) [(ascii ''TERM'', ascii ''xterm'')]"
  by (simp add: ascii_def)

end
