(* ===== verification/Command_History.thy ===== *)
theory Command_History
  imports Holder_Wire
begin

text \<open>
  The history of commands of a session (\<open>crates/persist-core/src/command_history.rs\<close> and
  \<open>command_history_format.rs\<close>): a file with a header and records, to which commands are appended in
  place until it is rewritten with the newest records. The file is its contents; creating and
  locking it and the check of its owner are not modelled. The three writes of an append are
  separate, so that a process that dies between them is covered. Shown: what is appended is read
  back, the limits hold, sequence numbers grow, a crash between two writes loses nothing, and a
  record of which only a part was written makes the history unreadable.
\<close>

section \<open>Model\<close>

definition HISTORY_MAGIC :: bytes where
  "HISTORY_MAGIC = ascii ''PSHIST01''"

definition HEADER_LEN :: nat where
  "HEADER_LEN = 24"

definition RECORD_META_LEN :: nat where
  "RECORD_META_LEN = 20"

definition MAX_COMMAND_BYTES :: nat where
  "MAX_COMMAND_BYTES = 64 * 1024"

definition MAX_HISTORY_BYTES :: nat where
  "MAX_HISTORY_BYTES = 4 * 1024 * 1024"

definition MAX_HISTORY_RECORDS :: nat where
  "MAX_HISTORY_RECORDS = 10000"

record command_record =
  cr_sequence :: u64
  cr_completed_at_ms :: u64
  cr_shell :: rstring
  cr_command :: bytes

record history_state =
  hs_next_sequence :: u64
  hs_records :: "command_record list"

definition validate_record :: "rstring \<Rightarrow> bytes \<Rightarrow> persist_error + unit" where
  "validate_record shell command =
     (if shell = [] \<or> 65535 < length shell then Inl (InvalidArgument ''invalid history shell name'')
      else if command = [] then Inl (InvalidArgument ''empty history command'')
      else if MAX_COMMAND_BYTES < length command then Inl (InvalidArgument ''history command is too large'')
      else Inr ())"

definition decode_record :: "bytes \<Rightarrow> persist_error + command_record \<times> nat" where
  "decode_record bs =
     (if length bs < 4 then Inl (InvalidArgument ''truncated history record'')
      else
        let body_len = unat (from_be_bytes (take 4 bs) :: u32)
        in if body_len < RECORD_META_LEN \<or> RECORD_META_LEN + 65535 + MAX_COMMAND_BYTES < body_len
           then Inl (InvalidArgument ''invalid history record size'')
           else if length bs < 4 + body_len then Inl (InvalidArgument ''truncated history record'')
           else
             let body = take body_len (drop 4 bs);
                 shell_len = unat (from_be_bytes (take 2 (drop 16 body)) :: u16)
             in if length body < RECORD_META_LEN + shell_len
                then Inl (InvalidArgument ''invalid history shell size'')
                else
                  let shell = take shell_len (drop RECORD_META_LEN body)
                  in if \<not> utf8_valid shell then Inl (InvalidArgument ''history shell is not UTF-8'')
                     else
                       let command = drop (RECORD_META_LEN + shell_len) body
                       in rbind (validate_record shell command) (\<lambda>_.
                          Inr (\<lparr>cr_sequence = from_be_bytes (take 8 body),
                                cr_completed_at_ms = from_be_bytes (take 8 (drop 8 body)),
                                cr_shell = shell, cr_command = command\<rparr>, 4 + body_len)))"

lemma decode_record_size: "decode_record bs = Inr (r, n) \<Longrightarrow> 4 \<le> n \<and> n \<le> length bs"
  by (auto simp: decode_record_def Let_def elim!: rbind_Inr_elim split: if_splits)

text \<open>The loop over the records, at a cursor that is the beginning of what is left.\<close>

function decode_records :: "bytes \<Rightarrow> persist_error + command_record list" where
  "decode_records bs =
     (if bs = [] then Inr []
      else
        (case decode_record bs of
           Inl e \<Rightarrow> Inl e
         | Inr (r, consumed) \<Rightarrow> rbind (decode_records (drop consumed bs)) (\<lambda>rs. Inr (r # rs))))"
  by pat_completeness auto
termination
  by (relation "measure length") (auto dest!: decode_record_size)

declare decode_records.simps [simp del]

definition validate_header :: "u64 \<Rightarrow> command_record list \<Rightarrow> persist_error + unit" where
  "validate_header stored_count records =
     (if length records < unat stored_count \<or> 1 < length records - unat stored_count
      then Inl (InvalidArgument ''command history record count does not match header'')
      else if list_ex (\<lambda>(a, b). cr_sequence b \<le> cr_sequence a) (zip records (tl records))
      then Inl (InvalidArgument ''command history sequence is invalid'')
      else Inr ())"

definition saturating_succ :: "u64 \<Rightarrow> u64" where
  "saturating_succ n = (if n = - 1 then n else n + 1)"

definition load_state :: "bytes \<Rightarrow> persist_error + history_state" where
  "load_state file =
     (if MAX_HISTORY_BYTES < length file
      then Inl (InvalidArgument ''command history exceeds size limit'')
      else if file = [] then Inr \<lparr>hs_next_sequence = 1, hs_records = []\<rparr>
      else if length file < HEADER_LEN \<or> take 8 file \<noteq> HISTORY_MAGIC
      then Inl (InvalidArgument ''invalid command history header'')
      else
        let stored_next = from_be_bytes (take 8 (drop 8 file));
            stored_count = from_be_bytes (take 8 (drop 16 file))
        in rbind (decode_records (drop HEADER_LEN file)) (\<lambda>records.
           rbind (validate_header stored_count records) (\<lambda>_.
           let parsed_next = (if records = [] then 1 else saturating_succ (cr_sequence (last records)))
           in Inr \<lparr>hs_next_sequence = max stored_next parsed_next, hs_records = records\<rparr>)))"

definition encode_record :: "command_record \<Rightarrow> bytes \<Rightarrow> persist_error + bytes" where
  "encode_record record out =
     rbind (validate_record (cr_shell record) (cr_command record)) (\<lambda>_.
     let body_len = RECORD_META_LEN + length (cr_shell record) + length (cr_command record)
     in Inr (out @ to_be_bytes (of_nat body_len :: u32) @ to_be_bytes (cr_sequence record)
          @ to_be_bytes (cr_completed_at_ms record) @ to_be_bytes (of_nat (length (cr_shell record)) :: u16)
          @ to_be_bytes (0 :: u16) @ cr_shell record @ cr_command record))"

primrec encode_records :: "command_record list \<Rightarrow> bytes \<Rightarrow> persist_error + bytes" where
  "encode_records [] out = Inr out"
| "encode_records (r # rs) out = rbind (encode_record r out) (encode_records rs)"

text \<open>What a successful \<open>write_state\<close> leaves in the file.\<close>

definition write_state :: "history_state \<Rightarrow> persist_error + bytes" where
  "write_state state =
     encode_records (hs_records state)
       (HISTORY_MAGIC @ to_be_bytes (hs_next_sequence state) @ to_be_bytes (of_nat (length (hs_records state)) :: u64))"

definition estimated_size :: "command_record list \<Rightarrow> nat" where
  "estimated_size records =
     HEADER_LEN + sum_list (map (\<lambda>r. 4 + RECORD_META_LEN + length (cr_shell r) + length (cr_command r)) records)"

function compact_from :: "nat \<Rightarrow> command_record list \<Rightarrow> nat" where
  "compact_from first records =
     (if MAX_HISTORY_BYTES < estimated_size (drop first records) \<and> first < length records
      then compact_from (first + 1) records else first)"
  by pat_completeness auto
termination
  by (relation "measure (\<lambda>(first, records). length records - first)") auto

declare compact_from.simps [simp del]

definition compact :: "command_record list \<Rightarrow> command_record list" where
  "compact records = drop (compact_from (length records - MAX_HISTORY_RECORDS) records) records"

text \<open>Writing at a position, and the contents after each of the three writes of \<open>append_record\<close>.\<close>

definition write_at :: "nat \<Rightarrow> bytes \<Rightarrow> bytes \<Rightarrow> bytes" where
  "write_at i data file = take i file @ data @ drop (i + length data) file"

definition append_record :: "bytes \<Rightarrow> command_record \<Rightarrow> nat \<Rightarrow> persist_error + bytes list" where
  "append_record file record count =
     rbind (encode_record record []) (\<lambda>encoded.
     let file1 = file @ encoded;
         file2 = write_at 8 (to_be_bytes (saturating_succ (cr_sequence record))) file1;
         file3 = write_at 16 (to_be_bytes (of_nat (count + 1) :: u64)) file2
     in Inr [file1, file2, file3])"

text \<open>\<open>append_command\<close> returns the record and the file after all writes.\<close>

definition append_command :: "u64 \<Rightarrow> rstring \<Rightarrow> bytes \<Rightarrow> bytes \<Rightarrow> (persist_error + command_record) \<times> bytes" where
  "append_command now shell command file =
     (case validate_record shell command of
        Inl e \<Rightarrow> (Inl e, file)
      | Inr _ \<Rightarrow>
          (case load_state file of
             Inl e \<Rightarrow> (Inl e, file)
           | Inr state \<Rightarrow>
               let record = \<lparr>cr_sequence = hs_next_sequence state, cr_completed_at_ms = now, cr_shell = shell,
                             cr_command = command\<rparr>;
                   write = (\<lambda>state. case write_state state of Inl e \<Rightarrow> (Inl e, file) | Inr file \<Rightarrow> (Inr record, file))
               in if file = []
                  then write \<lparr>hs_next_sequence = saturating_succ (cr_sequence record),
                              hs_records = hs_records state @ [record]\<rparr>
                  else
                    let encoded_size = 4 + RECORD_META_LEN + length shell + length command;
                        current_size = estimated_size (hs_records state)
                    in if length (hs_records state) < MAX_HISTORY_RECORDS
                          \<and> current_size + encoded_size \<le> MAX_HISTORY_BYTES
                       then
                         (case append_record file record (length (hs_records state)) of
                            Inl e \<Rightarrow> (Inl e, file)
                          | Inr files \<Rightarrow> (Inr record, last files))
                       else write \<lparr>hs_next_sequence = saturating_succ (hs_next_sequence state),
                                   hs_records = compact (hs_records state @ [record])\<rparr>))"

definition read_commands_desc :: "nat \<Rightarrow> nat \<Rightarrow> bytes option \<Rightarrow> persist_error + command_record list" where
  "read_commands_desc offset limit file =
     (case file of
        None \<Rightarrow> Inr []
      | Some file \<Rightarrow>
          if limit = 0 then Inr []
          else rbind (load_state file) (\<lambda>state. Inr (take limit (drop offset (rev (hs_records state))))))"

definition command_count :: "bytes option \<Rightarrow> persist_error + nat" where
  "command_count file =
     (case file of
        None \<Rightarrow> Inr 0
      | Some file \<Rightarrow> rbind (load_state file) (\<lambda>state. Inr (length (hs_records state))))"

section \<open>Records\<close>

text \<open>The bytes of a record and what a record has to satisfy to be written.\<close>

definition record_bytes :: "command_record \<Rightarrow> bytes" where
  "record_bytes r =
     to_be_bytes (of_nat (RECORD_META_LEN + length (cr_shell r) + length (cr_command r)) :: u32)
     @ to_be_bytes (cr_sequence r) @ to_be_bytes (cr_completed_at_ms r)
     @ to_be_bytes (of_nat (length (cr_shell r)) :: u16) @ to_be_bytes (0 :: u16) @ cr_shell r @ cr_command r"

definition record_size :: "command_record \<Rightarrow> nat" where
  "record_size r = 4 + RECORD_META_LEN + length (cr_shell r) + length (cr_command r)"

definition record_ok :: "command_record \<Rightarrow> bool" where
  "record_ok r \<longleftrightarrow> validate_record (cr_shell r) (cr_command r) = Inr () \<and> utf8_valid (cr_shell r)"

lemma validate_record_iff:
  "validate_record shell command = Inr u \<longleftrightarrow>
     shell \<noteq> [] \<and> length shell \<le> 65535 \<and> command \<noteq> [] \<and> length command \<le> 65536"
  by (auto simp: validate_record_def MAX_COMMAND_BYTES_def)

lemma length_record_bytes [simp]: "length (record_bytes r) = record_size r"
  by (simp add: record_bytes_def record_size_def RECORD_META_LEN_def)

lemma record_size_pos [simp]: "4 \<le> record_size r" "0 < record_size r"
  by (simp_all add: record_size_def)

lemma record_bytes_nonempty [simp]: "record_bytes r \<noteq> []"
  using length_record_bytes[of r] record_size_pos(2)[of r] by (metis less_numeral_extra(3) list.size(3))

lemma estimated_size_sum: "estimated_size rs = 24 + sum_list (map record_size rs)"
  by (simp add: estimated_size_def HEADER_LEN_def record_size_def[abs_def])

lemma encode_record_ok: "record_ok r \<Longrightarrow> encode_record r out = Inr (out @ record_bytes r)"
  by (simp add: encode_record_def record_ok_def record_bytes_def Let_def)

lemma encode_records_ok:
  "list_all record_ok rs \<Longrightarrow> encode_records rs out = Inr (out @ concat (map record_bytes rs))"
  by (induction rs arbitrary: out) (auto simp: encode_record_ok)

lemma record_size_bound: "record_ok r \<Longrightarrow> record_size r \<le> 24 + 65535 + 65536"
  by (auto simp: record_ok_def validate_record_iff record_size_def RECORD_META_LEN_def)

text \<open>A record is decoded from its bytes, whatever follows; from fewer of them it is not.\<close>

lemma record_body_len:
  assumes "record_ok r"
  shows "unat (of_nat (RECORD_META_LEN + length (cr_shell r) + length (cr_command r)) :: u32)
           = RECORD_META_LEN + length (cr_shell r) + length (cr_command r)"
    and "unat (of_nat (length (cr_shell r)) :: u16) = length (cr_shell r)"
  using assms
  by (auto simp: record_ok_def validate_record_iff RECORD_META_LEN_def unat_of_nat simp del: of_nat_add)

lemma decode_record_bytes:
  assumes "record_ok r"
  shows "decode_record (record_bytes r @ rest) = Inr (r, record_size r)"
proof -
  have sizes: "length (cr_shell r) \<le> 65535" "length (cr_command r) \<le> 65536"
    using assms by (auto simp: record_ok_def validate_record_iff)
  show ?thesis
    using assms sizes record_body_len[OF assms]
    by (simp add: decode_record_def record_bytes_def Let_def record_size_def record_ok_def
        MAX_COMMAND_BYTES_def RECORD_META_LEN_def del: of_nat_add)
qed

lemma decode_record_short:
  assumes "RECORD_META_LEN \<le> unat n" and "unat n \<le> RECORD_META_LEN + 65535 + MAX_COMMAND_BYTES"
    and "length part < unat n"
  shows "decode_record (to_be_bytes (n :: u32) @ part) = Inl (InvalidArgument ''truncated history record'')"
  using assms by (simp add: decode_record_def)

lemma decode_record_torn:
  assumes "record_ok r" and "k < record_size r"
  shows "decode_record (take k (record_bytes r)) = Inl (InvalidArgument ''truncated history record'')"
proof (cases "k < 4")
  case True
  then show ?thesis by (simp add: decode_record_def min_less_iff_disj)
next
  case False
  define n :: u32 where "n = of_nat (RECORD_META_LEN + length (cr_shell r) + length (cr_command r))"
  define body where "body = drop 4 (record_bytes r)"
  have n: "unat n = RECORD_META_LEN + length (cr_shell r) + length (cr_command r)"
    using record_body_len(1)[OF assms(1)] by (simp only: n_def)
  have bytes: "record_bytes r = to_be_bytes n @ body"
    by (simp add: body_def record_bytes_def n_def)
  have body: "length body + 4 = record_size r" by (simp add: body_def)
  have "take k (record_bytes r) = to_be_bytes n @ take (k - 4) body"
    using False by (simp add: bytes)
  moreover have "length (take (k - 4) body) < unat n"
    using assms(2) False body n by (simp add: record_size_def)
  moreover have "unat n \<le> RECORD_META_LEN + 65535 + MAX_COMMAND_BYTES"
    using record_size_bound[OF assms(1)] n by (simp add: record_size_def MAX_COMMAND_BYTES_def RECORD_META_LEN_def)
  ultimately show ?thesis
    using n decode_record_short by simp
qed

lemma decode_recordD:
  assumes "decode_record bs = Inr (r, n)"
  shows "record_ok r" and "n = record_size r" and "n \<le> length bs"
    and "decode_record (bs @ rest) = Inr (r, n)"
proof -
  define len where "len = unat (from_be_bytes (take 4 bs) :: u32)"
  define body where "body = take len (drop 4 bs)"
  define sl where "sl = unat (from_be_bytes (take 2 (drop 16 body)) :: u16)"
  have four: "4 \<le> length bs"
    using assms by (simp add: decode_record_def split: if_splits)
  have len: "RECORD_META_LEN \<le> len" "len \<le> RECORD_META_LEN + 65535 + MAX_COMMAND_BYTES" "4 + len \<le> length bs"
    using assms four by (simp_all add: decode_record_def Let_def len_def[symmetric] split: if_splits)
  have body_len: "length body = len" using len by (simp add: body_def)
  have D: "\<And>more. decode_record (bs @ more) =
      (if length body < RECORD_META_LEN + sl then Inl (InvalidArgument ''invalid history shell size'')
       else if \<not> utf8_valid (take sl (drop RECORD_META_LEN body))
            then Inl (InvalidArgument ''history shell is not UTF-8'')
       else rbind (validate_record (take sl (drop RECORD_META_LEN body)) (drop (RECORD_META_LEN + sl) body))
         (\<lambda>_. Inr (\<lparr>cr_sequence = from_be_bytes (take 8 body),
                      cr_completed_at_ms = from_be_bytes (take 8 (drop 8 body)),
                      cr_shell = take sl (drop RECORD_META_LEN body),
                      cr_command = drop (RECORD_META_LEN + sl) body\<rparr>, 4 + len)))"
    using four len
    by (simp only: decode_record_def Let_def len_def[symmetric] body_def[symmetric] sl_def[symmetric]
        take_append drop_append length_append)
       (simp add: body_def[symmetric] sl_def[symmetric] len_def[symmetric])
  note D0 = D[of "[]", simplified append_Nil2]
  show "decode_record (bs @ rest) = Inr (r, n)" using assms by (simp only: D D0)
  show "n \<le> length bs" using assms decode_record_size by blast
  have "RECORD_META_LEN + sl \<le> len"
    using assms body_len by (simp add: D0 split: if_splits)
  then show "record_ok r" "n = record_size r"
    using assms body_len
    by (auto simp: D0 record_ok_def record_size_def rbind_eq_Inr split: if_splits)
qed

lemma decode_records_Nil [simp]: "decode_records [] = Inr []"
  by (simp add: decode_records.simps)

lemma decode_records_torn:
  assumes "record_ok r" and "0 < k" and "k < record_size r"
  shows "decode_records (take k (record_bytes r)) = Inl (InvalidArgument ''truncated history record'')"
proof -
  have "take k (record_bytes r) \<noteq> []"
    using assms(2) by simp
  then show ?thesis
    by (simp add: decode_records.simps decode_record_torn assms)
qed

lemma decode_records_append:
  "decode_records a = Inr rs \<Longrightarrow>
   decode_records (a @ b) = rbind (decode_records b) (\<lambda>ys. Inr (rs @ ys))"
proof (induction a arbitrary: rs rule: decode_records.induct)
  case (1 a)
  show ?case
  proof (cases "a = []")
    case True
    with "1.prems" show ?thesis by (cases "decode_records b") auto
  next
    case False
    with "1.prems" obtain r n rest where d: "decode_record a = Inr (r, n)"
      and rest: "decode_records (drop n a) = Inr rest" "rs = r # rest"
      by (auto simp: decode_records.simps[of a] rbind_eq_Inr split: sum.splits)
    have "decode_records (a @ b) = rbind (decode_records (drop n a @ b)) (\<lambda>rs. Inr (r # rs))"
      using False decode_recordD(3,4)[OF d] by (simp add: decode_records.simps[of "a @ b"])
    then show ?thesis
      using "1.IH"[OF False d refl rest(1)] rest(2) by (cases "decode_records b") auto
  qed
qed

lemma decode_recordsD:
  "decode_records a = Inr rs \<Longrightarrow> list_all record_ok rs \<and> length a = sum_list (map record_size rs)"
proof (induction a arbitrary: rs rule: decode_records.induct)
  case (1 a)
  show ?case
  proof (cases "a = []")
    case False
    with "1.prems" obtain r n rest where d: "decode_record a = Inr (r, n)"
      and rest: "decode_records (drop n a) = Inr rest" "rs = r # rest"
      by (auto simp: decode_records.simps[of a] rbind_eq_Inr split: sum.splits)
    with "1.IH"[OF False d refl rest(1)] decode_recordD(1,2,3)[OF d] show ?thesis by auto
  qed (use "1.prems" in auto)
qed

lemma decode_records_one: "record_ok r \<Longrightarrow> decode_records (record_bytes r) = Inr [r]"
  using decode_record_bytes[of r "[]"] by (simp add: decode_records.simps[of "record_bytes r"])

lemma decode_records_bytes:
  "list_all record_ok rs \<Longrightarrow> decode_records (concat (map record_bytes rs)) = Inr rs"
  by (induction rs) (simp_all add: decode_records_append[OF decode_records_one])

section \<open>The header\<close>

definition history_file :: "u64 \<Rightarrow> u64 \<Rightarrow> bytes \<Rightarrow> bytes" where
  "history_file stored_next stored_count body =
     HISTORY_MAGIC @ to_be_bytes stored_next @ to_be_bytes stored_count @ body"

definition stored_records :: "bytes \<Rightarrow> u64" where
  "stored_records file = from_be_bytes (take 8 (drop 16 file))"

definition next_after :: "u64 \<Rightarrow> command_record list \<Rightarrow> u64" where
  "next_after stored rs = max stored (if rs = [] then 1 else saturating_succ (cr_sequence (last rs)))"

lemma length_history_magic [simp]: "length HISTORY_MAGIC = 8"
  by (simp add: HISTORY_MAGIC_def)

lemma length_history_file [simp]: "length (history_file n c body) = 24 + length body"
  by (simp add: history_file_def)

lemma stored_records_file [simp]: "stored_records (history_file n c body) = c"
  by (simp add: stored_records_def history_file_def)

lemma history_file_append: "history_file n c body @ rest = history_file n c (body @ rest)"
  by (simp add: history_file_def)

lemma write_at_file [simp]:
  "write_at 8 (to_be_bytes (m :: u64)) (history_file n c body) = history_file m c body"
  "write_at 16 (to_be_bytes (m :: u64)) (history_file n c body) = history_file n m body"
  by (simp_all add: write_at_def history_file_def)

lemma increasing_adjacent:
  fixes f :: "'a \<Rightarrow> 'b::linorder"
  shows "list_ex (\<lambda>(a, b). f b \<le> f a) (zip xs (tl xs)) \<longleftrightarrow> \<not> sorted_wrt (<) (map f xs)"
proof (induction xs)
  case (Cons x xs)
  then show ?case
    by (cases xs) (auto simp del: sorted_wrt.simps(2) simp add: sorted_wrt1 sorted_wrt2[OF transp_on_less] not_less)
qed simp

lemma validate_header_iff:
  "validate_header count rs = Inr u \<longleftrightarrow>
     unat count \<le> length rs \<and> length rs \<le> unat count + 1 \<and> sorted_wrt (<) (map cr_sequence rs)"
  by (auto simp: validate_header_def increasing_adjacent)

lemma load_state_file:
  "load_state (history_file n c body) =
     (if MAX_HISTORY_BYTES < 24 + length body then Inl (InvalidArgument ''command history exceeds size limit'')
      else rbind (decode_records body) (\<lambda>rs. rbind (validate_header c rs) (\<lambda>_.
        Inr \<lparr>hs_next_sequence = next_after n rs, hs_records = rs\<rparr>)))"
proof -
  let ?f = "history_file n c body"
  have "?f \<noteq> []" "\<not> length ?f < HEADER_LEN" "length ?f = 24 + length body" "take 8 ?f = HISTORY_MAGIC"
    by (simp_all add: HEADER_LEN_def) (simp_all add: history_file_def flip: length_greater_0_conv)
  moreover have "from_be_bytes (take 8 (drop 8 ?f)) = n" "from_be_bytes (take 8 (drop 16 ?f)) = c"
    "drop HEADER_LEN ?f = body"
    by (simp_all add: history_file_def HEADER_LEN_def)
  ultimately show ?thesis
    by (simp only: load_state_def Let_def next_after_def if_False simp_thms)
qed

lemma load_stateD:
  assumes "load_state file = Inr st" and "file \<noteq> []"
  obtains n c body where "file = history_file n c body" and "24 + length body \<le> MAX_HISTORY_BYTES"
    and "decode_records body = Inr (hs_records st)" and "validate_header c (hs_records st) = Inr ()"
    and "hs_next_sequence st = next_after n (hs_records st)"
proof -
  have size: "24 \<le> length file" "take 8 file = HISTORY_MAGIC"
    using assms by (simp_all add: load_state_def HEADER_LEN_def split: if_splits)
  define n :: u64 where "n = from_be_bytes (take 8 (drop 8 file))"
  define c :: u64 where "c = from_be_bytes (take 8 (drop 16 file))"
  have nc: "to_be_bytes n = take 8 (drop 8 file)" "to_be_bytes c = take 8 (drop 16 file)"
    unfolding n_def c_def using size by (auto intro!: to_from_be_bytes)
  have "take 8 (drop 16 file) @ drop 24 file = drop 16 file"
    using append_take_drop_id[of 8 "drop 16 file"] by simp
  moreover have "take 8 (drop 8 file) @ drop 16 file = drop 8 file"
    using append_take_drop_id[of 8 "drop 8 file"] by simp
  ultimately have "take 8 file @ take 8 (drop 8 file) @ take 8 (drop 16 file) @ drop 24 file = file"
    by simp
  then have parts: "file = history_file n c (drop 24 file)"
    by (simp add: history_file_def nc size)
  have "load_state (history_file n c (drop 24 file)) = Inr st"
    using assms(1) parts by simp
  then show thesis
    using that[OF parts] by (auto simp: load_state_file rbind_eq_Inr split: if_splits)
qed

section \<open>Appending\<close>

lemma append_record_file:
  "record_ok r \<Longrightarrow>
   append_record (history_file n c body) r count =
     Inr [history_file n c (body @ record_bytes r),
          history_file (saturating_succ (cr_sequence r)) c (body @ record_bytes r),
          history_file (saturating_succ (cr_sequence r)) (of_nat (count + 1)) (body @ record_bytes r)]"
  by (simp add: append_record_def encode_record_ok history_file_append)

lemma write_state_file:
  "list_all record_ok (hs_records st) \<Longrightarrow>
   write_state st = Inr (history_file (hs_next_sequence st) (of_nat (length (hs_records st)))
     (concat (map record_bytes (hs_records st))))"
  by (simp add: write_state_def encode_records_ok history_file_def)

lemma length_concat_record_bytes [simp]:
  "length (concat (map record_bytes rs)) = sum_list (map record_size rs)"
  by (induction rs) simp_all

lemma saturating_succ_less: "n \<noteq> - 1 \<Longrightarrow> n < saturating_succ n"
  using unatSuc[of n] by (auto simp: saturating_succ_def word_less_nat_alt add.commute add_eq_0_iff)

text \<open>The record that is appended gets the next number, which is above those of all others.\<close>

lemma next_after_greater:
  assumes "sorted_wrt (<) (map cr_sequence rs)" and "next_after n rs \<noteq> - 1" and "r \<in> set rs"
  shows "cr_sequence r < next_after n rs"
proof -
  define l where "l = last rs"
  obtain xs where rs: "rs = xs @ [l]"
    using assms(3) by (metis append_butlast_last_id emptyE list.set(1) l_def)
  have "saturating_succ (cr_sequence l) \<le> next_after n rs" by (simp add: next_after_def rs)
  moreover have "cr_sequence l \<noteq> - 1"
  proof
    assume "cr_sequence l = - 1"
    then have "- 1 \<le> next_after n rs" by (simp add: next_after_def rs saturating_succ_def le_max_iff_disj)
    with assms(2) show False by (simp add: word_order.extremum_unique)
  qed
  ultimately have "cr_sequence l < next_after n rs"
    using saturating_succ_less[of "cr_sequence l"] by simp
  moreover have "cr_sequence r \<le> cr_sequence l"
    using assms(1,3) by (auto simp: rs sorted_wrt_append less_imp_le)
  ultimately show ?thesis by simp
qed

lemma increasing_append:
  assumes "sorted_wrt (<) (map cr_sequence rs)" and "next_after n rs \<noteq> - 1" and "cr_sequence r = next_after n rs"
  shows "sorted_wrt (<) (map cr_sequence (rs @ [r]))"
  using assms next_after_greater by (auto simp: sorted_wrt_append)

lemma next_after_append:
  assumes "stored \<le> saturating_succ (cr_sequence r)"
  shows "next_after stored (rs @ [r]) = saturating_succ (cr_sequence r)"
  using assms by (simp add: next_after_def max_def)

text \<open>Compaction drops no more of the oldest records than the limits ask for.\<close>

definition within_limits :: "command_record list \<Rightarrow> bool" where
  "within_limits rs \<longleftrightarrow> length rs \<le> MAX_HISTORY_RECORDS \<and> estimated_size rs \<le> MAX_HISTORY_BYTES"

lemma compact_from_keeps_last:
  assumes "first \<le> length rs" and "record_ok r"
  shows "compact_from first (rs @ [r]) \<le> length rs"
  using assms
proof (induction first "rs @ [r]" rule: compact_from.induct)
  case (1 first)
  show ?case
  proof (cases "first = length rs")
    case True
    then show ?thesis
      using record_size_bound[OF "1.prems"(2)]
      by (simp add: compact_from.simps[of "length rs"] estimated_size_sum MAX_HISTORY_BYTES_def)
  qed (use 1 in \<open>simp add: compact_from.simps[of first]\<close>)
qed

lemma compact_from_least:
  "first \<le> length rs \<Longrightarrow>
     first \<le> compact_from first rs \<and> estimated_size (drop (compact_from first rs) rs) \<le> MAX_HISTORY_BYTES
     \<and> (\<forall>k. first \<le> k \<and> k < compact_from first rs \<longrightarrow> MAX_HISTORY_BYTES < estimated_size (drop k rs))"
proof (induction first rs rule: compact_from.induct)
  case (1 first rs)
  show ?case
  proof (cases "MAX_HISTORY_BYTES < estimated_size (drop first rs) \<and> first < length rs")
    case True
    then have step: "compact_from first rs = compact_from (first + 1) rs"
      by (simp add: compact_from.simps[of first])
    have IH: "first + 1 \<le> compact_from first rs"
      "estimated_size (drop (compact_from first rs) rs) \<le> MAX_HISTORY_BYTES"
      "\<And>k. first + 1 \<le> k \<Longrightarrow> k < compact_from first rs \<Longrightarrow> MAX_HISTORY_BYTES < estimated_size (drop k rs)"
      using "1.IH"[OF True] True unfolding step by auto
    have "MAX_HISTORY_BYTES < estimated_size (drop k rs)" if "first \<le> k" "k < compact_from first rs" for k
      using that True IH(3)[of k] by (cases "k = first") auto
    with IH(1,2) show ?thesis by simp
  next
    case False
    with "1.prems" show ?thesis
      by (auto simp: compact_from.simps[of first] estimated_size_sum MAX_HISTORY_BYTES_def not_less)
  qed
qed

lemma compact_newest:
  assumes "record_ok r"
  obtains n where "compact (rs @ [r]) = drop n (rs @ [r])" and "n \<le> length rs"
    and "within_limits (drop n (rs @ [r]))" and "\<And>k. k < n \<Longrightarrow> \<not> within_limits (drop k (rs @ [r]))"
proof -
  define first where "first = length (rs @ [r]) - MAX_HISTORY_RECORDS"
  define n where "n = compact_from first (rs @ [r])"
  have first: "first \<le> length rs" by (simp add: first_def MAX_HISTORY_RECORDS_def)
  then have least: "first \<le> n" "estimated_size (drop n (rs @ [r])) \<le> MAX_HISTORY_BYTES"
    "\<And>k. first \<le> k \<Longrightarrow> k < n \<Longrightarrow> MAX_HISTORY_BYTES < estimated_size (drop k (rs @ [r]))"
    using compact_from_least[of first "rs @ [r]"] by (auto simp: n_def)
  show thesis
  proof (rule that)
    show "compact (rs @ [r]) = drop n (rs @ [r])" by (simp only: compact_def n_def first_def)
    show "n \<le> length rs" using compact_from_keeps_last[OF first assms] by (simp add: n_def)
    show "within_limits (drop n (rs @ [r]))"
      using least(1,2) by (auto simp: within_limits_def first_def)
    show "\<not> within_limits (drop k (rs @ [r]))" if "k < n" for k
      using least(3)[of k] that by (cases "first \<le> k") (auto simp: within_limits_def first_def)
  qed
qed

text \<open>A rewritten file and a file appended to in place are read back.\<close>

lemma load_rewritten:
  assumes "list_all record_ok rs" and "within_limits rs" and "sorted_wrt (<) (map cr_sequence rs)"
  shows "load_state (history_file n (of_nat (length rs)) (concat (map record_bytes rs))) =
           Inr \<lparr>hs_next_sequence = next_after n rs, hs_records = rs\<rparr>"
proof -
  have "length rs \<le> 10000" using assms(2) by (simp add: within_limits_def MAX_HISTORY_RECORDS_def)
  then have "unat (of_nat (length rs) :: u64) = length rs"
    by (simp add: unat_of_nat)
  then have "validate_header (of_nat (length rs)) rs = Inr ()"
    using assms(3) by (simp add: validate_header_iff)
  then show ?thesis
    using assms(1,2) by (simp add: load_state_file decode_records_bytes within_limits_def estimated_size_sum)
qed

lemma load_appended:
  assumes "decode_records body = Inr rs" and "record_ok r" and "within_limits (rs @ [r])"
    and "sorted_wrt (<) (map cr_sequence (rs @ [r]))"
  shows "load_state (history_file n c (body @ record_bytes r)) =
     (if unat c \<le> length rs + 1 \<and> length rs \<le> unat c
      then Inr \<lparr>hs_next_sequence = next_after n (rs @ [r]), hs_records = rs @ [r]\<rparr>
      else Inl (InvalidArgument ''command history record count does not match header''))"
proof -
  have "decode_records (body @ record_bytes r) = Inr (rs @ [r])"
    using decode_records_append[OF assms(1)] decode_records_one[OF assms(2)] by simp
  moreover have "24 + (length body + record_size r) \<le> MAX_HISTORY_BYTES"
    using decode_recordsD[OF assms(1)] assms(3) by (simp add: within_limits_def estimated_size_sum)
  moreover have "validate_header c (rs @ [r]) =
      (if unat c \<le> length rs + 1 \<and> length rs \<le> unat c then Inr ()
       else Inl (InvalidArgument ''command history record count does not match header''))"
    using assms(4) by (auto simp: validate_header_def increasing_adjacent[of cr_sequence])
  ultimately show ?thesis by (simp add: load_state_file)
qed

text \<open>\<open>append_command\<close> of a record: in place exactly when the record fits, otherwise a rewrite.\<close>

lemma within_limits_snoc:
  "within_limits (rs @ [r]) \<longleftrightarrow>
     length rs < MAX_HISTORY_RECORDS \<and> estimated_size rs + record_size r \<le> MAX_HISTORY_BYTES"
  by (auto simp: within_limits_def estimated_size_sum)

lemma append_command_cases:
  assumes "load_state file = Inr st" and "record_ok r" and "cr_sequence r = hs_next_sequence st"
    and "list_all record_ok (hs_records st)" and "file = [] \<longrightarrow> hs_records st = []"
  shows "append_command (cr_completed_at_ms r) (cr_shell r) (cr_command r) file =
     (Inr r,
      if file \<noteq> [] \<and> within_limits (hs_records st @ [r])
      then (case append_record file r (length (hs_records st)) of Inl _ \<Rightarrow> file | Inr files \<Rightarrow> last files)
      else let kept = (if file = [] then [r] else compact (hs_records st @ [r]))
           in history_file (saturating_succ (cr_sequence r)) (of_nat (length kept)) (concat (map record_bytes kept)))"
proof -
  have valid: "validate_record (cr_shell r) (cr_command r) = Inr ()"
    using assms(2) by (simp add: record_ok_def)
  have r: "\<lparr>cr_sequence = hs_next_sequence st, cr_completed_at_ms = cr_completed_at_ms r,
            cr_shell = cr_shell r, cr_command = cr_command r\<rparr> = r"
    using assms(3) by simp
  have size: "4 + RECORD_META_LEN + length (cr_shell r) + length (cr_command r) = record_size r"
    by (simp add: record_size_def)
  have kept: "list_all record_ok (compact (hs_records st @ [r]))"
    using assms(2,4) by (auto simp: compact_def list_all_iff dest!: in_set_dropD)
  have app: "append_record file r k \<noteq> Inl e" for k e
    using assms(2) by (simp add: append_record_def encode_record_ok Let_def)
  show ?thesis
    using assms(2,4,5) kept app
    by (simp only: append_command_def valid assms(1) sum.case Let_def r size)
       (auto simp: write_state_file within_limits_snoc assms(3) split: sum.splits)
qed

lemma load_state_known:
  assumes "load_state file = Inr st"
  shows "list_all record_ok (hs_records st)" and "sorted_wrt (<) (map cr_sequence (hs_records st))"
    and "\<exists>n. hs_next_sequence st = next_after n (hs_records st)" and "file = [] \<longrightarrow> hs_records st = []"
proof -
  have "list_all record_ok (hs_records st) \<and> sorted_wrt (<) (map cr_sequence (hs_records st))
      \<and> (\<exists>n. hs_next_sequence st = next_after n (hs_records st)) \<and> (file = [] \<longrightarrow> hs_records st = [])"
  proof (cases "file = []")
    case True
    with assms have "st = \<lparr>hs_next_sequence = 1, hs_records = []\<rparr>" by (simp add: load_state_def split: if_splits)
    then show ?thesis by (auto simp: next_after_def intro: exI[of _ 0])
  next
    case False
    then show ?thesis
      using load_stateD[OF assms False] decode_recordsD validate_header_iff by metis
  qed
  then show "list_all record_ok (hs_records st)" "sorted_wrt (<) (map cr_sequence (hs_records st))"
    "\<exists>n. hs_next_sequence st = next_after n (hs_records st)" "file = [] \<longrightarrow> hs_records st = []"
    by simp_all
qed

lemma within_limits_one: "record_ok r \<Longrightarrow> within_limits [r]"
  using record_size_bound[of r]
  by (simp add: within_limits_def estimated_size_sum MAX_HISTORY_RECORDS_def MAX_HISTORY_BYTES_def)

text \<open>The three contents of the file during an append in place, each of which may be the last one.\<close>

lemma append_in_place:
  assumes "load_state file = Inr st" and "file \<noteq> []" and "record_ok r" and "within_limits (hs_records st @ [r])"
    and "sorted_wrt (<) (map cr_sequence (hs_records st @ [r]))" and "cr_sequence r = hs_next_sequence st"
  obtains first_write second_write third_write where
      "append_record file r (length (hs_records st)) = Inr [first_write, second_write, third_write]"
    and "\<And>f. f \<in> {first_write, second_write} \<Longrightarrow>
       load_state f =
         (if unat (stored_records file) = length (hs_records st)
          then Inr \<lparr>hs_next_sequence = saturating_succ (cr_sequence r), hs_records = hs_records st @ [r]\<rparr>
          else Inl (InvalidArgument ''command history record count does not match header''))
       \<and> stored_records f = stored_records file"
    and "load_state third_write =
       Inr \<lparr>hs_next_sequence = saturating_succ (cr_sequence r), hs_records = hs_records st @ [r]\<rparr>"
proof -
  obtain n c body where parts: "file = history_file n c body" "decode_records body = Inr (hs_records st)"
      "validate_header c (hs_records st) = Inr ()" "hs_next_sequence st = next_after n (hs_records st)"
    using load_stateD[OF assms(1,2)] by metis
  note load = load_appended[OF parts(2) assms(3,4,5)]
  have "n \<le> cr_sequence r" by (simp add: assms(6) parts(4) next_after_def)
  then have "n \<le> saturating_succ (cr_sequence r)"
    using saturating_succ_less[of "cr_sequence r"] by (cases "cr_sequence r = - 1") (auto simp: saturating_succ_def)
  note next_seq = next_after_append[OF this] next_after_append[OF order_refl]
  have "length (hs_records st) < 10000"
    using assms(4) by (simp add: within_limits_snoc MAX_HISTORY_RECORDS_def)
  then have count: "unat (of_nat (Suc (length (hs_records st))) :: u64) = Suc (length (hs_records st))"
    by (simp add: unat_of_nat del: of_nat_Suc)
  have c: "unat c \<le> length (hs_records st)" using parts(3) by (simp add: validate_header_iff)
  show thesis
    by (rule that, unfold parts(1), rule append_record_file[OF assms(3)])
       (use c in \<open>auto simp: load next_seq count simp del: of_nat_Suc\<close>)
qed

text \<open>A file that is refused once is refused by every later append, which leaves it as it is.\<close>

definition refuses_appends :: "bytes \<Rightarrow> bool" where
  "refuses_appends file \<longleftrightarrow> (\<forall>now shell command. \<exists>e. append_command now shell command file = (Inl e, file))"

lemma refuses_appendsI: "load_state file = Inl e \<Longrightarrow> refuses_appends file"
  by (auto simp: refuses_appends_def append_command_def split: sum.splits)

lemma torn_refuses_appends:
  assumes "load_state file = Inr st" and "file \<noteq> []" and "record_ok r" and "0 < k" and "k < record_size r"
  shows "refuses_appends (file @ take k (record_bytes r))"
proof -
  obtain n c body where parts: "file = history_file n c body" "decode_records body = Inr (hs_records st)"
    using load_stateD[OF assms(1,2)] by metis
  have "\<exists>e. load_state (file @ take k (record_bytes r)) = Inl e"
    using decode_records_append[OF parts(2)] decode_records_torn[OF assms(3-5)]
    by (simp add: parts(1) history_file_append load_state_file)
  then show ?thesis by (auto intro: refuses_appendsI)
qed

section \<open>Samples\<close>

definition demo_record :: "u64 \<Rightarrow> command_record" where
  "demo_record n = \<lparr>cr_sequence = n, cr_completed_at_ms = 5, cr_shell = ascii ''sh'', cr_command = ascii ''ls''\<rparr>"

lemma demo_record_ok [simp]: "record_ok (demo_record n)" "record_size (demo_record n) = 28"
  by (simp_all add: record_ok_def demo_record_def validate_record_iff utf8_valid_ascii ascii_def
      record_size_def RECORD_META_LEN_def)

lemma demo_record_fields [simp]: "cr_sequence (demo_record n) = n" "cr_completed_at_ms (demo_record n) = 5"
  "cr_shell (demo_record n) = ascii ''sh''" "cr_command (demo_record n) = ascii ''ls''"
  by (simp_all add: demo_record_def)

text \<open>A file with one record and the count that its header holds after a crash, or after none.\<close>

definition demo_command_file :: "u64 \<Rightarrow> bytes" where
  "demo_command_file count = history_file 2 count (record_bytes (demo_record 1))"

lemma demo_command_file_loads:
  "count \<in> {0, 1} \<Longrightarrow> load_state (demo_command_file count) = Inr \<lparr>hs_next_sequence = 2, hs_records = [demo_record 1]\<rparr>"
  by (auto simp: demo_command_file_def load_state_file decode_records_one validate_header_def next_after_def
      saturating_succ_def MAX_HISTORY_BYTES_def)

lemma demo_command_file_facts [simp]: "demo_command_file count \<noteq> []" "stored_records (demo_command_file count) = count"
  by (simp_all add: demo_command_file_def) (simp add: history_file_def HISTORY_MAGIC_def ascii_def)

lemma demo_command_file_limits [simp]: "within_limits [demo_record 1, demo_record 2]"
  by (simp add: within_limits_def estimated_size_sum MAX_HISTORY_RECORDS_def MAX_HISTORY_BYTES_def)

lemma demo_command_file_append: "\<exists>files. append_record (demo_command_file count) (demo_record 2) 1 = Inr files"
  by (simp add: demo_command_file_def append_record_file)

end
