(* ===== verification/Spec2Isabelle.thy ===== *)
theory Spec2Isabelle
  imports Holder_Samples Metric_Storage_Inv Public_Payload_Codec Command_History
begin

text \<open>
  PersistShell keeps shell sessions alive when the terminal that started them goes away. This
  development models the part of it that owns the sessions, the \<^emph>\<open>holder\<close>: a process that runs
  every shell on a PTY, keeps its recent output, and serves the daemon over a local socket; and of
  the daemon the metrics of its dashboard, in memory, on disk and on the wire, and the protocol
  that it speaks with the command line. The sources are the Rust crates under \<open>src/crates/\<close>.

  \<^bold>\<open>Parts and theories.\<close>

  \<^item> \<open>Persist_Prelude\<close>: machine integers, big-endian bytes, UTF-8, results and the maps of the
    standard library, with the lemmas that the components share.
  \<^item> \<open>Ring_Buffer\<close> (\<open>persist-core/src/ringbuf.rs\<close>): the recent output of a session. The locale
    \<open>bounded_log\<close> states what a bounded log promises.
  \<^item> \<open>Holder_Wire\<close>, \<open>Holder_Frame\<close>, \<open>Holder_Handshake\<close>, \<open>Holder_Operation\<close>,
    \<open>Holder_Session_Codec\<close>, \<open>Holder_Inventory\<close> (\<open>persist-ipc/src/holder/\<close>): the protocol between
    daemon and holder, bytes to frames to messages. The locale \<open>wire_item\<close> states what a pair of
    a writer and a reader promises, and lifts it to sequences.
  \<^item> \<open>Shell_Environment\<close>, \<open>Shell_State\<close> (\<open>persist-core/src/shell_state\<close>): which variables of a
    shell are saved and restored, and the private file through which a shell reports its state.
  \<^item> \<open>Log_Worker\<close> (\<open>persist-holder/src/log_worker.rs\<close>): the bounded backlog of session logs and
    their rotation.
  \<^item> \<open>Holder_Effects\<close>: the operating system as a record of functions on an abstract world,
    handlers with errors, panics and divergence, and triples about them.
  \<^item> \<open>Byte_Queue\<close>: the bounded queue inside a session and inside a connection; the locale
    \<open>fifo_queue\<close> states what it promises.
  \<^item> \<open>Holder_Runtime\<close>, \<open>Holder_Runtime_Inv\<close>, \<open>Holder_Runtime_Ops\<close>
    (\<open>persist-holder/src/runtime.rs\<close>): the table of sessions with every operation, its
    invariant, and one triple per operation.
  \<^item> \<open>Holder_Connection\<close> (\<open>persist-holder/src/connection.rs\<close>), \<open>Holder_Reactor\<close>
    (\<open>persist-holder/src/reactor.rs\<close>): one client, and the registrations of descriptors.
  \<^item> \<open>Holder_Server\<close> (\<open>persist-holder/src/server.rs\<close>, \<open>server_handlers.rs\<close>): the event loop with
    every handler. \<open>Holder_Server_Inv\<close> holds the invariant of its tables, \<open>Holder_Server_Frames\<close>,
    \<open>Holder_Server_Ops\<close> and \<open>Holder_Server_Run\<close> one triple per handler up to the rounds of the loop,
    \<open>Holder_Server_Access\<close> and \<open>Holder_Server_Safety\<close> who may do what and what clients receive.
  \<^item> \<open>Holder_Liveness\<close>: which handlers return. \<open>Holder_Samples\<close>: concrete values.
  \<^item> \<open>Field_Reader\<close>, \<open>Dashboard_Wire\<close> (\<open>persist-ipc/src/dashboard/\<close>): the messages of the
    dashboard; the locale \<open>strict_item\<close> adds to \<open>wire_item\<close> that a reader accepts nothing else.
  \<^item> \<open>Metric_Format\<close>, \<open>Metric_Segment\<close>, \<open>Metric_Storage\<close>, \<open>Metric_Storage_Inv\<close>
    (\<open>persistd/src/dashboard/format.rs\<close>, \<open>storage_reader.rs\<close>, \<open>storage.rs\<close>): minutes of metrics in
    segments with checksums, their repair, appending and rotating, and the refinement to a map
    from segments to records.
  \<^item> \<open>Metric_Model\<close>, \<open>Metric_History\<close> (\<open>persistd/src/dashboard/model.rs\<close>, \<open>aggregate.rs\<close>,
    \<open>history.rs\<close>): rates, trends, and the bounded history of samples. \<open>Metric_Samples\<close>: values.
  \<^item> \<open>Public_Frame\<close>, \<open>Public_Payload\<close>, \<open>Public_Payload_Codec\<close> (\<open>persist-ipc/src/protocol.rs\<close>):
    frames and messages between command line and daemon. The locale \<open>at_item\<close> is the contract of
    an element that is written behind a buffer and read at an offset.
  \<^item> \<open>Command_History\<close> (\<open>persist-core/src/command_history.rs\<close>, \<open>command_history_format.rs\<close>): the file
    of the commands of a session, its limits, and what an interrupted append leaves.

  \<^bold>\<open>Conventions.\<close> A struct is a record, an enum a datatype, \<open>Result\<close> is a sum with the error on the
  left, machine integers are words, \<open>usize\<close> is \<open>nat\<close> where the checks of the code keep it in
  range, and strings are lists of bytes. A \<open>HashMap\<close> is an association list with distinct keys, a
  \<open>BTreeMap\<close> one with ascending keys. Every \<open>unwrap\<close>, index and subtraction that could panic is a
  branch \<open>Panic\<close> (or \<open>None\<close>) of the model, so that a theorem which excludes it says something.

  \<^bold>\<open>Parameters.\<close> System calls are fields of the record \<open>os\<close>; \<open>os_ok\<close> states what is documented
  of them: a new descriptor is not an open one, only \<open>close\<close> ends one, a write accepts at most
  what it is given and a read fills at most its buffer. JSON codecs are parameters. A loop that
  reads until nothing is left is \<open>partial_function (option)\<close>; it returns when the input is
  finite (\<open>input_budget\<close>).

  \<^bold>\<open>Not modelled.\<close> The calls behind opening a PTY, the socket and signal descriptors (sequences of
  system calls without own state), the locks of the log worker (its rounds are interleaved with
  the operations instead), the check of owner and mode of a log file and I/O errors of its rotation
  other than a missing file, the owner and mode of metric files, the sampling of \<open>/proc\<close> and the
  worker threads of the dashboard, and of the rest of the daemon its server, the metadata store
  (SQL statements) and the command line.
\<close>

section \<open>The server\<close>

text \<open>C1: whatever the peers send, whatever the shells write and whichever system calls fail, a
  holder that has been set up runs any number of rounds of its event loop without a panic, and
  every round ends, given that only finitely much input arrives in it.\<close>

theorem holder_rounds_end:
  assumes "os_ok os op" and "json_ok js" and "input_budget os \<mu>"
    and "{listener, signals, logs} \<subseteq> op w"
    and "server_new os listener signals logs instance_id dir w = (r, s0)"
  shows "\<exists>x s. run_rounds os js ess s0 = Some (x, s) \<and> x \<noteq> Panic"
  using rounds_no_panic[OF assms(1,2,4,5), of ess] returnsD[OF returns_rounds[OF assms(3)], of js ess s0]
  by auto

theorem holder_rounds_end_witness:
  "\<exists>x s. run_rounds demo_os no_json [[(1, \<lparr>ev_in = True, ev_out = False, ev_err = False, ev_hup = False,
      ev_rdhup = False\<rparr>)], []] demo_begin = Some (x, s) \<and> x \<noteq> Panic"
  by (rule holder_rounds_end[OF demo_os_ok no_json_ok demo_os_budget demo_begin_world demo_begin_new])

text \<open>C2: after any number of rounds the tables of the server agree. The only control connection is
  that of the controller, data connections exist only beside a controller, the writer of a
  session is a data connection attached to it, and every registered descriptor is open.\<close>

theorem server_tables_agree:
  assumes "os_ok os op" and "json_ok js" and "{listener, signals, logs} \<subseteq> op w"
    and "server_new os listener signals logs instance_id dir w = (r, s0)"
    and "run_rounds os js ess s0 = Some (Ret stop, s)"
  shows "(\<forall>fd c. conn_get s fd = Some c \<longrightarrow>
        (cn_role c = Control \<longleftrightarrow> (\<exists>ctl. sv_controller s = Some ctl \<and> ct_fd ctl = fd))
        \<and> (cn_role c = Data \<longrightarrow> sv_controller s \<noteq> None))
    \<and> (\<forall>sid fd. hm_get (sv_writers s) sid = Some fd \<longrightarrow>
        (\<exists>c. conn_get s fd = Some c \<and> cn_role c = Data \<and> cn_attached_session c = Some sid))
    \<and> (\<forall>fd. hm_get (re_tokens (sv_reactor s)) fd \<noteq> None \<longrightarrow> fd \<in> op (sv_world s))"
proof -
  note tables = sv_inv_tables[OF rounds_inv[OF assms]]
  show ?thesis
    using tables(1,2) tables(3) tables(4) by blast
qed

theorem server_tables_agree_witness:
  "run_rounds demo_os no_json [] demo_begin = Some (Ret False, demo_begin)
   \<and> (\<forall>fd. hm_get (re_tokens (sv_reactor demo_begin)) fd = None \<or> fd \<in> demo_fds (sv_world demo_begin))"
proof -
  have run: "run_rounds demo_os no_json [] demo_begin = Some (Ret False, demo_begin)"
    by (simp add: sret_def)
  then show ?thesis
    using server_tables_agree[OF demo_os_ok no_json_ok demo_begin_world demo_begin_new run] by blast
qed

text \<open>C3: a peer becomes the controller only with a hello that names its own uid and pid as the
  socket reports them, and only when the previous controller is gone; it becomes a data client
  only with a hello of the controlling process that repeats the nonce and the identity of the
  holder. A hello that fails otherwise costs the peer its connection.\<close>

theorem hello_authenticated:
  assumes "os_ok os op" and "sv_inv js op {} {} s" and "conn_get s fd = Some c" and "cn_role c = Pending"
  shows "process_frames os js fd [(minor, frame)] s \<noteq> None
    \<and> ends (\<lambda>all s'. if all then role_after s fd c minor frame s' else conn_get s' fd = None) (\<lambda>_. False)
        (process_frames os js fd [(minor, frame)] s)"
  by (rule one_hello[OF assms])

theorem hello_authenticated_witness:
  "process_frames demo_os no_json 12 [(HOLDER_PROTOCOL_BASELINE_MINOR, demo_hello)] demo_server \<noteq> None"
  using hello_authenticated[OF demo_os_ok demo_server_inv, of 12 "demo_peer 12 Pending None"]
  by (simp add: demo_server_get)

text \<open>C4: a request that is not admitted for the role of its peer, or comes with another protocol
  version than the negotiated one, ends the connection: no later request of the same read is
  looked at and no session changes.\<close>

theorem refused_request_disconnects:
  assumes "os_ok os op" and "sv_inv js op {} {} s" and "conn_get s fd = Some c" and "refused c minor frame"
  shows "process_frames os js fd ((minor, frame) # rest) s \<noteq> None
    \<and> ends (\<lambda>all s'. \<not> all \<and> conn_get s' fd = None \<and> sv_runtime s' = sv_runtime s \<and> sv_inv js op {} {} s')
        (\<lambda>_. False) (process_frames os js fd ((minor, frame) # rest) s)"
  using frames_refused[OF assms(1-3) process_refused[OF assms(3,4)]] returnsD[OF returns_process_frames]
  by blast

theorem refused_request_disconnects_witness:
  "ends (\<lambda>all s'. \<not> all \<and> conn_get s' 12 = None \<and> sv_runtime s' = sv_runtime demo_server
      \<and> sv_inv no_json demo_fds {} {} s')
    (\<lambda>_. False) (process_frames demo_os no_json 12 ((2, demo_attach_frame) # [(2, demo_frame)]) demo_server)"
  by (rule refused_request_disconnects[where c = "demo_peer 12 Pending None",
        OF demo_os_ok demo_server_inv, THEN conjunct2])
    (simp_all add: demo_server_get refused_def admitted_def demo_attach_frame_def out_frame_def)

text \<open>C5: only the writer of a running session can send it input, resize it or signal it. The same
  request from any other data client ends its connection and has no other effect: the server, the
  sessions and the operating system are left exactly as the disconnect alone leaves them, so no
  window size is set and no signal is sent.\<close>

theorem only_writer_writes:
  assumes "os_ok os op" and "sv_inv js op {} {} s" and "conn_get s fd = Some c" and "cn_role c = Data"
    and "\<not> may_write s fd c" and "fr_message_type frame \<in> {Input, Resize, Signal}"
  shows "process_frames os js fd ((minor, frame) # rest) s \<noteq> None
    \<and> ends (\<lambda>all s'. \<not> all \<and> conn_get s' fd = None \<and> sv_runtime s' = sv_runtime s \<and> sv_inv js op {} {} s')
        (\<lambda>_. False) (process_frames os js fd ((minor, frame) # rest) s)
    \<and> process_frames os js fd ((minor, frame) # rest) s = sbind (disconnect os fd) (\<lambda>_. sret False) s"
  using frames_refused[OF assms(1-3) process_not_writer[OF assms(3-6)]] returnsD[OF returns_process_frames]
    frames_only_disconnect[OF process_not_writer[OF assms(3-6)]]
  by blast

theorem only_writer_writes_witness:
  "process_frames demo_os no_json 13 ((2, demo_frame) # []) demo_server
      = sbind (disconnect demo_os 13) (\<lambda>_. sret False) demo_server
   \<and> ends (\<lambda>all s'. \<not> all \<and> conn_get s' 13 = None \<and> sv_runtime s' = sv_runtime demo_server
      \<and> sv_inv no_json demo_fds {} {} s')
    (\<lambda>_. False) (process_frames demo_os no_json 13 ((2, demo_frame) # []) demo_server)"
proof -
  have "\<not> may_write demo_server 13 (demo_peer 13 Data (Some 5))" "fr_message_type demo_frame \<in> {Input, Resize, Signal}"
    by (simp_all add: may_write_def demo_frame_def demo_server_writer)
  from only_writer_writes[OF demo_os_ok demo_server_inv demo_server_13 demo_peer_simps(1) this, of 2 "[]"]
  show ?thesis by blast
qed

text \<open>C6: attaching makes a data client a client of the session, and its writer when it asks to
  write. It is sent the answer, the replayed output cut into frames and the grant, in this order;
  the previous writer is told that it lost the session, and nobody else is sent anything. The
  request is accepted whenever epoll takes changes of registered descriptors and the client is
  registered and has room for these frames in its queue; only without that may it be disconnected
  instead. Likewise the previous writer stays connected when it has room to be told.\<close>

theorem attach_serves_client:
  assumes "os_ok os op" and "sv_inv js op {} {} s" and "conn_get s fd = Some c" and "cn_role c = Data"
    and "fr_message_type frame = Attach" and "minor = cn_protocol_minor c"
    and "decode_attach_request (fr_payload frame) = Inr q"
    and "replay (sv_runtime s) (ar_session_id q) (unat (ar_replay_bytes q)) = Some bs"
  shows "process_frames os js fd [(minor, frame)] s \<noteq> None
    \<and> ends (\<lambda>all s'. (epoll_modifies os \<and> has_room s fd (attach_frames frame q (sv_runtime s) bs) \<longrightarrow> all) \<and> (if all
        then (\<exists>c'. conn_get s' fd = Some c' \<and> cn_attached_session c' = Some (ar_session_id q))
          \<and> (if ar_mode q = ReadWrite then hm_get (sv_writers s') (ar_session_id q) = Some fd
             else \<forall>x. hm_get (sv_writers s') x \<noteq> Some fd)
          \<and> sent (\<lambda>x. if x = fd then attach_frames frame q (sv_runtime s) bs
              else if ar_mode q = ReadWrite \<and> hm_get (sv_writers s) (ar_session_id q) = Some x
              then [writer_frame WriteRevoked (ar_session_id q) (generation s)] else []) s s'
          \<and> (epoll_modifies os \<and> ar_mode q = ReadWrite \<longrightarrow>
               (\<forall>x. x \<noteq> fd \<and> hm_get (sv_writers s) (ar_session_id q) = Some x
                  \<and> has_room s x [writer_frame WriteRevoked (ar_session_id q) (generation s)] \<longrightarrow> conn_get s' x \<noteq> None))
        else conn_get s' fd = None)) (\<lambda>_. False)
        (process_frames os js fd [(minor, frame)] s)
    \<and> concat (map fr_payload (filter (\<lambda>f. fr_message_type f = Output)
        (attach_frames frame q (sv_runtime s) bs))) = bs"
  using one_attach[OF assms] replay_payloads by blast

theorem attach_serves_client_witness:
  "ends (\<lambda>all s'. all \<and> hm_get (sv_writers s') 5 = Some 13
      \<and> (\<exists>c. conn_get s' 13 = Some c \<and> cn_attached_session c = Some 5 \<and> bq_pending (cn_queue c) =
           concat (map (wire_frame HOLDER_PROTOCOL_BASELINE_MINOR)
             (attach_frames demo_attach_frame demo_attach (sv_runtime demo_server) []))))
    (\<lambda>_. False) (process_frames demo_os no_json 13 [(HOLDER_PROTOCOL_BASELINE_MINOR, demo_attach_frame)] demo_server)"
proof -
  have req: "fr_message_type demo_attach_frame = Attach" "ar_session_id demo_attach = 5" "ar_mode demo_attach = ReadWrite"
    "unat (ar_replay_bytes demo_attach) = 4096"
    by (simp_all add: demo_attach_def demo_attach_frame_def out_frame_def)
  have replay: "replay (sv_runtime demo_server) (ar_session_id demo_attach) (unat (ar_replay_bytes demo_attach)) = Some []"
    by (simp add: req demo_replay_empty)
  note served = attach_serves_client[OF demo_os_ok demo_server_inv demo_server_13 demo_peer_simps(1) req(1)
      demo_peer_simps(4)[symmetric] demo_attach_decoded replay]
  show ?thesis
  proof (rule ends_mono[OF conjunct1[OF conjunct2[OF served]]], goal_cases)
    case (1 all s')
    then have all: all
      using demo_os_epoll demo_attach_room by blast
    with 1 obtain c where c: "conn_get s' 13 = Some c" "cn_attached_session c = Some 5"
      by (auto simp: req)
    have "bq_pending (cn_queue c) = concat (map (wire_frame HOLDER_PROTOCOL_BASELINE_MINOR)
        (attach_frames demo_attach_frame demo_attach (sv_runtime demo_server) []))"
      using 1 all by (auto simp: demo_peer_queue dest: sentD[OF _ demo_server_13 c(1)])
    then show ?case
      using 1 all c by (simp add: req)
  qed
qed

text \<open>C7: the output of a session is appended, unchanged and in order, to what every client attached
  to it is to receive, output dropped from the log is reported to the controller, and no other
  connection is sent anything. When epoll takes changes of registered descriptors and the
  controller has room for its report, every client that is registered and has room for its frames
  stays connected and so has them in its queue; only a client without that is disconnected.\<close>

theorem output_reaches_clients:
  assumes "os_ok os op" and "sv_inv js op {} {} s"
  shows "publish_output os batch s \<noteq> None
    \<and> ends (\<lambda>_ s'. sv_inv js op {} {} s' \<and> served os (published s batch) s s') (\<lambda>_. False)
        (publish_output os batch s)
    \<and> (\<forall>fd. attached_to s (ob_session_id batch) fd \<longrightarrow>
        concat (map fr_payload (filter (\<lambda>f. fr_message_type f = Output) (published s batch fd)))
          = concat (ob_chunks batch))"
proof (intro conjI allI impI)
  show "publish_output os batch s \<noteq> None"
    by (rule returnsD[OF returns_publish])
  show "ends (\<lambda>_ s'. sv_inv js op {} {} s' \<and> served os (published s batch) s s') (\<lambda>_. False)
        (publish_output os batch s)"
    by (rule ends_mono[OF publish_served[OF assms]]) (simp_all add: bcast_def)
  show "concat (map fr_payload (filter (\<lambda>f. fr_message_type f = Output) (published s batch fd)))
          = concat (ob_chunks batch)" if "attached_to s (ob_session_id batch) fd" for fd
    using that by (simp add: published_def output_payloads) (simp add: out_frame_def)
qed

theorem output_reaches_clients_witness:
  "publish_output demo_os demo_batch demo_server \<noteq> None
   \<and> ends (\<lambda>_ s'. \<exists>c. conn_get s' 13 = Some c \<and> bq_pending (cn_queue c) =
        wire_frame HOLDER_PROTOCOL_BASELINE_MINOR (out_frame Output 0 (generation demo_server) [104])
        @ wire_frame HOLDER_PROTOCOL_BASELINE_MINOR (out_frame Output 0 (generation demo_server) [105]))
      (\<lambda>_. False) (publish_output demo_os demo_batch demo_server)"
proof -
  note served = output_reaches_clients[OF demo_os_ok demo_server_inv, of demo_batch]
  have "\<exists>c. conn_get s' 13 = Some c \<and> bq_pending (cn_queue c) =
      wire_frame HOLDER_PROTOCOL_BASELINE_MINOR (out_frame Output 0 (generation demo_server) [104])
      @ wire_frame HOLDER_PROTOCOL_BASELINE_MINOR (out_frame Output 0 (generation demo_server) [105])"
    if "served demo_os (published demo_server demo_batch) demo_server s'" for s'
  proof -
    have "conn_get s' 13 \<noteq> None"
      using that demo_os_epoll demo_batch_room unfolding served_def stays_def by blast
    then obtain c where "conn_get s' 13 = Some c" by blast
    with sentD[OF served_sent[OF that] demo_server_13 this] show ?thesis
      by (simp add: demo_published demo_peer_queue)
  qed
  with served show ?thesis
    by (auto elim!: ends_mono)
qed

text \<open>C8: when the connection of the controller ends, all data clients and their rights to write end
  with it. The peers that have not introduced themselves stay, so that a new daemon can take over,
  and every session goes on.\<close>

theorem controller_loss_keeps_sessions:
  assumes "os_ok os op" and "sv_inv js op {} {} s" and "sv_controller s = Some ctl" and "ct_fd ctl = fd"
  shows "disconnect os fd s \<noteq> None
    \<and> ends (\<lambda>_ s'. sv_controller s' = None \<and> (\<forall>x c. conn_get s' x = Some c \<longrightarrow> cn_role c = Pending)
        \<and> (\<forall>sid. hm_get (sv_writers s') sid = None) \<and> sv_runtime s' = sv_runtime s
        \<and> (\<forall>x c. conn_get s x = Some c \<longrightarrow> cn_role c = Pending \<longrightarrow> conn_get s' x \<noteq> None))
      (\<lambda>_. False) (disconnect os fd s)"
  using disconnect_controller[OF assms] returnsD[OF returns_sending(1)] by blast

theorem controller_loss_keeps_sessions_witness:
  "disconnect demo_os 10 demo_server \<noteq> None"
  using controller_loss_keeps_sessions[OF demo_os_ok demo_server_inv] demo_server_controller by blast

section \<open>Framing\<close>

text \<open>C9: the frame codec of the holder protocol is canonical. A byte string decodes to a frame
  exactly when it is the encoding of that frame under the same minor version, so every frame
  that can be encoded is read back unchanged and no second encoding of it is accepted.\<close>

theorem frame_codec:
  "decode_frame_with_minor bs minor = Inr f \<longleftrightarrow> encode_frame_with_minor f minor = Inr bs"
  by (rule frame_codec_iff)

text \<open>C10: whatever complete frames and trailing part of a frame a connection has received, the
  accumulator hands out exactly the frames, in order and with their minor version, and keeps
  the unfinished part for the next read.\<close>

theorem frames_reassembled:
  assumes "list_all (frame_ok minor) fs" and "part = [] \<or> partial_frame minor part"
  shows "acc_take_frames (concat (map (wire_frame minor) fs) @ part) = (Inr (map (Pair minor) fs), part)"
  using assms by (rule acc_take_frames_all)

theorem frames_reassembled_witness:
  "acc_take_frames (concat (map (wire_frame 2) [demo_frame, demo_frame]) @ [])
     = (Inr (map (Pair 2) [demo_frame, demo_frame]), [])"
  by (rule frames_reassembled) (simp_all add: demo_frame_ok)

section \<open>Messages\<close>

text \<open>C11: each of the six handshake messages is decoded from exactly one payload, its encoding,
  and only when its fields are admissible (identifiers and nonces that are not zero, a known
  minor version and no unknown capability).\<close>

theorem handshake_codec:
  "(decode_control_hello p = Inr a \<longleftrightarrow> control_hello_ok a \<and> p = encode_control_hello a)
   \<and> (decode_control_hello_ack p = Inr b \<longleftrightarrow> control_hello_ack_ok b \<and> p = encode_control_hello_ack b)
   \<and> (decode_data_hello p = Inr c \<longleftrightarrow> data_hello_ok c \<and> p = encode_data_hello c)
   \<and> (decode_data_hello_ack p = Inr d \<longleftrightarrow> data_hello_ack_ok d \<and> p = encode_data_hello_ack d)
   \<and> (decode_capability_request p = Inr e \<longleftrightarrow> capability_request_ok e \<and> p = encode_capability_request e)
   \<and> (decode_capability_response p = Inr f \<longleftrightarrow>
        capability_response_ok f \<and> p = encode_capability_response f)"
  by (intro conjI control_hello_codec control_hello_ack_codec data_hello_codec data_hello_ack_codec
      capability_request_codec capability_response_codec)

text \<open>C12: a valid request to create a session survives the encoding of protocol 1.2 unchanged,
  with the four layers of its launch environment.\<close>

theorem create_request_roundtrip:
  assumes "create_request_ok q"
  shows "\<exists>p. encode_create_request_v2 q = Inr p \<and> decode_create_request_v2 p = Inr q"
  using encode_create_ok[OF assms, of True] decode_create_ok[OF assms, of True]
  by (simp add: encode_create_request_v2_def decode_create_request_v2_def received_environment_def)

theorem create_request_roundtrip_witness:
  "\<exists>p. encode_create_request_v2 demo_create = Inr p \<and> decode_create_request_v2 p = Inr demo_create"
  by (rule create_request_roundtrip[OF demo_create_ok])

text \<open>C13: a request encoded for a protocol 1.1 holder arrives with every variable that the shell is
  to have: what is received is the request with the saved variables, those of the connection and
  the private ones as one list, in this order, and nothing else of it changed.\<close>

theorem create_request_legacy:
  assumes "create_request_ok q"
  shows "\<exists>p. encode_create_request q = Inr p
    \<and> decode_create_request p = Inr (q\<lparr>cs_launch_environment :=
        \<lparr>le_saved_set = [], le_saved_unset = [], le_connection = [],
         le_private = le_saved_set (cs_launch_environment q) @ le_connection (cs_launch_environment q)
           @ le_private (cs_launch_environment q)\<rparr>\<rparr>)"
  using encode_create_ok[OF assms, of False] decode_create_ok[OF assms, of False]
  by (simp add: encode_create_request_def decode_create_request_def received_environment_def
      flat_environment_def le_legacy_set_environment_def)

theorem create_request_legacy_witness:
  "\<exists>p. encode_create_request demo_create = Inr p
    \<and> decode_create_request p = Inr (demo_create\<lparr>cs_launch_environment :=
        \<lparr>le_saved_set = [], le_saved_unset = [], le_connection = [],
         le_private = [(ascii ''EDITOR'', ascii ''vi''), (ascii ''TERM'', ascii ''xterm''),
           (ascii ''PERSIST_SESSION'', ascii ''5'')]\<rparr>\<rparr>)"
  using create_request_legacy[OF demo_create_ok] by (simp add: demo_create_def demo_environment_def)

text \<open>C14: the small messages of a session (attach, operation, response, exit event, resize, signal
  and log degradation) are decoded from exactly one payload, the one their encoder produces,
  and only with admissible fields.\<close>

theorem session_message_codec:
  "(decode_attach_request p = Inr a \<longleftrightarrow> attach_request_ok a \<and> p = encode_attach_request a)
   \<and> (decode_operation_request p = Inr b \<longleftrightarrow> oq_session_id b \<noteq> 0 \<and> p = encode_operation_request b)
   \<and> (decode_operation_response p = Inr c \<longleftrightarrow>
        operation_response_ok c \<and> encode_operation_response c = Inr p)
   \<and> (decode_session_exited_event p = Inr d \<longleftrightarrow>
        session_exited_event_ok d \<and> encode_session_exited_event d = Inr p)
   \<and> (decode_resize_request p = Inr e \<longleftrightarrow>
        rz_rows e \<noteq> 0 \<and> rz_cols e \<noteq> 0 \<and> p = encode_resize_request e)
   \<and> (decode_signal_request p = Inr f \<longleftrightarrow>
        sg_signal f \<noteq> 0 \<and> sg_signal f \<le> 64 \<and> p = encode_signal_request f)
   \<and> (decode_log_degraded p = Inr g \<longleftrightarrow>
        ld_session_id g \<noteq> 0 \<and> ld_dropped_bytes g \<noteq> 0 \<and> p = encode_log_degraded g)"
  by (intro conjI attach_request_codec operation_request_codec operation_response_codec
      session_exited_event_codec resize_request_codec signal_request_codec log_degraded_codec)

text \<open>The context of an exited session, with the environment captured from its shell, is read
  back unchanged, given that the JSON codec reads back what it wrote.\<close>

theorem exit_context_codec:
  assumes "exit_context_v2_ok r"
    and "\<And>s. ec2_environment r = Some s \<Longrightarrow> \<exists>x. to_vec s = Inr x \<and> from_slice x = Inr s
      \<and> snapshot_validate_hard_limits to_vec s = Inr ()"
  shows "\<exists>p. encode_exit_context_response_v2 to_vec r = Inr p
    \<and> decode_exit_context_response_v2 to_vec from_slice p = Inr r"
  using assms by (rule exit_context_v2_roundtrip)

theorem exit_context_codec_witness:
  "\<exists>p. encode_exit_context_response_v2 demo_to_vec demo_exit_context = Inr p
    \<and> decode_exit_context_response_v2 demo_to_vec demo_from_slice p = Inr demo_exit_context"
proof (rule exit_context_codec[OF demo_exit_context_ok])
  show "\<exists>x. demo_to_vec s = Inr x \<and> demo_from_slice x = Inr s
      \<and> snapshot_validate_hard_limits demo_to_vec s = Inr ()"
    if "ec2_environment demo_exit_context = Some s" for s
    using that demo_snapshot_ok by (simp add: demo_exit_context_def demo_to_vec_def demo_from_slice_def)
qed

text \<open>C15: an inventory page is encoded exactly when it is admissible: at most 256 entries, a cursor
  that is neither zero nor reserved, and in every entry identifiers that are not zero, an exit
  code exactly when the session has exited, an exit context only then, and activity not before
  creation. The daemon reads back the page that was encoded, and never accepts another page.\<close>

theorem inventory_codec:
  "((\<exists>p. encode_inventory_response r = Inr p) \<longleftrightarrow> page_admissible r)
   \<and> (\<forall>p. encode_inventory_response r = Inr p \<longrightarrow> decode_inventory_response p = Inr r)
   \<and> (\<forall>p. decode_inventory_response p = Inr r \<longrightarrow> page_admissible r)"
  using decode_inventory_ok decode_inventory_valid
  by (auto simp: encode_inventory_iff inventory_response_ok_iff)

theorem inventory_codec_witness:
  "(\<exists>p. encode_inventory_response demo_inventory = Inr p \<and> decode_inventory_response p = Inr demo_inventory)
   \<and> (\<forall>p. encode_inventory_response (demo_inventory\<lparr>ir_next_cursor := Some 0\<rparr>) \<noteq> Inr p
        \<and> decode_inventory_response p \<noteq> Inr (demo_inventory\<lparr>ir_next_cursor := Some 0\<rparr>))"
proof -
  have "page_admissible demo_inventory"
    using demo_inventory_ok by (simp add: inventory_response_ok_iff)
  moreover have "\<not> page_admissible (demo_inventory\<lparr>ir_next_cursor := Some 0\<rparr>)"
    by (simp add: page_admissible_def)
  ultimately show ?thesis
    using inventory_codec by blast
qed

section \<open>The output of a session\<close>

text \<open>C16: a ring buffer of any positive capacity accepts every sequence of writes and then
  replays exactly the newest bytes written, up to the requested number and its capacity.\<close>

theorem ring_buffer_keeps_newest:
  assumes "0 < capacity"
  shows "\<exists>rb rb'. rb_new capacity = Some rb \<and> write_all rb_write rb chunks = Some rb'
    \<and> (\<forall>n. rb_read_replay rb' n = lastn (min n capacity) (concat chunks))"
proof -
  obtain b where new: "rb_new capacity = Some b"
    using assms by (simp add: rb_new_def)
  note b = rb_inv_new[OF new]
  from rb.write_all_contents[of b chunks] b obtain b' where
    "write_all rb_write b chunks = Some b'" "rb_inv b'" "rb_capacity b' = capacity"
    "rb_read_all b' = lastn capacity (concat chunks)"
    by auto
  then show ?thesis
    using new by (auto simp: rb_read_replay_lastn lastn_lastn_min)
qed

theorem ring_buffer_keeps_newest_witness:
  "\<exists>rb rb'. rb_new 3 = Some rb \<and> write_all rb_write rb [[1, 2], [], [3, 4, 5, 6, 7]] = Some rb'
    \<and> (\<forall>n. rb_read_replay rb' n = lastn (min n 3) (concat [[1, 2], [], [3, 4, 5, 6, 7]]))"
  by (rule ring_buffer_keeps_newest) simp

text \<open>C17: however sessions, the worker and the collection of failures take turns, the backlog of the
  log worker stays within 8 MiB and nothing gets lost on the way. A chunk is refused exactly when
  it does not fit beside what is queued at that moment, and then with its whole length. The
  chunks that were accepted are those that the worker has handled followed by those still queued,
  in the order in which they came, and every chunk that could not be written is reported once,
  with its session and length.\<close>

theorem log_backlog_bounded:
  assumes "\<forall>sid path data. Offer sid path data \<in> set events \<longrightarrow> length data < 2 ^ 64"
  shows "\<exists>t. log_trace_run events log_trace_start = Some t
    \<and> queued_bytes (lt_worker t) \<le> 8 * 1024 * 1024
    \<and> map fst (lt_handled t) @ lw_items (lt_worker t)
        = map fst (filter (\<lambda>(_, _, answer). answer = 0) (lt_offers t))
    \<and> (\<forall>(i, queued, answer) \<in> set (lt_offers t). answer =
         (if queued + length (li_data i) \<le> 8 * 1024 * 1024 then 0 else of_nat (length (li_data i))))
    \<and> lt_reported t @ lw_failures (lt_worker t)
        = map (\<lambda>(i, _). (li_session_id i, of_nat (length (li_data i)))) (filter (\<lambda>(_, written). \<not> written) (lt_handled t))"
proof -
  obtain t where t: "log_trace_run events log_trace_start = Some t" "trace_ok t"
    using log_trace_run_ok[OF trace_ok_start assms] by blast
  then have "queued_bytes (lt_worker t) \<le> 8 * 1024 * 1024"
    by (simp add: trace_ok_def lw_inv_queued lw_inv_def MAX_LOG_BACKLOG_def)
  with t show ?thesis
    by (intro exI[of _ t])
      (auto simp: trace_ok_def item_failure_def MAX_LOG_BACKLOG_def comp_def case_prod_unfold list_all_iff)
qed

theorem log_backlog_bounded_witness:
  "\<exists>t. log_trace_run [Offer 5 (ascii ''/tmp/5.log'') [1, 2], WorkerRound False, TakeFailures] log_trace_start = Some t
     \<and> lt_reported t = [(5, 2)]"
proof -
  obtain t where "log_trace_run [Offer 5 (ascii ''/tmp/5.log'') [1, 2], WorkerRound False, TakeFailures] log_trace_start = Some t"
    using log_backlog_bounded[of "[Offer 5 (ascii ''/tmp/5.log'') [1, 2], WorkerRound False, TakeFailures]"] by auto
  then show ?thesis
    by (auto simp: log_trace_start_def log_worker_start_def log_enqueue_def log_worker_step_def log_take_failures_def
        checked_add_usize_def usize_max_def MAX_LOG_BACKLOG_def)
qed

text \<open>C18: rotating a log moves every numbered file up by one, the current file to number 1, drops
  the oldest, starts an empty file, and touches no other path.\<close>

theorem log_rotation:
  assumes "fs path = Some c" and "0 < max_files"
  shows "\<exists>fs'. rotate_log path max_files fs = Some (0, fs')
    \<and> fs' path = Some [] \<and> fs' (rotated_path path 1) = Some c
    \<and> (\<forall>k. 1 \<le> k \<and> k < max_files \<longrightarrow> fs' (rotated_path path (Suc k)) = fs (rotated_path path k))
    \<and> (\<forall>q. q \<noteq> path \<and> (\<forall>k. 1 \<le> k \<and> k \<le> max_files \<longrightarrow> q \<noteq> rotated_path path k) \<longrightarrow> fs' q = fs q)"
  using assms by (rule rotate_log_shift)

theorem log_rotation_witness:
  "\<exists>fs'. rotate_log (ascii ''a'') 2 [ascii ''a'' \<mapsto> [1]] = Some (0, fs')
    \<and> fs' (rotated_path (ascii ''a'') 1) = Some [1]"
  using log_rotation[of "[ascii ''a'' \<mapsto> [1]]" "ascii ''a''" "[1]" 2] by auto

section \<open>Environments and state files\<close>

text \<open>C19: a launch environment is accepted exactly when it has at most 128 entries, every entry is
  admissible for its layer, no name occurs twice in any of the four layers, and the names and
  values fit into 64 KiB.\<close>

theorem launch_environment_checked:
  "launch_environment_new saved unset conn priv = Inr e \<longleftrightarrow>
   e = \<lparr>le_saved_set = saved, le_saved_unset = unset, le_connection = conn, le_private = priv\<rparr> \<and> le_ok e"
  by (rule launch_environment_new_iff)

text \<open>C20: filtering a snapshot by a policy keeps exactly the names the policy allows, with the
  values they had, and filtering again changes nothing.\<close>

theorem policy_filter_exact:
  assumes "environment_policy_new incl mv mb = Inr p" and "policy_filter_snapshot to_vec p s = Inr s'"
  shows "snapshot_names s' = {n \<in> snapshot_names s. policy_allows p n}
    \<and> set (es_env_set s') \<subseteq> set (es_env_set s)
    \<and> policy_filter_snapshot to_vec p s' = Inr s'"
proof -
  have "ep_max_variables p \<le> MAX_SHELL_ENVIRONMENT_VARIABLES" "ep_max_bytes p \<le> MAX_SHELL_ENVIRONMENT_BYTES"
    using policy_new_fields(2,3,7)[OF assms(1)] assms(1)
    by (auto simp: environment_policy_new_def split: if_splits)
  then show ?thesis
    using filter_names[OF assms(2)] filter_fields(1)[OF assms(2)] filter_snapshot_idem[OF assms(2)]
    by auto
qed

theorem policy_filter_exact_witness:
  "snapshot_names demo_filtered = {n \<in> snapshot_names demo_snapshot. policy_allows demo_policy n}"
  using policy_filter_exact[OF demo_policy_new demo_filter] by (rule conjunct1)

text \<open>C21: a snapshot taken of a shell and restored over any environment reproduces the shell. A name
  that the rules of the policy cover and that is tracked (named without a wildcard, set in the
  shell, or in the previous snapshot) gets the value it has in the shell, and is removed when the
  shell has none. Every other name keeps its value, in particular those of the terminal connection
  and of the base environment. A rule without a wildcard is always reproduced. The snapshot passes
  the filter of its own policy unchanged, and taking it again gives the same one.\<close>

theorem snapshot_capture_exact:
  assumes "environment_policy_new incl max_variables max_bytes = Inr p"
    and "snapshot_capture to_vec p previous current = Inr s"
  shows "(\<forall>n. restored s base n =
      (if valid_name n \<and> \<not> hard_denied n \<and> ruled incl n
          \<and> (n = ascii ''LANG'' \<or> n \<in> set incl \<or> bt_get current n \<noteq> None
             \<or> (\<exists>q. previous = Some q \<and> n \<in> snapshot_names q))
       then bt_get current n else base n))
    \<and> (\<forall>n \<in> set incl. strip_star n = None \<longrightarrow> restored s base n = bt_get current n)
    \<and> (\<forall>n \<in> set (CONNECTION_NAMES @ BASE_NAMES). restored s base n = base n)
    \<and> policy_filter_snapshot to_vec p s = Inr s
    \<and> snapshot_capture to_vec p (Some s) current = Inr s"
proof -
  have rules: "ep_include p = sort incl"
    using assms(1) by (auto simp: environment_policy_new_def Let_def rbind_eq_Inr split: if_splits)
  have names: "n \<in> set (exact_names_of (ep_include p)) \<longleftrightarrow> n = ascii ''LANG'' \<or> n \<in> set incl" if "valid_name n" for n
    using valid_name_no_star[OF that] by (auto simp: rules exact_names_of_def)
  have "restored s base n = base n"
    if "policy_allows p n" "n \<notin> set (exact_names_of (ep_include p))" "bt_get current n = None"
      "\<nexists>q. previous = Some q \<and> n \<in> snapshot_names q" for n
    using that capture_unset[OF assms(2)]
    by (auto simp: restored_def capture_fields(1)[OF assms(2)] bt_get_filter split: option.splits)
  then have "restored s base n =
      (if policy_allows p n
          \<and> (n \<in> set (exact_names_of (ep_include p)) \<or> bt_get current n \<noteq> None
             \<or> (\<exists>q. previous = Some q \<and> n \<in> snapshot_names q))
       then bt_get current n else base n)" for n
    using capture_restores[OF assms(2), of n base] capture_untouched[OF assms(2), of n base] by simp metis
  then have "restored s base n =
      (if valid_name n \<and> \<not> hard_denied n \<and> ruled incl n
          \<and> (n = ascii ''LANG'' \<or> n \<in> set incl \<or> bt_get current n \<noteq> None
             \<or> (\<exists>q. previous = Some q \<and> n \<in> snapshot_names q))
       then bt_get current n else base n)" for n
    using names[of n] by (auto simp: policy_allows_ruled[OF assms(1)])
  moreover have "restored s base n = bt_get current n" if "n \<in> set incl" "strip_star n = None" for n
    using capture_restores[OF assms(2)] policy_exact_names[OF assms(1) that] by blast
  moreover have "restored s base n = base n" if "n \<in> set (CONNECTION_NAMES @ BASE_NAMES)" for n
    by (rule capture_untouched[OF assms(2) protected_names[OF that]])
  ultimately show ?thesis
    using capture_filtered[OF assms(2)] policy_limits[OF assms(1)] capture_again[OF assms(2)] by blast
qed

theorem snapshot_capture_exact_witness:
  "\<exists>s. snapshot_capture demo_to_vec demo_policy (Some demo_filtered) [(ascii ''EDITOR'', ascii ''vi'')] = Inr s
    \<and> restored s (\<lambda>_. None) (ascii ''EDITOR'') = Some (ascii ''vi'')
    \<and> restored s (\<lambda>_. Some (ascii ''x'')) (ascii ''LC_ALL'') = None
    \<and> restored s (\<lambda>_. Some (ascii ''x'')) (ascii ''TERM'') = Some (ascii ''x'')"
proof -
  obtain s where s: "snapshot_capture demo_to_vec demo_policy (Some demo_filtered) [(ascii ''EDITOR'', ascii ''vi'')] = Inr s"
    using demo_capture by blast
  note exact = snapshot_capture_exact[OF demo_policy_new s]
  have names: "ascii ''EDITOR'' \<in> set demo_rules" "strip_star (ascii ''EDITOR'') = None"
    "valid_name (ascii ''LC_ALL'')" "\<not> hard_denied (ascii ''LC_ALL'')" "prefix (ascii ''LC_'') (ascii ''LC_ALL'')"
    "bt_get [(ascii ''EDITOR'', ascii ''vi'')] (ascii ''LC_ALL'') = None" "ascii ''TERM'' \<in> set (CONNECTION_NAMES @ BASE_NAMES)"
    by code_simp+
  have "ruled demo_rules (ascii ''LC_ALL'')" "ascii ''LC_ALL'' \<in> snapshot_names demo_filtered"
    using names by (simp_all add: ruled_def demo_filtered_def snapshot_names_def)
  moreover have "restored s (\<lambda>_. None) (ascii ''EDITOR'') = Some (ascii ''vi'')"
    using bspec[OF conjunct1[OF conjunct2[OF exact[of "\<lambda>_. None"]]] names(1)] names(2) by simp
  moreover have "restored s (\<lambda>_. Some (ascii ''x'')) (ascii ''TERM'') = Some (ascii ''x'')"
    using exact[of "\<lambda>_. Some (ascii ''x'')"] names(7) by blast
  moreover have "restored s (\<lambda>_. Some (ascii ''x'')) (ascii ''LC_ALL'') = None"
    using conjunct1[OF exact[of "\<lambda>_. Some (ascii ''x'')"], rule_format, of "ascii ''LC_ALL''"] names(3-6) calculation(1,2)
    by simp
  ultimately show ?thesis
    using s by blast
qed

text \<open>Two sessions never share a state file. The path of a validated identity determines
  the session and its incarnation.\<close>

theorem state_file_unique:
  assumes "identity_from_parts s i path = Inr x" and "identity_from_parts s' i' path = Inr y"
    and "length i = 16" and "length i' = 16"
  shows "s = s' \<and> i = i'"
  using identity_from_parts_fields[OF assms(1)] identity_from_parts_fields[OF assms(2)]
    state_file_name_inj[OF _ assms(3,4), of s s'] by simp

theorem state_file_unique_witness:
  "\<exists>x. identity_from_parts 5 demo_incarnation demo_state_file = Inr x \<and> (5 :: u32) = 5"
proof -
  obtain x where "identity_from_parts 5 demo_incarnation demo_state_file = Inr x"
    using demo_identity by blast
  then show ?thesis
    using state_file_unique[of 5 demo_incarnation demo_state_file x 5 demo_incarnation x]
    by (simp add: demo_incarnation_def)
qed

section \<open>Queues and registrations\<close>

text \<open>C22: input for a shell is written to its PTY in the order it was accepted, without a byte
  lost or repeated, however the writes of the operating system are cut; the queue never holds
  more than 1 MiB.\<close>

theorem session_input_fifo:
  assumes "bq_inv MAX_PENDING_INPUT (ss_queue s)" and "sink put accepted"
  shows "\<exists>taken s' w'.
    run_fifo ss_push_input (\<lambda>s w. map_option snd (ss_flush_input put s w)) ops s w = Some (taken, s', w')
    \<and> bq_inv MAX_PENDING_INPUT (ss_queue s')
    \<and> accepted w' @ bq_pending (ss_queue s') = accepted w @ bq_pending (ss_queue s) @ concat taken"
  using si.run_fifo_order[OF assms, of ops w] by simp

theorem session_input_fifo_witness:
  "\<exists>taken s' w'.
    run_fifo ss_push_input (\<lambda>s w. map_option snd (ss_flush_input demo_put s w))
      [Push [1, 2, 3, 4, 5], Flush, Push [6], Flush] demo_session [] = Some (taken, s', w')
    \<and> bq_inv MAX_PENDING_INPUT (ss_queue s')
    \<and> w' @ bq_pending (ss_queue s') = [] @ bq_pending (ss_queue demo_session) @ concat taken"
  by (rule session_input_fifo[OF demo_session_queue demo_sink])

text \<open>C23: frames queued for a peer reach its socket in the order they were queued, whole and
  once, and the output queue of a connection never holds more than 1 MiB.\<close>

theorem connection_output_fifo:
  assumes "bq_inv MAX_PENDING_OUTPUT (cn_queue c)" and "sink put accepted"
  shows "\<exists>taken c' w'.
    run_fifo conn_queue (\<lambda>c w. map_option snd (conn_flush put c w)) ops c w = Some (taken, c', w')
    \<and> bq_inv MAX_PENDING_OUTPUT (cn_queue c')
    \<and> accepted w' @ bq_pending (cn_queue c') =
        accepted w @ bq_pending (cn_queue c) @ concat (map (wire_frame (cn_protocol_minor c)) taken)"
  using co.run_fifo_order[OF _ assms(2), of c "cn_protocol_minor c" ops w] assms(1) by auto

theorem connection_output_fifo_witness:
  "\<exists>taken c' w'.
    run_fifo conn_queue (\<lambda>c w. map_option snd (conn_flush demo_put c w))
      [Push demo_frame, Flush, Push demo_frame, Flush] (connection_new 4 9 1000) [] = Some (taken, c', w')
    \<and> bq_inv MAX_PENDING_OUTPUT (cn_queue c')
    \<and> w' @ bq_pending (cn_queue c') =
        [] @ bq_pending (cn_queue (connection_new 4 9 1000))
          @ concat (map (wire_frame (cn_protocol_minor (connection_new 4 9 1000))) taken)"
  by (rule connection_output_fifo[OF _ demo_sink])
    (simp add: connection_new_def cn_queue_def bq_inv_def bq_pending_def)

text \<open>C24: an event token is never given to a second descriptor. On a new reactor and over any
  registrations, changes and removals (fewer than two to the power of 64), a token that stood for a
  descriptor stands later for this descriptor or for none, and once it stands for none it stays
  so. An event that is reported late for a closed descriptor reaches no other one.\<close>

theorem token_not_reused:
  assumes "token_after os w ops1 t = Some fd" and "length (ops1 @ ops2 @ ops3) < 2 ^ 64 - 1"
  shows "token_after os w (ops1 @ ops2) t \<in> {None, Some fd}
    \<and> (token_after os w (ops1 @ ops2) t = None \<longrightarrow> token_after os w (ops1 @ ops2 @ ops3) t = None)"
proof
  have "\<exists>us vs. ops1 = us @ vs \<and> token_after os w us t \<noteq> None"
    using assms(1) by (intro exI[of _ ops1] exI[of _ "[]"]) simp
  from token_after_step[OF _ this, of ops2] show "token_after os w (ops1 @ ops2) t \<in> {None, Some fd}"
    using assms by simp
  have "\<exists>us vs. ops1 @ ops2 = us @ vs \<and> token_after os w us t \<noteq> None"
    using assms(1) by (intro exI[of _ ops1] exI[of _ ops2]) simp
  from token_after_step[OF _ this, of ops3]
  show "token_after os w (ops1 @ ops2) t = None \<longrightarrow> token_after os w (ops1 @ ops2 @ ops3) t = None"
    using assms(2) by auto
qed

theorem token_not_reused_witness:
  "token_after demo_os (rs_world demo_start) [AddFd 9 False] 1 = Some 9
   \<and> token_after demo_os (rs_world demo_start) ([AddFd 9 False] @ [RemoveFd 9] @ [AddFd 8 True]) 1 = None"
  using token_not_reused[of demo_os "rs_world demo_start" "[AddFd 9 False]" 1 9 "[RemoveFd 9]" "[AddFd 8 True]"] demo_token
  by simp

section \<open>The sessions of the holder\<close>



text \<open>C26: reaping exited shells never panics and always returns. It gives up exactly the PTY
  descriptors of the sessions it reports, closing them, and what it reports of a session can
  be sent: a valid working directory and an environment within its limits.\<close>

theorem reap_sessions_safe:
  assumes "os_ok os op" and "json_ok js" and "rs_at js op F Op s"
  shows "reap_exited os js s \<noteq> None
    \<and> ends (\<lambda>es s'. rs_at js op (F - xs_pty_fd ` set es) (Op - xs_pty_fd ` set es) s'
          \<and> (\<forall>e \<in> set es. exited_ok js e \<and> xs_pty_fd e \<in> F)) (\<lambda>_. True) (reap_exited os js s)"
  using hoareD[OF reap_exited_rs[OF assms(1,2)] assms(3)] returnsD[OF returns_runtime(8), of os js s]
  by simp

theorem reap_sessions_safe_witness:
  "reap_exited demo_os no_json demo_running \<noteq> None"
  using reap_sessions_safe[OF demo_os_ok no_json_ok demo_running_at] by (rule conjunct1)

text \<open>In particular the context of an exited session can always be encoded, in both versions of
  the protocol, whatever the shell left in its state file.\<close>

theorem exit_context_always_encodes:
  assumes "rt_inv js rt" and "sid \<noteq> 0"
  shows "(\<exists>p. encode_exit_context_response (exit_context_response_of rt sid) = Inr p
      \<and> decode_exit_context_response p = Inr (exit_context_response_of rt sid))
    \<and> exit_context_v2_ok (exit_context_response_v2_of rt sid)"
  using exit_context_encodes[OF assms] exit_context_roundtrip by blast

theorem exit_context_always_encodes_witness:
  "exit_context_v2_ok (exit_context_response_v2_of (rs_runtime demo_running) 5)"
  using exit_context_always_encodes[of no_json "rs_runtime demo_running" 5] demo_running_at
  by (simp add: rs_at_def)

text \<open>One step of the event loop on its own: draining the output of a PTY returns once the operating
  system has no more input to give, does not panic, keeps the invariant, and broadcasts only chunks
  that fit into an output frame.\<close>

theorem drain_output_safe:
  assumes "os_ok os op" and "input_budget os \<mu>" and "rs_at js op F Op s"
  shows "drain_output os fd s \<noteq> None
    \<and> ends (\<lambda>b s'. rs_at js op F Op s' \<and> batch_ok b) (rs_at js op F Op) (drain_output os fd s)"
  using hoareD[OF drain_output_rs[OF assms(1)] assms(3)] returnsD[OF returns_drain_output[OF assms(2)]]
  by simp

theorem drain_output_safe_witness:
  "drain_output demo_os 4 demo_running \<noteq> None"
  using drain_output_safe[OF demo_os_ok demo_os_budget demo_running_at] by (rule conjunct1)

section \<open>Dashboard metrics\<close>

text \<open>C27: each of the four messages of the dashboard is decoded from exactly one payload, its
  encoding, and only with admissible fields: pages of at most 128 entries, trends of at most 240
  points, and no entry for session or process 0.\<close>

theorem dashboard_codec:
  "(decode_summary_request p = Some q \<longleftrightarrow> summary_request_ok q \<and> p = encode_summary_request q)
   \<and> (decode_trend_request p = Some t \<longleftrightarrow> trend_request_ok t \<and> p = encode_trend_request t)
   \<and> (decode_summary_response p = Some r \<longleftrightarrow> summary_response_ok r \<and> p = encode_summary_response r)
   \<and> (decode_trend_response p = Some s \<longleftrightarrow> trend_response_ok s \<and> p = encode_trend_response s)"
  using summary_request_codec trend_request_codec summary_response_codec trend_response_codec
  by blast

text \<open>C28: a minute of metrics is decoded from exactly its encoding, and what can be encoded is
  decoded: the decoder refuses truncated and trailing bytes, unknown tags, repeated sessions and
  points of another minute.\<close>

theorem minute_codec:
  "decode_minute p = Inr m \<longleftrightarrow> encode_minute m = Inr p"
  by (rule minute_codec_iff)

text \<open>C29: a segment that was cut off while a record was written is read up to the last whole
  record, and what was written of the cut record is removed from the file; reading the repaired
  file again gives the same records and changes nothing.\<close>

theorem segment_recovery:
  assumes "list_all (storable limits (sh_hour_start_ms h)) ms" and "tail = [] \<or> cut_record limits tail"
    and "SEGMENT_HEADER_SIZE + length (concat (map framed ms)) + length tail \<le> sl_max_segment_bytes limits"
  shows "read_segment limits (encode_segment_header h @ concat (map framed ms) @ tail) =
      (Inr (ms, tail \<noteq> []), encode_segment_header h @ concat (map framed ms))
    \<and> read_segment limits (encode_segment_header h @ concat (map framed ms)) =
      (Inr (ms, False), encode_segment_header h @ concat (map framed ms))"
  using read_segment_kept[OF read_segment_recovers[OF assms]] read_segment_recovers[OF assms] by blast

theorem segment_recovery_witness:
  "read_segment demo_limits (encode_segment_header demo_header @ framed demo_minute @ [0, 0, 0, 152]) =
    (Inr ([demo_minute], True), encode_segment_header demo_header @ framed demo_minute)"
  using segment_recovery[of demo_limits demo_header "[demo_minute]" "[0, 0, 0, 152]"] demo_storable demo_cut
  by (simp add: length_framed SEGMENT_HEADER_SIZE_def RECORD_HEADER_SIZE_def) (simp add: demo_limits_def)

text \<open>C30: a record of which one byte of the payload or of the stored checksum was changed is never
  taken for metrics. Reading the segment fails with a checksum error, and the file stays as it is.
  The length of a record is not covered by the checksum; the next theorem states what a wrong
  length can do.\<close>

theorem corrupted_record_detected:
  assumes "list_all (storable limits (sh_hour_start_ms h)) ms" and "storable limits (sh_hour_start_ms h) m"
    and "to_be_bytes (crc32 (wire_minute m)) @ wire_minute m = x @ a # y" and "a \<noteq> b"
    and "contents = encode_segment_header h @ concat (map framed ms)
      @ to_be_bytes (of_nat (length (wire_minute m)) :: u32) @ (x @ b # y) @ post"
    and "length contents \<le> sl_max_segment_bytes limits"
  shows "read_segment limits contents = (Inl ''metric record checksum mismatch'', contents)"
  by (rule read_segment_corrupt[OF assms])

theorem corrupted_record_detected_witness:
  "let contents = encode_segment_header demo_header @ concat (map framed [])
      @ to_be_bytes (of_nat (length (wire_minute demo_minute)) :: u32)
      @ (to_be_bytes (crc32 (wire_minute demo_minute)) @ 1 # tl (wire_minute demo_minute)) @ []
   in read_segment demo_limits contents = (Inl ''metric record checksum mismatch'', contents)"
proof -
  have "to_be_bytes (crc32 (wire_minute demo_minute)) @ wire_minute demo_minute
      = to_be_bytes (crc32 (wire_minute demo_minute)) @ 0 # tl (wire_minute demo_minute)"
    using demo_minute_head by simp
  from corrupted_record_detected[where h = demo_header and ms = "[]" and post = "[]" and b = 1, OF _ demo_storable this _ refl]
  show ?thesis
    by (simp add: demo_limits_def SEGMENT_HEADER_SIZE_def)
qed

text \<open>A record whose length was raised over the end of the file, within the limit of a record, is
  taken for one that was cut off: reading succeeds without it, and removes it and everything
  behind it from the file.\<close>

theorem raised_length_truncates:
  assumes "list_all (storable limits (sh_hour_start_ms h)) ms"
    and "length body + 4 < RECORD_HEADER_SIZE + unat (len :: u32)" and "4 \<le> length body"
    and "unat len \<le> sl_max_record_bytes limits"
    and "length (encode_segment_header h @ concat (map framed ms) @ to_be_bytes len @ body) \<le> sl_max_segment_bytes limits"
  shows "read_segment limits (encode_segment_header h @ concat (map framed ms) @ to_be_bytes len @ body) =
    (Inr (ms, True), encode_segment_header h @ concat (map framed ms))"
  by (rule read_segment_long[OF assms])

theorem raised_length_truncates_witness:
  "read_segment demo_limits (encode_segment_header demo_header @ framed demo_minute @ to_be_bytes (153 :: u32)
      @ drop 4 (framed demo_minute)) =
    (Inr ([demo_minute], True), encode_segment_header demo_header @ framed demo_minute)"
  using raised_length_truncates[of demo_limits demo_header "[demo_minute]" "drop 4 (framed demo_minute)" 153] demo_storable
  by (simp add: demo_framed RECORD_HEADER_SIZE_def SEGMENT_HEADER_SIZE_def) (simp add: demo_limits_def)

text \<open>C31: a trend groups the samples by intervals of equal width that cover the window. Each
  sample of the window counts in exactly one interval, an interval with samples gives one point,
  in the order of time, and the series is complete exactly when every sample is. No division by
  zero and no index out of range happens for a positive number of points. There are at most as
  many points as were asked for, and in each the averages do not exceed the peaks.\<close>

theorem trend_groups_samples:
  assumes "max_points \<noteq> 0" and "length frames < 2 ^ 64"
  shows "\<exists>width points. 0 < width \<and> unat end_ms - unat start_ms \<le> unat width * unat max_points
    \<and> points = slot_points da_monotonic_ms scope start_ms width (unat max_points)
        (window da_monotonic_ms start_ms end_ms frames)
    \<and> aggregate frames scope start_ms end_ms max_points =
        Some \<lparr>ts_completeness = (if points = [] then UnavailableData
               else if list_ex (partial_sample scope) (window da_monotonic_ms start_ms end_ms frames)
               then PartialData else CompleteData),
             ts_points = points\<rparr>
    \<and> length points \<le> unat max_points
    \<and> list_all (\<lambda>p. tp_rss_avg_kib p \<le> tp_rss_peak_kib p
        \<and> tp_cpu_avg_milli_percent p \<le> tp_cpu_peak_milli_percent p) points"
proof -
  let ?samples = "window da_monotonic_ms start_ms end_ms frames"
  obtain width where w: "0 < width" "unat end_ms - unat start_ms \<le> unat width * unat max_points"
    "aggregate frames scope start_ms end_ms max_points =
      (let points = slot_points da_monotonic_ms scope start_ms width (unat max_points) ?samples
       in Some \<lparr>ts_completeness = (if points = [] then UnavailableData
             else if list_ex (partial_sample scope) ?samples then PartialData else CompleteData),
           ts_points = points\<rparr>)"
    using aggregate_by_groups[OF assms(1), of end_ms start_ms da_monotonic_ms frames scope]
    by (auto simp: aggregate_def Let_def)
  let ?points = "slot_points da_monotonic_ms scope start_ms width (unat max_points) ?samples"
  have "length ?points \<le> unat max_points"
    using slot_points_length by blast
  moreover have "list_all (\<lambda>p. tp_rss_avg_kib p \<le> tp_rss_peak_kib p
        \<and> tp_cpu_avg_milli_percent p \<le> tp_cpu_peak_milli_percent p) ?points"
    using aggregate_bounds[OF w(3)[unfolded Let_def] assms(2)] by (simp add: list_all_iff)
  ultimately show ?thesis
    using w by (intro exI[of _ width] exI[of _ ?points]) (simp add: Let_def)
qed

theorem trend_groups_samples_witness:
  "\<exists>series. aggregate [demo_sample 1000, demo_sample 9000] DaemonScope 0 10000 2 = Some series
    \<and> length (ts_points series) \<le> 2 \<and> list_all (\<lambda>p. tp_rss_avg_kib p \<le> tp_rss_peak_kib p) (ts_points series)"
proof -
  have "(2 :: u16) \<noteq> 0" and "length [demo_sample 1000, demo_sample 9000] < 2 ^ 64"
    by simp_all
  from trend_groups_samples[OF this, of 10000 0 DaemonScope] show ?thesis
    by (auto simp: list_all_iff)
qed

text \<open>C32: the history of samples never underflows its accounting, stays within its limits of
  memory and number, and is always the newest part of what was pushed into it. The newest sample
  is always there.\<close>

theorem history_bounded:
  assumes "with_limits ly max_bytes max_age_ms max_frames = Some h0" and "max_bytes < usize_max"
  shows "\<exists>h k. history_push_all ly samples h0 = Some h
    \<and> bh_memory_bytes h = bh_base_bytes h + frames_bytes ly (bh_frames h)
    \<and> bh_memory_bytes h \<le> max_bytes \<and> length (bh_frames h) \<le> max max_frames 1
    \<and> bh_frames h = drop k (map (limit_sample ly h0) samples) \<and> k \<le> length samples - 1"
proof -
  have start: "history_inv ly h0" "bh_frames h0 = []" "bh_max_bytes h0 = max_bytes" "bh_max_frames h0 = max max_frames 1"
    using history_new_inv[OF assms] assms(1) by (auto simp: with_limits_def Let_def split: if_splits)
  from history_push_all_ok[OF start(1), of samples] show ?thesis
    using start(2-4) by (auto simp: history_inv_def accounted_def same_limits_def)
qed

theorem history_bounded_witness:
  "\<exists>h. history_push_all demo_layout [demo_sample 1, demo_sample 2, demo_sample 3] demo_history = Some h
    \<and> length (bh_frames h) \<le> 2"
  using history_bounded[OF demo_history_new, of "[demo_sample 1, demo_sample 2, demo_sample 3]"]
  by (auto simp: usize_max_def)

text \<open>C33: appending a minute to the stored metrics keeps the invariant of the storage and refines
  adding one record. One segment gets the minute at its end or is created for it, every other
  segment keeps its records or is removed as a whole, a later load returns the minute, and the
  limits on the number and size of the segments hold.\<close>

theorem metrics_append_refines:
  assumes "storage_inv st fs" and "storage_append None m st fs = (Inr (), st', fs')"
  shows "storage_inv st' fs' \<and> record_added (so_limits st) m fs fs'
    \<and> m \<in> set (lr_records (fst (storage_load (so_limits st) fs')))
    \<and> length (segment_paths fs') \<le> sl_max_segments (so_limits st)
    \<and> total_bytes fs' (segment_paths fs') \<le> sl_max_total_bytes (so_limits st)"
  using storage_append_ok[OF assms] record_added_loaded by blast

theorem metrics_append_refines_witness:
  "demo_minute \<in> set (lr_records (fst (storage_load demo_limits [(demo_path, demo_contents)])))"
  using metrics_append_refines[OF demo_empty_inv demo_first_append] by simp

text \<open>C34: an append that fails after one byte poisons its segment. The storage keeps the segment
  open, so the next minute that belongs to it and fits is appended behind the byte and reported as
  stored, and from then on none of the records of that segment can be read. This is shown for
  minutes of up to 275 sessions, where the length that is read one byte too early is shorter than
  any record, and for limits that leave room for the segment.\<close>

theorem failed_append_loses_segment:
  assumes "storage_inv st fs" and "so_current st = Some cur"
    and "storage_append (Some 1) m st fs = (r, st1, fs1)" and "fs1 \<noteq> fs"
    and "\<not> needs_new st (hour_of (mr_timestamp_ms m)) m (length (framed m))"
    and "\<not> needs_new st1 (hour_of (mr_timestamp_ms m2)) m2 (length (framed m2))"
    and "storable (so_limits st) (hour_of (mr_timestamp_ms m2)) m2" and "length (mr_sessions m2) \<le> 275"
    and "0 < sl_max_segments (so_limits st)"
    and "cs_bytes cur + 1 + length (framed m2) \<le> sl_max_total_bytes (so_limits st)"
  shows "\<exists>st2 fs2. storage_append None m2 st1 fs1 = (Inr (), st2, fs2) \<and> map_option cs_path (so_current st2) = Some (cs_path cur)
    \<and> segment_records (so_limits st) fs (cs_path cur) \<noteq> None
    \<and> hm_get fs2 (cs_path cur) \<noteq> None \<and> segment_records (so_limits st) fs2 (cs_path cur) = None"
  by (rule failed_append_loses[OF assms])

theorem failed_append_loses_segment_witness:
  "segment_records demo_limits [(demo_path, demo_contents)] demo_path \<noteq> None
   \<and> segment_records demo_limits [(demo_path, demo_contents @ 0 # framed demo_minute)] demo_path = None"
proof -
  obtain st where st: "storage_append None demo_minute demo_store [(demo_path, demo_contents @ [0])] =
      (Inr (), st, [(demo_path, demo_contents @ 0 # framed demo_minute)])"
    using demo_second_append by blast
  show ?thesis
    using failed_append_loses_segment[OF demo_store_inv demo_store_fields(3) demo_failed_append, of demo_minute]
      demo_needs_new demo_storable st
    by (simp add: demo_hour demo_framed demo_store_fields) (simp add: demo_minute_def demo_limits_def demo_header_def)
qed

text \<open>C35: appending a command succeeds on every readable history with a valid record and a number
  left. The file then reads back as the old records with the new one at the end, under the next
  number, less the fewest oldest records that the limits on count and size ask for; the newest
  command is the one that reading from the end returns first.\<close>

theorem history_append:
  assumes "load_state file = Inr st" and "hs_next_sequence st \<noteq> - 1"
    and "record_ok r" and "cr_sequence r = hs_next_sequence st"
  shows "\<exists>file' n.
     append_command (cr_completed_at_ms r) (cr_shell r) (cr_command r) file = (Inr r, file')
     \<and> load_state file' = Inr \<lparr>hs_next_sequence = cr_sequence r + 1, hs_records = drop n (hs_records st @ [r])\<rparr>
     \<and> read_commands_desc 0 1 (Some file') = Inr [r]
     \<and> n \<le> length (hs_records st) \<and> within_limits (drop n (hs_records st @ [r]))
     \<and> (\<forall>k < n. \<not> within_limits (drop k (hs_records st @ [r])))"
proof -
  let ?rs = "hs_records st" and ?next = "saturating_succ (cr_sequence r)"
  let ?app = "append_command (cr_completed_at_ms r) (cr_shell r) (cr_command r) file"
  have succ: "?next = cr_sequence r + 1" using assms(2,4) by (simp add: saturating_succ_def)
  note known = load_state_known[OF assms(1)]
  have sorted: "sorted_wrt (<) (map cr_sequence (?rs @ [r]))"
    using increasing_append[OF known(2)] known(3) assms(2,4) by metis
  have result: ?thesis
    if "?app = (Inr r, file')" "load_state file' = Inr \<lparr>hs_next_sequence = ?next, hs_records = drop n (?rs @ [r])\<rparr>"
      "n \<le> length ?rs" "within_limits (drop n (?rs @ [r]))" "\<And>k. k < n \<Longrightarrow> \<not> within_limits (drop k (?rs @ [r]))"
    for file' n
    using that by (intro exI[of _ file'] exI[of _ n]) (simp add: read_commands_desc_def succ)
  note app = append_command_cases[OF assms(1,3,4) known(1,4)]
  show ?thesis
  proof (cases "file \<noteq> [] \<and> within_limits (?rs @ [r])")
    case True
    then obtain f1 f2 f3 where "append_record file r (length ?rs) = Inr [f1, f2, f3]"
      and "load_state f3 = Inr \<lparr>hs_next_sequence = ?next, hs_records = ?rs @ [r]\<rparr>"
      using append_in_place[OF assms(1) _ assms(3) _ sorted assms(4)] by metis
    with True app show ?thesis by (intro result[of f3 0]) simp_all
  next
    case False
    obtain n where n: "(if file = [] then [r] else compact (?rs @ [r])) = drop n (?rs @ [r])" "n \<le> length ?rs"
      "within_limits (drop n (?rs @ [r]))" "\<And>k. k < n \<Longrightarrow> \<not> within_limits (drop k (?rs @ [r]))"
    proof (cases "file = []")
      case True
      then show thesis using that[of 0] known(4) within_limits_one[OF assms(3)] by simp
    next
      case False
      then show thesis using that compact_newest[OF assms(3), of ?rs] by metis
    qed
    let ?kept = "drop n (?rs @ [r])"
    have kept: "?kept = drop n ?rs @ [r]" using n(2) by simp
    have load: "load_state (history_file ?next (of_nat (length ?kept)) (concat (map record_bytes ?kept)))
        = Inr \<lparr>hs_next_sequence = ?next, hs_records = ?kept\<rparr>"
      unfolding kept
    proof (rule trans[OF load_rewritten])
      show "list_all record_ok (drop n ?rs @ [r])"
        using known(1) assms(3) by (auto simp: list_all_iff dest: in_set_dropD)
      show "within_limits (drop n ?rs @ [r])" using n(3) by (simp only: kept)
      show "sorted_wrt (<) (map cr_sequence (drop n ?rs @ [r]))"
        using sorted_wrt_drop[OF sorted, of n] by (simp only: kept drop_map)
    qed (simp only: next_after_append order_refl)
    have "?app = (Inr r, history_file ?next (of_nat (length ?kept)) (concat (map record_bytes ?kept)))"
      using False app n(1) by (simp only: Let_def if_False)
    from result[OF this load n(2,3)] n(4) show ?thesis by blast
  qed
qed


theorem history_append_witness:
  "\<exists>file'. append_command 5 (ascii ''sh'') (ascii ''ls'') (demo_command_file 1) = (Inr (demo_record 2), file')
     \<and> load_state file' = Inr \<lparr>hs_next_sequence = 3, hs_records = [demo_record 1, demo_record 2]\<rparr>"
proof -
  let ?st = "\<lparr>hs_next_sequence = 2, hs_records = [demo_record 1]\<rparr>"
  obtain file' n where "append_command 5 (ascii ''sh'') (ascii ''ls'') (demo_command_file 1) = (Inr (demo_record 2), file')"
    and "load_state file' = Inr \<lparr>hs_next_sequence = 3, hs_records = drop n [demo_record 1, demo_record 2]\<rparr>"
    and "\<forall>k < n. \<not> within_limits (drop k [demo_record 1, demo_record 2])"
    using history_append[of "demo_command_file 1" ?st "demo_record 2"] demo_command_file_loads[of 1]
    by auto
  moreover from this(3) have "n = 0" using demo_command_file_limits by (metis drop0 gr0I)
  ultimately show ?thesis by auto
qed


section \<open>The public protocol\<close>





text \<open>C39: every message of the public protocol is decoded from its encoding, when its strings are valid
  and have at most 65535 bytes and its lists at most 65535 elements; decoders that look at a prefix
  ignore what follows.\<close>

theorem public_messages_roundtrip:
  assumes "list_all str_fits [ns_name new, or_error_msg op, ar_error_msg att, rn_name ren, np_note note, ta_tag tag, text]"
    and "list_all str_fits tags \<and> list_all node_fits ns \<and> list_all entry_fits es"
    and "max (length tags) (max (length ns) (length es)) \<le> 65535"
  shows "decode_hello (encode_hello hello @ rest) = Some hello
    \<and> decode_hello_ack (encode_hello_ack ack @ rest) = Some ack
    \<and> decode_new_session_resp (encode_new_session_resp new) = Some new
    \<and> (decode_writer_control p = Some sid \<longleftrightarrow> p = encode_writer_control sid)
    \<and> decode_detach (encode_detach sid @ rest) = Some sid
    \<and> decode_op_resp (encode_op_resp op) = Some op \<and> decode_attach_resp (encode_attach_resp att) = Some att
    \<and> decode_rename (encode_rename ren) = Some ren \<and> decode_note (encode_note note) = Some note
    \<and> decode_tag (encode_tag tag) = Some tag \<and> decode_note_get_resp (encode_note_get_resp text) = Some text
    \<and> decode_lock (encode_lock lock) = Some lock \<and> decode_pin (encode_pin pin @ rest) = Some pin
    \<and> decode_resize (encode_resize size_msg @ rest) = Some size_msg
    \<and> decode_signal (encode_signal sig @ rest) = Some sig
    \<and> decode_session_exited (encode_session_exited exited @ rest) = Some exited
    \<and> decode_process_stats_resp (encode_process_stats_resp stats) = Some stats
    \<and> decode_tag_list_resp (encode_tag_list_resp tags) = Some tags
    \<and> decode_process_tree_resp (encode_process_tree_resp ns) = Some ns
    \<and> decode_list_sessions_resp (encode_list_sessions_resp es) = Some es"
  using assms
  by (simp add: hello_codec hello_ack_codec new_session_resp_codec writer_control_codec detach_codec op_resp_codec
      attach_resp_codec rename_codec note_codec tag_codec note_get_resp_codec lock_codec pin_codec resize_codec
      signal_codec session_exited_codec process_stats_codec tag_list_codec process_tree_codec list_sessions_codec)

theorem public_messages_roundtrip_witness:
  "decode_list_sessions_resp (encode_list_sessions_resp [demo_listed]) = Some [demo_listed]"
  using public_messages_roundtrip[of "\<lparr>ns_session_id = 1, ns_name = []\<rparr>" "\<lparr>or_ok = True, or_error_msg = []\<rparr>"
      "\<lparr>ar_ok = True, ar_error_msg = []\<rparr>" "\<lparr>rn_session_id = 1, rn_name = []\<rparr>" "\<lparr>np_session_id = 1, np_note = []\<rparr>"
      "\<lparr>ta_session_id = 1, ta_tag = []\<rparr>" "[]" "[]" "[]" "[demo_listed]"] demo_listed_fits
  by simp

text \<open>C40: an attach request with the environment of a terminal arrives as it was sent, an older one
  arrives with no environment, and whatever bytes are accepted, the environment names each of the
  eight admitted variables at most once, with a short value free of control characters.\<close>

theorem attach_environment:
  assumes "env_fits env" and "list_all (\<lambda>p. utf8_valid (snd p)) env" and "decode_attach data = Some d"
  shows "decode_attach (encode_attach_with_context sid env) = Some \<lparr>at_session_id = sid, at_connection_env = env\<rparr>
    \<and> decode_attach (encode_attach sid) = Some \<lparr>at_session_id = sid, at_connection_env = []\<rparr>
    \<and> env_fits (at_connection_env d)"
  using attach_context_codec[OF assms(1,2)] attach_codec decode_attach_env[OF assms(3)] by blast

theorem attach_environment_witness:
  "decode_attach (encode_attach_with_context 5 [(ascii ''TERM'', ascii ''xterm'')]) =
    Some \<lparr>at_session_id = 5, at_connection_env = [(ascii ''TERM'', ascii ''xterm'')]\<rparr>"
  using attach_environment[OF demo_env_fits demo_env_utf8 attach_codec[of 1]] by blast

end
